(* ===== verification/NdnsPrelude.thy ===== *)
theory NdnsPrelude
  imports Main "HOL-Library.Char_ord" "HOL-Library.List_Lexorder" "HOL-Library.Sublist"
    "HOL-Library.Multiset"
begin

text \<open>
  The prelude of the NDNS development: the types every component shares (byte strings, the
  exceptions the code throws, results that carry the state an exception leaves behind), the
  collections of rewrite rules, and generic lemmas on lists, search and byte order.

  A call that may throw is a pair of the state it leaves and either the exception
  (\<open>Inl\<close>) or its result (\<open>Inr\<close>): C++ keeps the side effects that happened before a
  throw, and some callers (\<open>NameServer::doUpdate\<close>) catch and go on.
\<close>

named_theorems run_simps \<open>rules that run a sequence of calls\<close>
named_theorems lib_simps \<open>consequences of the laws of the libraries the code calls\<close>

section \<open>Bytes and machine integers\<close>

text \<open>A byte string; \<open>char\<close> is an 8-bit byte, and the order of \<open>List_Lexorder\<close> on it is
  the order of \<open>memcmp\<close> with the shorter of two comparable strings first.\<close>

type_synonym blob = string

text \<open>The value a \<open>size_t\<close> subtraction has: it wraps modulo \<open>2 ^ 64\<close>.\<close>

definition size_minus :: "nat \<Rightarrow> nat \<Rightarrow> nat" where
  "size_minus a b = nat ((int a - int b) mod 2 ^ 64)"

lemma size_minus_ge [simp]: "b \<le> a \<Longrightarrow> a < 2 ^ 64 \<Longrightarrow> size_minus a b = a - b"
  by (simp add: size_minus_def of_nat_diff [symmetric] nat_mod_distrib del: of_nat_diff)

lemma size_minus_less [simp]: "a < b \<Longrightarrow> b < 2 ^ 64 \<Longrightarrow> size_minus a b = 2 ^ 64 - (b - a)"
proof -
  assume a: "a < b" "b < 2 ^ 64"
  have "(int a - int b) mod 2 ^ 64 = (int a - int b + 2 ^ 64) mod 2 ^ 64"
    by simp
  also have "\<dots> = int a - int b + 2 ^ 64"
    using a by (intro mod_pos_pos_trivial) auto
  finally show ?thesis
    using a by (simp add: size_minus_def nat_diff_distrib of_nat_diff nat_eq_iff)
qed

text \<open>What \<open>sqlite3_bind_int\<close> and \<open>sqlite3_column_int\<close> keep of a wider value.\<close>

definition to_int32 :: "int \<Rightarrow> int" where
  "to_int32 x = (x + 2 ^ 31) mod 2 ^ 32 - 2 ^ 31"

lemma to_int32_id [simp]: "- (2 ^ 31) \<le> x \<Longrightarrow> x < 2 ^ 31 \<Longrightarrow> to_int32 x = x"
  by (simp add: to_int32_def)

lemma to_int32_idem [simp]: "to_int32 (to_int32 x) = to_int32 x"
  by (simp add: to_int32_def)

lemma to_int32_range: "- (2 ^ 31) \<le> to_int32 x \<and> to_int32 x < 2 ^ 31"
proof -
  have "0 \<le> (x + 2 ^ 31) mod 2 ^ 32" "(x + 2 ^ 31) mod 2 ^ 32 < (2 :: int) ^ 32"
    by simp_all
  then show ?thesis by (simp add: to_int32_def)
qed

section \<open>Exceptions and results\<close>

text \<open>
  The exceptions by the class the code throws; the string is the fixed part of the message.
  \<open>Invalid_Argument\<close> is the \<open>std::invalid_argument\<close> of a library call,
  \<open>AssertFailed\<close> is a \<open>BOOST_ASSERT\<close> that does not hold and \<open>Undefined\<close> an operation
  the C++ standard leaves undefined (such as \<open>back()\<close> of an empty vector); \<open>Diverges\<close> is a loop
  that does not end.
\<close>

datatype error =
    DbMgr_Error string
  | DbMgr_PrepareError
  | DbMgr_ExecuteError
  | DbMgr_ConnectError
  | DbMgr_RrsetError string
  | RrsetFactory_Error string
  | ManagementTool_Error string
  | NameServer_Error string
  | Response_Error string
  | ConfigFile_Error string
  | Daemon_Error string
  | Runtime_Error string
  | Out_Of_Range
  | Tlv_Error
  | Invalid_Argument
  | Pib_Error
  | AssertFailed
  | Diverges
  | Undefined

text \<open>What \<open>catch (const std::exception&)\<close> catches.\<close>

definition std_exception :: "error \<Rightarrow> bool" where
  "std_exception e \<longleftrightarrow> e \<notin> {AssertFailed, Diverges, Undefined}"

type_synonym ('s, 'a) res = "'s \<times> (error + 'a)"

definition and_then :: "('s, 'a) res \<Rightarrow> ('s \<Rightarrow> 'a \<Rightarrow> ('s, 'b) res) \<Rightarrow> ('s, 'b) res" where
  "and_then r k = (case r of (s, Inl e) \<Rightarrow> (s, Inl e) | (s, Inr x) \<Rightarrow> k s x)"

lemma and_then_simps [simp, run_simps]:
  "and_then (s, Inl e) k = (s, Inl e)"
  "and_then (s, Inr x) k = k s x"
  by (simp_all add: and_then_def)

lemma and_then_cong [fundef_cong]:
  "r = r' \<Longrightarrow> (\<And>s x. r' = (s, Inr x) \<Longrightarrow> k s x = k' s x) \<Longrightarrow> and_then r k = and_then r' k'"
  by (auto simp: and_then_def split: prod.splits sum.splits)

lemma and_then_Inr:
  "and_then r k = (s', Inr y) \<longleftrightarrow> (\<exists>s x. r = (s, Inr x) \<and> k s x = (s', Inr y))"
  by (auto simp: and_then_def split: prod.splits sum.splits)

lemma and_then_assoc:
  "and_then (and_then r f) g = and_then r (\<lambda>s x. and_then (f s x) g)"
  by (auto simp: and_then_def split: prod.splits sum.splits)

text \<open>A rule to carry a property of the state through a call and what follows it.\<close>

lemma and_then_state:
  assumes "P (fst r)" and "\<And>s x. r = (s, Inr x) \<Longrightarrow> P s \<Longrightarrow> P (fst (k s x))"
  shows "P (fst (and_then r k))"
  using assms by (cases r; cases "snd r") auto

text \<open>Calls that do not touch a state: \<open>error + 'a\<close> lifted over one.\<close>

definition lift_err :: "'s \<Rightarrow> error + 'a \<Rightarrow> ('s, 'a) res" where
  "lift_err s r = (s, r)"

lemma lift_err_simps [simp, run_simps]: "lift_err s r = (s, r)"
  by (simp add: lift_err_def)

definition bind_err :: "error + 'a \<Rightarrow> ('a \<Rightarrow> error + 'b) \<Rightarrow> error + 'b" where
  "bind_err r k = (case r of Inl e \<Rightarrow> Inl e | Inr x \<Rightarrow> k x)"

lemma bind_err_simps [simp, run_simps]:
  "bind_err (Inl e) k = Inl e"
  "bind_err (Inr x) k = k x"
  by (simp_all add: bind_err_def)

lemma bind_err_Inr: "bind_err r k = Inr y \<longleftrightarrow> (\<exists>x. r = Inr x \<and> k x = Inr y)"
  by (auto simp: bind_err_def split: sum.splits)

text \<open>A library call that throws: \<open>None\<close> is the exception \<open>e\<close>.\<close>

definition or_throw :: "error \<Rightarrow> 'a option \<Rightarrow> error + 'a" where
  "or_throw e x = (case x of None \<Rightarrow> Inl e | Some v \<Rightarrow> Inr v)"

lemma or_throw_simps [simp, run_simps]:
  "or_throw e None = Inl e"
  "or_throw e (Some v) = Inr v"
  by (simp_all add: or_throw_def)

lemma or_throw_Inr: "or_throw e x = Inr v \<longleftrightarrow> x = Some v"
  by (auto simp: or_throw_def split: option.splits)

section \<open>Lists\<close>

lemma find_filter: "find P xs = (case filter P xs of [] \<Rightarrow> None | x # _ \<Rightarrow> Some x)"
  by (induction xs) auto

lemma mset_eq_single: "mset xs = {#x#} \<Longrightarrow> xs = [x]"
  by (cases xs) auto

lemma filter_unique_key:
  assumes "distinct (map f xs)" and "x \<in> set xs"
  shows "filter (\<lambda>y. f y = f x) xs = [x]"
  using assms by (induction xs) (auto simp: filter_empty_conv image_iff)

lemma distinct_map_inj: "distinct (map f xs) \<Longrightarrow> x \<in> set xs \<Longrightarrow> y \<in> set xs \<Longrightarrow> f x = f y \<Longrightarrow> x = y"
  by (auto simp: distinct_map dest: inj_onD)

lemma distinct_map_filterI: "distinct (map f xs) \<Longrightarrow> distinct (map f (filter P xs))"
  by (induction xs) auto

lemma last_drop_take: "i < length xs \<Longrightarrow> xs ! i # drop (Suc i) xs = drop i xs"
  by (simp add: Cons_nth_drop_Suc)

section \<open>Byte order and prefix codes\<close>

text \<open>
  A prefix code is a list of code words none of which is a proper prefix of another; the order of
  two concatenations of code words is decided at the first code word where they differ.
\<close>

lemma less_list_append_same [simp]: "(u @ v < u @ w) = (v < (w :: 'a :: linorder list))"
  by (induction u) auto

lemma less_list_Nil [simp]: "[] < xs \<longleftrightarrow> xs \<noteq> ([] :: 'a :: linorder list)"
  by (cases xs) auto

lemma less_list_prefix: "w \<noteq> [] \<Longrightarrow> u < u @ (w :: 'a :: linorder list)"
  by (induction u) (auto simp: neq_Nil_conv)

lemma less_list_diverge:
  assumes "u < (v :: 'a :: linorder list)" and "\<not> prefix u v"
  shows "u @ s < v @ t"
  using assms
proof (induction u arbitrary: v)
  case Nil
  then show ?case by simp
next
  case (Cons a u)
  then obtain b v' where v: "v = b # v'" by (cases v) auto
  with Cons show ?case by auto
qed

end
