(* ===== verification/NdnLib.thy ===== *)
theory NdnLib
  imports NdnsPrelude
begin

text \<open>
  The vocabulary NDNS takes from ndn-cxx. Names, name components, TLV blocks and the two packet
  types are data, so they are types of the model. What ndn-cxx \<^emph>\<open>computes\<close> (wire encodings and
  their decoders, the canonical order, version components, signatures) is not part of this
  repository: it is the record \<open>ndn\<close> of functions that every definition using it takes as its
  argument \<open>L\<close>. The laws the code relies on are the predicates of the last section; they state
  documented behaviour of the library and are hypotheses of the theorems that need them.
\<close>

section \<open>Names, blocks and packets\<close>

text \<open>A name component is its TLV type and its value; \<open>Component{"abc"}\<close> is of type 8
  (GenericNameComponent). A name is the sequence of its components: \<open>getPrefix(n)\<close> is
  \<open>take n\<close>, \<open>getSubName(i, n)\<close> is \<open>take n \<circ> drop i\<close>, \<open>append\<close> is \<open>@\<close> and \<open>isPrefixOf\<close> is
  \<open>prefix\<close>. The default component is generic and empty.\<close>

datatype component = Component (comp_type: nat) (comp_value: blob)

type_synonym name = "component list"

abbreviation generic :: "string \<Rightarrow> component" where
  "generic s \<equiv> Component 8 s"

abbreviation no_component :: component where
  "no_component \<equiv> Component 8 []"

definition comp_empty :: "component \<Rightarrow> bool" where
  "comp_empty c \<longleftrightarrow> comp_value c = []"

datatype block = Block (block_type: nat) (block_value: blob)

abbreviation tlv_Content :: nat where "tlv_Content \<equiv> 21"

text \<open>The default constructed \<open>Block\<close> has type \<open>tlv::Invalid\<close> and no wire.\<close>

abbreviation no_block :: block where "no_block \<equiv> Block 4294967295 []"

record interest =
  i_name :: name
  i_canBePrefix :: bool
  i_lifetime :: int
  i_forwardingHint :: "name list"

record data =
  d_name :: name
  d_contentType :: nat
  d_freshness :: int
  d_content :: block
  d_keyLocator :: "name option"
  d_sigValue :: blob

text \<open>\<open>Data(name)\<close>: content type Blob, no freshness period, an empty Content element, unsigned.\<close>

definition new_data :: "name \<Rightarrow> data" where
  "new_data n = \<lparr>d_name = n, d_contentType = 0, d_freshness = 0, d_content = Block tlv_Content [],
                 d_keyLocator = None, d_sigValue = []\<rparr>"

text \<open>The argument of \<open>KeyChain::sign\<close>: the default identity, or a certificate, or a key with
  a validity period (not before, not after).\<close>

datatype signing =
    SigningDefault
  | SigningByCertificate name
  | SigningByCertificateWith name int int
  | SigningByKeyWith name int int

section \<open>The library\<close>

record ndn =
  compWire :: "component \<Rightarrow> blob"
  compDecode :: "blob \<Rightarrow> component option"
  compLess :: "component \<Rightarrow> component \<Rightarrow> bool"
  nameLess :: "name \<Rightarrow> name \<Rightarrow> bool"
  isVersion :: "component \<Rightarrow> bool"
  fromVersion :: "nat \<Rightarrow> component"
  varNumber :: "nat \<Rightarrow> blob"
  blockWire :: "block \<Rightarrow> blob"
  blockDecode :: "blob \<Rightarrow> block option"
  blockElements :: "block \<Rightarrow> block list option"
  blockFromValue :: "block \<Rightarrow> block option"
  nameBlock :: "name \<Rightarrow> block"
  blockName :: "block \<Rightarrow> name option"
  nonNegBlock :: "nat \<Rightarrow> nat \<Rightarrow> block"
  readNonNeg :: "block \<Rightarrow> nat option"
  linkContent :: "name list \<Rightarrow> block"
  linkDelegations :: "block \<Rightarrow> name list option"
  dataBlock :: "data \<Rightarrow> block"
  blockData :: "block \<Rightarrow> data option"
  signData :: "signing \<Rightarrow> data \<Rightarrow> data option"

text \<open>The value of the Name element: the concatenation of the components' encodings.\<close>

definition nameWire :: "ndn \<Rightarrow> name \<Rightarrow> blob" where
  "nameWire L n = concat (map (compWire L) n)"

text \<open>\<open>Name::appendVersion()\<close> appends the current time as a version component.\<close>

definition appendVersion :: "ndn \<Rightarrow> nat \<Rightarrow> name \<Rightarrow> name" where
  "appendVersion L now n = n @ [fromVersion L now]"

text \<open>\<open>Data::setContent(Block)\<close>: a Content element is taken as it is, any other is nested in one.\<close>

definition setContent :: "ndn \<Rightarrow> block \<Rightarrow> data \<Rightarrow> data" where
  "setContent L b d =
     d\<lparr>d_content := (if block_type b = tlv_Content then b else Block tlv_Content (blockWire L b))\<rparr>"

text \<open>\<open>Data::setFreshnessPeriod\<close> takes milliseconds and is documented to throw \<open>std::invalid_argument\<close> for a negative period.\<close>

definition setFreshnessPeriod :: "int \<Rightarrow> data \<Rightarrow> error + data" where
  "setFreshnessPeriod period d = (if period < 0 then Inl Invalid_Argument else Inr (d\<lparr>d_freshness := period\<rparr>))"

lemma setFreshnessPeriod_simps [simp]:
  "0 \<le> period \<Longrightarrow> setFreshnessPeriod period d = Inr (d\<lparr>d_freshness := period\<rparr>)"
  "period < 0 \<Longrightarrow> setFreshnessPeriod period d = Inl Invalid_Argument"
  by (simp_all add: setFreshnessPeriod_def)

lemma setFreshnessPeriod_Inr:
  "setFreshnessPeriod period d = Inr d' \<longleftrightarrow> 0 \<le> period \<and> d' = d\<lparr>d_freshness := period\<rparr>"
  by (auto simp: setFreshnessPeriod_def)

lemma nameWire_simps [simp]:
  "nameWire L [] = []"
  "nameWire L (c # n) = compWire L c @ nameWire L n"
  "nameWire L (m @ n) = nameWire L m @ nameWire L n"
  by (simp_all add: nameWire_def)

lemma setContent_simps [simp]:
  "d_name (setContent L b d) = d_name d"
  "d_contentType (setContent L b d) = d_contentType d"
  "d_freshness (setContent L b d) = d_freshness d"
  "d_keyLocator (setContent L b d) = d_keyLocator d"
  "d_sigValue (setContent L b d) = d_sigValue d"
  by (simp_all add: setContent_def)

lemma new_data_simps [simp]:
  "d_name (new_data n) = n"
  "d_contentType (new_data n) = 0"
  "d_freshness (new_data n) = 0"
  "d_content (new_data n) = Block tlv_Content []"
  "d_keyLocator (new_data n) = None"
  "d_sigValue (new_data n) = []"
  by (simp_all add: new_data_def)

section \<open>The documented laws\<close>

text \<open>
  \<open>name_codec\<close>: a component's encoding is not empty and decodes back whatever follows it (a TLV
  element says its own length); components and names compare in the canonical order, which is
  the byte order of the encodings (NDN packet format, section Name).
\<close>

definition name_codec :: "ndn \<Rightarrow> bool" where
  "name_codec L \<longleftrightarrow>
     (\<forall>c. compWire L c \<noteq> []) \<and>
     (\<forall>c r. compDecode L (compWire L c @ r) = Some c) \<and>
     (\<forall>c d. compLess L c d \<longleftrightarrow> compWire L c < compWire L d) \<and>
     (\<forall>m n. nameLess L m n \<longleftrightarrow> nameWire L m < nameWire L n)"

text \<open>\<open>version_ok\<close>: version components are recognised, are not generic, hold a number and so are not empty, and order as
  their numbers.\<close>

definition version_ok :: "ndn \<Rightarrow> bool" where
  "version_ok L \<longleftrightarrow>
     (\<forall>v. isVersion L (fromVersion L v)) \<and>
     (\<forall>c. isVersion L c \<longrightarrow> comp_type c \<noteq> 8 \<and> comp_value c \<noteq> []) \<and>
     (\<forall>v. comp_value (fromVersion L v) \<noteq> []) \<and>
     (\<forall>v w. compLess L (fromVersion L v) (fromVersion L w) \<longleftrightarrow> v < w)"

text \<open>\<open>block_codec\<close>: blocks are type, length and value, decode back, and a block whose value is a
  sequence of encodings parses into these elements.\<close>

definition block_codec :: "ndn \<Rightarrow> bool" where
  "block_codec L \<longleftrightarrow>
     (\<forall>t v. blockWire L (Block t v) = varNumber L t @ varNumber L (length v) @ v) \<and>
     (\<forall>b r. blockDecode L (blockWire L b @ r) = Some b) \<and>
     (\<forall>t bs. blockElements L (Block t (concat (map (blockWire L) bs))) = Some bs) \<and>
     (\<forall>t b. blockFromValue L (Block t (blockWire L b)) = Some b) \<and>
     (\<forall>n. blockName L (nameBlock L n) = Some n) \<and>
     (\<forall>t v. block_type (nonNegBlock L t v) = t \<and> readNonNeg L (nonNegBlock L t v) = Some v)"

text \<open>\<open>data_codec\<close>: a packet decodes back from its encoding, and only a Data element (type 6) decodes; a
  Link decodes to its delegations.\<close>

definition data_codec :: "ndn \<Rightarrow> bool" where
  "data_codec L \<longleftrightarrow>
     (\<forall>d. blockData L (dataBlock L d) = Some d) \<and>
     (\<forall>b d. blockData L b = Some d \<longrightarrow> block_type b = 6) \<and>
     (\<forall>d ds. d_content d = linkContent L ds \<longrightarrow> linkDelegations L (dataBlock L d) = Some ds)"

text \<open>\<open>sign_ok\<close>: signing sets the signature fields and nothing else.\<close>

definition sign_ok :: "ndn \<Rightarrow> bool" where
  "sign_ok L \<longleftrightarrow>
     (\<forall>s d d'. signData L s d = Some d' \<longrightarrow>
        d' = d\<lparr>d_keyLocator := d_keyLocator d', d_sigValue := d_sigValue d'\<rparr>)"

definition ndn_ok :: "ndn \<Rightarrow> bool" where
  "ndn_ok L \<longleftrightarrow> name_codec L \<and> version_ok L \<and> block_codec L \<and> data_codec L \<and> sign_ok L"

lemma ndn_okD:
  assumes "ndn_ok L"
  shows "name_codec L" "version_ok L" "block_codec L" "data_codec L" "sign_ok L"
  using assms by (simp_all add: ndn_ok_def)

lemma name_codecD [lib_simps]:
  assumes "name_codec L"
  shows "compWire L c \<noteq> []" "compDecode L (compWire L c @ r) = Some c"
    "compDecode L (compWire L c) = Some c"
    "compLess L c d \<longleftrightarrow> compWire L c < compWire L d"
    "nameLess L m n \<longleftrightarrow> nameWire L m < nameWire L n"
proof -
  show "compDecode L (compWire L c) = Some c"
    using assms [unfolded name_codec_def] by (metis append_Nil2)
qed (use assms in \<open>simp_all add: name_codec_def\<close>)

lemma version_okD:
  assumes "version_ok L"
  shows "isVersion L (fromVersion L v)" "isVersion L c \<Longrightarrow> comp_type c \<noteq> 8"
    "comp_value (fromVersion L v) \<noteq> []"
    "compLess L (fromVersion L v) (fromVersion L w) \<longleftrightarrow> v < w"
    "isVersion L c \<Longrightarrow> comp_value c \<noteq> []"
  using assms by (simp_all add: version_ok_def)

lemma block_codecD [lib_simps]:
  assumes "block_codec L"
  shows "blockWire L (Block t v) = varNumber L t @ varNumber L (length v) @ v"
    "blockDecode L (blockWire L b @ r) = Some b" "blockDecode L (blockWire L b) = Some b"
    "blockElements L (Block t (concat (map (blockWire L) bs))) = Some bs"
    "blockFromValue L (Block t (blockWire L b)) = Some b"
    "blockName L (nameBlock L n) = Some n"
    "block_type (nonNegBlock L t i) = t" "readNonNeg L (nonNegBlock L t i) = Some i"
proof -
  show "blockDecode L (blockWire L b) = Some b"
    using assms [unfolded block_codec_def] by (metis append_Nil2)
qed (use assms in \<open>simp_all add: block_codec_def\<close>)

lemma data_codecD [lib_simps]:
  assumes "data_codec L"
  shows "blockData L (dataBlock L d) = Some d" "block_type (dataBlock L d) \<noteq> tlv_Content"
    "d_content d = linkContent L ds \<Longrightarrow> linkDelegations L (dataBlock L d) = Some ds"
    "blockData L b = Some x \<Longrightarrow> block_type b \<noteq> tlv_Content"
proof -
  show ty: "blockData L b = Some x \<Longrightarrow> block_type b \<noteq> tlv_Content" for b x
    using assms by (auto simp: data_codec_def)
  show dec: "blockData L (dataBlock L d) = Some d" using assms by (simp add: data_codec_def)
  show "block_type (dataBlock L d) \<noteq> tlv_Content" by (rule ty [OF dec])
qed (use assms in \<open>simp add: data_codec_def\<close>)

lemma sign_okD:
  assumes "sign_ok L" and "signData L s d = Some d'"
  shows "d_name d' = d_name d" "d_contentType d' = d_contentType d"
    "d_freshness d' = d_freshness d" "d_content d' = d_content d"
proof -
  have "d' = d\<lparr>d_keyLocator := d_keyLocator d', d_sigValue := d_sigValue d'\<rparr>"
    using assms unfolding sign_ok_def by blast
  then obtain k v where e: "d' = d\<lparr>d_keyLocator := k, d_sigValue := v\<rparr>" by blast
  show "d_name d' = d_name d" "d_contentType d' = d_contentType d"
    "d_freshness d' = d_freshness d" "d_content d' = d_content d"
    by (simp_all add: e)
qed

section \<open>What the laws give\<close>

lemma compWire_prefix_free:
  assumes "name_codec L" and "compWire L c @ r = compWire L d @ s"
  shows "c = d"
  using assms name_codecD(2) [OF assms(1)] by (metis option.inject)

lemma compWire_inj [simp]: "name_codec L \<Longrightarrow> compWire L c = compWire L d \<longleftrightarrow> c = d"
  using compWire_prefix_free [of L c "[]" d "[]"] by auto

lemma blockWire_inj [simp]: "block_codec L \<Longrightarrow> blockWire L b = blockWire L c \<longleftrightarrow> b = c"
  by (metis block_codecD(3) option.inject)

lemma nameWire_inj:
  assumes L: "name_codec L"
  shows "nameWire L m = nameWire L n \<Longrightarrow> m = n"
proof (induction m arbitrary: n)
  case Nil
  then show ?case using name_codecD(1) [OF L] by (cases n) auto
next
  case (Cons c m)
  then obtain d n' where n: "n = d # n'" using name_codecD(1) [OF L] by (cases n) auto
  with Cons.prems compWire_prefix_free [OF L] have "c = d" by auto
  with Cons n show ?case by simp
qed

lemma nameWire_eq [simp]: "name_codec L \<Longrightarrow> nameWire L m = nameWire L n \<longleftrightarrow> m = n"
  using nameWire_inj by blast

text \<open>The canonical order of names is a strict linear order with the empty name at the bottom.\<close>

lemma nameLess_irrefl: "name_codec L \<Longrightarrow> \<not> nameLess L n n"
  by (simp add: name_codecD)

lemma nameLess_trans: "name_codec L \<Longrightarrow> nameLess L a b \<Longrightarrow> nameLess L b c \<Longrightarrow> nameLess L a c"
  by (simp add: name_codecD)

lemma nameLess_linear: "name_codec L \<Longrightarrow> nameLess L a b \<or> a = b \<or> nameLess L b a"
  by (auto simp: name_codecD(5) simp flip: nameWire_eq)

lemma nameLess_asym: "name_codec L \<Longrightarrow> nameLess L a b \<Longrightarrow> \<not> nameLess L b a"
  by (auto simp: name_codecD)

lemma nameLess_Nil: "name_codec L \<Longrightarrow> nameLess L [] n \<longleftrightarrow> n \<noteq> []"
  by (cases n) (auto simp: name_codecD)

lemma compLess_linear: "name_codec L \<Longrightarrow> compLess L a b \<or> a = b \<or> compLess L b a"
  by (auto simp: name_codecD(4) simp flip: compWire_inj)

lemma compLess_irrefl: "name_codec L \<Longrightarrow> \<not> compLess L c c"
  by (simp add: name_codecD)

lemma compLess_asym: "name_codec L \<Longrightarrow> compLess L a b \<Longrightarrow> \<not> compLess L b a"
  by (auto simp: name_codecD)

lemma compLess_trans: "name_codec L \<Longrightarrow> compLess L a b \<Longrightarrow> compLess L b c \<Longrightarrow> compLess L a c"
  by (auto simp: name_codecD)

end
