(* ===== verification/NdnLibInst.thy ===== *)
theory NdnLibInst
  imports NdnLib
begin

text \<open>
  A concrete library: executable functions that satisfy every law of \<open>NdnLib\<close>, so the laws can
  hold together. Witnesses run the model on it. Numbers are written in unary (a run of bytes 1
  closed by a byte 0), which is a prefix code that keeps the order of numbers, as the TLV
  number format does; everything else has the shape of the TLV format: type, length, value.
\<close>

section \<open>Numbers and blocks\<close>

abbreviation one_byte :: char where "one_byte \<equiv> CHR 0x01"

definition unary :: "nat \<Rightarrow> blob" where
  "unary n = replicate n one_byte @ [CHR 0x00]"

fun read_unary :: "blob \<Rightarrow> nat \<times> blob" where
  "read_unary [] = (0, [])"
| "read_unary (c # s) = (if c = one_byte then (case read_unary s of (n, r) \<Rightarrow> (Suc n, r)) else (0, s))"

lemma unary_simps [simp]: "unary 0 = [CHR 0x00]" "unary (Suc n) = one_byte # unary n"
  by (simp_all add: unary_def)

lemma read_unary_unary [simp]: "read_unary (unary n @ r) = (n, r)"
  by (induction n) auto

lemma length_unary [simp]: "length (unary n) = Suc n"
  by (simp add: unary_def)

lemma unary_less [simp]: "unary m @ s < unary n @ t \<longleftrightarrow> m < n \<or> m = n \<and> s < t"
proof (induction m arbitrary: n)
  case 0
  then show ?case by (cases n) auto
next
  case (Suc m)
  then show ?case by (cases n) auto
qed

definition blockWire0 :: "block \<Rightarrow> blob" where
  "blockWire0 b = unary (block_type b) @ unary (length (block_value b)) @ block_value b"

definition readBlock0 :: "blob \<Rightarrow> block \<times> blob" where
  "readBlock0 s =
     (case read_unary s of (t, s1) \<Rightarrow> case read_unary s1 of (n, s2) \<Rightarrow> (Block t (take n s2), drop n s2))"

lemma readBlock0_wire [simp]: "readBlock0 (blockWire0 b @ r) = (b, r)"
  by (cases b) (simp add: readBlock0_def blockWire0_def)

lemma blockWire0_nonempty [simp]: "blockWire0 b \<noteq> []"
  by (simp add: blockWire0_def unary_def)

fun readBlocks0 :: "nat \<Rightarrow> blob \<Rightarrow> block list" where
  "readBlocks0 0 s = []"
| "readBlocks0 (Suc k) s = (if s = [] then [] else
     (case readBlock0 s of (b, r) \<Rightarrow> b # readBlocks0 k r))"

lemma readBlocks0_concat:
  "length (concat (map blockWire0 bs)) \<le> k \<Longrightarrow> readBlocks0 k (concat (map blockWire0 bs)) = bs"
proof (induction bs arbitrary: k)
  case Nil
  then show ?case by (cases k) auto
next
  case (Cons b bs)
  have "Suc 0 \<le> length (blockWire0 b)" by (simp add: Suc_le_eq)
  with Cons.prems have "Suc (length (concat (map blockWire0 bs))) \<le> k" by simp
  then obtain k' where k: "k = Suc k'" "length (concat (map blockWire0 bs)) \<le> k'"
    by (cases k) auto
  with Cons.IH [of k'] show ?case by simp
qed

definition blockElements0 :: "block \<Rightarrow> block list" where
  "blockElements0 b = readBlocks0 (length (block_value b)) (block_value b)"

lemma blockElements0_concat [simp]: "blockElements0 (Block t (concat (map blockWire0 bs))) = bs"
  by (simp only: blockElements0_def block.sel readBlocks0_concat order_refl)

section \<open>Names\<close>

definition comp_block :: "component \<Rightarrow> block" where
  "comp_block c = Block (comp_type c) (comp_value c)"

definition block_comp :: "block \<Rightarrow> component" where
  "block_comp b = Component (block_type b) (block_value b)"

lemma block_comp_block [simp]: "block_comp (comp_block c) = c"
  by (simp add: block_comp_def comp_block_def)

definition compWire0 :: "component \<Rightarrow> blob" where
  "compWire0 c = blockWire0 (comp_block c)"

definition nameBlock0 :: "name \<Rightarrow> block" where
  "nameBlock0 n = Block 7 (concat (map (\<lambda>c. blockWire0 (comp_block c)) n))"

definition blockName0 :: "block \<Rightarrow> name" where
  "blockName0 b = map block_comp (blockElements0 b)"

lemma blockName0_nameBlock0 [simp]: "blockName0 (nameBlock0 n) = n"
proof -
  have "map (\<lambda>c. blockWire0 (comp_block c)) n = map blockWire0 (map comp_block n)" by simp
  then show ?thesis
    unfolding blockName0_def nameBlock0_def by (simp only: blockElements0_concat) (simp add: comp_def)
qed

section \<open>Packets\<close>

definition int_nat :: "int \<Rightarrow> nat" where
  "int_nat x = (if 0 \<le> x then 2 * nat x else 2 * nat (- x) - 1)"

definition nat_int :: "nat \<Rightarrow> int" where
  "nat_int n = (if even n then int (n div 2) else - int (Suc n div 2))"

lemma nat_int_int_nat [simp]: "nat_int (int_nat x) = x"
proof (cases "0 \<le> x")
  case True
  then show ?thesis by (simp add: int_nat_def nat_int_def)
next
  case False
  then have "odd (2 * nat (- x) - 1)" "Suc (2 * nat (- x) - 1) = 2 * nat (- x)" by auto
  with False show ?thesis by (simp add: int_nat_def nat_int_def)
qed

definition dataBlock0 :: "data \<Rightarrow> block" where
  "dataBlock0 d = Block 6 (concat (map blockWire0
     ([nameBlock0 (d_name d), Block 24 (unary (d_contentType d)),
       Block 25 (unary (int_nat (d_freshness d))), d_content d, Block 23 (d_sigValue d)]
      @ (case d_keyLocator d of None \<Rightarrow> [] | Some k \<Rightarrow> [nameBlock0 k]))))"

definition blockData0 :: "block \<Rightarrow> data option" where
  "blockData0 b = (case if block_type b = 6 then blockElements0 b else [] of
       n # ct # fr # c # sv # kl \<Rightarrow>
         Some \<lparr>d_name = blockName0 n, d_contentType = fst (read_unary (block_value ct)),
               d_freshness = nat_int (fst (read_unary (block_value fr))), d_content = c,
               d_keyLocator = (case kl of [] \<Rightarrow> None | k # _ \<Rightarrow> Some (blockName0 k)),
               d_sigValue = block_value sv\<rparr>
     | _ \<Rightarrow> None)"

lemma read_unary_single [simp]: "read_unary (unary n) = (n, [])"
  using read_unary_unary [of n "[]"] by simp

lemma blockData0_dataBlock0 [simp]: "blockData0 (dataBlock0 d) = Some d"
  unfolding blockData0_def dataBlock0_def
  by (simp only: blockElements0_concat) (simp split: option.splits)

definition linkContent0 :: "name list \<Rightarrow> block" where
  "linkContent0 ds = Block tlv_Content (concat (map blockWire0 (map nameBlock0 ds)))"

definition linkDelegations0 :: "block \<Rightarrow> name list option" where
  "linkDelegations0 b = map_option (\<lambda>d. map blockName0 (blockElements0 (d_content d))) (blockData0 b)"

lemma linkDelegations0_link [simp]:
  "d_content d = linkContent0 ds \<Longrightarrow> linkDelegations0 (dataBlock0 d) = Some ds"
  by (simp add: linkDelegations0_def linkContent0_def del: map_map) (simp add: comp_def)

fun signer_name :: "signing \<Rightarrow> name" where
  "signer_name SigningDefault = []"
| "signer_name (SigningByCertificate n) = n"
| "signer_name (SigningByCertificateWith n a b) = n"
| "signer_name (SigningByKeyWith n a b) = n"

section \<open>The instance\<close>

definition ndn0 :: ndn where
  "ndn0 = \<lparr>compWire = compWire0,
           compDecode = (\<lambda>s. Some (block_comp (fst (readBlock0 s)))),
           compLess = (\<lambda>c d. compWire0 c < compWire0 d),
           nameLess = (\<lambda>m n. concat (map compWire0 m) < concat (map compWire0 n)),
           isVersion = (\<lambda>c. comp_type c = 54 \<and> comp_value c \<noteq> []),
           fromVersion = (\<lambda>v. Component 54 (unary v)),
           varNumber = unary,
           blockWire = blockWire0,
           blockDecode = (\<lambda>s. Some (fst (readBlock0 s))),
           blockElements = (\<lambda>b. Some (blockElements0 b)),
           blockFromValue = (\<lambda>b. Some (fst (readBlock0 (block_value b)))),
           nameBlock = nameBlock0,
           blockName = (\<lambda>b. Some (blockName0 b)),
           nonNegBlock = (\<lambda>t v. Block t (unary v)),
           readNonNeg = (\<lambda>b. Some (fst (read_unary (block_value b)))),
           linkContent = linkContent0,
           linkDelegations = linkDelegations0,
           dataBlock = dataBlock0,
           blockData = blockData0,
           signData = (\<lambda>s d. Some (d\<lparr>d_keyLocator := Some (signer_name s), d_sigValue := ''signature''\<rparr>))\<rparr>"

lemma readBlock0_single [simp]: "readBlock0 (blockWire0 b) = (b, [])"
  using readBlock0_wire [of b "[]"] by simp

lemma ndn0_name_codec: "name_codec ndn0"
  by (simp add: name_codec_def ndn0_def compWire0_def nameWire_def)

lemma unary_less_single [simp]: "unary m < unary n \<longleftrightarrow> m < n"
  using unary_less [of m "[]" n "[]"] by simp

lemma ndn0_version_ok: "version_ok ndn0"
  by (auto simp: version_ok_def ndn0_def compWire0_def blockWire0_def comp_block_def)
     (simp_all add: unary_def)

lemma ndn0_block_codec: "block_codec ndn0"
  by (simp add: block_codec_def ndn0_def) (simp add: blockWire0_def)

lemma ndn0_data_codec: "data_codec ndn0"
  by (simp add: data_codec_def ndn0_def) (auto simp: blockData0_def split: if_splits)

lemma ndn0_sign_ok: "sign_ok ndn0"
  by (auto simp: sign_ok_def ndn0_def)

lemma ndn0_ok: "ndn_ok ndn0"
  by (simp add: ndn_ok_def ndn0_name_codec ndn0_version_ok ndn0_block_codec ndn0_data_codec
      ndn0_sign_ok)

lemma ndn0_simps [simp]:
  "isVersion ndn0 c \<longleftrightarrow> comp_type c = 54 \<and> comp_value c \<noteq> []"
  "fromVersion ndn0 v = Component 54 (unary v)"
  "signData ndn0 s d = Some (d\<lparr>d_keyLocator := Some (signer_name s), d_sigValue := ''signature''\<rparr>)"
  "compWire ndn0 = compWire0"
  "blockWire ndn0 = blockWire0"
  "dataBlock ndn0 = dataBlock0"
  "blockData ndn0 = blockData0"
  "compDecode ndn0 (compWire0 c) = Some c"
  "blockDecode ndn0 (blockWire0 b) = Some b"
  by (simp_all add: ndn0_def compWire0_def)

end
