(* ===== verification/NdnsLabel.thy ===== *)
theory NdnsLabel
  imports NdnLibInst
begin

text \<open>
  The enumerations and labels every component shares (\<open>src/ndns-enum\<close>, \<open>src/ndns-tlv.hpp\<close>,
  \<open>src/util/util.cpp\<close>) and the parsing of NDNS names (\<open>src/ndns-label.cpp\<close>): the zone, the
  marker NDNS, the label and the type of a record, and the version.
\<close>

section \<open>Content types\<close>

datatype NdnsContentType =
    NDNS_BLOB | NDNS_LINK | NDNS_KEY | NDNS_NACK | NDNS_DOE | NDNS_AUTH | NDNS_RESP | NDNS_UNKNOWN
  | NDNS_OTHER nat

text \<open>\<open>NdnsContentType(n)\<close> converts any number; \<open>NDNS_OTHER\<close> holds one that no enumerator names.\<close>

fun content_type_code :: "NdnsContentType \<Rightarrow> nat" where
  "content_type_code NDNS_BLOB = 0"
| "content_type_code NDNS_LINK = 1"
| "content_type_code NDNS_KEY = 2"
| "content_type_code NDNS_NACK = 3"
| "content_type_code NDNS_DOE = 1085"
| "content_type_code NDNS_AUTH = 1086"
| "content_type_code NDNS_RESP = 1087"
| "content_type_code NDNS_UNKNOWN = 1088"
| "content_type_code (NDNS_OTHER n) = n"

definition to_content_type :: "nat \<Rightarrow> NdnsContentType" where
  "to_content_type n =
     (if n = 0 then NDNS_BLOB else if n = 1 then NDNS_LINK else if n = 2 then NDNS_KEY
      else if n = 3 then NDNS_NACK else if n = 1085 then NDNS_DOE else if n = 1086 then NDNS_AUTH
      else if n = 1087 then NDNS_RESP else if n = 1088 then NDNS_UNKNOWN else NDNS_OTHER n)"

lemma content_type_code_of [simp]: "content_type_code (to_content_type n) = n"
  by (simp add: to_content_type_def)

lemma to_content_type_numerals [simp]:
  "to_content_type 0 = NDNS_BLOB" "to_content_type (Suc 0) = NDNS_LINK"
  "to_content_type 2 = NDNS_KEY" "to_content_type 3 = NDNS_NACK"
  "to_content_type 1085 = NDNS_DOE" "to_content_type 1086 = NDNS_AUTH"
  "to_content_type 1087 = NDNS_RESP" "to_content_type 1088 = NDNS_UNKNOWN"
  by (simp_all add: to_content_type_def)

lemma to_content_type_code:
  "(\<And>n. t \<noteq> NDNS_OTHER n) \<Longrightarrow> to_content_type (content_type_code t) = t"
  by (cases t) (simp_all add: to_content_type_def)

text \<open>\<open>operator<<\<close> of \<open>src/ndns-enum.cpp\<close>.\<close>

fun show_content_type :: "NdnsContentType \<Rightarrow> string" where
  "show_content_type NDNS_BLOB = ''BLOB''"
| "show_content_type NDNS_LINK = ''LINK''"
| "show_content_type NDNS_NACK = ''NACK''"
| "show_content_type NDNS_DOE = ''DOE''"
| "show_content_type NDNS_KEY = ''KEY''"
| "show_content_type NDNS_AUTH = ''NDNS-Auth''"
| "show_content_type NDNS_RESP = ''NDNS-Resp''"
| "show_content_type _ = ''UNKNOWN''"

text \<open>\<open>toNdnsContentType\<close> of \<open>src/util/util.cpp\<close>: the option values of the update tool.\<close>

definition toNdnsContentType :: "string \<Rightarrow> NdnsContentType" where
  "toNdnsContentType str =
     (if str = ''resp'' then NDNS_RESP
      else if str = ''nack'' then NDNS_NACK
      else if str = ''auth'' then NDNS_AUTH
      else if str = ''blob'' then NDNS_BLOB
      else if str = ''link'' then NDNS_LINK
      else if str = ''key'' then NDNS_KEY
      else NDNS_UNKNOWN)"

datatype UpdateReturnCode = UPDATE_OK | UPDATE_FAILURE

fun update_code :: "UpdateReturnCode \<Rightarrow> nat" where
  "update_code UPDATE_OK = 0"
| "update_code UPDATE_FAILURE = 1"

text \<open>The TLV types of \<open>src/ndns-tlv.hpp\<close>.\<close>

datatype ndns_tlv = Rr | RrData | UpdateReturnCodeTlv | UpdateReturnMsgTlv

fun tlv_number :: "ndns_tlv \<Rightarrow> nat" where
  "tlv_number Rr = 190"
| "tlv_number RrData = 191"
| "tlv_number UpdateReturnCodeTlv = 160"
| "tlv_number UpdateReturnMsgTlv = 161"

section \<open>Labels\<close>

definition NDNS_ITERATIVE_QUERY :: component where "NDNS_ITERATIVE_QUERY = generic ''NDNS''"
definition NDNS_UPDATE_LABEL :: component where "NDNS_UPDATE_LABEL = generic ''UPDATE''"
definition NS_RR_TYPE :: component where "NS_RR_TYPE = generic ''NS''"
definition CERT_RR_TYPE :: component where "CERT_RR_TYPE = generic ''CERT''"
definition APPCERT_RR_TYPE :: component where "APPCERT_RR_TYPE = generic ''APPCERT''"
definition TXT_RR_TYPE :: component where "TXT_RR_TYPE = generic ''TXT''"
definition DOE_RR_TYPE :: component where "DOE_RR_TYPE = generic ''DOE''"

lemmas label_defs = NDNS_ITERATIVE_QUERY_def NDNS_UPDATE_LABEL_def NS_RR_TYPE_def CERT_RR_TYPE_def
  APPCERT_RR_TYPE_def TXT_RR_TYPE_def DOE_RR_TYPE_def

lemma label_types [simp]:
  "comp_type NDNS_ITERATIVE_QUERY = 8" "comp_type NDNS_UPDATE_LABEL = 8" "comp_type NS_RR_TYPE = 8"
  "comp_type CERT_RR_TYPE = 8" "comp_type APPCERT_RR_TYPE = 8" "comp_type TXT_RR_TYPE = 8"
  "comp_type DOE_RR_TYPE = 8"
  by (simp_all add: label_defs)

lemma generic_not_version: "version_ok L \<Longrightarrow> comp_type c = 8 \<Longrightarrow> \<not> isVersion L c"
  using version_okD(2) by blast

record MatchResult =
  m_rrLabel :: name
  m_rrType :: component
  m_version :: component

section \<open>Parsing names\<close>

text \<open>
  \<open>calculateSkip\<close>: the assertions are in the order of the code; the last reads the component
  after the zone, which exists by the first.
\<close>

definition calculateSkip :: "name \<Rightarrow> name \<Rightarrow> error + nat" where
  "calculateSkip n zone =
     (let skip = length zone in
      if \<not> skip < length n then Inl AssertFailed
      else if take (length zone) n \<noteq> zone then Inl AssertFailed
      else if n ! skip \<noteq> NDNS_ITERATIVE_QUERY then Inl AssertFailed
      else Inr (Suc skip))"

text \<open>
  \<open>matchName(Interest)\<close>: \<open>None\<close> is the result \<open>false\<close>. The length of the label is computed in
  \<open>size_t\<close>, where \<open>std::max(0, x)\<close> is \<open>x\<close> and a negative difference wraps.
\<close>

definition matchName_interest :: "ndn \<Rightarrow> name \<Rightarrow> name \<Rightarrow> error + MatchResult option" where
  "matchName_interest L n zone =
     bind_err (calculateSkip n zone) (\<lambda>skip.
       if size_minus (length n) skip < 1 then Inr None
       else
         let hasVersion = isVersion L (n ! (length n - 1));
             version = (if hasVersion then n ! (length n - 1) else no_component);
             offset = (if hasVersion then 2 else 1);
             labelSize = size_minus (size_minus (length n) skip) offset
         in Inr (Some \<lparr>m_rrLabel = take labelSize (drop skip n),
                       m_rrType = n ! (length n - offset),
                       m_version = version\<rparr>))"

definition matchName_data :: "name \<Rightarrow> name \<Rightarrow> error + MatchResult option" where
  "matchName_data n zone =
     bind_err (calculateSkip n zone) (\<lambda>skip.
       if size_minus (length n) skip < 2 then Inr None
       else Inr (Some \<lparr>m_rrLabel = take (size_minus (size_minus (length n) skip) 2) (drop skip n),
                       m_rrType = n ! (length n - 2),
                       m_version = n ! (length n - 1)\<rparr>))"

section \<open>What the parsers return\<close>

text \<open>The name of a record, as \<open>Query::toInterest\<close> and \<open>Response::toData\<close> build it.\<close>

definition rr_name :: "name \<Rightarrow> name \<Rightarrow> component \<Rightarrow> name" where
  "rr_name zone label type = zone @ [NDNS_ITERATIVE_QUERY] @ label @ [type]"

lemma rr_name_length [simp]: "length (rr_name zone label type) = length zone + length label + 2"
  by (simp add: rr_name_def)

lemma calculateSkip_zone [simp]:
  "calculateSkip (zone @ NDNS_ITERATIVE_QUERY # rest) zone = Inr (Suc (length zone))"
  by (simp add: calculateSkip_def)

lemma calculateSkip_Inr:
  "calculateSkip n zone = Inr k \<longleftrightarrow>
     (\<exists>rest. n = zone @ NDNS_ITERATIVE_QUERY # rest) \<and> k = Suc (length zone)"
proof
  assume "calculateSkip n zone = Inr k"
  then have 1: "length zone < length n" "take (length zone) n = zone"
    "n ! length zone = NDNS_ITERATIVE_QUERY" "k = Suc (length zone)"
    by (auto simp: calculateSkip_def Let_def split: if_splits)
  have "n = take (length zone) n @ n ! length zone # drop (Suc (length zone)) n"
    using 1(1) by (rule id_take_nth_drop)
  with 1 show "(\<exists>rest. n = zone @ NDNS_ITERATIVE_QUERY # rest) \<and> k = Suc (length zone)"
    by metis
qed auto

lemma matchName_interest_query:
  assumes "\<not> isVersion L type" and "length (rr_name zone label type) < 2 ^ 64"
  shows "matchName_interest L (rr_name zone label type) zone =
           Inr (Some \<lparr>m_rrLabel = label, m_rrType = type, m_version = no_component\<rparr>)"
  using assms by (simp add: matchName_interest_def rr_name_def Let_def nth_append)

lemma matchName_interest_versioned:
  assumes "isVersion L v" and "length (rr_name zone label type @ [v]) < 2 ^ 64"
  shows "matchName_interest L (rr_name zone label type @ [v]) zone =
           Inr (Some \<lparr>m_rrLabel = label, m_rrType = type, m_version = v\<rparr>)"
  using assms by (simp add: matchName_interest_def rr_name_def Let_def nth_append)

lemma matchName_data_response:
  assumes "length (rr_name zone label type @ [v]) < 2 ^ 64"
  shows "matchName_data (rr_name zone label type @ [v]) zone =
           Inr (Some \<lparr>m_rrLabel = label, m_rrType = type, m_version = v\<rparr>)"
  using assms by (simp add: matchName_data_def rr_name_def Let_def nth_append)

text \<open>Conversely a name that parses has this form.\<close>

lemma matchName_data_Some:
  assumes "matchName_data n zone = Inr (Some re)" and "length n < 2 ^ 64"
  shows "n = rr_name zone (m_rrLabel re) (m_rrType re) @ [m_version re]"
proof -
  from assms(1) obtain k where k: "calculateSkip n zone = Inr k"
    by (auto simp: matchName_data_def bind_err_Inr)
  then obtain rest where n: "n = zone @ NDNS_ITERATIVE_QUERY # rest" and "k = Suc (length zone)"
    by (auto simp: calculateSkip_Inr)
  with assms k have "\<not> length rest < 2" by (auto simp: matchName_data_def split: if_splits)
  then obtain xs t v where rest: "rest = xs @ [t, v]"
    by (metis One_nat_def Suc_1 append_butlast_last_id append_Nil append.assoc append_Cons
        length_0_conv length_append_singleton lessI less_Suc0 less_Suc_eq)
  show ?thesis
    using matchName_data_response [of zone xs t v] assms by (simp add: n rest rr_name_def)
qed

lemma rest_cases:
  obtains "rest = []" | c where "rest = [c]" | xs c d where "rest = xs @ [c, d]"
proof (cases rest rule: rev_cases)
  case (snoc ys d)
  then show ?thesis using that by (cases ys rule: rev_cases) auto
qed (use that in blast)



text \<open>
  \<open>matchName(Data)\<close> inverts the naming of responses: it accepts exactly the names
  zone, NDNS, label, type, version and returns their parts.
\<close>

theorem matchName_data_iff:
  assumes "length n < 2 ^ 64"
  shows "matchName_data n zone = Inr (Some re) \<longleftrightarrow>
           n = zone @ [NDNS_ITERATIVE_QUERY] @ m_rrLabel re @ [m_rrType re, m_version re]"
proof
  assume "matchName_data n zone = Inr (Some re)"
  from matchName_data_Some [OF this assms] show "n = zone @ [NDNS_ITERATIVE_QUERY] @ m_rrLabel re @ [m_rrType re, m_version re]"
    by (simp add: rr_name_def)
next
  assume "n = zone @ [NDNS_ITERATIVE_QUERY] @ m_rrLabel re @ [m_rrType re, m_version re]"
  with assms matchName_data_response [of zone "m_rrLabel re" "m_rrType re" "m_version re"]
  show "matchName_data n zone = Inr (Some re)" by (simp add: rr_name_def)
qed

theorem matchName_data_iff_witness:
  "matchName_data [generic ''net'', NDNS_ITERATIVE_QUERY, generic ''www'', TXT_RR_TYPE, Component 54 [CHR 0x01]]
     [generic ''net''] =
     Inr (Some \<lparr>m_rrLabel = [generic ''www''], m_rrType = TXT_RR_TYPE, m_version = Component 54 [CHR 0x01]\<rparr>)"
  by (subst matchName_data_iff) simp_all

end
