(* ===== verification/ZoneRrset.thy ===== *)
theory ZoneRrset
  imports NdnsLabel
begin

text \<open>
  \<open>Zone\<close> (\<open>src/daemon/zone.hpp\<close>, \<open>.cpp\<close>) and \<open>Rrset\<close> (\<open>src/daemon/rrset.hpp\<close>, \<open>.cpp\<close>): the
  two records the database manager reads and writes, their comparisons and printers. Getters and
  setters are the selectors and updates of the records.

  A Rrset points to its zone. The pointer is modelled by the address together with the object
  it points to; functions that change the zone through the pointer return the Rrset with the
  changed object at the same address.
\<close>

section \<open>Zone\<close>

record zone =
  zone_id :: nat
  zone_name :: name
  zone_ttl :: int

text \<open>\<open>Zone()\<close> and \<open>Zone(name, ttl)\<close>, whose second argument defaults to 3600 seconds.\<close>

definition Zone_default :: zone where
  "Zone_default = \<lparr>zone_id = 0, zone_name = [], zone_ttl = 3600\<rparr>"

definition Zone_new :: "name \<Rightarrow> int \<Rightarrow> zone" where
  "Zone_new n ttl = \<lparr>zone_id = 0, zone_name = n, zone_ttl = ttl\<rparr>"

abbreviation Zone_of :: "name \<Rightarrow> zone" where
  "Zone_of n \<equiv> Zone_new n 3600"

definition zone_eq :: "zone \<Rightarrow> zone \<Rightarrow> bool" where
  "zone_eq a b \<longleftrightarrow> zone_name a = zone_name b"

definition zone_neq :: "zone \<Rightarrow> zone \<Rightarrow> bool" where
  "zone_neq a b \<longleftrightarrow> zone_name a \<noteq> zone_name b"

text \<open>\<open>operator<<\<close>; \<open>uri\<close> is \<open>Name::toUri\<close> and \<open>num\<close> the decimal printer of the stream.\<close>

definition show_zone :: "(name \<Rightarrow> string) \<Rightarrow> (nat \<Rightarrow> string) \<Rightarrow> zone \<Rightarrow> string" where
  "show_zone uri num z = ''Zone: Id='' @ num (zone_id z) @ '' Name='' @ uri (zone_name z)"

section \<open>Rrset\<close>

type_synonym zone_ptr = "nat \<times> zone"

record rrset =
  rrset_id :: nat
  rrset_zone :: "zone_ptr option"
  rrset_label :: name
  rrset_type :: component
  rrset_version :: component
  rrset_ttl :: int
  rrset_data :: block

text \<open>\<open>Rrset(zone)\<close>; the duration \<open>m_ttl\<close> is not initialised by the code and is 0 here.\<close>

definition Rrset_new :: "zone_ptr option \<Rightarrow> rrset" where
  "Rrset_new z = \<lparr>rrset_id = 0, rrset_zone = z, rrset_label = [], rrset_type = no_component,
                  rrset_version = no_component, rrset_ttl = 0, rrset_data = no_block\<rparr>"

definition show_rrset ::
  "(name \<Rightarrow> string) \<Rightarrow> (component \<Rightarrow> string) \<Rightarrow> (nat \<Rightarrow> string) \<Rightarrow> rrset \<Rightarrow> string" where
  "show_rrset uri curi num r =
     ''Rrset: Id='' @ num (rrset_id r) @
     (case rrset_zone r of None \<Rightarrow> [] | Some (_, z) \<Rightarrow> '' Zone=('' @ show_zone uri num z @ '')'') @
     '' Label='' @ uri (rrset_label r) @ '' Type='' @ curi (rrset_type r) @
     '' Version='' @ curi (rrset_version r)"

definition rrset_eq :: "rrset \<Rightarrow> rrset \<Rightarrow> bool" where
  "rrset_eq a b =
     (case (rrset_zone a, rrset_zone b) of
        (None, Some _) \<Rightarrow> False
      | (Some _, None) \<Rightarrow> False
      | (None, None) \<Rightarrow> rrset_label a = rrset_label b \<and> rrset_type a = rrset_type b \<and>
                        rrset_version a = rrset_version b
      | (Some (_, y), Some (_, z)) \<Rightarrow>
                        zone_eq y z \<and> rrset_label a = rrset_label b \<and>
                        rrset_type a = rrset_type b \<and> rrset_version a = rrset_version b)"

text \<open>
  \<open>operator<\<close> compares the pointers first and throws unless they are the same (and then also
  unless the zones behind them are equal, which one address cannot fail).
\<close>

definition zone_ptr_differ :: "zone_ptr option \<Rightarrow> zone_ptr option \<Rightarrow> bool" where
  "zone_ptr_differ p q =
     (case (p, q) of
        (None, None) \<Rightarrow> False
      | (Some (a, y), Some (b, z)) \<Rightarrow> a \<noteq> b \<or> zone_neq y z
      | _ \<Rightarrow> True)"

definition rrset_key_less :: "ndn \<Rightarrow> rrset \<Rightarrow> rrset \<Rightarrow> bool" where
  "rrset_key_less L a b =
     (let isLess = nameLess L (rrset_label a) (rrset_label b) in
      if \<not> isLess \<and> rrset_label a = rrset_label b
      then let isLess = compLess L (rrset_type a) (rrset_type b) in
           if \<not> isLess \<and> rrset_type a = rrset_type b
           then compLess L (rrset_version a) (rrset_version b)
           else isLess
      else isLess)"

definition rrset_less :: "ndn \<Rightarrow> rrset \<Rightarrow> rrset \<Rightarrow> error + bool" where
  "rrset_less L a b =
     (if zone_ptr_differ (rrset_zone a) (rrset_zone b)
      then Inl (Runtime_Error ''Cannot compare Rrset that belong to different zones'')
      else Inr (rrset_key_less L a b))"

lemma Rrset_new_simps [simp]:
  "rrset_id (Rrset_new z) = 0" "rrset_zone (Rrset_new z) = z" "rrset_label (Rrset_new z) = []"
  "rrset_type (Rrset_new z) = no_component" "rrset_version (Rrset_new z) = no_component"
  "rrset_ttl (Rrset_new z) = 0" "rrset_data (Rrset_new z) = no_block"
  by (simp_all add: Rrset_new_def)

lemma Zone_new_simps [simp]:
  "zone_id (Zone_new n t) = 0" "zone_name (Zone_new n t) = n" "zone_ttl (Zone_new n t) = t"
  by (simp_all add: Zone_new_def)

section \<open>The order of records\<close>

text \<open>The key order is the lexicographic order of label, type and version.\<close>

lemma rrset_key_less_lex:
  assumes "name_codec L"
  shows "rrset_key_less L a b \<longleftrightarrow>
           nameLess L (rrset_label a) (rrset_label b) \<or>
           rrset_label a = rrset_label b \<and>
             (compLess L (rrset_type a) (rrset_type b) \<or>
              rrset_type a = rrset_type b \<and> compLess L (rrset_version a) (rrset_version b))"
  using nameLess_irrefl [OF assms] compLess_irrefl [OF assms]
  by (auto simp: rrset_key_less_def Let_def)

definition rrset_key :: "rrset \<Rightarrow> name \<times> component \<times> component" where
  "rrset_key r = (rrset_label r, rrset_type r, rrset_version r)"

lemma rrset_key_less_irrefl: "name_codec L \<Longrightarrow> \<not> rrset_key_less L a a"
  by (simp add: rrset_key_less_lex nameLess_irrefl compLess_irrefl)

lemma rrset_key_less_trans:
  assumes L: "name_codec L" and "rrset_key_less L a b" "rrset_key_less L b c"
  shows "rrset_key_less L a c"
  using assms(2,3) unfolding rrset_key_less_lex [OF L] name_codecD(4,5) [OF L]
  by (auto dest: less_trans)

lemma rrset_key_less_linear:
  assumes L: "name_codec L"
  shows "rrset_key_less L a b \<or> rrset_key a = rrset_key b \<or> rrset_key_less L b a"
  using nameLess_linear [OF L, of "rrset_label a" "rrset_label b"]
    compLess_linear [OF L, of "rrset_type a" "rrset_type b"]
    compLess_linear [OF L, of "rrset_version a" "rrset_version b"]
  unfolding rrset_key_less_lex [OF L] rrset_key_def by auto

text \<open>
  On records that point to the same zone \<open>Rrset::operator<\<close> never throws and is a strict linear
  order (irreflexive, transitive, total) up to \<open>Rrset::operator==\<close>, as \<open>std::sort\<close> requires.
\<close>

theorem rrset_less_strict_linear:
  assumes L: "name_codec L" and z: "rrset_zone a = Some p" "rrset_zone b = Some p" "rrset_zone c = Some p"
  shows "rrset_less L a a = Inr False \<and>
         (rrset_less L a b = Inr True \<longrightarrow> rrset_less L b c = Inr True \<longrightarrow> rrset_less L a c = Inr True) \<and>
         (rrset_less L a b = Inr True \<or> rrset_less L b a = Inr True \<or> rrset_eq a b) \<and>
         (rrset_eq a b \<longrightarrow> rrset_less L a b = Inr False)"
proof -
  obtain ad zn where p: "p = (ad, zn)" by (cases p)
  have less: "rrset_less L x y = Inr (rrset_key_less L x y)"
    if "rrset_zone x = Some p" "rrset_zone y = Some p" for x y
    using that by (simp add: rrset_less_def zone_ptr_differ_def zone_neq_def p)
  have eq: "rrset_eq a b \<longleftrightarrow> rrset_key a = rrset_key b"
    using z by (auto simp: rrset_eq_def rrset_key_def zone_eq_def p)
  have "rrset_key a = rrset_key b \<Longrightarrow> \<not> rrset_key_less L a b"
    by (simp add: rrset_key_def rrset_key_less_lex [OF L] nameLess_irrefl [OF L] compLess_irrefl [OF L])
  then show ?thesis
    using rrset_key_less_irrefl [OF L] rrset_key_less_trans [OF L] rrset_key_less_linear [OF L, of a b]
    by (auto simp: less z eq)
qed

theorem rrset_less_strict_linear_witness:
  "\<exists>a b. rrset_zone a = Some (1, Zone_of []) \<and> rrset_less ndn0 a a = Inr False \<and>
     (rrset_less ndn0 a b = Inr True \<or> rrset_less ndn0 b a = Inr True \<or> rrset_eq a b)"
  using rrset_less_strict_linear [OF ndn0_name_codec, of "Rrset_new (Some (1, Zone_of []))" "(1, Zone_of [])"
      "(Rrset_new (Some (1, Zone_of [])))\<lparr>rrset_label := [generic ''www'']\<rparr>"
      "Rrset_new (Some (1, Zone_of []))"]
  by (intro exI [of _ "Rrset_new (Some (1, Zone_of []))"]
            exI [of _ "(Rrset_new (Some (1, Zone_of [])))\<lparr>rrset_label := [generic ''www'']\<rparr>"]) simp

end
