(* ===== verification/DbMgr.thy ===== *)
theory DbMgr
  imports ZoneRrset
begin

text \<open>
  The database manager (\<open>src/daemon/db-mgr.cpp\<close>, \<open>.hpp\<close>). The tables of the schema are lists of
  rows, and each SQL statement of the code is a function on them: the \<open>WHERE\<close> clauses are
  filters, \<open>ORDER BY\<close> is a sort, the uniqueness constraints and the foreign keys are checked on
  insertion. What SQLite leaves open or decides at run time is the record \<open>sqlite\<close>, the argument
  \<open>E\<close>: the order in which a table is scanned, the id of a new row (\<open>None\<close> when the table is full), whether foreign keys are
  enforced (a connection setting the code does not touch), and whether opening, preparing
  and stepping succeed.
\<close>

section \<open>Tables\<close>

record zone_row =
  z_id :: int
  z_name :: blob
  z_ttl :: int

record info_row =
  f_zone :: int
  f_key :: string
  f_value :: blob

record rr_row =
  r_id :: int
  r_zone :: int
  r_label :: blob
  r_type :: blob
  r_version :: blob
  r_ttl :: int
  r_data :: blob

record tables =
  zones :: "zone_row list"
  zone_info :: "info_row list"
  rrsets :: "rr_row list"

datatype stmt =
    InsertZone | SetZoneInfo | GetZoneInfo | FindZone | ListZones | RemoveZone
  | InsertRrset | FindRrset | FindLowerBound | FindRrsets | RemoveRrsetsOfZoneByType
  | RemoveRrset | UpdateRrset | ClearAllData

record sqlite =
  openOk :: "string \<Rightarrow> bool"
  closeOk :: "tables \<Rightarrow> bool"
  prepareOk :: "stmt \<Rightarrow> tables \<Rightarrow> bool"
  stepOk :: "stmt \<Rightarrow> tables \<Rightarrow> bool"
  scanZones :: "zone_row list \<Rightarrow> zone_row list"
  scanInfo :: "info_row list \<Rightarrow> info_row list"
  scanRrsets :: "rr_row list \<Rightarrow> rr_row list"
  newRowid :: "int list \<Rightarrow> int option"
  foreignKeys :: bool

record dbmgr =
  m_dbFile :: string
  m_conn :: bool
  m_tables :: tables

abbreviation set_zones :: "zone_row list \<Rightarrow> dbmgr \<Rightarrow> dbmgr" where
  "set_zones zs d \<equiv> d\<lparr>m_tables := (m_tables d)\<lparr>zones := zs\<rparr>\<rparr>"

abbreviation set_info :: "info_row list \<Rightarrow> dbmgr \<Rightarrow> dbmgr" where
  "set_info fs d \<equiv> d\<lparr>m_tables := (m_tables d)\<lparr>zone_info := fs\<rparr>\<rparr>"

abbreviation set_rrsets :: "rr_row list \<Rightarrow> dbmgr \<Rightarrow> dbmgr" where
  "set_rrsets rs d \<equiv> d\<lparr>m_tables := (m_tables d)\<lparr>rrsets := rs\<rparr>\<rparr>"

definition prepare :: "sqlite \<Rightarrow> stmt \<Rightarrow> dbmgr \<Rightarrow> bool" where
  "prepare E s d \<longleftrightarrow> m_conn d \<and> prepareOk E s (m_tables d)"

text \<open>Ids are \<open>uint64_t\<close> in the objects and \<open>sqlite3_int64\<close> in the tables.\<close>

definition col_of_id :: "nat \<Rightarrow> int" where
  "col_of_id n = (int n + 2 ^ 63) mod 2 ^ 64 - 2 ^ 63"

definition id_of_col :: "int \<Rightarrow> nat" where
  "id_of_col x = nat (x mod 2 ^ 64)"

section \<open>Connection\<close>

text \<open>\<open>getDefaultDatabaseFile\<close> is the configured path \<open>dflt\<close>. The schema is created by statements
  that do nothing on an existing database; a new file has empty tables.\<close>

definition open_db :: "sqlite \<Rightarrow> dbmgr \<Rightarrow> (dbmgr, unit) res" where
  "open_db E d = (if \<not> openOk E (m_dbFile d) then (d, Inl DbMgr_ConnectError)
                  else (d\<lparr>m_conn := True\<rparr>, Inr ()))"

definition DbMgr_new :: "sqlite \<Rightarrow> string \<Rightarrow> (string \<Rightarrow> tables) \<Rightarrow> string \<Rightarrow> (dbmgr, unit) res" where
  "DbMgr_new E dflt disk dbFile =
     (let file = (if dbFile = [] then dflt else dbFile)
      in open_db E \<lparr>m_dbFile = file, m_conn = False, m_tables = disk file\<rparr>)"

definition close_db :: "sqlite \<Rightarrow> dbmgr \<Rightarrow> dbmgr" where
  "close_db E d = (if \<not> m_conn d then d
                   else if \<not> closeOk E (m_tables d) then d
                   else d\<lparr>m_conn := False\<rparr>)"

text \<open>\<open>sqlite3_exec\<close> of two statements; with foreign keys the first also deletes the dependent rows.\<close>

definition clearAllData :: "sqlite \<Rightarrow> dbmgr \<Rightarrow> (dbmgr, unit) res" where
  "clearAllData E d =
     (if \<not> (prepare E ClearAllData d \<and> stepOk E ClearAllData (m_tables d)) then (d, Inl DbMgr_ExecuteError)
      else (d\<lparr>m_tables := \<lparr>zones = [],
                           zone_info = (if foreignKeys E then [] else zone_info (m_tables d)),
                           rrsets = []\<rparr>\<rparr>, Inr ()))"

section \<open>Names in the database\<close>

text \<open>\<open>saveName\<close> binds the value of the name's encoding; \<open>restoreName\<close> decodes components until the
  buffer is empty. The loop has one unit of fuel per byte.\<close>

definition saveName :: "ndn \<Rightarrow> name \<Rightarrow> blob" where
  "saveName L n = nameWire L n"

fun restoreName_loop :: "ndn \<Rightarrow> nat \<Rightarrow> blob \<Rightarrow> name \<Rightarrow> error + name" where
  "restoreName_loop L fuel [] acc = Inr acc"
| "restoreName_loop L 0 buffer acc = Inl Diverges"
| "restoreName_loop L (Suc fuel) buffer acc =
     (case compDecode L buffer of
        None \<Rightarrow> Inl (DbMgr_Error ''Error while decoding name from the database'')
      | Some c \<Rightarrow> restoreName_loop L fuel (drop (length (compWire L c)) buffer) (acc @ [c]))"

definition restoreName :: "ndn \<Rightarrow> blob \<Rightarrow> error + name" where
  "restoreName L buffer = restoreName_loop L (length buffer) buffer []"

section \<open>Zones\<close>

definition insertZone :: "ndn \<Rightarrow> sqlite \<Rightarrow> dbmgr \<Rightarrow> zone \<Rightarrow> (dbmgr, zone) res" where
  "insertZone L E d z =
     (if zone_id z > 0 then (d, Inr z)
      else if \<not> prepare E InsertZone d then (d, Inl DbMgr_PrepareError)
      else let t = m_tables d; n = saveName L (zone_name z) in
        if \<not> stepOk E InsertZone t \<or> n \<in> set (map z_name (zones t)) then (d, Inl DbMgr_ExecuteError)
        else case newRowid E (map z_id (zones t)) of
          None \<Rightarrow> (d, Inl DbMgr_ExecuteError)
        | Some rid \<Rightarrow>
            (set_zones (zones t @ [\<lparr>z_id = rid, z_name = n, z_ttl = to_int32 (zone_ttl z)\<rparr>]) d,
             Inr (z\<lparr>zone_id := id_of_col rid\<rparr>)))"

text \<open>The key is bound as it is, the zone id with the 32-bit \<open>sqlite3_bind_int\<close>.\<close>

definition setZoneInfo :: "ndn \<Rightarrow> sqlite \<Rightarrow> dbmgr \<Rightarrow> zone \<Rightarrow> string \<Rightarrow> block \<Rightarrow> (dbmgr, unit) res" where
  "setZoneInfo L E d z key val =
     (if zone_id z = 0 then (d, Inl (DbMgr_Error ''zone has not been initialized''))
      else if length key > 10 then (d, Inl (DbMgr_Error ''key length should not exceed 10''))
      else if \<not> prepare E SetZoneInfo d then (d, Inl DbMgr_PrepareError)
      else let t = m_tables d; zid = to_int32 (int (zone_id z)) in
        if \<not> stepOk E SetZoneInfo t \<or> (foreignKeys E \<and> zid \<notin> set (map z_id (zones t)))
        then (d, Inl DbMgr_ExecuteError)
        else (set_info (filter (\<lambda>r. \<not> (f_zone r = zid \<and> f_key r = key)) (zone_info t)
                        @ [\<lparr>f_zone = zid, f_key = key, f_value = blockWire L val\<rparr>]) d, Inr ()))"

definition findZone :: "ndn \<Rightarrow> sqlite \<Rightarrow> dbmgr \<Rightarrow> zone \<Rightarrow> (dbmgr, zone \<times> bool) res" where
  "findZone L E d z =
     (if \<not> prepare E FindZone d then (d, Inl DbMgr_PrepareError)
      else let t = m_tables d;
               rows = (if stepOk E FindZone t
                       then filter (\<lambda>r. z_name r = saveName L (zone_name z)) (scanZones E (zones t))
                       else []);
               z' = (case rows of
                       r # _ \<Rightarrow> z\<lparr>zone_id := id_of_col (z_id r), zone_ttl := to_int32 (z_ttl r)\<rparr>
                     | [] \<Rightarrow> z\<lparr>zone_id := 0\<rparr>)
           in (d, Inr (z', zone_id z' \<noteq> 0)))"

fun decode_info :: "ndn \<Rightarrow> info_row list \<Rightarrow> (string \<rightharpoonup> block) \<Rightarrow> error + (string \<rightharpoonup> block)" where
  "decode_info L [] m = Inr m"
| "decode_info L (r # rs) m =
     bind_err (or_throw Tlv_Error (blockDecode L (f_value r))) (\<lambda>b. decode_info L rs (m(f_key r \<mapsto> b)))"

definition getZoneInfo :: "ndn \<Rightarrow> sqlite \<Rightarrow> dbmgr \<Rightarrow> zone \<Rightarrow> (dbmgr, zone \<times> (string \<rightharpoonup> block)) res" where
  "getZoneInfo L E d z =
     and_then (if zone_id z = 0 then and_then (findZone L E d z) (\<lambda>d (z, _). (d, Inr z)) else (d, Inr z))
       (\<lambda>d z.
         if zone_id z = 0 then (d, Inl (DbMgr_Error ''zone has not been initialized''))
         else if \<not> prepare E GetZoneInfo d then (d, Inl DbMgr_PrepareError)
         else let t = m_tables d;
                  rows = (if stepOk E GetZoneInfo t
                          then filter (\<lambda>r. f_zone r = to_int32 (int (zone_id z))) (scanInfo E (zone_info t))
                          else [])
              in and_then (lift_err d (decode_info L rows Map.empty)) (\<lambda>d m. (d, Inr (z, m))))"

fun load_zones :: "ndn \<Rightarrow> zone_row list \<Rightarrow> error + zone list" where
  "load_zones L [] = Inr []"
| "load_zones L (r # rs) =
     bind_err (restoreName L (z_name r)) (\<lambda>n.
       bind_err (load_zones L rs) (\<lambda>zs.
         Inr (\<lparr>zone_id = id_of_col (z_id r), zone_name = n, zone_ttl = to_int32 (z_ttl r)\<rparr> # zs)))"

definition listZones :: "ndn \<Rightarrow> sqlite \<Rightarrow> dbmgr \<Rightarrow> (dbmgr, zone list) res" where
  "listZones L E d =
     (if \<not> prepare E ListZones d then (d, Inl DbMgr_PrepareError)
      else (d, load_zones L (if stepOk E ListZones (m_tables d) then scanZones E (zones (m_tables d)) else [])))"

definition removeZone :: "sqlite \<Rightarrow> dbmgr \<Rightarrow> zone \<Rightarrow> (dbmgr, zone) res" where
  "removeZone E d z =
     (if zone_id z = 0 then (d, Inr z)
      else if \<not> prepare E RemoveZone d then (d, Inl DbMgr_PrepareError)
      else let t = m_tables d; zid = col_of_id (zone_id z) in
        if \<not> stepOk E RemoveZone t then (d, Inl DbMgr_ExecuteError)
        else (d\<lparr>m_tables :=
                 \<lparr>zones = filter (\<lambda>r. z_id r \<noteq> zid) (zones t),
                  zone_info = (if foreignKeys E then filter (\<lambda>r. f_zone r \<noteq> zid) (zone_info t) else zone_info t),
                  rrsets = (if foreignKeys E then filter (\<lambda>r. r_zone r \<noteq> zid) (rrsets t) else rrsets t)\<rparr>\<rparr>,
              Inr Zone_default))"

section \<open>Rrsets\<close>

definition row_of :: "ndn \<Rightarrow> int \<Rightarrow> zone \<Rightarrow> rrset \<Rightarrow> rr_row" where
  "row_of L rid z r =
     \<lparr>r_id = rid, r_zone = col_of_id (zone_id z), r_label = saveName L (rrset_label r),
      r_type = compWire L (rrset_type r), r_version = compWire L (rrset_version r),
      r_ttl = rrset_ttl r, r_data = blockWire L (rrset_data r)\<rparr>"

definition index_key :: "rr_row \<Rightarrow> int \<times> blob \<times> blob \<times> blob" where
  "index_key r = (r_zone r, r_label r, r_type r, r_version r)"

text \<open>The statement of \<open>insert(Rrset)\<close>, run once the zone is known.\<close>

definition insert_row :: "ndn \<Rightarrow> sqlite \<Rightarrow> dbmgr \<Rightarrow> nat \<Rightarrow> zone \<Rightarrow> rrset \<Rightarrow> (dbmgr, rrset) res" where
  "insert_row L E d a z r =
     (if \<not> prepare E InsertRrset d then (d, Inl DbMgr_PrepareError)
      else let t = m_tables d in
        case newRowid E (map r_id (rrsets t)) of
          None \<Rightarrow> (d, Inl DbMgr_ExecuteError)
        | Some rid \<Rightarrow>
            let row = row_of L rid z r in
            if \<not> stepOk E InsertRrset t \<or> index_key row \<in> set (map index_key (rrsets t))
               \<or> (foreignKeys E \<and> r_zone row \<notin> set (map z_id (zones t)))
            then (d, Inl DbMgr_ExecuteError)
            else (set_rrsets (rrsets t @ [row]) d,
                  Inr (r\<lparr>rrset_id := id_of_col rid, rrset_zone := Some (a, z)\<rparr>)))"

definition insertRrset :: "ndn \<Rightarrow> sqlite \<Rightarrow> dbmgr \<Rightarrow> rrset \<Rightarrow> (dbmgr, rrset) res" where
  "insertRrset L E d r =
     (if rrset_id r \<noteq> 0 then (d, Inr r)
      else case rrset_zone r of
        None \<Rightarrow> (d, Inl (DbMgr_RrsetError ''Rrset has not been assigned to a zone''))
      | Some (a, z) \<Rightarrow>
          and_then (if zone_id z = 0 then insertZone L E d z else (d, Inr z)) (\<lambda>d z. insert_row L E d a z r))"

text \<open>What \<open>find\<close>, \<open>findLowerBound\<close> and \<open>findRrsets\<close> copy from a row into the object.\<close>

definition load_row :: "ndn \<Rightarrow> rr_row \<Rightarrow> rrset \<Rightarrow> error + rrset" where
  "load_row L row r =
     bind_err (or_throw Tlv_Error (compDecode L (r_version row))) (\<lambda>v.
       bind_err (or_throw Tlv_Error (blockDecode L (r_data row))) (\<lambda>b.
         Inr (r\<lparr>rrset_id := id_of_col (r_id row), rrset_ttl := r_ttl row,
                rrset_version := v, rrset_data := b\<rparr>)))"

definition first_row :: "ndn \<Rightarrow> dbmgr \<Rightarrow> rr_row list \<Rightarrow> rrset \<Rightarrow> (dbmgr, rrset \<times> bool) res" where
  "first_row L d rows r =
     (case rows of
        row # _ \<Rightarrow> (case load_row L row r of Inl e \<Rightarrow> (d, Inl e) | Inr r' \<Rightarrow> (d, Inr (r', rrset_id r' \<noteq> 0)))
      | [] \<Rightarrow> (d, Inr (r\<lparr>rrset_id := 0\<rparr>, False)))"

text \<open>The common head of \<open>find\<close> and \<open>findLowerBound\<close>: resolve the zone, or stop.\<close>

definition with_zone ::
  "ndn \<Rightarrow> sqlite \<Rightarrow> dbmgr \<Rightarrow> rrset \<Rightarrow> (dbmgr \<Rightarrow> zone \<Rightarrow> rrset \<Rightarrow> (dbmgr, rrset \<times> bool) res)
   \<Rightarrow> (dbmgr, rrset \<times> bool) res" where
  "with_zone L E d r k =
     (case rrset_zone r of
        None \<Rightarrow> (d, Inl (DbMgr_RrsetError ''Rrset has not been assigned to a zone''))
      | Some (a, z) \<Rightarrow>
          and_then (if zone_id z = 0 then findZone L E d z else (d, Inr (z, True))) (\<lambda>d (z, isFound).
            if \<not> isFound then (d, Inr (r\<lparr>rrset_zone := Some (a, z)\<rparr>, False))
            else k d z (r\<lparr>rrset_zone := Some (a, z)\<rparr>)))"

definition findRrset :: "ndn \<Rightarrow> sqlite \<Rightarrow> dbmgr \<Rightarrow> rrset \<Rightarrow> (dbmgr, rrset \<times> bool) res" where
  "findRrset L E d r =
     with_zone L E d r (\<lambda>d z r.
       if \<not> prepare E FindRrset d then (d, Inl DbMgr_PrepareError)
       else let t = m_tables d in
         first_row L d
           (if stepOk E FindRrset t
            then filter (\<lambda>row. r_zone row = col_of_id (zone_id z) \<and> r_label row = saveName L (rrset_label r)
                               \<and> r_type row = compWire L (rrset_type r)) (scanRrsets E (rrsets t))
            else []) r)"

definition findLowerBound :: "ndn \<Rightarrow> sqlite \<Rightarrow> dbmgr \<Rightarrow> rrset \<Rightarrow> (dbmgr, rrset \<times> bool) res" where
  "findLowerBound L E d r =
     with_zone L E d r (\<lambda>d z r.
       if \<not> prepare E FindLowerBound d then (d, Inl DbMgr_PrepareError)
       else let t = m_tables d in
         first_row L d
           (if stepOk E FindLowerBound t
            then rev (sort_key r_label
                   (filter (\<lambda>row. r_zone row = col_of_id (zone_id z) \<and> r_label row < saveName L (rrset_label r)
                                  \<and> r_type row = compWire L (rrset_type r)) (scanRrsets E (rrsets t))))
            else []) r)"

text \<open>All records returned by \<open>findRrsets\<close> point to the zone of the call.\<close>

fun load_rows :: "ndn \<Rightarrow> zone_ptr \<Rightarrow> rr_row list \<Rightarrow> error + rrset list" where
  "load_rows L p [] = Inr []"
| "load_rows L p (row # rows) =
     bind_err (load_row L row (Rrset_new (Some p))) (\<lambda>r.
       bind_err (restoreName L (r_label row)) (\<lambda>l.
         bind_err (or_throw Tlv_Error (compDecode L (r_type row))) (\<lambda>ty.
           bind_err (load_rows L p rows) (\<lambda>rs. Inr (r\<lparr>rrset_label := l, rrset_type := ty\<rparr> # rs)))))"

definition find_if_new :: "ndn \<Rightarrow> sqlite \<Rightarrow> dbmgr \<Rightarrow> zone \<Rightarrow> (dbmgr, zone) res" where
  "find_if_new L E d z =
     and_then (if zone_id z = 0 then findZone L E d z else (d, Inr (z, True))) (\<lambda>d (z, _).
       if zone_id z = 0
       then (d, Inl (DbMgr_RrsetError ''Attempting to find all the rrsets with a zone does not in the database''))
       else (d, Inr z))"

definition findRrsets :: "ndn \<Rightarrow> sqlite \<Rightarrow> dbmgr \<Rightarrow> zone_ptr \<Rightarrow> (dbmgr, zone \<times> rrset list) res" where
  "findRrsets L E d p =
     and_then (find_if_new L E d (snd p)) (\<lambda>d z.
       if \<not> prepare E FindRrsets d then (d, Inl DbMgr_PrepareError)
       else let t = m_tables d in
         and_then (lift_err d (load_rows L (fst p, z)
             (if stepOk E FindRrsets t
              then sort_key r_label (filter (\<lambda>row. r_zone row = col_of_id (zone_id z)) (scanRrsets E (rrsets t)))
              else [])))
           (\<lambda>d rs. (d, Inr (z, rs))))"

definition removeRrsetsOfZoneByType ::
  "ndn \<Rightarrow> sqlite \<Rightarrow> dbmgr \<Rightarrow> zone \<Rightarrow> component \<Rightarrow> (dbmgr, zone) res" where
  "removeRrsetsOfZoneByType L E d z type =
     and_then (find_if_new L E d z) (\<lambda>d z.
       if \<not> prepare E RemoveRrsetsOfZoneByType d then (d, Inl DbMgr_PrepareError)
       else let t = m_tables d in
         if \<not> stepOk E RemoveRrsetsOfZoneByType t then (d, Inl DbMgr_ExecuteError)
         else (set_rrsets (filter (\<lambda>row. \<not> (r_zone row = col_of_id (zone_id z) \<and> r_type row = compWire L type))
                             (rrsets t)) d, Inr z))"

definition removeRrset :: "sqlite \<Rightarrow> dbmgr \<Rightarrow> rrset \<Rightarrow> (dbmgr, rrset) res" where
  "removeRrset E d r =
     (if rrset_id r = 0
      then (d, Inl (DbMgr_RrsetError ''Attempting to remove Rrset that has no assigned id''))
      else if \<not> prepare E RemoveRrset d then (d, Inl DbMgr_PrepareError)
      else let t = m_tables d in
        if \<not> stepOk E RemoveRrset t then (d, Inl DbMgr_ExecuteError)
        else (set_rrsets (filter (\<lambda>row. r_id row \<noteq> col_of_id (rrset_id r)) (rrsets t)) d,
              Inr (Rrset_new (rrset_zone r))))"

text \<open>\<open>update\<close> ignores what the step returns: a failed statement, for the uniqueness of the index or
  for any other reason, leaves the table as it was and is not reported.\<close>

definition update_row :: "ndn \<Rightarrow> rrset \<Rightarrow> rr_row \<Rightarrow> rr_row" where
  "update_row L r row =
     (if r_id row = col_of_id (rrset_id r)
      then row\<lparr>r_ttl := rrset_ttl r, r_version := compWire L (rrset_version r),
               r_data := blockWire L (rrset_data r)\<rparr>
      else row)"

definition updateRrset :: "ndn \<Rightarrow> sqlite \<Rightarrow> dbmgr \<Rightarrow> rrset \<Rightarrow> (dbmgr, unit) res" where
  "updateRrset L E d r =
     (if rrset_id r = 0
      then (d, Inl (DbMgr_RrsetError ''Attempting to replace Rrset that has no assigned id''))
      else if rrset_zone r = None
      then (d, Inl (DbMgr_RrsetError ''Rrset has not been assigned to a zone''))
      else if \<not> prepare E UpdateRrset d then (d, Inl DbMgr_PrepareError)
      else let t = m_tables d; rows = map (update_row L r) (rrsets t) in
        if stepOk E UpdateRrset t \<and> distinct (map index_key rows)
        then (set_rrsets rows d, Inr ())
        else (d, Inr ()))"

end
