(* ===== verification/DbMgrLaws.thy ===== *)
theory DbMgrLaws
  imports DbMgr
begin

text \<open>
  Laws of the database manager: the documented behaviour of SQLite that the code relies on, the
  invariant of the tables and its preservation by every operation, the names in the database, and
  what each lookup returns.
\<close>

section \<open>The engine\<close>

text \<open>
  \<open>sqlite_sound\<close>: a scan visits every row once, and the id of a new row is positive, fits the
  64-bit column and is not in use. \<open>sqlite_reliable\<close>: no statement fails for a reason outside the
  schema (I/O, locks, permissions).
\<close>

definition sqlite_sound :: "sqlite \<Rightarrow> bool" where
  "sqlite_sound E \<longleftrightarrow>
     (\<forall>zs. mset (scanZones E zs) = mset zs) \<and>
     (\<forall>fs. mset (scanInfo E fs) = mset fs) \<and>
     (\<forall>rs. mset (scanRrsets E rs) = mset rs) \<and>
     (\<forall>ids x. newRowid E ids = Some x \<longrightarrow> 0 < x \<and> x < 2 ^ 63 \<and> x \<notin> set ids)"

definition sqlite_reliable :: "sqlite \<Rightarrow> bool" where
  "sqlite_reliable E \<longleftrightarrow> (\<forall>s t. prepareOk E s t) \<and> (\<forall>s t. stepOk E s t)"

text \<open>\<open>sqlite_roomy\<close>: while a table has fewer than \<open>2 ^ 62\<close> rows there is an id for a new one.\<close>

definition sqlite_roomy :: "sqlite \<Rightarrow> bool" where
  "sqlite_roomy E \<longleftrightarrow> (\<forall>ids. length ids < 2 ^ 62 \<longrightarrow> newRowid E ids \<noteq> None)"

text \<open>A concrete engine: tables are scanned in order, a new id is one more than the largest, or the first
  unused one when that is too large.\<close>

definition unused_id :: "int list \<Rightarrow> int option" where
  "unused_id ids = find (\<lambda>x. x \<notin> set ids) (map int [1..<length ids + 2])"

definition next_id :: "int list \<Rightarrow> int option" where
  "next_id ids =
     (let m = foldr max ids 0 in
      if m < 2 ^ 63 - 1 then Some (m + 1)
      else if length ids + 1 < 2 ^ 63 then unused_id ids else None)"

definition sqlite0 :: sqlite where
  "sqlite0 = \<lparr>openOk = (\<lambda>_. True), closeOk = (\<lambda>_. True), prepareOk = (\<lambda>_ _. True), stepOk = (\<lambda>_ _. True),
              scanZones = id, scanInfo = id, scanRrsets = id,
              newRowid = next_id,
              foreignKeys = False\<rparr>"

lemma foldr_max_ge: "x \<in> set xs \<Longrightarrow> x \<le> foldr max xs (a :: int)"
  by (induction xs) auto

lemma foldr_max_base: "a \<le> foldr max xs (a :: int)"
  by (induction xs) auto

lemma unused_id_exists: "unused_id ids \<noteq> None"
proof
  assume "unused_id ids = None"
  then have "int ` {1..<length ids + 2} \<subseteq> set ids" by (auto simp: unused_id_def find_None_iff simp del: upt_Suc)
  then have "card (int ` {1..<length ids + 2}) \<le> card (set ids)" by (intro card_mono) auto
  also have "\<dots> \<le> length ids" by (rule card_length)
  finally show False by (simp add: card_image)
qed

lemma unused_id_fresh:
  assumes "unused_id ids = Some x"
  shows "x \<notin> set ids \<and> 0 < x \<and> x \<le> int (length ids) + 1"
proof -
  from assms obtain i where "i < length (map int [1..<length ids + 2])" "x = map int [1..<length ids + 2] ! i" "x \<notin> set ids"
    unfolding unused_id_def find_Some_iff by blast
  then show ?thesis by (simp del: upt_Suc)
qed

lemma next_id_fresh:
  assumes "next_id ids = Some x"
  shows "0 < x \<and> x < 2 ^ 63 \<and> x \<notin> set ids"
proof (cases "foldr max ids 0 < 2 ^ 63 - 1")
  case True
  with assms have x: "x = foldr max ids 0 + 1" by (simp add: next_id_def Let_def)
  have "x \<notin> set ids" using foldr_max_ge [of x ids 0] x by auto
  then show ?thesis using True foldr_max_base [of 0 ids] x by simp
next
  case False
  with assms have u: "unused_id ids = Some x" "length ids + 1 < 2 ^ 63"
    by (simp_all add: next_id_def Let_def split: if_splits)
  have "int (length ids) + 1 < 2 ^ 63"
    using u(2) by simp
  then show ?thesis using unused_id_fresh [OF u(1)] by linarith
qed

lemma sqlite0_sound: "sqlite_sound sqlite0"
  using next_id_fresh by (simp add: sqlite_sound_def sqlite0_def)

lemma sqlite0_roomy: "sqlite_roomy sqlite0"
  using unused_id_exists by (auto simp: sqlite_roomy_def sqlite0_def next_id_def Let_def)

lemma sqlite0_reliable: "sqlite_reliable sqlite0"
  by (simp add: sqlite_reliable_def sqlite0_def)

lemma sqlite0_simps [simp]:
  "prepareOk sqlite0 s t" "stepOk sqlite0 s t" "scanZones sqlite0 = id" "scanRrsets sqlite0 = id"
  "scanInfo sqlite0 = id" "foreignKeys sqlite0 = False"
  "foldr max ids 0 < 2 ^ 63 - 1 \<Longrightarrow> newRowid sqlite0 ids = Some (foldr max ids 0 + 1)"
  by (simp_all add: sqlite0_def next_id_def)

lemma sqlite_soundD:
  assumes "sqlite_sound E"
  shows "mset (scanZones E zs) = mset zs" "mset (scanInfo E fs) = mset fs"
    "mset (scanRrsets E rs) = mset rs"
    "set (scanZones E zs) = set zs" "set (scanInfo E fs) = set fs" "set (scanRrsets E rs) = set rs"
    "newRowid E ids = Some x \<Longrightarrow> 0 < x \<and> x < 2 ^ 63 \<and> x \<notin> set ids"
proof -
  show 1: "mset (scanZones E zs) = mset zs" "mset (scanInfo E fs) = mset fs"
    "mset (scanRrsets E rs) = mset rs"
    and "newRowid E ids = Some x \<Longrightarrow> 0 < x \<and> x < 2 ^ 63 \<and> x \<notin> set ids"
    using assms by (simp_all add: sqlite_sound_def)
  show "set (scanZones E zs) = set zs" "set (scanInfo E fs) = set fs" "set (scanRrsets E rs) = set rs"
    using 1 by (blast dest: mset_eq_setD)+
qed

lemma reliable_prepare [simp]: "sqlite_reliable E \<Longrightarrow> m_conn d \<Longrightarrow> prepare E s d"
  by (simp add: prepare_def sqlite_reliable_def)

lemma reliable_step [simp]: "sqlite_reliable E \<Longrightarrow> stepOk E s t"
  by (simp add: sqlite_reliable_def)

section \<open>Ids\<close>

lemma col_of_id_small [simp]: "n < 2 ^ 63 \<Longrightarrow> col_of_id n = int n"
proof -
  assume "n < 2 ^ 63"
  then have "int n < 2 ^ 63" by simp
  then show ?thesis by (simp add: col_of_id_def)
qed

lemma id_of_col_small [simp]: "0 < x \<Longrightarrow> x < 2 ^ 63 \<Longrightarrow> id_of_col x = nat x"
  by (simp add: id_of_col_def)

lemma col_of_id_of_col [simp]: "0 < x \<Longrightarrow> x < 2 ^ 63 \<Longrightarrow> col_of_id (id_of_col x) = x"
  by (simp add: nat_less_iff)

section \<open>Names in the database\<close>

lemma restoreName_loop_wire:
  assumes L: "name_codec L"
  shows "length (nameWire L n) \<le> fuel \<Longrightarrow> restoreName_loop L fuel (nameWire L n) acc = Inr (acc @ n)"
proof (induction n arbitrary: fuel acc)
  case (Cons c n)
  have "Suc 0 \<le> length (compWire L c)" using name_codecD(1) [OF L] by (simp add: Suc_le_eq)
  with Cons.prems have "Suc (length (nameWire L n)) \<le> fuel" by simp
  then obtain k where k: "fuel = Suc k" "length (nameWire L n) \<le> k"
    by (cases fuel) auto
  have "compWire L c @ nameWire L n \<noteq> []" using name_codecD(1) [OF L] by simp
  then obtain b bs where b: "compWire L c @ nameWire L n = b # bs" by (meson neq_Nil_conv)
  have "restoreName_loop L (Suc k) (b # bs) acc =
          restoreName_loop L k (drop (length (compWire L c)) (b # bs)) (acc @ [c])"
    using name_codecD(2) [OF L, of c "nameWire L n"] by (simp add: b)
  then show ?case
    using Cons.IH [OF k(2), of "acc @ [c]"] k(1) by (simp flip: b)
qed simp

text \<open>
  Whatever name \<open>saveName\<close> writes, \<open>restoreName\<close> reads back: the decoding loop ends, does not
  throw and returns the same components.
\<close>

theorem restoreName_saveName:
  assumes "name_codec L"
  shows "restoreName L (saveName L n) = Inr n"
  using restoreName_loop_wire [OF assms, of n "length (nameWire L n)" "[]"]
  by (simp add: restoreName_def saveName_def)

theorem restoreName_saveName_witness:
  "restoreName ndn0 (saveName ndn0 [generic ''net'', generic ''ndnsim'']) =
     Inr [generic ''net'', generic ''ndnsim'']"
  by (rule restoreName_saveName [OF ndn0_name_codec])

lemma restoreName_nameWire [simp]: "name_codec L \<Longrightarrow> restoreName L (nameWire L n) = Inr n"
  using restoreName_loop_wire [of L n "length (nameWire L n)" "[]"] by (simp add: restoreName_def)

section \<open>The invariant of the tables\<close>

text \<open>
  Ids are positive 64-bit integers and identify rows, zone names and the index of the schema are
  unique, and every row holds what the code wrote: encodings of names, components and blocks, and
  a 32-bit default TTL.
\<close>

definition zone_rows_ok :: "ndn \<Rightarrow> zone_row list \<Rightarrow> bool" where
  "zone_rows_ok L zs \<longleftrightarrow>
     distinct (map z_id zs) \<and> distinct (map z_name zs) \<and>
     (\<forall>r \<in> set zs. 0 < z_id r \<and> z_id r < 2 ^ 63 \<and> z_ttl r = to_int32 (z_ttl r) \<and>
                  (\<exists>n. z_name r = nameWire L n))"

definition info_rows_ok :: "ndn \<Rightarrow> info_row list \<Rightarrow> bool" where
  "info_rows_ok L fs \<longleftrightarrow>
     distinct (map (\<lambda>r. (f_zone r, f_key r)) fs) \<and> (\<forall>r \<in> set fs. \<exists>b. f_value r = blockWire L b)"

definition rr_row_ok :: "ndn \<Rightarrow> rr_row \<Rightarrow> bool" where
  "rr_row_ok L r \<longleftrightarrow>
     0 < r_id r \<and> r_id r < 2 ^ 63 \<and> (\<exists>n. r_label r = nameWire L n) \<and>
     (\<exists>c. r_type r = compWire L c) \<and> (\<exists>c. r_version r = compWire L c) \<and> (\<exists>b. r_data r = blockWire L b)"

definition rr_rows_ok :: "ndn \<Rightarrow> rr_row list \<Rightarrow> bool" where
  "rr_rows_ok L rs \<longleftrightarrow>
     distinct (map r_id rs) \<and> distinct (map index_key rs) \<and> (\<forall>r \<in> set rs. rr_row_ok L r)"

definition db_inv :: "ndn \<Rightarrow> dbmgr \<Rightarrow> bool" where
  "db_inv L d \<longleftrightarrow>
     zone_rows_ok L (zones (m_tables d)) \<and> info_rows_ok L (zone_info (m_tables d)) \<and>
     rr_rows_ok L (rrsets (m_tables d))"

lemma zone_rows_ok_filter: "zone_rows_ok L zs \<Longrightarrow> zone_rows_ok L (filter P zs)"
  by (auto simp: zone_rows_ok_def distinct_map_filterI)

lemma info_rows_ok_filter: "info_rows_ok L fs \<Longrightarrow> info_rows_ok L (filter P fs)"
  by (auto simp: info_rows_ok_def distinct_map_filterI)

lemma rr_rows_ok_filter: "rr_rows_ok L rs \<Longrightarrow> rr_rows_ok L (filter P rs)"
  by (auto simp: rr_rows_ok_def distinct_map_filterI)

lemmas rows_ok_filter = zone_rows_ok_filter info_rows_ok_filter rr_rows_ok_filter

lemma rows_ok_empty: "zone_rows_ok L []" "info_rows_ok L []" "rr_rows_ok L []"
  by (simp_all add: zone_rows_ok_def info_rows_ok_def rr_rows_ok_def)

lemma row_of_ok: "0 < rid \<Longrightarrow> rid < 2 ^ 63 \<Longrightarrow> rr_row_ok L (row_of L rid z r)"
  by (auto simp: rr_row_ok_def row_of_def saveName_def)

lemma rr_rows_ok_snoc:
  "rr_rows_ok L rs \<Longrightarrow> rr_row_ok L r \<Longrightarrow> r_id r \<notin> set (map r_id rs) \<Longrightarrow>
   index_key r \<notin> set (map index_key rs) \<Longrightarrow> rr_rows_ok L (rs @ [r])"
  by (auto simp: rr_rows_ok_def)

lemma update_row_ok: "rr_row_ok L row \<Longrightarrow> rr_row_ok L (update_row L r row)"
  by (auto simp: rr_row_ok_def update_row_def)

lemma r_id_update_row [simp]: "r_id (update_row L r row) = r_id row"
  by (simp add: update_row_def)

lemma rr_rows_ok_update:
  "rr_rows_ok L rs \<Longrightarrow> distinct (map index_key (map (update_row L r) rs)) \<Longrightarrow>
   rr_rows_ok L (map (update_row L r) rs)"
  by (auto simp: rr_rows_ok_def comp_def update_row_ok)

section \<open>Every operation keeps the invariant\<close>

lemma findZone_state [simp]: "fst (findZone L E d z) = d"
  by (simp add: findZone_def Let_def)

lemma findZone_stateD: "findZone L E d z = (d', x) \<Longrightarrow> d' = d"
  by (metis findZone_state fst_conv)

lemma find_if_new_state [simp]: "fst (find_if_new L E d z) = d"
  by (auto simp: find_if_new_def and_then_def split: prod.splits sum.splits dest: findZone_stateD)

lemma first_row_state [simp]: "fst (first_row L d rows r) = d"
  by (auto simp: first_row_def split: list.splits sum.splits)

lemma with_zone_state: "(\<And>z r. fst (k d z r) = d) \<Longrightarrow> fst (with_zone L E d r k) = d"
  by (auto simp: with_zone_def and_then_def split: prod.splits sum.splits option.splits
      dest!: findZone_stateD)

lemma findRrset_state [simp]: "fst (findRrset L E d r) = d"
  by (simp add: findRrset_def Let_def with_zone_state)

lemma findLowerBound_state [simp]: "fst (findLowerBound L E d r) = d"
  by (simp add: findLowerBound_def Let_def with_zone_state)

lemma find_if_new_stateD: "find_if_new L E d z = (d', x) \<Longrightarrow> d' = d"
  by (metis find_if_new_state fst_conv)

lemma findRrset_stateD: "findRrset L E d r = (d', x) \<Longrightarrow> d' = d"
  by (metis findRrset_state fst_conv)

lemma findLowerBound_stateD: "findLowerBound L E d r = (d', x) \<Longrightarrow> d' = d"
  by (metis findLowerBound_state fst_conv)

lemma findRrsets_state [simp]: "fst (findRrsets L E d p) = d"
  by (auto simp: findRrsets_def and_then_def Let_def split: prod.splits sum.splits
      dest!: find_if_new_stateD)

lemma findRrsets_stateD: "findRrsets L E d p = (d', x) \<Longrightarrow> d' = d"
  by (metis findRrsets_state fst_conv)

lemma getZoneInfo_state [simp]: "fst (getZoneInfo L E d z) = d"
  by (auto simp: getZoneInfo_def and_then_def Let_def split: prod.splits sum.splits if_splits
      dest!: findZone_stateD)

lemma insertZone_inv:
  assumes "sqlite_sound E" and "db_inv L d"
  shows "db_inv L (fst (insertZone L E d z))"
  using assms sqlite_soundD(7) [OF assms(1)]
  by (fastforce simp: insertZone_def Let_def db_inv_def zone_rows_ok_def saveName_def split: option.splits)

lemma setZoneInfo_inv: "db_inv L d \<Longrightarrow> db_inv L (fst (setZoneInfo L E d z key val))"
  by (auto simp: setZoneInfo_def Let_def db_inv_def info_rows_ok_def distinct_map_filterI)

lemma removeZone_inv: "db_inv L d \<Longrightarrow> db_inv L (fst (removeZone E d z))"
  by (simp add: removeZone_def Let_def db_inv_def rows_ok_filter)

lemma clearAllData_inv: "db_inv L d \<Longrightarrow> db_inv L (fst (clearAllData E d))"
  by (simp add: clearAllData_def db_inv_def rows_ok_empty)

lemma insert_row_inv:
  assumes E: "sqlite_sound E" and d: "db_inv L d"
  shows "db_inv L (fst (insert_row L E d a z r))"
proof (cases "newRowid E (map r_id (rrsets (m_tables d)))")
  case None
  with d show ?thesis by (simp add: insert_row_def)
next
  case (Some rid)
  note fresh = sqlite_soundD(7) [OF E Some]
  have ok: "rr_rows_ok L (rrsets (m_tables d))" using d by (simp add: db_inv_def)
  have "rr_rows_ok L (rrsets (m_tables d) @ [row_of L rid z r])"
    if "index_key (row_of L rid z r) \<notin> set (map index_key (rrsets (m_tables d)))"
    using ok that fresh by (intro rr_rows_ok_snoc row_of_ok) (auto simp: row_of_def)
  with d show ?thesis by (simp add: insert_row_def Some Let_def db_inv_def)
qed

lemma insertRrset_inv:
  assumes "sqlite_sound E" and "db_inv L d"
  shows "db_inv L (fst (insertRrset L E d r))"
proof (cases "rrset_zone r")
  case None
  with assms show ?thesis by (simp add: insertRrset_def)
next
  case (Some p)
  have "db_inv L (fst (if zone_id z = 0 then insertZone L E d z else (d, Inr z)))" for z
    using assms insertZone_inv by simp
  then have "db_inv L (fst (and_then (if zone_id z = 0 then insertZone L E d z else (d, Inr z))
      (\<lambda>d z. insert_row L E d a z r)))" for a z
    by (rule and_then_state) (rule insert_row_inv [OF assms(1)])
  with Some assms(2) show ?thesis by (cases p) (simp add: insertRrset_def)
qed

lemma removeRrsetsOfZoneByType_inv:
  "db_inv L d \<Longrightarrow> db_inv L (fst (removeRrsetsOfZoneByType L E d z type))"
  unfolding removeRrsetsOfZoneByType_def
  by (rule and_then_state) (auto simp: Let_def db_inv_def rows_ok_filter)

lemma removeRrset_inv: "db_inv L d \<Longrightarrow> db_inv L (fst (removeRrset E d r))"
  by (simp add: removeRrset_def Let_def db_inv_def rows_ok_filter)

lemma updateRrset_inv: "db_inv L d \<Longrightarrow> db_inv L (fst (updateRrset L E d r))"
  by (simp add: updateRrset_def Let_def db_inv_def rr_rows_ok_update)

lemmas db_op_inv = insertZone_inv setZoneInfo_inv removeZone_inv clearAllData_inv insertRrset_inv
  removeRrsetsOfZoneByType_inv removeRrset_inv updateRrset_inv

section \<open>Reachable databases\<close>

text \<open>One rule per public operation of the class that changes the tables or the connection.\<close>

inductive db_step :: "ndn \<Rightarrow> sqlite \<Rightarrow> dbmgr \<Rightarrow> dbmgr \<Rightarrow> bool" for L E where
  step_open: "db_step L E d (fst (open_db E d))"
| step_close: "db_step L E d (close_db E d)"
| step_clear: "db_step L E d (fst (clearAllData E d))"
| step_insertZone: "db_step L E d (fst (insertZone L E d z))"
| step_setZoneInfo: "db_step L E d (fst (setZoneInfo L E d z key val))"
| step_removeZone: "db_step L E d (fst (removeZone E d z))"
| step_insertRrset: "db_step L E d (fst (insertRrset L E d r))"
| step_removeByType: "db_step L E d (fst (removeRrsetsOfZoneByType L E d z ty))"
| step_removeRrset: "db_step L E d (fst (removeRrset E d r))"
| step_updateRrset: "db_step L E d (fst (updateRrset L E d r))"

inductive db_reachable :: "ndn \<Rightarrow> sqlite \<Rightarrow> dbmgr \<Rightarrow> bool" for L E where
  reach_new: "db_reachable L E \<lparr>m_dbFile = file, m_conn = False,
                              m_tables = \<lparr>zones = [], zone_info = [], rrsets = []\<rparr>\<rparr>"
| reach_step: "db_reachable L E d \<Longrightarrow> db_step L E d d' \<Longrightarrow> db_reachable L E d'"

lemma db_step_inv:
  assumes "sqlite_sound E" and "db_step L E d d'" and "db_inv L d"
  shows "db_inv L d'"
  using assms(2,3,1)
  by (induction rule: db_step.induct) (auto simp: db_op_inv, auto simp: open_db_def close_db_def db_inv_def)

text \<open>
  C27: Every database the operations of \<open>DbMgr\<close> can produce, whether they return or throw, satisfies
  the invariant: unique positive ids, unique zone names, a unique index, and rows that decode.
\<close>

theorem db_reachable_inv:
  assumes "sqlite_sound E" and "db_reachable L E d"
  shows "db_inv L d"
  using assms(2)
proof (induction rule: db_reachable.induct)
  case reach_new
  show ?case by (simp add: db_inv_def rows_ok_empty)
next
  case (reach_step d d')
  then show ?case using db_step_inv [OF assms(1)] by blast
qed

theorem db_reachable_inv_witness:
  "db_inv ndn0 (fst (insertZone ndn0 sqlite0
     \<lparr>m_dbFile = ''db'', m_conn = True, m_tables = \<lparr>zones = [], zone_info = [], rrsets = []\<rparr>\<rparr>
     (Zone_of [generic ''test''])))"
proof -
  let ?d = "\<lparr>m_dbFile = ''db'', m_conn = False, m_tables = \<lparr>zones = [], zone_info = [], rrsets = []\<rparr>\<rparr>"
  have "db_reachable ndn0 sqlite0 (fst (open_db sqlite0 ?d))"
    by (rule reach_step [OF reach_new step_open])
  then have "db_reachable ndn0 sqlite0 (?d\<lparr>m_conn := True\<rparr>)"
    by (simp add: open_db_def sqlite0_def)
  then have "db_reachable ndn0 sqlite0 (fst (insertZone ndn0 sqlite0 (?d\<lparr>m_conn := True\<rparr>)
      (Zone_of [generic ''test''])))"
    by (rule reach_step [OF _ step_insertZone])
  then show ?thesis using db_reachable_inv [OF sqlite0_sound] by simp
qed

end
