(* ===== verification/RecordStore.thy ===== *)
theory RecordStore
  imports NdnsPrelude
begin

text \<open>
  What the clients of the database manager (the name server and the management tool) rely on: a
  store of records under keys, and a store whose records carry versions. The lemmas about
  sequences of versioned writes are proved here once, from the laws alone; theory \<open>DbMgrStore\<close>
  discharges the laws for \<open>DbMgr\<close>.
\<close>

section \<open>A store of records\<close>

text \<open>Inserting may fail (the table is full): the flag says whether it was done.\<close>

locale record_store =
  fixes inv :: "'s \<Rightarrow> bool"
    and get :: "'s \<Rightarrow> 'k \<Rightarrow> 'v option"
    and ins :: "'s \<Rightarrow> 'k \<Rightarrow> 'v \<Rightarrow> 's \<times> bool"
    and upd :: "'s \<Rightarrow> 'k \<Rightarrow> 'v \<Rightarrow> 's"
    and del :: "'s \<Rightarrow> 'k \<Rightarrow> 's"
  assumes ins_done: "inv s \<Longrightarrow> get s k = None \<Longrightarrow> ins s k v = (s', True) \<Longrightarrow>
                       inv s' \<and> get s' = (get s)(k \<mapsto> v)"
    and ins_failed: "inv s \<Longrightarrow> get s k = None \<Longrightarrow> ins s k v = (s', False) \<Longrightarrow> s' = s"
    and upd_get: "inv s \<Longrightarrow> get s k = Some u \<Longrightarrow> inv (upd s k v) \<and> get (upd s k v) = (get s)(k \<mapsto> v)"
    and del_get: "inv s \<Longrightarrow> get s k = Some u \<Longrightarrow> inv (del s k) \<and> get (del s k) = (get s)(k := None)"

section \<open>A store with versions\<close>

locale versioned_store = record_store inv get ins upd del
  for inv :: "'s \<Rightarrow> bool" and get :: "'s \<Rightarrow> 'k \<Rightarrow> 'v option" and ins upd del +
  fixes older :: "'v \<Rightarrow> 'v \<Rightarrow> bool"
  assumes older_irrefl: "\<not> older v v"
    and older_trans: "older u v \<Longrightarrow> older v w \<Longrightarrow> older u w"
begin

text \<open>The write both clients make: insert a new key, replace an older record, refuse any other.\<close>

definition put_newer :: "'s \<Rightarrow> 'k \<Rightarrow> 'v \<Rightarrow> 's \<times> bool" where
  "put_newer s k v =
     (case get s k of
        None \<Rightarrow> ins s k v
      | Some u \<Rightarrow> if older u v then (upd s k v, True) else (s, False))"

fun put_all :: "'s \<Rightarrow> ('k \<times> 'v) list \<Rightarrow> 's" where
  "put_all s [] = s"
| "put_all s ((k, v) # kvs) = put_all (fst (put_newer s k v)) kvs"

lemma put_newer_done:
  assumes "inv s" and "put_newer s k v = (s', True)"
  shows "inv s' \<and> get s' = (get s)(k \<mapsto> v)"
proof (cases "get s k")
  case None
  with assms show ?thesis using ins_done [OF assms(1) None, of v s'] by (simp add: put_newer_def)
next
  case (Some u)
  with assms(2) have "s' = upd s k v" by (simp add: put_newer_def split: if_splits)
  then show ?thesis using upd_get [OF assms(1) Some, of v] by simp
qed

lemma put_newer_refused:
  assumes "inv s" and "put_newer s k v = (s', False)"
  shows "s' = s"
proof (cases "get s k")
  case None
  with assms show ?thesis using ins_failed [OF assms(1) None, of v s'] by (simp add: put_newer_def)
next
  case (Some u)
  with assms(2) show ?thesis by (simp add: put_newer_def split: if_splits)
qed

lemma put_newer_inv: "inv s \<Longrightarrow> inv (fst (put_newer s k v))"
  by (metis prod.collapse put_newer_done put_newer_refused)

lemma put_newer_frame: "inv s \<Longrightarrow> k' \<noteq> k \<Longrightarrow> get (fst (put_newer s k v)) k' = get s k'"
  by (cases "put_newer s k v"; cases "snd (put_newer s k v)")
     (auto dest: put_newer_done put_newer_refused)

text \<open>A record is only ever replaced by a newer one.\<close>

lemma put_newer_grows:
  assumes "inv s" and "get s k' = Some u"
  shows "\<exists>w. get (fst (put_newer s k v)) k' = Some w \<and> (w = u \<or> older u w)"
proof (cases "k' = k")
  case False
  then show ?thesis using assms put_newer_frame by simp
next
  case True
  with assms upd_get [OF assms(1), of k u v] show ?thesis by (simp add: put_newer_def)
qed

lemma put_all_inv: "inv s \<Longrightarrow> inv (put_all s kvs)"
  by (induction s kvs rule: put_all.induct) (auto intro: put_newer_inv)

lemma put_all_grows:
  "inv s \<Longrightarrow> get s k = Some u \<Longrightarrow> \<exists>w. get (put_all s kvs) k = Some w \<and> (w = u \<or> older u w)"
proof (induction s kvs arbitrary: u rule: put_all.induct)
  case (1 s)
  then show ?case by simp
next
  case (2 s k1 v kvs)
  from put_newer_grows [OF 2(2,3)] obtain w
    where w: "get (fst (put_newer s k1 v)) k = Some w" "w = u \<or> older u w" by blast
  from 2(1) [OF put_newer_inv [OF 2(2)] w(1)] obtain x
    where "get (put_all (fst (put_newer s k1 v)) kvs) k = Some x" "x = w \<or> older w x" by blast
  with w(2) show ?case by (auto intro: older_trans)
qed

text \<open>Nothing newer than the accepted record is lost: a refused write is not newer.\<close>

lemma put_newer_refused_not_newer:
  assumes "inv s" and "get s k = Some u" and "put_newer s k v = (s', False)"
  shows "\<not> older u v"
  using assms by (auto simp: put_newer_def)

lemma put_newer_again: "inv s \<Longrightarrow> put_newer s k v = (s', True) \<Longrightarrow> put_newer s' k v = (s', False)"
  using put_newer_done [of s k v s'] older_irrefl by (simp add: put_newer_def)

end

end
