(* ===== verification/DbMgrStore.thy ===== *)
theory DbMgrStore
  imports DbMgrLaws RecordStore
begin

text \<open>
  The database manager as a store: what \<open>find\<close>, \<open>insert\<close>, \<open>update\<close> and \<open>remove\<close> of a Rrset
  do, read as a map from (label, type) to (version, TTL, data) for one zone, and the
  interpretation of the versioned store on them. A zone holds at most one version of a record as
  long as its clients write as \<open>put_newer\<close> does.
\<close>

section \<open>Rows and keys\<close>

type_synonym row_key = "int \<times> blob \<times> blob"

definition rr_key :: "rr_row \<Rightarrow> row_key" where
  "rr_key r = (r_zone r, r_label r, r_type r)"

definition one_version :: "dbmgr \<Rightarrow> bool" where
  "one_version d \<longleftrightarrow> distinct (map rr_key (rrsets (m_tables d)))"

definition rr_at :: "dbmgr \<Rightarrow> row_key \<Rightarrow> rr_row option" where
  "rr_at d k = map_of (map (\<lambda>r. (rr_key r, r)) (rrsets (m_tables d))) k"

text \<open>The key of a Rrset object in a zone with a known id.\<close>

definition key_of :: "ndn \<Rightarrow> zone \<Rightarrow> name \<Rightarrow> component \<Rightarrow> row_key" where
  "key_of L z l ty = (col_of_id (zone_id z), nameWire L l, compWire L ty)"

lemma key_of_inj: "name_codec L \<Longrightarrow> key_of L z l ty = key_of L z l' ty' \<longleftrightarrow> l = l' \<and> ty = ty'"
  by (simp add: key_of_def)

lemma map_of_key_Some: "map_of (map (\<lambda>r. (f r, r)) rs) k = Some r \<Longrightarrow> r \<in> set rs \<and> f r = k"
  by (auto dest!: map_of_SomeD)

lemma map_of_key_None: "map_of (map (\<lambda>r. (f r, r)) rs) k = None \<longleftrightarrow> k \<notin> f ` set rs"
  by (auto simp: map_of_eq_None_iff image_comp comp_def)

lemma map_of_key_unique:
  "distinct (map f rs) \<Longrightarrow> r \<in> set rs \<Longrightarrow> map_of (map (\<lambda>r. (f r, r)) rs) (f r) = Some r"
  by (intro map_of_is_SomeI) (auto simp: comp_def)

lemma rr_at_Some: "rr_at d k = Some r \<Longrightarrow> r \<in> set (rrsets (m_tables d)) \<and> rr_key r = k"
  unfolding rr_at_def by (rule map_of_key_Some)

lemma rr_at_None: "rr_at d k = None \<longleftrightarrow> (\<forall>r \<in> set (rrsets (m_tables d)). rr_key r \<noteq> k)"
  by (auto simp: rr_at_def map_of_key_None)

lemma rr_at_member: "one_version d \<Longrightarrow> r \<in> set (rrsets (m_tables d)) \<Longrightarrow> rr_at d (rr_key r) = Some r"
  unfolding rr_at_def one_version_def by (rule map_of_key_unique)

text \<open>A query by key finds the row, whatever the order of the scan.\<close>

lemma scan_by_key:
  assumes "mset (scan rs) = mset rs" and "distinct (map f rs)"
  shows "filter (\<lambda>r. f r = k) (scan rs) =
           (case map_of (map (\<lambda>r. (f r, r)) rs) k of None \<Rightarrow> [] | Some r \<Rightarrow> [r])"
proof (cases "map_of (map (\<lambda>r. (f r, r)) rs) k")
  case None
  moreover have "set (scan rs) = set rs" using assms(1) by (rule mset_eq_setD)
  moreover have "k \<notin> f ` set rs" using None by (simp add: map_of_key_None)
  ultimately have "filter (\<lambda>r. f r = k) (scan rs) = []" by (auto simp: filter_empty_conv)
  with None show ?thesis by simp
next
  case (Some r)
  then have r: "r \<in> set rs" "f r = k" using map_of_key_Some by force+
  have "mset (filter (\<lambda>r. f r = k) (scan rs)) = mset (filter (\<lambda>r. f r = k) rs)"
    by (simp add: assms(1))
  also have "filter (\<lambda>r. f r = k) rs = [r]"
    using filter_unique_key [OF assms(2) r(1)] r(2) by simp
  finally show ?thesis using Some by (simp add: mset_eq_single)
qed

section \<open>What a row holds\<close>

definition ver_of :: "ndn \<Rightarrow> rr_row \<Rightarrow> component" where
  "ver_of L row = (case compDecode L (r_version row) of Some c \<Rightarrow> c | None \<Rightarrow> no_component)"

definition blk_of :: "ndn \<Rightarrow> rr_row \<Rightarrow> block" where
  "blk_of L row = (case blockDecode L (r_data row) of Some b \<Rightarrow> b | None \<Rightarrow> no_block)"

definition filled :: "ndn \<Rightarrow> rr_row \<Rightarrow> rrset \<Rightarrow> rrset" where
  "filled L row r = r\<lparr>rrset_id := nat (r_id row), rrset_ttl := r_ttl row,
                      rrset_version := ver_of L row, rrset_data := blk_of L row\<rparr>"

lemma filled_simps [simp]:
  "rrset_id (filled L row r) = nat (r_id row)" "rrset_zone (filled L row r) = rrset_zone r"
  "rrset_label (filled L row r) = rrset_label r" "rrset_type (filled L row r) = rrset_type r"
  "rrset_version (filled L row r) = ver_of L row" "rrset_ttl (filled L row r) = r_ttl row"
  "rrset_data (filled L row r) = blk_of L row"
  by (simp_all add: filled_def)

lemma row_decodes:
  assumes "name_codec L" "block_codec L" "rr_row_ok L row"
  shows "compDecode L (r_version row) = Some (ver_of L row)" "blockDecode L (r_data row) = Some (blk_of L row)"
    "r_version row = compWire L (ver_of L row)" "r_data row = blockWire L (blk_of L row)"
  using assms by (auto simp: rr_row_ok_def ver_of_def blk_of_def name_codecD block_codecD)

lemma load_row_ok:
  assumes "name_codec L" "block_codec L" "rr_row_ok L row"
  shows "load_row L row r = Inr (filled L row r)"
  using assms row_decodes [OF assms] by (simp add: load_row_def filled_def rr_row_ok_def)

lemma row_of_simps [simp]:
  "r_id (row_of L rid z r) = rid" "r_zone (row_of L rid z r) = col_of_id (zone_id z)"
  "r_label (row_of L rid z r) = nameWire L (rrset_label r)" "r_type (row_of L rid z r) = compWire L (rrset_type r)"
  "r_ttl (row_of L rid z r) = rrset_ttl r"
  by (simp_all add: row_of_def saveName_def)

lemma row_of_decoded:
  assumes "name_codec L" "block_codec L"
  shows "ver_of L (row_of L rid z r) = rrset_version r" "blk_of L (row_of L rid z r) = rrset_data r"
  using assms by (simp_all add: ver_of_def blk_of_def row_of_def name_codecD block_codecD)

section \<open>The lookups\<close>

text \<open>What the clients keep true: a working connection, the invariant, one version per record.\<close>

definition db_good :: "ndn \<Rightarrow> sqlite \<Rightarrow> dbmgr \<Rightarrow> bool" where
  "db_good L E d \<longleftrightarrow> name_codec L \<and> block_codec L \<and> sqlite_sound E \<and> sqlite_reliable E \<and>
                    m_conn d \<and> db_inv L d \<and> one_version d"

lemma db_goodD:
  assumes "db_good L E d"
  shows "name_codec L" "block_codec L" "sqlite_sound E" "sqlite_reliable E" "m_conn d" "db_inv L d"
    "one_version d" "\<And>s. prepare E s d" "\<And>s t. stepOk E s t"
  using assms by (simp_all add: db_good_def)

lemma db_good_rows: "db_good L E d \<Longrightarrow> r \<in> set (rrsets (m_tables d)) \<Longrightarrow> rr_row_ok L r"
  by (simp add: db_good_def db_inv_def rr_rows_ok_def)

lemma findRrset_found:
  assumes g: "db_good L E d" and z: "rrset_zone r = Some (a, z)" "zone_id z \<noteq> 0"
  shows "findRrset L E d r =
           (d, Inr (case rr_at d (key_of L z (rrset_label r) (rrset_type r)) of
                      None \<Rightarrow> (r\<lparr>rrset_id := 0\<rparr>, False)
                    | Some row \<Rightarrow> (filled L row r, True)))"
proof -
  note D = db_goodD [OF g]
  let ?k = "key_of L z (rrset_label r) (rrset_type r)"
  have r: "r\<lparr>rrset_zone := Some (a, z)\<rparr> = r" using z(1) by simp
  have "filter (\<lambda>row. r_zone row = col_of_id (zone_id z) \<and> r_label row = saveName L (rrset_label r)
             \<and> r_type row = compWire L (rrset_type r)) (scanRrsets E (rrsets (m_tables d)))
        = filter (\<lambda>row. rr_key row = ?k) (scanRrsets E (rrsets (m_tables d)))"
    by (simp add: rr_key_def key_of_def saveName_def)
  also have "\<dots> = (case rr_at d ?k of None \<Rightarrow> [] | Some row \<Rightarrow> [row])"
    unfolding rr_at_def using D(7)
    by (intro scan_by_key sqlite_soundD(3) [OF D(3)]) (simp add: one_version_def)
  finally have rows: "filter (\<lambda>row. r_zone row = col_of_id (zone_id z) \<and> r_label row = saveName L (rrset_label r)
             \<and> r_type row = compWire L (rrset_type r)) (scanRrsets E (rrsets (m_tables d)))
        = (case rr_at d ?k of None \<Rightarrow> [] | Some row \<Rightarrow> [row])" .
  show ?thesis
  proof (cases "rr_at d ?k")
    case None
    with rows D(8,9) z r show ?thesis by (simp add: findRrset_def with_zone_def first_row_def Let_def)
  next
    case (Some row)
    then have "rr_row_ok L row" using rr_at_Some db_good_rows [OF g] by blast
    moreover from this have "0 < r_id row" by (simp add: rr_row_ok_def)
    ultimately show ?thesis using rows D(8,9) z r Some
      by (simp add: findRrset_def with_zone_def first_row_def Let_def load_row_ok [OF D(1,2)])
  qed
qed

text \<open>
  The first row in descending order of the label is the greatest label below the one asked for.
\<close>

lemma hd_rev_sort_key:
  assumes "rows \<noteq> []"
  shows "hd (rev (sort_key f rows)) \<in> set rows \<and> (\<forall>x \<in> set rows. f x \<le> f (hd (rev (sort_key f rows))))"
proof -
  let ?s = "sort_key f rows"
  have ne: "?s \<noteq> []" using assms by (metis length_0_conv length_sort)
  have s: "sorted (map f ?s)" by simp
  have "f x \<le> f (last ?s)" if "x \<in> set ?s" for x
  proof -
    have "map f ?s = map f (butlast ?s) @ [f (last ?s)]"
      using ne by (metis append_butlast_last_id map_append list.map(1,2))
    with s have "\<forall>y \<in> set (map f (butlast ?s)). y \<le> f (last ?s)"
      by (metis sorted_append list.set_intros(1))
    moreover have "x \<in> set (butlast ?s) \<or> x = last ?s"
      using that ne by (metis append_butlast_last_id in_set_conv_decomp_first rotate1.simps(2) set_ConsD set_rotate1)
    ultimately show ?thesis by auto
  qed
  moreover have "last ?s \<in> set rows" using ne last_in_set [OF ne] by simp
  ultimately show ?thesis using ne by (simp add: hd_rev)
qed

definition below :: "ndn \<Rightarrow> zone \<Rightarrow> name \<Rightarrow> component \<Rightarrow> rr_row \<Rightarrow> bool" where
  "below L z l ty row \<longleftrightarrow> r_zone row = col_of_id (zone_id z) \<and> r_label row < nameWire L l \<and>
                         r_type row = compWire L ty"

lemma findLowerBound_found:
  assumes g: "db_good L E d" and z: "rrset_zone r = Some (a, z)" "zone_id z \<noteq> 0"
    and row0: "row0 \<in> set (rrsets (m_tables d))" "below L z (rrset_label r) (rrset_type r) row0"
  shows "\<exists>row \<in> set (rrsets (m_tables d)).
           below L z (rrset_label r) (rrset_type r) row \<and>
           (\<forall>x \<in> set (rrsets (m_tables d)). below L z (rrset_label r) (rrset_type r) x \<longrightarrow> r_label x \<le> r_label row) \<and>
           findLowerBound L E d r = (d, Inr (filled L row r, True))"
proof -
  note D = db_goodD [OF g]
  define rows where "rows = filter (below L z (rrset_label r) (rrset_type r)) (scanRrsets E (rrsets (m_tables d)))"
  define row where "row = hd (rev (sort_key r_label rows))"
  have set_rows: "set rows = {x \<in> set (rrsets (m_tables d)). below L z (rrset_label r) (rrset_type r) x}"
    by (auto simp: rows_def sqlite_soundD(6) [OF D(3)])
  with row0 have "rows \<noteq> []" by auto
  note mx = hd_rev_sort_key [OF this, of r_label, folded row_def]
  from \<open>rows \<noteq> []\<close> have "rev (sort_key r_label rows) \<noteq> []"
    by (metis length_0_conv length_rev length_sort)
  then obtain rest where rest: "rev (sort_key r_label rows) = row # rest"
    unfolding row_def by (metis list.collapse)
  have r: "r\<lparr>rrset_zone := Some (a, z)\<rparr> = r" using z(1) by simp
  have pred: "(\<lambda>row. r_zone row = col_of_id (zone_id z) \<and> r_label row < saveName L (rrset_label r)
      \<and> r_type row = compWire L (rrset_type r)) = below L z (rrset_label r) (rrset_type r)"
    by (auto simp: below_def saveName_def)
  have ok: "rr_row_ok L row" using mx set_rows db_good_rows [OF g] by blast
  then have "0 < r_id row" by (simp add: rr_row_ok_def)
  then have "findLowerBound L E d r = (d, Inr (filled L row r, True))"
    using rest D(8,9) z r
    by (simp add: findLowerBound_def with_zone_def first_row_def Let_def pred flip: rows_def)
       (simp add: load_row_ok [OF D(1,2) ok])
  with mx set_rows show ?thesis by (intro bexI [of _ row]) auto
qed

lemma findLowerBound_none:
  assumes g: "db_good L E d" and z: "rrset_zone r = Some (a, z)" "zone_id z \<noteq> 0"
    and none: "\<forall>row \<in> set (rrsets (m_tables d)). \<not> below L z (rrset_label r) (rrset_type r) row"
  shows "findLowerBound L E d r = (d, Inr (r\<lparr>rrset_id := 0\<rparr>, False))"
proof -
  note D = db_goodD [OF g]
  have r: "r\<lparr>rrset_zone := Some (a, z)\<rparr> = r" using z(1) by simp
  have "filter (\<lambda>row. r_zone row = col_of_id (zone_id z) \<and> r_label row < saveName L (rrset_label r)
      \<and> r_type row = compWire L (rrset_type r)) (scanRrsets E (rrsets (m_tables d))) = []"
    using none by (auto simp: filter_empty_conv sqlite_soundD(6) [OF D(3)] below_def saveName_def)
  then show ?thesis using D(8,9) z r
    by (simp add: findLowerBound_def with_zone_def first_row_def Let_def)
qed

section \<open>The writes\<close>

lemma index_key_rr_key: "distinct (map rr_key rs) \<Longrightarrow> distinct (map index_key rs)"
  by (induction rs) (auto simp: rr_key_def index_key_def)

lemma rr_key_update_row [simp]: "rr_key (update_row L r row) = rr_key row"
  by (simp add: rr_key_def update_row_def)

lemma rr_key_row_of: "rr_key (row_of L rid z r) = key_of L z (rrset_label r) (rrset_type r)"
  by (simp add: rr_key_def key_of_def)

lemma insertRrset_new:
  assumes g: "db_good L E d" and r: "rrset_id r = 0" "rrset_zone r = Some (a, z)" "zone_id z \<noteq> 0"
    and new: "rr_at d (key_of L z (rrset_label r) (rrset_type r)) = None"
    and room: "newRowid E (map r_id (rrsets (m_tables d))) = Some rid"
    and fk: "foreignKeys E \<longrightarrow> col_of_id (zone_id z) \<in> set (map z_id (zones (m_tables d)))"
  shows "insertRrset L E d r =
           (set_rrsets (rrsets (m_tables d) @ [row_of L rid z r]) d,
            Inr (r\<lparr>rrset_id := nat rid\<rparr>))"
proof -
  note D = db_goodD [OF g]
  note fresh = sqlite_soundD(7) [OF D(3) room]
  have "index_key (row_of L rid z r) \<notin> set (map index_key (rrsets (m_tables d)))"
    using new unfolding rr_at_None rr_key_row_of [symmetric, of L _ _ rid]
    by (auto simp: rr_key_def index_key_def)
  then show ?thesis
    using D(8,9) r fresh fk by (simp add: insertRrset_def insert_row_def Let_def room)
qed

lemma insertRrset_good:
  assumes g: "db_good L E d"
    and new: "rr_at d (key_of L z (rrset_label r) (rrset_type r)) = None"
    and room: "newRowid E (map r_id (rrsets (m_tables d))) = Some rid"
  shows "db_good L E (set_rrsets (rrsets (m_tables d) @ [row_of L rid z r]) d)"
    and "rr_at (set_rrsets (rrsets (m_tables d) @ [row_of L rid z r]) d) =
           (rr_at d)(key_of L z (rrset_label r) (rrset_type r) \<mapsto> row_of L rid z r)"
proof -
  note D = db_goodD [OF g]
  note fresh = sqlite_soundD(7) [OF D(3) room]
  have k: "rr_key (row_of L rid z r) \<notin> set (map rr_key (rrsets (m_tables d)))"
    using new by (auto simp: rr_at_None rr_key_row_of)
  with D(7) have one: "distinct (map rr_key (rrsets (m_tables d) @ [row_of L rid z r]))"
    by (simp add: one_version_def)
  have "rr_rows_ok L (rrsets (m_tables d) @ [row_of L rid z r])"
    using D(6) fresh index_key_rr_key [OF one] by (auto simp: db_inv_def rr_rows_ok_def row_of_ok)
  with g one show "db_good L E (set_rrsets (rrsets (m_tables d) @ [row_of L rid z r]) d)"
    by (simp add: db_good_def db_inv_def one_version_def)
  have "rr_at (set_rrsets (rrsets (m_tables d) @ [row_of L rid z r]) d) x =
          (if x = rr_key (row_of L rid z r) then Some (row_of L rid z r) else rr_at d x)" for x
  proof (cases "x = rr_key (row_of L rid z r)")
    case True
    with new show ?thesis by (simp add: rr_at_def map_add_def rr_key_row_of)
  next
    case False
    then show ?thesis by (simp add: rr_at_def map_add_def split: option.splits)
  qed
  then show "rr_at (set_rrsets (rrsets (m_tables d) @ [row_of L rid z r]) d) =
           (rr_at d)(key_of L z (rrset_label r) (rrset_type r) \<mapsto> row_of L rid z r)"
    by (auto simp: rr_key_row_of)
qed

lemma updateRrset_found:
  assumes g: "db_good L E d" and row: "row \<in> set (rrsets (m_tables d))"
    and r: "rrset_id r = nat (r_id row)" "rrset_zone r \<noteq> None"
  shows "updateRrset L E d r = (set_rrsets (map (update_row L r) (rrsets (m_tables d))) d, Inr ())"
    and "db_good L E (set_rrsets (map (update_row L r) (rrsets (m_tables d))) d)"
    and "rr_at (set_rrsets (map (update_row L r) (rrsets (m_tables d))) d) =
           (rr_at d)(rr_key row \<mapsto> update_row L r row)"
proof -
  note D = db_goodD [OF g]
  let ?rs = "map (update_row L r) (rrsets (m_tables d))"
  have keys: "map rr_key ?rs = map rr_key (rrsets (m_tables d))" by simp
  with D(7) have one: "distinct (map rr_key ?rs)" unfolding one_version_def by (simp only: keys)
  have pos: "0 < r_id row" "r_id row < 2 ^ 63" using db_good_rows [OF g row] by (simp_all add: rr_row_ok_def)
  then show "updateRrset L E d r = (set_rrsets ?rs d, Inr ())"
    using D(8,9) r index_key_rr_key [OF one] by (simp add: updateRrset_def Let_def)
  show "db_good L E (set_rrsets ?rs d)"
    using g one rr_rows_ok_update [OF _ index_key_rr_key [OF one]]
    by (simp add: db_good_def db_inv_def one_version_def)
  have same: "update_row L r x = x" if "x \<in> set (rrsets (m_tables d))" "x \<noteq> row" for x
  proof -
    have "distinct (map r_id (rrsets (m_tables d)))" using D(6) by (simp add: db_inv_def rr_rows_ok_def)
    then have "r_id x \<noteq> r_id row" using distinct_map_inj [of r_id _ x row] that row by blast
    then show ?thesis using pos r(1) by (simp add: update_row_def nat_less_iff)
  qed
  have "rr_at (set_rrsets ?rs d) k = ((rr_at d)(rr_key row \<mapsto> update_row L r row)) k" for k
  proof (cases "\<exists>x \<in> set (rrsets (m_tables d)). rr_key x = k")
    case True
    then obtain x where x: "x \<in> set (rrsets (m_tables d))" "rr_key x = k" by blast
    have "one_version (set_rrsets ?rs d)" using one by (simp add: one_version_def)
    from rr_at_member [OF this, of "update_row L r x"] x
    have 1: "rr_at (set_rrsets ?rs d) k = Some (update_row L r x)" by simp
    show ?thesis
    proof (cases "x = row")
      case True
      with 1 x show ?thesis by simp
    next
      case False
      have "rr_key x \<noteq> rr_key row"
        using distinct_map_inj [OF D(7) [unfolded one_version_def] x(1) row] False by blast
      moreover have "rr_at d k = Some x" using rr_at_member [OF D(7) x(1)] x(2) by simp
      ultimately show ?thesis using 1 x(2) by (simp add: same [OF x(1) False])
    qed
  next
    case False
    then have "rr_at d k = None" "rr_at (set_rrsets ?rs d) k = None" by (auto simp: rr_at_None)
    with False row show ?thesis by auto
  qed
  then show "rr_at (set_rrsets ?rs d) = (rr_at d)(rr_key row \<mapsto> update_row L r row)" by blast
qed

lemma removeRrset_found:
  assumes g: "db_good L E d" and row: "row \<in> set (rrsets (m_tables d))" and r: "rrset_id r = nat (r_id row)"
  defines "rs \<equiv> filter (\<lambda>x. r_id x \<noteq> r_id row) (rrsets (m_tables d))"
  shows "removeRrset E d r = (set_rrsets rs d, Inr (Rrset_new (rrset_zone r)))"
    and "db_good L E (set_rrsets rs d)"
    and "rr_at (set_rrsets rs d) = (rr_at d)(rr_key row := None)"
proof -
  note D = db_goodD [OF g]
  have pos: "0 < r_id row" "r_id row < 2 ^ 63" using db_good_rows [OF g row] by (simp_all add: rr_row_ok_def)
  then show "removeRrset E d r = (set_rrsets rs d, Inr (Rrset_new (rrset_zone r)))"
    using D(8,9) r by (simp add: removeRrset_def Let_def rs_def nat_less_iff)
  have one: "distinct (map rr_key rs)"
    using D(7) by (simp add: rs_def one_version_def distinct_map_filterI)
  with g show "db_good L E (set_rrsets rs d)"
    by (simp add: db_good_def db_inv_def one_version_def rs_def rr_rows_ok_filter)
  have ids: "distinct (map r_id (rrsets (m_tables d)))" using D(6) by (simp add: db_inv_def rr_rows_ok_def)
  have key: "distinct (map rr_key (rrsets (m_tables d)))" using D(7) by (simp add: one_version_def)
  have set: "set rs = set (rrsets (m_tables d)) - {row}"
    using distinct_map_inj [OF ids] row by (auto simp: rs_def)
  have "rr_at (set_rrsets rs d) k = ((rr_at d)(rr_key row := None)) k" for k
  proof (cases "\<exists>x \<in> set rs. rr_key x = k")
    case True
    then obtain x where x: "x \<in> set rs" "rr_key x = k" by blast
    then have "rr_key x \<noteq> rr_key row" using set distinct_map_inj [OF key] row by auto
    moreover have "rr_at (set_rrsets rs d) k = Some x"
      using rr_at_member [of "set_rrsets rs d" x] one x by (simp add: one_version_def)
    moreover have "rr_at d k = Some x" using rr_at_member [OF D(7), of x] x set by auto
    ultimately show ?thesis using x by auto
  next
    case False
    then have "rr_at (set_rrsets rs d) k = None" by (auto simp: rr_at_None)
    moreover have "k \<noteq> rr_key row \<Longrightarrow> rr_at d k = None" using False set by (auto simp: rr_at_None)
    ultimately show ?thesis by auto
  qed
  then show "rr_at (set_rrsets rs d) = (rr_at d)(rr_key row := None)" by blast
qed

section \<open>The database manager is a versioned store\<close>

text \<open>
  The operations of one zone as its clients use them: a Rrset object with label and type is
  looked up; a new one is filled and inserted; a found one gets its new contents and is updated,
  or is removed.
\<close>

type_synonym rr_value = "component \<times> int \<times> block"

definition rr_object :: "zone_ptr \<Rightarrow> name \<times> component \<Rightarrow> rrset" where
  "rr_object p k = (Rrset_new (Some p))\<lparr>rrset_label := fst k, rrset_type := snd k\<rparr>"

definition rr_fill :: "rr_value \<Rightarrow> rrset \<Rightarrow> rrset" where
  "rr_fill v r = r\<lparr>rrset_version := fst v, rrset_ttl := fst (snd v), rrset_data := snd (snd v)\<rparr>"

definition db_get :: "ndn \<Rightarrow> sqlite \<Rightarrow> zone_ptr \<Rightarrow> dbmgr \<Rightarrow> name \<times> component \<Rightarrow> rr_value option" where
  "db_get L E p d k =
     (case snd (findRrset L E d (rr_object p k)) of
        Inr (r, True) \<Rightarrow> Some (rrset_version r, rrset_ttl r, rrset_data r)
      | _ \<Rightarrow> None)"

definition db_ins :: "ndn \<Rightarrow> sqlite \<Rightarrow> zone_ptr \<Rightarrow> dbmgr \<Rightarrow> name \<times> component \<Rightarrow> rr_value \<Rightarrow> dbmgr \<times> bool" where
  "db_ins L E p d k v =
     (case insertRrset L E d (rr_fill v (rr_object p k)) of (d', Inr _) \<Rightarrow> (d', True) | (d', Inl _) \<Rightarrow> (d', False))"

definition db_upd :: "ndn \<Rightarrow> sqlite \<Rightarrow> zone_ptr \<Rightarrow> dbmgr \<Rightarrow> name \<times> component \<Rightarrow> rr_value \<Rightarrow> dbmgr" where
  "db_upd L E p d k v =
     (case snd (findRrset L E d (rr_object p k)) of
        Inr (r, True) \<Rightarrow> fst (updateRrset L E d (rr_fill v r))
      | _ \<Rightarrow> d)"

definition db_del :: "ndn \<Rightarrow> sqlite \<Rightarrow> zone_ptr \<Rightarrow> dbmgr \<Rightarrow> name \<times> component \<Rightarrow> dbmgr" where
  "db_del L E p d k =
     (case snd (findRrset L E d (rr_object p k)) of
        Inr (r, True) \<Rightarrow> fst (removeRrset E d r)
      | _ \<Rightarrow> d)"

definition store_inv :: "ndn \<Rightarrow> sqlite \<Rightarrow> zone_ptr \<Rightarrow> dbmgr \<Rightarrow> bool" where
  "store_inv L E p d \<longleftrightarrow>
     db_good L E d \<and> zone_id (snd p) \<noteq> 0 \<and>
     (foreignKeys E \<longrightarrow> col_of_id (zone_id (snd p)) \<in> set (map z_id (zones (m_tables d))))"

definition older_rr :: "ndn \<Rightarrow> rr_value \<Rightarrow> rr_value \<Rightarrow> bool" where
  "older_rr L u v \<longleftrightarrow> compWire L (fst u) < compWire L (fst v)"

definition row_value :: "ndn \<Rightarrow> rr_row \<Rightarrow> rr_value" where
  "row_value L row = (ver_of L row, r_ttl row, blk_of L row)"

abbreviation obj_key :: "ndn \<Rightarrow> zone_ptr \<Rightarrow> name \<times> component \<Rightarrow> row_key" where
  "obj_key L p k \<equiv> key_of L (snd p) (fst k) (snd k)"

lemma rr_object_simps [simp]:
  "rrset_id (rr_object p k) = 0" "rrset_zone (rr_object p k) = Some p"
  "rrset_label (rr_object p k) = fst k" "rrset_type (rr_object p k) = snd k"
  by (simp_all add: rr_object_def)

lemma rr_fill_simps [simp]:
  "rrset_id (rr_fill v r) = rrset_id r" "rrset_zone (rr_fill v r) = rrset_zone r"
  "rrset_label (rr_fill v r) = rrset_label r" "rrset_type (rr_fill v r) = rrset_type r"
  "rrset_version (rr_fill v r) = fst v" "rrset_ttl (rr_fill v r) = fst (snd v)"
  "rrset_data (rr_fill v r) = snd (snd v)"
  by (simp_all add: rr_fill_def)

lemma findRrset_object:
  assumes "store_inv L E p d"
  shows "findRrset L E d (rr_object p k) =
           (d, Inr (case rr_at d (obj_key L p k) of
                      None \<Rightarrow> (rr_object p k, False) | Some row \<Rightarrow> (filled L row (rr_object p k), True)))"
proof -
  have e: "rr_object p k\<lparr>rrset_id := 0\<rparr> = rr_object p k" by (simp add: rr_object_def Rrset_new_def)
  show ?thesis
    using assms findRrset_found [of L E d "rr_object p k" "fst p" "snd p"]
    by (cases "rr_at d (obj_key L p k)") (simp_all add: store_inv_def e)
qed

lemma db_get_at:
  "store_inv L E p d \<Longrightarrow> db_get L E p d k = map_option (row_value L) (rr_at d (obj_key L p k))"
  by (simp add: db_get_def findRrset_object row_value_def split: option.splits)

lemma row_value_update:
  assumes "name_codec L" "block_codec L" "0 < r_id row" "r_id row < 2 ^ 63"
  shows "row_value L (update_row L (rr_fill v (filled L row r)) row) = v"
  using assms
  by (simp add: row_value_def update_row_def ver_of_def blk_of_def name_codecD block_codecD nat_less_iff)

lemma store_inv_put:
  "store_inv L E p d \<Longrightarrow> db_good L E (set_rrsets rs d) \<Longrightarrow> store_inv L E p (set_rrsets rs d)"
  by (simp add: store_inv_def)

text \<open>A change of one row is a change of one key of the map.\<close>

lemma db_get_upd:
  assumes i: "store_inv L E p d" "store_inv L E p d'" and at: "rr_at d' = (rr_at d)(obj_key L p k := x)"
  shows "db_get L E p d' = (db_get L E p d)(k := map_option (row_value L) x)"
proof
  fix k'
  have "name_codec L" using i(1) by (simp add: store_inv_def db_good_def)
  then have "obj_key L p k' = obj_key L p k \<longleftrightarrow> k' = k" by (cases k; cases k') (simp add: key_of_inj)
  with at show "db_get L E p d' k' = ((db_get L E p d)(k := map_option (row_value L) x)) k'"
    by (simp add: db_get_at i)
qed

lemma insertRrset_full:
  assumes i: "store_inv L E p d" and full: "newRowid E (map r_id (rrsets (m_tables d))) = None"
  shows "insertRrset L E d (rr_fill v (rr_object p k)) = (d, Inl DbMgr_ExecuteError)"
  using assms by (cases p) (simp add: store_inv_def db_good_def insertRrset_def insert_row_def)

lemma db_ins_None:
  assumes i: "store_inv L E p d" and n: "db_get L E p d k = None"
    and room: "newRowid E (map r_id (rrsets (m_tables d))) = Some rid"
    and row_def: "row = row_of L rid (snd p) (rr_fill v (rr_object p k))"
  shows "db_ins L E p d k v = (set_rrsets (rrsets (m_tables d) @ [row]) d, True)"
    and "store_inv L E p (set_rrsets (rrsets (m_tables d) @ [row]) d)"
    and "db_get L E p (set_rrsets (rrsets (m_tables d) @ [row]) d) = (db_get L E p d)(k \<mapsto> v)"
proof -
  let ?r = "rr_fill v (rr_object p k)"
  have g: "db_good L E d" "zone_id (snd p) \<noteq> 0"
    "foreignKeys E \<longrightarrow> col_of_id (zone_id (snd p)) \<in> set (map z_id (zones (m_tables d)))"
    using i by (auto simp: store_inv_def)
  have new: "rr_at d (key_of L (snd p) (rrset_label ?r) (rrset_type ?r)) = None"
    using n by (simp add: db_get_at [OF i])
  have "insertRrset L E d ?r = (set_rrsets (rrsets (m_tables d) @ [row]) d, Inr (?r\<lparr>rrset_id := nat rid\<rparr>))"
    unfolding row_def using g(2,3) insertRrset_new [OF g(1) _ _ _ new room, of "fst p"] by simp
  then show "db_ins L E p d k v = (set_rrsets (rrsets (m_tables d) @ [row]) d, True)"
    by (simp add: db_ins_def)
  note G = insertRrset_good [OF g(1) new room, folded row_def]
  show i': "store_inv L E p (set_rrsets (rrsets (m_tables d) @ [row]) d)"
    by (rule store_inv_put [OF i G(1)])
  have "row_value L row = v"
    using db_goodD(1,2) [OF g(1)] by (simp add: row_value_def row_def row_of_decoded prod_eq_iff)
  with db_get_upd [OF i i', of k "Some row"] G(2)
  show "db_get L E p (set_rrsets (rrsets (m_tables d) @ [row]) d) = (db_get L E p d)(k \<mapsto> v)"
    by simp
qed

interpretation db: versioned_store "store_inv L E p" "db_get L E p" "db_ins L E p" "db_upd L E p"
  "db_del L E p" "older_rr L" for L E p
proof unfold_locales
  fix d d' :: dbmgr and k :: "name \<times> component" and u v w :: rr_value
  show "store_inv L E p d' \<and> db_get L E p d' = (db_get L E p d)(k \<mapsto> v)"
    if "store_inv L E p d" "db_get L E p d k = None" "db_ins L E p d k v = (d', True)"
    using db_ins_None [OF that(1,2) _ refl, of _ v] that insertRrset_full [OF that(1), of v k]
    by (cases "newRowid E (map r_id (rrsets (m_tables d)))") (auto simp: db_ins_def)
  show "d' = d"
    if "store_inv L E p d" "db_get L E p d k = None" "db_ins L E p d k v = (d', False)"
    using db_ins_None [OF that(1,2) _ refl, of _ v] that insertRrset_full [OF that(1), of v k]
    by (cases "newRowid E (map r_id (rrsets (m_tables d)))") (auto simp: db_ins_def)
  {
    assume i: "store_inv L E p d" and u: "db_get L E p d k = Some u"
    then obtain row where row: "rr_at d (obj_key L p k) = Some row" by (auto simp: db_get_at)
    then have mem: "row \<in> set (rrsets (m_tables d))" "rr_key row = obj_key L p k"
      using rr_at_Some by blast+
    have g: "db_good L E d" using i by (simp add: store_inv_def)
    have pos: "0 < r_id row" "r_id row < 2 ^ 63" using db_good_rows [OF g mem(1)] by (simp_all add: rr_row_ok_def)
    let ?r = "filled L row (rr_object p k)"
    let ?q = "rr_fill v ?r"
    have upd: "db_upd L E p d k v = fst (updateRrset L E d ?q)"
      by (simp add: db_upd_def findRrset_object [OF i] row)
    note U = updateRrset_found [OF g mem(1), of ?q, simplified]
    have i': "store_inv L E p (db_upd L E p d k v)"
      using U(2) by (simp add: upd U(1) store_inv_put [OF i])
    moreover have "db_get L E p (db_upd L E p d k v) = (db_get L E p d)(k \<mapsto> v)"
      using db_get_upd [OF i i', of k "Some (update_row L ?q row)"] U(3)
        row_value_update [OF db_goodD(1,2) [OF g] pos]
      by (simp add: upd U(1) mem(2))
    ultimately show "store_inv L E p (db_upd L E p d k v) \<and>
        db_get L E p (db_upd L E p d k v) = (db_get L E p d)(k \<mapsto> v)" ..
    have del: "db_del L E p d k = fst (removeRrset E d ?r)"
      by (simp add: db_del_def findRrset_object [OF i] row)
    note R = removeRrset_found [OF g mem(1), of ?r, simplified]
    have i'': "store_inv L E p (db_del L E p d k)"
      using R(2) by (simp add: del R(1) store_inv_put [OF i])
    moreover have "db_get L E p (db_del L E p d k) = (db_get L E p d)(k := None)"
      using db_get_upd [OF i i'', of k None] R(3) by (simp add: del R(1) mem(2))
    ultimately show "store_inv L E p (db_del L E p d k) \<and>
        db_get L E p (db_del L E p d k) = (db_get L E p d)(k := None)" ..
  }
  show "\<not> older_rr L v v" by (simp add: older_rr_def)
  show "older_rr L u w" if "older_rr L u v" "older_rr L v w" using that by (auto simp: older_rr_def)
qed

end
