(* ===== verification/DbMgrProps.thy ===== *)
theory DbMgrProps
  imports DbMgrStore
begin

text \<open>
  The properties of the database manager its clients see: reads after writes, zone records and
  zone info, the ordered search behind denial of existence, full listings, and what happens when
  a statement fails.
\<close>

section \<open>Listings\<close>

definition lbl_of :: "ndn \<Rightarrow> rr_row \<Rightarrow> name" where
  "lbl_of L row = (case restoreName L (r_label row) of Inr n \<Rightarrow> n | Inl _ \<Rightarrow> [])"

definition typ_of :: "ndn \<Rightarrow> rr_row \<Rightarrow> component" where
  "typ_of L row = (case compDecode L (r_type row) of Some c \<Rightarrow> c | None \<Rightarrow> no_component)"

definition row_rrset :: "ndn \<Rightarrow> zone_ptr \<Rightarrow> rr_row \<Rightarrow> rrset" where
  "row_rrset L p row =
     (filled L row (Rrset_new (Some p)))\<lparr>rrset_label := lbl_of L row, rrset_type := typ_of L row\<rparr>"

lemma row_names:
  assumes "name_codec L" "rr_row_ok L row"
  shows "restoreName L (r_label row) = Inr (lbl_of L row)" "compDecode L (r_type row) = Some (typ_of L row)"
    "r_label row = nameWire L (lbl_of L row)" "r_type row = compWire L (typ_of L row)"
  using assms by (auto simp: rr_row_ok_def lbl_of_def typ_of_def name_codecD)

lemma row_rrset_simps [simp]:
  "rrset_id (row_rrset L p row) = nat (r_id row)" "rrset_zone (row_rrset L p row) = Some p"
  "rrset_label (row_rrset L p row) = lbl_of L row" "rrset_type (row_rrset L p row) = typ_of L row"
  "rrset_version (row_rrset L p row) = ver_of L row" "rrset_ttl (row_rrset L p row) = r_ttl row"
  "rrset_data (row_rrset L p row) = blk_of L row"
  by (simp_all add: row_rrset_def)

lemma load_rows_ok:
  assumes "name_codec L" "block_codec L" "\<forall>row \<in> set rows. rr_row_ok L row"
  shows "load_rows L p rows = Inr (map (row_rrset L p) rows)"
  using assms(3)
  by (induction rows)
     (simp_all add: load_row_ok [OF assms(1,2)] row_names(1,2) [OF assms(1)] row_rrset_def)

definition zone_rows :: "zone \<Rightarrow> dbmgr \<Rightarrow> rr_row list" where
  "zone_rows z d = filter (\<lambda>row. r_zone row = col_of_id (zone_id z)) (rrsets (m_tables d))"

lemma findRrsets_found:
  assumes g: "db_good L E d" and z: "zone_id (snd p) \<noteq> 0"
  obtains rows where "findRrsets L E d p = (d, Inr (snd p, map (row_rrset L p) rows))"
    "mset rows = mset (zone_rows (snd p) d)" "sorted (map r_label rows)" "\<forall>row \<in> set rows. rr_row_ok L row"
proof -
  note D = db_goodD [OF g]
  define rows where "rows = sort_key r_label (filter (\<lambda>row. r_zone row = col_of_id (zone_id (snd p)))
                                     (scanRrsets E (rrsets (m_tables d))))"
  have m: "mset rows = mset (zone_rows (snd p) d)"
    by (simp add: rows_def zone_rows_def sqlite_soundD(3) [OF D(3)])
  then have "set rows = set (zone_rows (snd p) d)" by (rule mset_eq_setD)
  then have ok: "\<forall>row \<in> set rows. rr_row_ok L row"
    using db_good_rows [OF g] by (auto simp: zone_rows_def)
  have "findRrsets L E d p = (d, Inr (snd p, map (row_rrset L p) rows))"
    using D(8,9) z load_rows_ok [OF D(1,2) ok, of p]
    by (simp add: findRrsets_def find_if_new_def Let_def flip: rows_def)
  moreover have "sorted (map r_label rows)" by (simp add: rows_def)
  ultimately show thesis using that m ok by blast
qed

lemma nameLess_le:
  "name_codec L \<Longrightarrow> nameWire L m \<le> nameWire L n \<longleftrightarrow> nameLess L m n \<or> m = n"
  by (auto simp: name_codecD(5) le_less)

lemma sorted_wrt_row_rrsets:
  assumes L: "name_codec L" and ok: "\<forall>row \<in> set rows. rr_row_ok L row" and s: "sorted (map r_label rows)"
  shows "sorted_wrt (\<lambda>a b. \<not> nameLess L (rrset_label b) (rrset_label a)) (map (row_rrset L p) rows)"
proof -
  have "sorted_wrt (\<lambda>a b. r_label a \<le> r_label b) rows" using s by (simp add: sorted_wrt_map)
  then have "sorted_wrt (\<lambda>a b. \<not> nameLess L (lbl_of L b) (lbl_of L a)) rows"
    by (rule sorted_wrt_mono_rel [rotated])
       (use ok row_names(3) [OF L] in \<open>auto simp: name_codecD(5) [OF L] not_less\<close>)
  then show ?thesis by (simp add: sorted_wrt_map)
qed

text \<open>
  \<open>findRrsets\<close> does not throw on a database the code wrote: it returns one Rrset per row of the
  zone and nothing else, in the canonical order of the labels.
\<close>

theorem findRrsets_complete:
  assumes g: "db_good L E d" and z: "zone_id (snd p) \<noteq> 0"
  shows "\<exists>rs. findRrsets L E d p = (d, Inr (snd p, rs)) \<and>
              mset rs = image_mset (row_rrset L p) (mset (zone_rows (snd p) d)) \<and>
              sorted_wrt (\<lambda>a b. \<not> nameLess L (rrset_label b) (rrset_label a)) rs"
proof -
  obtain rows where F: "findRrsets L E d p = (d, Inr (snd p, map (row_rrset L p) rows))"
    "mset rows = mset (zone_rows (snd p) d)" "sorted (map r_label rows)" "\<forall>row \<in> set rows. rr_row_ok L row"
    by (rule findRrsets_found [OF g z])
  then show ?thesis using sorted_wrt_row_rrsets [OF db_goodD(1) [OF g] F(4,3), of p]
    by (intro exI [of _ "map (row_rrset L p) rows"]) simp
qed

text \<open>An opened database with one zone and no records, for witnesses.\<close>

definition db_sample :: dbmgr where
  "db_sample = \<lparr>m_dbFile = ''db'', m_conn = True,
                m_tables = \<lparr>zones = [\<lparr>z_id = 1, z_name = nameWire ndn0 [generic ''net''], z_ttl = 3600\<rparr>],
                            zone_info = [], rrsets = []\<rparr>\<rparr>"

definition zone_sample :: zone_ptr where
  "zone_sample = (1, \<lparr>zone_id = 1, zone_name = [generic ''net''], zone_ttl = 3600\<rparr>)"

lemma zone_rows_ok_single:
  "0 < i \<Longrightarrow> i < 2 ^ 63 \<Longrightarrow> to_int32 t = t \<Longrightarrow> zone_rows_ok L [\<lparr>z_id = i, z_name = nameWire L n, z_ttl = t\<rparr>]"
  unfolding zone_rows_ok_def by auto

lemma db_sample_good: "store_inv ndn0 sqlite0 zone_sample db_sample"
  by (simp add: store_inv_def db_good_def db_sample_def zone_sample_def ndn0_name_codec ndn0_block_codec
      sqlite0_sound sqlite0_reliable db_inv_def one_version_def rows_ok_empty zone_rows_ok_single
      del: nameWire_simps)

lemma db_sample_get: "db_get ndn0 sqlite0 zone_sample db_sample k = None"
proof -
  have "rr_at db_sample x = None" for x by (simp add: rr_at_None db_sample_def)
  then show ?thesis by (simp add: db_get_at [OF db_sample_good])
qed

theorem findRrsets_complete_witness:
  "\<exists>rs. findRrsets ndn0 sqlite0 db_sample zone_sample = (db_sample, Inr (snd zone_sample, rs)) \<and>
        mset rs = image_mset (row_rrset ndn0 zone_sample) (mset (zone_rows (snd zone_sample) db_sample)) \<and>
        sorted_wrt (\<lambda>a b. \<not> nameLess ndn0 (rrset_label b) (rrset_label a)) rs"
proof -
  have "db_good ndn0 sqlite0 db_sample" "zone_id (snd zone_sample) \<noteq> 0"
    using db_sample_good by (simp_all add: store_inv_def)
  then show ?thesis by (rule findRrsets_complete)
qed

section \<open>Records of a zone as a map\<close>

lemma insertRrset_absent:
  assumes i: "store_inv L E p d" and n: "db_get L E p d k = None"
  shows "case insertRrset L E d (rr_fill v (rr_object p k)) of
           (d', Inr _) \<Rightarrow> store_inv L E p d' \<and> db_get L E p d' = (db_get L E p d)(k \<mapsto> v)
         | (d', Inl e) \<Rightarrow> d' = d \<and> e = DbMgr_ExecuteError \<and> newRowid E (map r_id (rrsets (m_tables d))) = None"
proof (cases "newRowid E (map r_id (rrsets (m_tables d)))")
  case None
  then show ?thesis using insertRrset_full [OF i None, of v k] by simp
next
  case (Some rid)
  note I = db_ins_None [OF i n Some refl, of v]
  from I(1) obtain r where "insertRrset L E d (rr_fill v (rr_object p k)) =
      (set_rrsets (rrsets (m_tables d) @ [row_of L rid (snd p) (rr_fill v (rr_object p k))]) d, Inr r)"
    by (auto simp: db_ins_def split: prod.splits sum.splits)
  with I(2,3) show ?thesis by simp
qed

lemma findRrset_present:
  assumes i: "store_inv L E p d" and u: "db_get L E p d k = Some u"
  obtains r where "findRrset L E d (rr_object p k) = (d, Inr (r, True))"
    "(rrset_version r, rrset_ttl r, rrset_data r) = u"
    "rrset_label r = fst k" "rrset_type r = snd k" "rrset_zone r = Some p" "rrset_id r \<noteq> 0"
    "\<And>v. updateRrset L E d (rr_fill v r) = (db_upd L E p d k v, Inr ())"
    "removeRrset E d r = (db_del L E p d k, Inr (Rrset_new (Some p)))"
proof -
  from u obtain row where row: "rr_at d (obj_key L p k) = Some row" "u = row_value L row"
    by (auto simp: db_get_at [OF i])
  let ?r = "filled L row (rr_object p k)"
  have f: "findRrset L E d (rr_object p k) = (d, Inr (?r, True))"
    by (simp add: findRrset_object [OF i] row)
  have g: "db_good L E d" using i by (simp add: store_inv_def)
  have mem: "row \<in> set (rrsets (m_tables d))" using rr_at_Some [OF row(1)] by blast
  have "0 < r_id row" using db_good_rows [OF g mem] by (simp add: rr_row_ok_def)
  moreover have "updateRrset L E d (rr_fill v ?r) = (db_upd L E p d k v, Inr ())" for v
    using updateRrset_found(1) [OF g mem, of "rr_fill v ?r"] by (simp add: db_upd_def f)
  moreover have "removeRrset E d ?r = (db_del L E p d k, Inr (Rrset_new (Some p)))"
    using removeRrset_found(1) [OF g mem, of ?r] by (simp add: db_del_def f)
  ultimately show thesis using that [of ?r] f row(2) by (simp add: row_value_def)
qed

lemma findRrset_absent:
  "store_inv L E p d \<Longrightarrow> db_get L E p d k = None \<Longrightarrow>
   findRrset L E d (rr_object p k) = (d, Inr (rr_object p k, False))"
  by (simp add: findRrset_object db_get_at)

text \<open>
  C26: For one zone, \<open>insert\<close>, \<open>find\<close>, \<open>update\<close> and \<open>remove\<close> of Rrset implement a finite map from
  (label, type) to (version, TTL, data). Inserting a key that is not there succeeds unless the table is
  full and maps it to exactly the inserted value; updating or removing the object that \<open>find\<close> filled changes
  that key only; a lookup returns what the map holds and changes nothing.
\<close>

theorem rrset_store_refines_map:
  assumes i: "store_inv L E p d"
  shows "(db_get L E p d k = None \<longrightarrow>
           (case insertRrset L E d (rr_fill v (rr_object p k)) of
              (d', Inr _) \<Rightarrow> store_inv L E p d' \<and> db_get L E p d' = (db_get L E p d)(k \<mapsto> v)
            | (d', Inl e) \<Rightarrow> d' = d \<and> e = DbMgr_ExecuteError \<and> newRowid E (map r_id (rrsets (m_tables d))) = None))
       \<and> (db_get L E p d k = Some u \<longrightarrow>
           (\<exists>r. findRrset L E d (rr_object p k) = (d, Inr (r, True)) \<and>
                (rrset_version r, rrset_ttl r, rrset_data r) = u \<and>
                (\<exists>d'. updateRrset L E d (rr_fill v r) = (d', Inr ()) \<and> store_inv L E p d' \<and>
                      db_get L E p d' = (db_get L E p d)(k \<mapsto> v)) \<and>
                (\<exists>d' r'. removeRrset E d r = (d', Inr r') \<and> store_inv L E p d' \<and>
                      db_get L E p d' = (db_get L E p d)(k := None))))"
proof (intro conjI impI)
  assume u: "db_get L E p d k = Some u"
  obtain r where r: "findRrset L E d (rr_object p k) = (d, Inr (r, True))"
    "(rrset_version r, rrset_ttl r, rrset_data r) = u"
    "updateRrset L E d (rr_fill v r) = (db_upd L E p d k v, Inr ())"
    "removeRrset E d r = (db_del L E p d k, Inr (Rrset_new (Some p)))"
    by (rule findRrset_present [OF i u]) blast
  with db.upd_get [OF i u, of v] db.del_get [OF i u]
  show "\<exists>r. findRrset L E d (rr_object p k) = (d, Inr (r, True)) \<and>
            (rrset_version r, rrset_ttl r, rrset_data r) = u \<and>
            (\<exists>d'. updateRrset L E d (rr_fill v r) = (d', Inr ()) \<and> store_inv L E p d' \<and>
                  db_get L E p d' = (db_get L E p d)(k \<mapsto> v)) \<and>
            (\<exists>d' r'. removeRrset E d r = (d', Inr r') \<and> store_inv L E p d' \<and>
                  db_get L E p d' = (db_get L E p d)(k := None))"
    by (intro exI [of _ r]) simp
qed (rule insertRrset_absent [OF i])

theorem rrset_store_refines_map_witness:
  "\<exists>d. db_get ndn0 sqlite0 zone_sample d ([generic ''www''], TXT_RR_TYPE) = Some (no_component, 60, Block 21 ''hi'') \<and>
       db_get ndn0 sqlite0 zone_sample d ([generic ''ftp''], TXT_RR_TYPE) = None"
proof -
  let ?k = "([generic ''www''], TXT_RR_TYPE)" and ?v = "(no_component, 60 :: int, Block 21 ''hi'')"
  note get = db_sample_get
  have room: "newRowid sqlite0 (map r_id (rrsets (m_tables db_sample))) = Some 1"
    by (simp add: db_sample_def)
  obtain d' r where ins: "insertRrset ndn0 sqlite0 db_sample (rr_fill ?v (rr_object zone_sample ?k)) = (d', r)"
    by (cases "insertRrset ndn0 sqlite0 db_sample (rr_fill ?v (rr_object zone_sample ?k))")
  show ?thesis
    using rrset_store_refines_map [OF db_sample_good, of ?k ?v] get room
    by (intro exI [of _ d']) (auto simp: ins split: sum.splits)
qed

section \<open>The ordered search\<close>

definition lower_row :: "ndn \<Rightarrow> zone \<Rightarrow> dbmgr \<Rightarrow> name \<Rightarrow> component \<Rightarrow> rr_row \<Rightarrow> bool" where
  "lower_row L z d l ty row \<longleftrightarrow>
     row \<in> set (zone_rows z d) \<and> typ_of L row = ty \<and> nameLess L (lbl_of L row) l"

lemma below_lower_row:
  assumes "db_good L E d" "row \<in> set (rrsets (m_tables d))"
  shows "below L z l ty row \<longleftrightarrow> lower_row L z d l ty row"
  using assms row_names(3,4) [OF db_goodD(1) [OF assms(1)] db_good_rows [OF assms]] db_goodD(1) [OF assms(1)]
  by (simp add: below_def lower_row_def zone_rows_def name_codecD) metis

lemma lower_row_mem: "lower_row L z d l ty row \<Longrightarrow> row \<in> set (rrsets (m_tables d))"
  by (simp add: lower_row_def zone_rows_def)

lemma findLowerBound_max:
  assumes g: "db_good L E d" and z: "rrset_zone r = Some (a, z)" "zone_id z \<noteq> 0"
  defines "P \<equiv> lower_row L z d (rrset_label r) (rrset_type r)"
  shows "if \<exists>row. P row
         then \<exists>row. P row \<and> (\<forall>x. P x \<longrightarrow> \<not> nameLess L (lbl_of L row) (lbl_of L x)) \<and>
                    findLowerBound L E d r = (d, Inr (filled L row r, True))
         else findLowerBound L E d r = (d, Inr (r\<lparr>rrset_id := 0\<rparr>, False))"
proof (cases "\<exists>row. P row")
  case True
  note L = db_goodD(1) [OF g]
  let ?B = "below L z (rrset_label r) (rrset_type r)"
  from True obtain row0 where row0: "row0 \<in> set (rrsets (m_tables d))" "?B row0"
    using below_lower_row [OF g] lower_row_mem unfolding P_def by blast
  obtain row where row: "row \<in> set (rrsets (m_tables d))" "?B row"
    "\<And>x. x \<in> set (rrsets (m_tables d)) \<Longrightarrow> ?B x \<Longrightarrow> r_label x \<le> r_label row"
    "findLowerBound L E d r = (d, Inr (filled L row r, True))"
    using findLowerBound_found [OF g z row0] by blast
  have "\<not> nameLess L (lbl_of L row) (lbl_of L x)" if "P x" for x
  proof -
    have x: "x \<in> set (rrsets (m_tables d))" using that lower_row_mem unfolding P_def by blast
    then have "r_label x \<le> r_label row" using that row(3) below_lower_row [OF g x] by (simp add: P_def)
    then show ?thesis
      using row_names(3) [OF L db_good_rows [OF g x]] row_names(3) [OF L db_good_rows [OF g row(1)]]
      by (simp add: name_codecD(5) [OF L] not_less)
  qed
  with row True show ?thesis using below_lower_row [OF g row(1)] unfolding P_def by auto
next
  case False
  then have "\<forall>row \<in> set (rrsets (m_tables d)). \<not> below L z (rrset_label r) (rrset_type r) row"
    using below_lower_row [OF g] by (auto simp: P_def)
  with False show ?thesis using findLowerBound_none [OF g z] by simp
qed

text \<open>
  \<open>findLowerBound\<close>, the search behind denial of existence, finds a record exactly when the
  zone has one of that type whose label precedes the given label in the canonical order, and then returns
  one with the greatest such label.
\<close>

theorem findLowerBound_greatest:
  assumes g: "db_good L E d" and z: "rrset_zone r = Some (a, z)" "zone_id z \<noteq> 0"
  defines "P \<equiv> lower_row L z d (rrset_label r) (rrset_type r)"
  shows "if \<exists>row. P row
         then \<exists>row. P row \<and> (\<forall>x. P x \<longrightarrow> \<not> nameLess L (lbl_of L row) (lbl_of L x)) \<and>
                    findLowerBound L E d r = (d, Inr (filled L row r, True))
         else findLowerBound L E d r = (d, Inr (r\<lparr>rrset_id := 0\<rparr>, False))"
  unfolding P_def by (rule findLowerBound_max [OF g z])

theorem findLowerBound_greatest_witness:
  "findLowerBound ndn0 sqlite0 db_sample (rr_object zone_sample ([generic ''www''], DOE_RR_TYPE)) =
     (db_sample, Inr (rr_object zone_sample ([generic ''www''], DOE_RR_TYPE), False))"
proof -
  let ?r = "rr_object zone_sample ([generic ''www''], DOE_RR_TYPE)"
  have "db_good ndn0 sqlite0 db_sample" "rrset_zone ?r = Some (1, snd zone_sample)" "zone_id (snd zone_sample) \<noteq> 0"
    using db_sample_good by (simp_all add: store_inv_def) (simp add: zone_sample_def)
  note T = findLowerBound_greatest [OF this]
  have "\<not> lower_row ndn0 (snd zone_sample) db_sample l ty row" for l ty row
    by (simp add: lower_row_def zone_rows_def db_sample_def)
  moreover have "?r\<lparr>rrset_id := 0\<rparr> = ?r" by (simp add: rr_object_def Rrset_new_def)
  ultimately show ?thesis using T by (simp only: if_False HOL.simp_thms)
qed

section \<open>Zones\<close>

lemma scan_zone:
  assumes "sqlite_sound E" "zone_rows_ok L (zones t)"
  shows "filter (\<lambda>r. z_name r = n) (scanZones E (zones t)) =
           (case map_of (map (\<lambda>r. (z_name r, r)) (zones t)) n of None \<Rightarrow> [] | Some r \<Rightarrow> [r])"
  using assms by (intro scan_by_key sqlite_soundD(1)) (simp_all add: zone_rows_ok_def)

lemma findZone_found:
  assumes "sqlite_sound E" "prepare E FindZone d" "stepOk E FindZone (m_tables d)" "db_inv L d"
  shows "findZone L E d z =
           (d, Inr (case map_of (map (\<lambda>r. (z_name r, r)) (zones (m_tables d))) (nameWire L (zone_name z)) of
                      None \<Rightarrow> (z\<lparr>zone_id := 0\<rparr>, False)
                    | Some r \<Rightarrow> (z\<lparr>zone_id := nat (z_id r), zone_ttl := z_ttl r\<rparr>, True)))"
proof -
  have ok: "zone_rows_ok L (zones (m_tables d))" using assms(4) by (simp add: db_inv_def)
  show ?thesis
  proof (cases "map_of (map (\<lambda>r. (z_name r, r)) (zones (m_tables d))) (nameWire L (zone_name z))")
    case None
    with scan_zone [OF assms(1) ok] show ?thesis
      using assms(2,3) by (simp add: findZone_def Let_def saveName_def)
  next
    case (Some r)
    then have "r \<in> set (zones (m_tables d))" using map_of_key_Some by force
    then have "0 < z_id r" "z_id r < 2 ^ 63" "to_int32 (z_ttl r) = z_ttl r" using ok by (auto simp: zone_rows_ok_def)
    with Some scan_zone [OF assms(1) ok, of "nameWire L (zone_name z)"] show ?thesis
      using assms(2,3) by (simp add: findZone_def Let_def saveName_def)
  qed
qed

text \<open>
  \<open>insert(Zone)\<close> throws \<open>ExecuteError\<close> and changes nothing when the database already has a zone of
  that name (the header says such a call sets the id of the zone); otherwise the new id is not zero and
  \<open>find\<close> on the name returns it with the default TTL cut to 32 bits.
\<close>

theorem insertZone_findZone:
  assumes E: "sqlite_sound E" "sqlite_reliable E" and d: "m_conn d" "db_inv L d" and z: "zone_id z = 0"
  shows "if \<exists>r \<in> set (zones (m_tables d)). z_name r = saveName L (zone_name z)
         then insertZone L E d z = (d, Inl DbMgr_ExecuteError)
         else case insertZone L E d z of
             (d', Inl e) \<Rightarrow> d' = d \<and> e = DbMgr_ExecuteError \<and> newRowid E (map z_id (zones (m_tables d))) = None
           | (d', Inr z') \<Rightarrow> zone_id z' \<noteq> 0 \<and> z' = z\<lparr>zone_id := zone_id z'\<rparr> \<and>
               findZone L E d' (Zone_of (zone_name z)) = (d', Inr (z'\<lparr>zone_ttl := to_int32 (zone_ttl z)\<rparr>, True))"
proof (cases "\<exists>r \<in> set (zones (m_tables d)). z_name r = saveName L (zone_name z)")
  case True
  then have "saveName L (zone_name z) \<in> z_name ` set (zones (m_tables d))" by force
  with True show ?thesis using E(2) d z by (simp add: insertZone_def Let_def)
next
  case False
  show ?thesis
  proof (cases "newRowid E (map z_id (zones (m_tables d)))")
    case None
    with False show ?thesis using E(2) d z by (auto simp: insertZone_def Let_def)
  next
    case (Some rid)
    note fresh = sqlite_soundD(7) [OF E(1) Some]
    let ?row = "\<lparr>z_id = rid, z_name = saveName L (zone_name z), z_ttl = to_int32 (zone_ttl z)\<rparr>"
    let ?d = "set_zones (zones (m_tables d) @ [?row]) d"
    have ins: "insertZone L E d z = (?d, Inr (z\<lparr>zone_id := nat rid\<rparr>))"
      using False Some fresh E(2) d z by (auto simp: insertZone_def Let_def)
    then have "db_inv L ?d" using insertZone_inv [OF E(1) d(2), of z] by simp
    moreover have "map_of (map (\<lambda>r. (z_name r, r)) (zones (m_tables ?d))) (nameWire L (zone_name z)) = Some ?row"
      using False by (auto simp: map_add_def map_of_key_None saveName_def split: option.splits dest!: map_of_key_Some)
    ultimately have "findZone L E ?d (Zone_of (zone_name z)) =
        (?d, Inr ((Zone_of (zone_name z))\<lparr>zone_id := nat rid, zone_ttl := to_int32 (zone_ttl z)\<rparr>, True))"
      using findZone_found [OF E(1), of ?d L "Zone_of (zone_name z)"] E(2) d by simp
    with False ins fresh show ?thesis by (auto simp: Zone_new_def)
  qed
qed

theorem insertZone_findZone_witness:
  "insertZone ndn0 sqlite0 db_sample (Zone_of [generic ''net'']) = (db_sample, Inl DbMgr_ExecuteError) \<and>
   zone_id (Zone_of [generic ''net'']) = 0"
proof -
  have "m_conn db_sample" "db_inv ndn0 db_sample"
    using db_sample_good by (simp_all add: store_inv_def db_good_def)
  from insertZone_findZone [OF sqlite0_sound sqlite0_reliable this, of "Zone_of [generic ''net'']"]
  show ?thesis by (simp add: db_sample_def saveName_def)
qed

section \<open>Zone info\<close>

definition info_blk :: "ndn \<Rightarrow> info_row \<Rightarrow> block" where
  "info_blk L r = (case blockDecode L (f_value r) of Some b \<Rightarrow> b | None \<Rightarrow> no_block)"

definition info_of :: "ndn \<Rightarrow> int \<Rightarrow> info_row list \<Rightarrow> (string \<rightharpoonup> block)" where
  "info_of L zid fs = map_of (map (\<lambda>r. (f_key r, info_blk L r)) (filter (\<lambda>r. f_zone r = zid) fs))"

lemma decode_info_ok:
  assumes "block_codec L" and "\<forall>r \<in> set rows. \<exists>b. f_value r = blockWire L b" and "distinct (map f_key rows)"
  shows "decode_info L rows m = Inr (m ++ map_of (map (\<lambda>r. (f_key r, info_blk L r)) rows))"
  using assms(2,3)
proof (induction rows arbitrary: m)
  case (Cons r rows)
  then have 1: "blockDecode L (f_value r) = Some (info_blk L r)"
    using assms(1) by (auto simp: info_blk_def block_codecD)
  have "map_of (map (\<lambda>r. (f_key r, info_blk L r)) rows) (f_key r) = None"
    using Cons.prems(2) by (auto simp: map_of_eq_None_iff)
  with Cons 1 show ?case by (auto simp: map_add_def fun_eq_iff split: option.splits)
qed simp

lemma distinct_info_keys:
  "distinct (map (\<lambda>r. (f_zone r, f_key r)) fs) \<Longrightarrow> distinct (map f_key (filter (\<lambda>r. f_zone r = zid) fs))"
  by (induction fs) (auto simp: image_iff)

lemma getZoneInfo_ok:
  assumes E: "sqlite_sound E" "sqlite_reliable E" and d: "m_conn d" "db_inv L d" and L: "block_codec L"
    and z: "zone_id z \<noteq> 0"
  shows "getZoneInfo L E d z = (d, Inr (z, info_of L (to_int32 (int (zone_id z))) (zone_info (m_tables d))))"
proof -
  let ?P = "\<lambda>r. f_zone r = to_int32 (int (zone_id z))"
  let ?fs = "filter ?P (zone_info (m_tables d))" and ?sc = "filter ?P (scanInfo E (zone_info (m_tables d)))"
  let ?kv = "\<lambda>r. (f_key r, info_blk L r)"
  have m: "mset ?sc = mset ?fs" by (simp add: sqlite_soundD(2) [OF E(1)])
  have ok: "info_rows_ok L (zone_info (m_tables d))" using d by (simp add: db_inv_def)
  then have dist: "distinct (map f_key ?fs)" by (simp add: info_rows_ok_def distinct_info_keys)
  then have dist': "distinct (map f_key ?sc)"
    using m by (metis mset_eq_imp_distinct_iff mset_map)
  have "\<forall>r \<in> set ?sc. \<exists>b. f_value r = blockWire L b"
    using ok mset_eq_setD [OF m] by (auto simp: info_rows_ok_def)
  from decode_info_ok [OF L this dist', of Map.empty]
  have "decode_info L ?sc Map.empty = Inr (map_of (map ?kv ?sc))" by simp
  moreover have "map_of (map ?kv ?sc) = map_of (map ?kv ?fs)"
    using dist dist' mset_eq_setD [OF m] by (intro map_of_inject_set [THEN iffD2]) (simp_all add: comp_def)
  ultimately show ?thesis using E(2) d z by (simp add: getZoneInfo_def Let_def info_of_def)
qed

lemma info_of_set:
  "info_of L zid (filter (\<lambda>r. f_zone r = zid \<longrightarrow> f_key r \<noteq> key) fs @ [\<lparr>f_zone = zid, f_key = key, f_value = v\<rparr>]) =
   (info_of L zid fs)(key \<mapsto> info_blk L \<lparr>f_zone = zid, f_key = key, f_value = v\<rparr>)"
proof -
  have "map_of (map (\<lambda>r. (f_key r, info_blk L r)) (filter (\<lambda>r. f_zone r = zid \<and> \<not> (f_zone r = zid \<and> f_key r = key)) fs)) =
        (info_of L zid fs)(key := None)"
    by (induction fs) (auto simp: info_of_def fun_eq_iff)
  then show ?thesis by (auto simp: info_of_def filter_filter map_add_def fun_eq_iff conj_commute split: option.splits)
qed

text \<open>
  \<open>getZoneInfo\<close> reads back what \<open>setZoneInfo\<close> wrote: a successful write sets that key of the zone
  and keeps the others, and keys longer than 10 bytes are refused. Zones are told apart by the low 32 bits
  of their ids only, which both statements bind.
\<close>

theorem zone_info_roundtrip:
  assumes E: "sqlite_sound E" "sqlite_reliable E" and d: "m_conn d" "db_inv L d" and L: "block_codec L"
    and z: "zone_id z \<noteq> 0" "zone_id z' \<noteq> 0" "to_int32 (int (zone_id z')) = to_int32 (int (zone_id z))"
    and before: "getZoneInfo L E d z = (d0, Inr (z0, m))"
  shows "case setZoneInfo L E d z key val of
           (d', Inr _) \<Rightarrow> length key \<le> 10 \<and> getZoneInfo L E d' z' = (d', Inr (z', m(key \<mapsto> val)))
         | (d', Inl e) \<Rightarrow> d' = d \<and> (length key > 10 \<or>
             foreignKeys E \<and> to_int32 (int (zone_id z)) \<notin> set (map z_id (zones (m_tables d))))"
proof -
  have m: "m = info_of L (to_int32 (int (zone_id z))) (zone_info (m_tables d))"
    using before getZoneInfo_ok [OF E d L z(1)] by (metis Pair_inject sum.inject(2))
  let ?row = "\<lparr>f_zone = to_int32 (int (zone_id z)), f_key = key, f_value = blockWire L val\<rparr>"
  have b: "info_blk L ?row = val" using L by (simp add: info_blk_def block_codecD)
  show ?thesis
  proof (cases "setZoneInfo L E d z key val")
    case (Pair d' x)
    show ?thesis
    proof (cases x)
      case (Inl e)
      with Pair E(2) d z show ?thesis
        by (auto simp: setZoneInfo_def Let_def split: if_splits)
    next
      case (Inr u)
      with Pair have d': "length key \<le> 10" "d' = set_info (filter (\<lambda>r. \<not> (f_zone r = to_int32 (int (zone_id z)) \<and> f_key r = key))
          (zone_info (m_tables d)) @ [?row]) d"
        using E(2) d(1) z(1) by (auto simp: setZoneInfo_def Let_def split: if_splits)
      have "db_inv L d'" using setZoneInfo_inv [OF d(2), of E z key val] Pair by simp
      then have "getZoneInfo L E d' z' = (d', Inr (z', info_of L (to_int32 (int (zone_id z))) (zone_info (m_tables d'))))"
        using getZoneInfo_ok [OF E _ _ L z(2), of d'] d(1) d'(2) z(3) by simp
      then show ?thesis using Pair Inr d' by (simp add: info_of_set b m)
    qed
  qed
qed

theorem zone_info_roundtrip_witness:
  "\<exists>d'. setZoneInfo ndn0 sqlite0 db_sample (snd zone_sample) ''dkey'' (Block 7 ''k'') = (d', Inr ()) \<and>
     getZoneInfo ndn0 sqlite0 d' ((snd zone_sample)\<lparr>zone_id := 2 ^ 32 + 1\<rparr>) =
       (d', Inr ((snd zone_sample)\<lparr>zone_id := 2 ^ 32 + 1\<rparr>, [''dkey'' \<mapsto> Block 7 ''k'']))"
proof -
  have d: "m_conn db_sample" "db_inv ndn0 db_sample"
    using db_sample_good by (simp_all add: store_inv_def db_good_def)
  have z: "zone_id (snd zone_sample) \<noteq> 0" "zone_id ((snd zone_sample)\<lparr>zone_id := 2 ^ 32 + 1\<rparr>) \<noteq> 0"
    "to_int32 (int (zone_id ((snd zone_sample)\<lparr>zone_id := 2 ^ 32 + 1\<rparr>))) = to_int32 (int (zone_id (snd zone_sample)))"
    by (simp_all add: zone_sample_def to_int32_def)
  have "info_of ndn0 zid (zone_info (m_tables db_sample)) = Map.empty" for zid
    by (simp add: info_of_def db_sample_def)
  then have b: "getZoneInfo ndn0 sqlite0 db_sample (snd zone_sample) = (db_sample, Inr (snd zone_sample, Map.empty))"
    using getZoneInfo_ok [OF sqlite0_sound sqlite0_reliable d ndn0_block_codec z(1)] by simp
  show ?thesis
    using zone_info_roundtrip [OF sqlite0_sound sqlite0_reliable d ndn0_block_codec z b, of "''dkey''" "Block 7 ''k''"]
    by (auto split: prod.splits sum.splits unit.splits)
qed

section \<open>Removing a zone\<close>

text \<open>
  \<open>remove(Zone)\<close> deletes the zone's row and resets the object. The zone's records and its zone info
  go with it only if the connection enforces foreign keys, which the code never asks for; otherwise they all stay,
  and a later zone that is given the same id reads the old zone info (its DKEY included).
\<close>

theorem removeZone_dependents:
  assumes E: "sqlite_sound E" "sqlite_reliable E" and d: "m_conn d" "db_inv L d" and L: "block_codec L"
    and z: "zone_id z \<noteq> 0" "zone_id z < 2 ^ 31" and z': "zone_id z' = zone_id z"
    and before: "getZoneInfo L E d z = (d0, Inr (z0, m))"
  shows "case removeZone E d z of
           (d', Inr u) \<Rightarrow> u = Zone_default \<and> int (zone_id z) \<notin> set (map z_id (zones (m_tables d'))) \<and>
              zone_rows z d' = (if foreignKeys E then [] else zone_rows z d) \<and>
              getZoneInfo L E d' z' = (d', Inr (z', if foreignKeys E then Map.empty else m))
         | _ \<Rightarrow> False"
proof -
  have m: "m = info_of L (to_int32 (int (zone_id z))) (zone_info (m_tables d))"
    using before getZoneInfo_ok [OF E d L z(1)] by (metis Pair_inject sum.inject(2))
  have id: "int (zone_id z) < 2 ^ 31" using z(2) by simp
  then have ids: "col_of_id (zone_id z) = int (zone_id z)" "to_int32 (int (zone_id z)) = int (zone_id z)"
    using z by simp_all
  obtain d' where r: "removeZone E d z = (d', Inr Zone_default)"
    using E(2) d z by (simp add: removeZone_def Let_def)
  then have d': "m_tables d' = \<lparr>zones = filter (\<lambda>r. z_id r \<noteq> int (zone_id z)) (zones (m_tables d)),
      zone_info = (if foreignKeys E then filter (\<lambda>r. f_zone r \<noteq> int (zone_id z)) (zone_info (m_tables d)) else zone_info (m_tables d)),
      rrsets = (if foreignKeys E then filter (\<lambda>r. r_zone r \<noteq> int (zone_id z)) (rrsets (m_tables d)) else rrsets (m_tables d))\<rparr>"
    and c: "m_conn d'"
    using E(2) d z ids by (auto simp: removeZone_def Let_def)
  have "db_inv L d'" using removeZone_inv [OF d(2), of E z] r by simp
  then have "getZoneInfo L E d' z' = (d', Inr (z', info_of L (int (zone_id z)) (zone_info (m_tables d'))))"
    using getZoneInfo_ok [OF E c _ L, of z'] z(1) z' ids by simp
  moreover have "info_of L zid (filter (\<lambda>r. f_zone r \<noteq> zid) fs) = Map.empty" for zid fs
    by (simp add: info_of_def filter_filter)
  ultimately show ?thesis
    using r m ids by (auto simp: d' zone_rows_def filter_filter)
qed

theorem removeZone_dependents_witness:
  "\<exists>d'. removeZone sqlite0 db_sample (snd zone_sample) = (d', Inr Zone_default) \<and>
        zone_rows (snd zone_sample) d' = zone_rows (snd zone_sample) db_sample"
proof -
  have d: "m_conn db_sample" "db_inv ndn0 db_sample"
    using db_sample_good by (simp_all add: store_inv_def db_good_def)
  have z: "zone_id (snd zone_sample) \<noteq> 0" "zone_id (snd zone_sample) < 2 ^ 31"
    by (simp_all add: zone_sample_def)
  note b = getZoneInfo_ok [OF sqlite0_sound sqlite0_reliable d ndn0_block_codec z(1)]
  show ?thesis
    using removeZone_dependents [OF sqlite0_sound sqlite0_reliable d ndn0_block_codec z refl b]
    by (auto split: prod.splits sum.splits)
qed

section \<open>A failed update\<close>

text \<open>
  \<open>update\<close> does not look at the result of its statement. Giving a record the version of another
  record with the same label and type violates the index: the call returns normally, and the table is as before.
\<close>

theorem updateRrset_collision_unreported:
  assumes d: "sqlite_reliable E" "m_conn d" "db_inv L d"
    and rows: "row \<in> set (rrsets (m_tables d))" "row' \<in> set (rrsets (m_tables d))" "row \<noteq> row'" "rr_key row = rr_key row'"
    and r: "rrset_id r = nat (r_id row)" "rrset_zone r \<noteq> None" "compWire L (rrset_version r) = r_version row'"
  shows "updateRrset L E d r = (d, Inr ())"
proof -
  have inv: "rr_rows_ok L (rrsets (m_tables d))" using d(3) by (simp add: db_inv_def)
  have pos: "0 < r_id row" "r_id row < 2 ^ 63" using inv rows(1) by (auto simp: rr_rows_ok_def rr_row_ok_def)
  have "distinct (map r_id (rrsets (m_tables d)))" using inv by (simp add: rr_rows_ok_def)
  then have "r_id row' \<noteq> r_id row" using distinct_map_inj rows by metis
  then have same: "update_row L r row' = row'" "r_id (update_row L r row) = r_id row"
    using pos r(1) by (simp_all add: update_row_def nat_less_iff)
  have key: "index_key (update_row L r row) = index_key (update_row L r row')"
    using rows(4) r pos same by (simp add: update_row_def index_key_def rr_key_def nat_less_iff)
  have "\<not> distinct (map index_key (map (update_row L r) (rrsets (m_tables d))))"
  proof
    assume "distinct (map index_key (map (update_row L r) (rrsets (m_tables d))))"
    then have "distinct (map (\<lambda>x. index_key (update_row L r x)) (rrsets (m_tables d)))" by (simp add: comp_def)
    from distinct_map_inj [OF this rows(1,2) key] rows(3) show False by simp
  qed
  then show ?thesis using d r pos by (simp add: updateRrset_def Let_def)
qed

text \<open>A database with two versions of one record, as two calls of \<open>insert\<close> leave it.\<close>

definition rr_sample :: "nat \<Rightarrow> rrset" where
  "rr_sample v = rr_fill (fromVersion ndn0 v, 60, Block 191 ''a'') (rr_object zone_sample ([generic ''www''], TXT_RR_TYPE))"

definition db_two_versions :: dbmgr where
  "db_two_versions = fst (insertRrset ndn0 sqlite0 (fst (insertRrset ndn0 sqlite0 db_sample (rr_sample 1))) (rr_sample 2))"

lemma db_two_versions_rows:
  "rrsets (m_tables db_two_versions) = [row_of ndn0 1 (snd zone_sample) (rr_sample 1), row_of ndn0 2 (snd zone_sample) (rr_sample 2)]"
  "m_conn db_two_versions" "db_inv ndn0 db_two_versions"
proof -
  have "compWire0 (Component 54 (unary (Suc 0))) \<noteq> compWire0 (Component 54 (unary 2))"
    using compWire_inj [OF ndn0_name_codec] by (simp add: unary_def numeral_2_eq_2)
  then show "rrsets (m_tables db_two_versions) = [row_of ndn0 1 (snd zone_sample) (rr_sample 1), row_of ndn0 2 (snd zone_sample) (rr_sample 2)]"
    "m_conn db_two_versions"
    by (simp_all add: db_two_versions_def insertRrset_def insert_row_def rr_sample_def db_sample_def prepare_def
        zone_sample_def Let_def index_key_def row_of_def)
  have "db_inv ndn0 db_sample" using db_sample_good by (simp add: store_inv_def db_good_def)
  then show "db_inv ndn0 db_two_versions" unfolding db_two_versions_def by (intro insertRrset_inv sqlite0_sound)
qed

theorem updateRrset_collision_unreported_witness:
  "updateRrset ndn0 sqlite0 db_two_versions ((rr_sample 2)\<lparr>rrset_id := 1\<rparr>) = (db_two_versions, Inr ())"
proof -
  let ?r1 = "row_of ndn0 1 (snd zone_sample) (rr_sample 1)" and ?r2 = "row_of ndn0 2 (snd zone_sample) (rr_sample 2)"
  show ?thesis
    by (rule updateRrset_collision_unreported [OF sqlite0_reliable db_two_versions_rows(2,3), of ?r1 ?r2])
       (simp_all add: db_two_versions_rows rr_key_def rr_sample_def row_of_def)
qed

end
