(* ===== verification/Query.thy ===== *)
theory Query
  imports NdnsLabel
begin

text \<open>
  \<open>Query\<close> (\<open>src/clients/query.hpp\<close>, \<open>.cpp\<close>): a question to a zone and its conversion to and
  from an Interest. Lifetimes are in milliseconds; a negative one, which \<open>Interest::setInterestLifetime\<close> refuses, is only
  possible in \<open>ndns-update\<close>, where it is dealt with (\<open>run_update\<close>): the other queries take the default or that of a received Interest.
\<close>

record query =
  q_zone :: name
  q_queryType :: component
  q_forwardingHint :: "name list"
  q_rrLabel :: name
  q_rrType :: component
  q_interestLifetime :: int

text \<open>\<open>ndn::DEFAULT_INTEREST_LIFETIME\<close> is 4 seconds.\<close>

definition DEFAULT_INTEREST_LIFETIME :: int where
  "DEFAULT_INTEREST_LIFETIME = 4000"

definition Query_new :: "name \<Rightarrow> component \<Rightarrow> query" where
  "Query_new zone queryType =
     \<lparr>q_zone = zone, q_queryType = queryType, q_forwardingHint = [], q_rrLabel = [],
      q_rrType = no_component, q_interestLifetime = DEFAULT_INTEREST_LIFETIME\<rparr>"

definition Query_default :: query where
  "Query_default = Query_new [] no_component"

definition query_eq :: "query \<Rightarrow> query \<Rightarrow> bool" where
  "query_eq a b \<longleftrightarrow> q_zone a = q_zone b \<and> q_queryType a = q_queryType b \<and>
                   q_rrLabel a = q_rrLabel b \<and> q_rrType a = q_rrType b"

text \<open>The lifetime is not taken from the Interest.\<close>

definition fromInterest :: "ndn \<Rightarrow> query \<Rightarrow> name \<Rightarrow> interest \<Rightarrow> error + (query \<times> bool)" where
  "fromInterest L q zone i =
     bind_err (matchName_interest L (i_name i) zone) (\<lambda>m.
       case m of
         None \<Rightarrow> Inr (q, False)
       | Some re \<Rightarrow>
           Inr (q\<lparr>q_rrLabel := m_rrLabel re, q_rrType := m_rrType re, q_zone := zone,
                  q_forwardingHint := i_forwardingHint i, q_queryType := i_name i ! length zone\<rparr>, True))"

definition toInterest :: "query \<Rightarrow> interest" where
  "toInterest q =
     \<lparr>i_name = q_zone q @ [q_queryType q] @ q_rrLabel q @ [q_rrType q], i_canBePrefix = True,
      i_lifetime = q_interestLifetime q, i_forwardingHint = q_forwardingHint q\<rparr>"

definition setForwardingHintFromLink :: "query \<Rightarrow> name list \<Rightarrow> query" where
  "setForwardingHintFromLink q delegations = q\<lparr>q_forwardingHint := delegations\<rparr>"

definition show_query ::
  "(name \<Rightarrow> string) \<Rightarrow> (component \<Rightarrow> string) \<Rightarrow> (int \<Rightarrow> string) \<Rightarrow> query \<Rightarrow> string" where
  "show_query uri curi dur q =
     ''Query: zone='' @ uri (q_zone q) @ '' queryType='' @ curi (q_queryType q) @
     '' rrLabel='' @ uri (q_rrLabel q) @ '' rrType='' @ curi (q_rrType q) @
     '' Lifetime='' @ dur (q_interestLifetime q)"

section \<open>Round trip\<close>

lemma toInterest_name: "q_queryType q = NDNS_ITERATIVE_QUERY \<Longrightarrow>
    i_name (toInterest q) = rr_name (q_zone q) (q_rrLabel q) (q_rrType q)"
  by (simp add: toInterest_def rr_name_def)

lemma rr_name_marker [simp]: "rr_name zone l ty ! length zone = NDNS_ITERATIVE_QUERY"
  by (simp add: rr_name_def)

text \<open>
  A query survives the network: \<open>fromInterest\<close> on the Interest that \<open>toInterest\<close> builds, by a
  receiver that knows the zone, succeeds and restores zone, query type, label, type and forwarding hint, whatever
  the receiving object held before; only the lifetime stays the receiver's.
\<close>

theorem fromInterest_toInterest:
  assumes "q_queryType q = NDNS_ITERATIVE_QUERY" and "\<not> isVersion L (q_rrType q)"
    and "length (i_name (toInterest q)) < 2 ^ 64"
  shows "fromInterest L q0 (q_zone q) (toInterest q) =
           Inr (q\<lparr>q_interestLifetime := q_interestLifetime q0\<rparr>, True)"
proof -
  have "matchName_interest L (i_name (toInterest q)) (q_zone q) =
      Inr (Some \<lparr>m_rrLabel = q_rrLabel q, m_rrType = q_rrType q, m_version = no_component\<rparr>)"
    using assms by (simp add: toInterest_name matchName_interest_query)
  then show ?thesis
    using assms(1) by (simp add: fromInterest_def toInterest_name) (simp add: toInterest_def)
qed

theorem fromInterest_toInterest_witness:
  "fromInterest ndn0 Query_default [generic ''net'']
     (toInterest ((Query_new [generic ''net''] NDNS_ITERATIVE_QUERY)\<lparr>q_rrLabel := [generic ''www''], q_rrType := TXT_RR_TYPE\<rparr>)) =
   Inr ((Query_new [generic ''net''] NDNS_ITERATIVE_QUERY)\<lparr>q_rrLabel := [generic ''www''], q_rrType := TXT_RR_TYPE\<rparr>, True)"
  using fromInterest_toInterest [of "(Query_new [generic ''net''] NDNS_ITERATIVE_QUERY)
      \<lparr>q_rrLabel := [generic ''www''], q_rrType := TXT_RR_TYPE\<rparr>" ndn0 Query_default]
  by (simp add: Query_new_def Query_default_def toInterest_def)

end
