(* ===== verification/Response.thy ===== *)
theory Response
  imports Query
begin

text \<open>
  \<open>Response\<close> (\<open>src/clients/response.hpp\<close>, \<open>.cpp\<close>): the client's view of an answer, its encoding as
  the Content of a Data packet and its conversion to and from Data. The freshness period of a
  Response is in seconds, that of Data in milliseconds.
\<close>

record response =
  s_zone :: name
  s_queryType :: component
  s_rrLabel :: name
  s_rrType :: component
  s_version :: component
  s_contentType :: NdnsContentType
  s_freshnessPeriod :: int
  s_appContent :: block
  s_rrs :: "block list"

definition DEFAULT_RR_FRESHNESS_PERIOD :: int where
  "DEFAULT_RR_FRESHNESS_PERIOD = 3600"

definition Response_new :: "name \<Rightarrow> component \<Rightarrow> response" where
  "Response_new zone queryType =
     \<lparr>s_zone = zone, s_queryType = queryType, s_rrLabel = [], s_rrType = no_component,
      s_version = no_component, s_contentType = NDNS_BLOB,
      s_freshnessPeriod = DEFAULT_RR_FRESHNESS_PERIOD, s_appContent = Block tlv_Content [], s_rrs = []\<rparr>"

definition Response_default :: response where
  "Response_default = Response_new [] no_component"

definition raw_content :: "response \<Rightarrow> bool" where
  "raw_content r \<longleftrightarrow> s_contentType r = NDNS_BLOB \<or> s_contentType r = NDNS_KEY"

section \<open>Encoding\<close>

text \<open>
  The template \<open>wireEncode(encoder)\<close> writes backwards in front of what the buffer holds and returns the
  number of bytes it wrote; with the estimator only the number is kept.
\<close>

definition prependBytes :: "blob \<Rightarrow> blob \<times> nat \<Rightarrow> blob \<times> nat" where
  "prependBytes w s = (w @ fst s, snd s + length w)"

definition wireEncode_to :: "ndn \<Rightarrow> response \<Rightarrow> blob \<Rightarrow> blob \<times> nat" where
  "wireEncode_to L r buffer =
     (if raw_content r then prependBytes (blockWire L (s_appContent r)) (buffer, 0)
      else let s = fold (\<lambda>b. prependBytes (blockWire L b)) (rev (s_rrs r)) (buffer, 0);
               s = prependBytes (varNumber L (snd s)) s
           in prependBytes (varNumber L tlv_Content) s)"

definition estimatedSize :: "ndn \<Rightarrow> response \<Rightarrow> nat" where
  "estimatedSize L r = snd (wireEncode_to L r [])"

definition wireEncode_response :: "ndn \<Rightarrow> response \<Rightarrow> error + block" where
  "wireEncode_response L r =
     (if raw_content r then Inr (s_appContent r)
      else or_throw Tlv_Error (blockDecode L (fst (wireEncode_to L r []))))"

definition wireDecode_response :: "ndn \<Rightarrow> response \<Rightarrow> block \<Rightarrow> (response, unit) res" where
  "wireDecode_response L r wire =
     (if raw_content r then (r\<lparr>s_appContent := wire\<rparr>, Inr ())
      else case blockElements L wire of
        None \<Rightarrow> (r, Inl Tlv_Error)
      | Some es \<Rightarrow> (r\<lparr>s_rrs := s_rrs r @ es\<rparr>, Inr ()))"

definition wireDecodeDoe :: "ndn \<Rightarrow> block \<Rightarrow> error + (name \<times> name)" where
  "wireDecodeDoe L wire =
     (case blockElements L wire of
        None \<Rightarrow> Inl Tlv_Error
      | Some es \<Rightarrow>
          if length es \<noteq> 2
          then Inl (Response_Error ''Unexpected number of elements while decoding DOE record'')
          else bind_err (or_throw Tlv_Error (blockName L (hd es))) (\<lambda>a.
               bind_err (or_throw Tlv_Error (blockName L (last es))) (\<lambda>b. Inr (a, b))))"

section \<open>Packets\<close>

definition fromData :: "ndn \<Rightarrow> response \<Rightarrow> name \<Rightarrow> data \<Rightarrow> (response, bool) res" where
  "fromData L r zone d =
     (case matchName_data (d_name d) zone of
        Inl e \<Rightarrow> (r, Inl e)
      | Inr None \<Rightarrow> (r, Inr False)
      | Inr (Some re) \<Rightarrow>
          and_then
            (wireDecode_response L
               (r\<lparr>s_rrLabel := m_rrLabel re, s_rrType := m_rrType re, s_version := m_version re,
                  s_zone := zone, s_queryType := d_name d ! length zone,
                  s_freshnessPeriod := d_freshness d div 1000,
                  s_contentType := to_content_type (d_contentType d)\<rparr>)
               (d_content d))
            (\<lambda>r _. (r, Inr True)))"

definition toData :: "ndn \<Rightarrow> nat \<Rightarrow> response \<Rightarrow> (response, data) res" where
  "toData L now r =
     (let name = s_zone r @ [s_queryType r] @ s_rrLabel r @ [s_rrType r];
          name = (if comp_empty (s_version r) then appendVersion L now name else name @ [s_version r]);
          r = r\<lparr>s_version := last name\<rparr>;
          d = new_data name
      in and_then
           (if \<not> raw_content r then lift_err r (wireEncode_response L r) else (r, Inr (s_appContent r)))
           (\<lambda>r content.
              lift_err r (bind_err (setFreshnessPeriod (s_freshnessPeriod r * 1000) (setContent L content d)) (\<lambda>d.
                Inr (d\<lparr>d_contentType := content_type_code (s_contentType r)\<rparr>)))))"

section \<open>Records\<close>

definition addRr :: "response \<Rightarrow> block \<Rightarrow> response" where
  "addRr r rr = r\<lparr>s_rrs := s_rrs r @ [rr]\<rparr>"

definition addRr_string :: "response \<Rightarrow> string \<Rightarrow> response" where
  "addRr_string r s = addRr r (Block (tlv_number RrData) s)"

fun erase_first :: "block \<Rightarrow> block list \<Rightarrow> block list \<times> bool" where
  "erase_first rr [] = ([], False)"
| "erase_first rr (b # bs) =
     (if b = rr then (bs, True) else case erase_first rr bs of (cs, f) \<Rightarrow> (b # cs, f))"

definition removeRr :: "response \<Rightarrow> block \<Rightarrow> response \<times> bool" where
  "removeRr r rr = (case erase_first rr (s_rrs r) of (bs, f) \<Rightarrow> (r\<lparr>s_rrs := bs\<rparr>, f))"

definition setAppContent :: "ndn \<Rightarrow> response \<Rightarrow> block \<Rightarrow> response" where
  "setAppContent L r b =
     r\<lparr>s_appContent := (if block_type b \<noteq> tlv_Content then Block tlv_Content (blockWire L b) else b)\<rparr>"

definition response_eq :: "response \<Rightarrow> response \<Rightarrow> bool" where
  "response_eq a b =
     (let tmp = (s_zone a = s_zone b \<and> s_queryType a = s_queryType b \<and> s_rrLabel a = s_rrLabel b \<and>
                 s_rrType a = s_rrType b \<and> s_version a = s_version b \<and> s_contentType a = s_contentType b)
      in if \<not> tmp then False
         else if raw_content a then s_appContent a = s_appContent b
         else s_rrs a = s_rrs b)"

definition show_response ::
  "ndn \<Rightarrow> (name \<Rightarrow> string) \<Rightarrow> (component \<Rightarrow> string) \<Rightarrow> (int \<Rightarrow> string) \<Rightarrow> (nat \<Rightarrow> string) \<Rightarrow> response \<Rightarrow> string" where
  "show_response L uri curi dur num r =
     ''Response: zone='' @ uri (s_zone r) @ '' queryType='' @ curi (s_queryType r) @
     '' rrLabel='' @ uri (s_rrLabel r) @ '' rrType='' @ curi (s_rrType r) @
     '' version='' @ curi (s_version r) @ '' freshnessPeriod='' @ dur (s_freshnessPeriod r) @
     '' NdnsContentType='' @ show_content_type (s_contentType r) @
     (if raw_content r
      then if s_appContent r \<noteq> no_block then '' appContentSize='' @ num (length (blockWire L (s_appContent r)))
           else '' appContent=NULL''
      else '' rrs.size='' @ num (length (s_rrs r)))"

section \<open>The encoding is right\<close>

lemma fold_prependBytes:
  "fold (\<lambda>b. prependBytes (f b)) (rev bs) (buffer, n) =
     (concat (map f bs) @ buffer, n + length (concat (map f bs)))"
  by (induction bs arbitrary: buffer n) (auto simp: prependBytes_def simp flip: length_concat)

lemma wireEncode_to_block:
  assumes "block_codec L"
  defines "w \<equiv> \<lambda>r. blockWire L (if raw_content r then s_appContent r
                                else Block tlv_Content (concat (map (blockWire L) (s_rrs r))))"
  shows "wireEncode_to L r buffer = (w r @ buffer, length (w r))"
  using assms(1)
  by (simp add: w_def wireEncode_to_def Let_def fold_prependBytes prependBytes_def block_codecD(1))

lemma wireEncode_response_block:
  "block_codec L \<Longrightarrow> wireEncode_response L r =
     Inr (if raw_content r then s_appContent r else Block tlv_Content (concat (map (blockWire L) (s_rrs r))))"
  by (simp add: wireEncode_response_def wireEncode_to_block block_codecD(3))

text \<open>
  The estimated size is the number of bytes the encoder then writes, so the buffer fits exactly, and
  decoding what \<open>wireEncode\<close> returned gives the records (or the raw content) back.
\<close>

theorem wireEncode_wireDecode:
  assumes "block_codec L" and "s_contentType r0 = s_contentType r" and "s_rrs r0 = []"
  shows "estimatedSize L r = length (fst (wireEncode_to L r [])) \<and>
         (\<exists>wire r'. wireEncode_response L r = Inr wire \<and> wireDecode_response L r0 wire = (r', Inr ()) \<and>
           (if raw_content r then r' = r0\<lparr>s_appContent := s_appContent r\<rparr> else r' = r0\<lparr>s_rrs := s_rrs r\<rparr>))"
proof -
  have "raw_content r0 = raw_content r" using assms(2) by (simp add: raw_content_def)
  then show ?thesis
    using assms by (simp add: estimatedSize_def wireEncode_to_block wireEncode_response_block
        wireDecode_response_def block_codecD)
qed

theorem wireEncode_wireDecode_witness:
  "let r = (Response_new [] NDNS_ITERATIVE_QUERY)\<lparr>s_contentType := NDNS_RESP, s_rrs := [Block 191 ''a'', Block 191 ''bc'']\<rparr>
   in estimatedSize ndn0 r = length (fst (wireEncode_to ndn0 r []))"
  using wireEncode_wireDecode [OF ndn0_block_codec, of "Response_default\<lparr>s_contentType := NDNS_RESP\<rparr>"
      "(Response_new [] NDNS_ITERATIVE_QUERY)\<lparr>s_contentType := NDNS_RESP, s_rrs := [Block 191 ''a'', Block 191 ''bc'']\<rparr>"]
  by (simp add: Response_default_def Response_new_def Let_def)

section \<open>Round trips\<close>

lemma wireDecodeDoe_pair:
  assumes "block_codec L"
  shows "wireDecodeDoe L (Block t (blockWire L (nameBlock L a) @ blockWire L (nameBlock L b))) = Inr (a, b)"
  using block_codecD(4) [OF assms, of t "[nameBlock L a, nameBlock L b]"] assms
  by (simp add: wireDecodeDoe_def block_codecD)

definition canonical_type :: "NdnsContentType \<Rightarrow> bool" where
  "canonical_type t \<longleftrightarrow> to_content_type (content_type_code t) = t"

text \<open>
  C35: A response whose freshness period is not negative survives the network: \<open>fromData\<close> on the packet that \<open>toData\<close> builds succeeds in a fresh
  Response and yields an equal one with the same freshness period. A response without a version
  is given the current time as its version; one with a version keeps it.
\<close>

theorem fromData_toData:
  assumes L: "block_codec L" and q: "s_queryType r = NDNS_ITERATIVE_QUERY"
    and len: "length (s_zone r) + length (s_rrLabel r) + 3 < 2 ^ 64"
    and content: "canonical_type (s_contentType r)" "block_type (s_appContent r) = tlv_Content"
    and fresh: "0 \<le> s_freshnessPeriod r"
  shows "\<exists>r1 d r2. toData L now r = (r1, Inr d) \<and>
           r1 = (if comp_empty (s_version r) then r\<lparr>s_version := fromVersion L now\<rparr> else r) \<and>
           fromData L Response_default (s_zone r) d = (r2, Inr True) \<and>
           response_eq r1 r2 \<and> s_freshnessPeriod r2 = s_freshnessPeriod r"
proof -
  define v where "v = (if comp_empty (s_version r) then fromVersion L now else s_version r)"
  define r1 where "r1 = r\<lparr>s_version := v\<rparr>"
  define c where "c = (if raw_content r then s_appContent r else Block tlv_Content (concat (map (blockWire L) (s_rrs r))))"
  define d where "d = (setContent L c (new_data (rr_name (s_zone r) (s_rrLabel r) (s_rrType r) @ [v])))
      \<lparr>d_freshness := s_freshnessPeriod r * 1000, d_contentType := content_type_code (s_contentType r)\<rparr>"
  have r1: "raw_content (r\<lparr>s_version := x\<rparr>) = raw_content r" for x by (simp add: raw_content_def)
  have v1: "\<not> comp_empty (s_version r) \<Longrightarrow> r\<lparr>s_version := s_version r\<rparr> = r" by simp
  have toData: "toData L now r = (r1, Inr d)"
    using q L fresh
    by (simp add: toData_def Let_def wireEncode_response_block r1 appendVersion_def
        r1_def d_def v_def c_def rr_name_def)
  have m: "matchName_data (d_name d) (s_zone r) =
      Inr (Some \<lparr>m_rrLabel = s_rrLabel r, m_rrType = s_rrType r, m_version = v\<rparr>)"
    using len by (simp add: d_def matchName_data_response)
  have dc: "d_content d = c" using content(2) by (simp add: d_def c_def setContent_def)
  have ct: "to_content_type (d_contentType d) = s_contentType r"
    using content(1) by (simp add: d_def canonical_type_def)
  have fr: "d_freshness d div 1000 = s_freshnessPeriod r" by (simp add: d_def)
  have qt: "d_name d ! length (s_zone r) = NDNS_ITERATIVE_QUERY" by (simp add: d_def rr_name_def)
  define b where "b = \<lparr>s_zone = s_zone r, s_queryType = NDNS_ITERATIVE_QUERY, s_rrLabel = s_rrLabel r,
      s_rrType = s_rrType r, s_version = v, s_contentType = s_contentType r,
      s_freshnessPeriod = s_freshnessPeriod r, s_appContent = Block tlv_Content [], s_rrs = []\<rparr>"
  define r2 where "r2 = (if raw_content r then b\<lparr>s_appContent := s_appContent r\<rparr> else b\<lparr>s_rrs := s_rrs r\<rparr>)"
  have "fromData L Response_default (s_zone r) d = and_then (wireDecode_response L b c) (\<lambda>r _. (r, Inr True))"
    by (simp add: fromData_def m ct dc qt fr b_def Response_default_def Response_new_def)
  moreover have "raw_content b = raw_content r" by (simp add: raw_content_def b_def)
  ultimately have "fromData L Response_default (s_zone r) d = (r2, Inr True)"
    using L by (cases "raw_content r") (simp_all add: wireDecode_response_def c_def r2_def block_codecD, simp add: b_def)
  moreover have "response_eq r1 r2" "s_freshnessPeriod r2 = s_freshnessPeriod r"
    using q by (simp_all add: response_eq_def r1_def r1 r2_def b_def)
  ultimately have r2: "fromData L Response_default (s_zone r) d = (r2, Inr True)"
    "response_eq r1 r2" "s_freshnessPeriod r2 = s_freshnessPeriod r" by blast+
  show ?thesis using toData r2 by (intro exI [of _ r1] exI [of _ d] exI [of _ r2]) (simp add: r1_def v_def)
qed

theorem fromData_toData_witness:
  "\<exists>r1 d r2. toData ndn0 5 ((Response_new [generic ''net''] NDNS_ITERATIVE_QUERY)\<lparr>s_rrType := TXT_RR_TYPE\<rparr>) = (r1, Inr d) \<and>
     fromData ndn0 Response_default [generic ''net''] d = (r2, Inr True) \<and> response_eq r1 r2 \<and>
     s_version r1 = Component 54 (unary 5)"
  using fromData_toData [OF ndn0_block_codec, of
      "(Response_new [generic ''net''] NDNS_ITERATIVE_QUERY)\<lparr>s_rrType := TXT_RR_TYPE\<rparr>" 5]
  by (auto simp: Response_new_def canonical_type_def comp_empty_def DEFAULT_RR_FRESHNESS_PERIOD_def)

text \<open>A response with a negative freshness period has no packet: \<open>toData\<close> throws, after the version is set.\<close>

lemma toData_negative:
  assumes "block_codec L" "s_freshnessPeriod r < 0"
  shows "snd (toData L now r) = Inl Invalid_Argument"
  using assms by (simp add: toData_def Let_def wireEncode_response_block raw_content_def)

text \<open>Packets that parse: a name of the zone, and content that is raw or a sequence of blocks.\<close>

lemma fromData_readable:
  assumes "d_name data = zoneName @ [NDNS_ITERATIVE_QUERY] @ label @ [type, version]" "length (d_name data) < 2 ^ 64"
    and "to_content_type (d_contentType data) \<in> {NDNS_BLOB, NDNS_KEY} \<or> blockElements L (d_content data) \<noteq> None"
  obtains re where "fromData L r zoneName data = (re, Inr True)" "s_rrLabel re = label" "s_rrType re = type" "s_version re = version"
proof -
  have "matchName_data (d_name data) zoneName = Inr (Some \<lparr>m_rrLabel = label, m_rrType = type, m_version = version\<rparr>)"
    using matchName_data_response [of zoneName label type version] assms(1,2) by (simp add: rr_name_def)
  then have "\<exists>re. fromData L r zoneName data = (re, Inr True) \<and> s_rrLabel re = label \<and> s_rrType re = type \<and> s_version re = version"
    using assms(3) by (auto simp: fromData_def wireDecode_response_def raw_content_def)
  then show thesis using that by blast
qed

end
