(* ===== verification/CertHelper.thy ===== *)
theory CertHelper
  imports Query
begin

text \<open>
  \<open>CertHelper\<close> (\<open>src/util/cert-helper.cpp\<close>): lookups in the key chain and the making of certificates. The key chain
  and its PIB belong to ndn-cxx: the record \<open>keychain\<close> holds the operations used, over an arbitrary state;
  \<open>None\<close> is a \<open>Pib::Error\<close>. A certificate is a Data packet.
\<close>

section \<open>The key chain\<close>

type_synonym certificate = data

record 'k keychain =
  kc_keys :: "'k \<Rightarrow> name \<Rightarrow> (name \<times> certificate list) list option"
  kc_defaultKey :: "'k \<Rightarrow> name \<Rightarrow> name option"
  kc_defaultCertificate :: "'k \<Rightarrow> name \<Rightarrow> certificate option"
  kc_publicKey :: "'k \<Rightarrow> name \<Rightarrow> blob"
  kc_createIdentity :: "'k \<Rightarrow> name \<Rightarrow> 'k"
  kc_createKey :: "'k \<Rightarrow> name \<Rightarrow> 'k \<times> name"
  kc_deleteCertificate :: "'k \<Rightarrow> name \<Rightarrow> name \<Rightarrow> 'k"
  kc_addCertificate :: "'k \<Rightarrow> name \<Rightarrow> certificate \<Rightarrow> 'k option"
  kc_setDefaultKey :: "'k \<Rightarrow> name \<Rightarrow> name \<Rightarrow> 'k option"
  kc_setDefaultCertificate :: "'k \<Rightarrow> name \<Rightarrow> certificate \<Rightarrow> 'k option"

text \<open>The keys of an identity, each with its certificates.\<close>

definition getIdentity :: "'k keychain \<Rightarrow> 'k \<Rightarrow> name \<Rightarrow> error + (name \<times> certificate list) list" where
  "getIdentity K k identityName = or_throw Pib_Error (kc_keys K k identityName)"

definition doesIdentityExist :: "'k keychain \<Rightarrow> 'k \<Rightarrow> name \<Rightarrow> bool" where
  "doesIdentityExist K k identityName = (kc_keys K k identityName \<noteq> None)"

definition getCertificate :: "'k keychain \<Rightarrow> 'k \<Rightarrow> name \<Rightarrow> name \<Rightarrow> error + certificate" where
  "getCertificate K k identity certName =
     bind_err (getIdentity K k identity) (\<lambda>keys.
       case find (\<lambda>cert. d_name cert = certName) (concat (map snd keys)) of
         None \<Rightarrow> Inl (Runtime_Error ''does not exist'')
       | Some cert \<Rightarrow> Inr cert)"

text \<open>The loop over the components, with the index of the next one.\<close>

definition keyComp :: component where
  "keyComp = generic ''KEY''"

function find_key_component :: "name \<Rightarrow> nat \<Rightarrow> error + name" where
  "find_key_component certName i =
     (if i < length certName then
        if certName ! i = keyComp then Inr (take i certName) else find_key_component certName (Suc i)
      else Inl (Runtime_Error ''is not a legal cert name''))"
  by pat_completeness auto
termination by (relation "measure (\<lambda>(n, i). length n - i)") auto

declare find_key_component.simps [simp del]

definition getIdentityNameFromCert :: "name \<Rightarrow> error + name" where
  "getIdentityNameFromCert certName = find_key_component certName 0"

definition getCertificateByName :: "'k keychain \<Rightarrow> 'k \<Rightarrow> name \<Rightarrow> error + certificate" where
  "getCertificateByName K k certName =
     bind_err (getIdentityNameFromCert certName) (\<lambda>identityName. getCertificate K k identityName certName)"

definition getDefaultKeyNameOfIdentity :: "'k keychain \<Rightarrow> 'k \<Rightarrow> name \<Rightarrow> error + name" where
  "getDefaultKeyNameOfIdentity K k identityName =
     bind_err (getIdentity K k identityName) (\<lambda>_. or_throw Pib_Error (kc_defaultKey K k identityName))"

definition getDefaultCertificateNameOfIdentity :: "'k keychain \<Rightarrow> 'k \<Rightarrow> name \<Rightarrow> error + name" where
  "getDefaultCertificateNameOfIdentity K k identityName =
     bind_err (getDefaultKeyNameOfIdentity K k identityName) (\<lambda>key.
       bind_err (or_throw Pib_Error (kc_defaultCertificate K k key)) (\<lambda>cert. Inr (d_name cert)))"

text \<open>\<open>now\<close> is the timestamp of versions, \<open>sys\<close> the system clock in seconds.\<close>

definition createCertificate ::
  "ndn \<Rightarrow> 'k keychain \<Rightarrow> 'k \<Rightarrow> nat \<Rightarrow> int \<Rightarrow> name \<Rightarrow> name \<Rightarrow> string \<Rightarrow> int \<Rightarrow> error + certificate" where
  "createCertificate L K k now sys key signingKey issuer certValidity =
     (let certificateName = appendVersion L now (key @ [generic issuer]);
          certificate = (new_data certificateName)
            \<lparr>d_contentType := content_type_code NDNS_KEY, d_freshness := 3600 * 1000,
             d_content := Block tlv_Content (kc_publicKey K k key)\<rparr>
      in or_throw Pib_Error (signData L (SigningByKeyWith signingKey (sys - 1) (sys + certValidity)) certificate))"

section \<open>Properties\<close>

lemma find_key_component_spec:
  "find_key_component n i =
     (if keyComp \<in> set (drop i n) then Inr (take i n @ takeWhile (\<lambda>c. c \<noteq> keyComp) (drop i n))
      else Inl (Runtime_Error ''is not a legal cert name''))"
proof (induction n i rule: find_key_component.induct)
  case (1 n i)
  show ?case
  proof (cases "i < length n")
    case True
    then have d: "drop i n = n ! i # drop (Suc i) n" by (simp add: Cons_nth_drop_Suc)
    show ?thesis
      using 1 [OF True] by (subst find_key_component.simps) (auto simp: True d take_Suc_conv_app_nth)
  next
    case False
    then show ?thesis by (subst find_key_component.simps) simp
  qed
qed

text \<open>
  \<open>getIdentityNameFromCert\<close> ends for every name and returns exactly what precedes the first component KEY; it
  throws exactly when the name has no such component.
\<close>

theorem getIdentityNameFromCert_spec:
  "getIdentityNameFromCert n =
     (if keyComp \<in> set n then Inr (takeWhile (\<lambda>c. c \<noteq> keyComp) n)
      else Inl (Runtime_Error ''is not a legal cert name''))"
  by (simp add: getIdentityNameFromCert_def find_key_component_spec)

text \<open>A certificate made for a key belongs to the identity of the key.\<close>

lemma createCertificate_name:
  assumes "sign_ok L" and "createCertificate L K k now sys key skey issuer v = Inr cert"
  shows "d_name cert = key @ [generic issuer, fromVersion L now]"
    and "d_contentType cert = content_type_code NDNS_KEY"
    and "d_content cert = Block tlv_Content (kc_publicKey K k key)"
  using assms sign_okD [OF assms(1)]
  by (auto simp: createCertificate_def Let_def or_throw_Inr appendVersion_def)

end
