(* ===== verification/RrsetFactory.thy ===== *)
theory RrsetFactory
  imports DbMgrProps Response CertHelper
begin

text \<open>
  \<open>RrsetFactory\<close> (\<open>src/daemon/rrset-factory.cpp\<close>, \<open>.hpp\<close>): it makes the signed records of a zone. The factory
  opens the database file on its own to check that the zone exists: \<open>disk\<close> is what the
  file holds and \<open>dflt\<close> the path used for an empty file name. The zone it owns is at \<open>rf_addr\<close>.
\<close>

record factory =
  rf_dbFile :: string
  rf_addr :: nat
  rf_zone :: zone
  rf_dskCertName :: name
  rf_dskName :: name
  rf_checked :: bool

text \<open>The constants of \<open>src/mgmt/management-tool.hpp\<close> the factory uses.\<close>

definition DEFAULT_CERT :: name where "DEFAULT_CERT = []"
definition DEFAULT_RR_TTL :: int where "DEFAULT_RR_TTL = 0"
definition VERSION_USE_UNIX_TIMESTAMP :: nat where "VERSION_USE_UNIX_TIMESTAMP = 2 ^ 64 - 1"

section \<open>Construction and checks\<close>

definition RrsetFactory_new ::
  "'k keychain \<Rightarrow> 'k \<Rightarrow> nat \<Rightarrow> string \<Rightarrow> name \<Rightarrow> name \<Rightarrow> error + factory" where
  "RrsetFactory_new K k addr dbFile zoneName inputDskCertName =
     (let f = \<lparr>rf_dbFile = dbFile, rf_addr = addr, rf_zone = Zone_of zoneName,
               rf_dskCertName = inputDskCertName, rf_dskName = [], rf_checked = False\<rparr>;
          identityName = zoneName @ [NDNS_ITERATIVE_QUERY]
      in if inputDskCertName = DEFAULT_CERT then
           bind_err (getDefaultKeyNameOfIdentity K k identityName) (\<lambda>key.
             bind_err (getDefaultCertificateNameOfIdentity K k identityName) (\<lambda>cert.
               Inr (f\<lparr>rf_dskName := key, rf_dskCertName := cert\<rparr>)))
         else Inr f)"

definition onlyCheckZone :: "ndn \<Rightarrow> sqlite \<Rightarrow> string \<Rightarrow> (string \<Rightarrow> tables) \<Rightarrow> factory \<Rightarrow> (factory, unit) res" where
  "onlyCheckZone L E dflt disk f =
     (if rf_checked f then (f, Inr ())
      else let f = f\<lparr>rf_checked := True\<rparr> in
        case DbMgr_new E dflt disk (rf_dbFile f) of
          (d, Inl e) \<Rightarrow> (f, Inl e)
        | (d, Inr _) \<Rightarrow>
            (case findZone L E d (rf_zone f) of
               (d, Inl e) \<Rightarrow> (f, Inl e)
             | (d, Inr (z, found)) \<Rightarrow>
                 if found then (f\<lparr>rf_zone := z\<rparr>, Inr ())
                 else (f\<lparr>rf_zone := z\<rparr>, Inl (RrsetFactory_Error ''is not presented in the NDNS db''))))"

text \<open>Only a \<open>Pib::Error\<close> is caught; the exception for a missing certificate is no such error.\<close>

definition matchCertificate :: "'k keychain \<Rightarrow> 'k \<Rightarrow> name \<Rightarrow> name \<Rightarrow> error + bool" where
  "matchCertificate K k certName identity =
     (case getCertificate K k identity certName of
        Inr _ \<Rightarrow> Inr True
      | Inl e \<Rightarrow> if e = Pib_Error then Inr False else Inl e)"

definition checkZoneKey ::
  "ndn \<Rightarrow> sqlite \<Rightarrow> 'k keychain \<Rightarrow> 'k \<Rightarrow> string \<Rightarrow> (string \<Rightarrow> tables) \<Rightarrow> factory \<Rightarrow> (factory, unit) res" where
  "checkZoneKey L E K k dflt disk f =
     and_then (onlyCheckZone L E dflt disk f) (\<lambda>f _.
       if rf_dskCertName f \<noteq> DEFAULT_CERT then
         and_then (lift_err f (matchCertificate K k (rf_dskCertName f) (zone_name (rf_zone f) @ [NDNS_ITERATIVE_QUERY])))
           (\<lambda>f ok. if ok then (f, Inr ()) else (f, Inl (RrsetFactory_Error ''Cannot verify certificate'')))
       else (f, Inr ()))"

section \<open>Records\<close>

definition generateBaseRrset ::
  "ndn \<Rightarrow> nat \<Rightarrow> factory \<Rightarrow> name \<Rightarrow> component \<Rightarrow> nat \<Rightarrow> int \<Rightarrow> rrset \<times> name" where
  "generateBaseRrset L now f label type version ttl =
     (let rrset = (Rrset_new (Some (rf_addr f, rf_zone f)))
            \<lparr>rrset_label := label, rrset_type := type, rrset_ttl := ttl\<rparr>;
          name = zone_name (rf_zone f) @ [NDNS_ITERATIVE_QUERY] @ label @ [type];
          name = (if version \<noteq> VERSION_USE_UNIX_TIMESTAMP then name @ [fromVersion L version]
                  else appendVersion L now name)
      in (rrset\<lparr>rrset_version := last name\<rparr>, name))"

definition sign :: "ndn \<Rightarrow> factory \<Rightarrow> data \<Rightarrow> error + data" where
  "sign L f d = or_throw Pib_Error (signData L (SigningByCertificate (rf_dskCertName f)) d)"

definition setContentType :: "data \<Rightarrow> NdnsContentType \<Rightarrow> int \<Rightarrow> error + data" where
  "setContentType d ct ttl = setFreshnessPeriod (ttl * 1000) (d\<lparr>d_contentType := content_type_code ct\<rparr>)"

definition encode_rrs :: "ndn \<Rightarrow> block list \<Rightarrow> blob \<times> nat" where
  "encode_rrs L rrs =
     (let s = fold (\<lambda>b. prependBytes (blockWire L b)) (rev rrs) ([], 0);
          s = prependBytes (varNumber L (snd s)) s
      in prependBytes (varNumber L tlv_Content) s)"

definition wireEncode_rrs :: "ndn \<Rightarrow> block list \<Rightarrow> error + block" where
  "wireEncode_rrs L rrs = or_throw Tlv_Error (blockDecode L (fst (encode_rrs L rrs)))"

definition wireDecodeTxt :: "ndn \<Rightarrow> block \<Rightarrow> error + string list" where
  "wireDecodeTxt L wire = bind_err (or_throw Tlv_Error (blockElements L wire)) (\<lambda>es. Inr (map block_value es))"

text \<open>The common frame of the five generators: the check, the TTL, the base record, content type and freshness, the signature.\<close>

definition generate ::
  "ndn \<Rightarrow> nat \<Rightarrow> factory \<Rightarrow> name \<Rightarrow> component \<Rightarrow> nat \<Rightarrow> int \<Rightarrow> NdnsContentType \<Rightarrow>
   (data \<Rightarrow> error + data) \<Rightarrow> error + rrset" where
  "generate L now f label type version ttl ct fill =
     (if \<not> rf_checked f
      then Inl (RrsetFactory_Error ''You have to call checkZoneKey before call generate functions'')
      else let ttl = (if ttl = DEFAULT_RR_TTL then zone_ttl (rf_zone f) else ttl);
               (rrset, name) = generateBaseRrset L now f label type version ttl
           in bind_err (fill (new_data name)) (\<lambda>d.
                bind_err (setContentType d ct ttl) (\<lambda>d.
                  bind_err (sign L f d) (\<lambda>d.
                    Inr (rrset\<lparr>rrset_data := dataBlock L d\<rparr>)))))"

definition generateNsRrset ::
  "ndn \<Rightarrow> nat \<Rightarrow> factory \<Rightarrow> name \<Rightarrow> nat \<Rightarrow> int \<Rightarrow> name list \<Rightarrow> error + rrset" where
  "generateNsRrset L now f label version ttl delegations =
     generate L now f label NS_RR_TYPE version ttl NDNS_LINK
       (\<lambda>d. Inr (d\<lparr>d_content := linkContent L delegations\<rparr>))"

definition generateTxtRrset ::
  "ndn \<Rightarrow> nat \<Rightarrow> factory \<Rightarrow> name \<Rightarrow> nat \<Rightarrow> int \<Rightarrow> string list \<Rightarrow> error + rrset" where
  "generateTxtRrset L now f label version ttl strings =
     generate L now f label TXT_RR_TYPE version ttl NDNS_RESP
       (\<lambda>d. bind_err (wireEncode_rrs L (map (Block (tlv_number RrData)) strings)) (\<lambda>b. Inr (setContent L b d)))"

definition generateCertRrset ::
  "ndn \<Rightarrow> nat \<Rightarrow> factory \<Rightarrow> name \<Rightarrow> nat \<Rightarrow> int \<Rightarrow> certificate \<Rightarrow> error + rrset" where
  "generateCertRrset L now f label version ttl cert =
     generate L now f label APPCERT_RR_TYPE version ttl NDNS_KEY
       (\<lambda>d. Inr (setContent L (dataBlock L cert) d))"

definition generateAuthRrset :: "ndn \<Rightarrow> nat \<Rightarrow> factory \<Rightarrow> name \<Rightarrow> nat \<Rightarrow> int \<Rightarrow> error + rrset" where
  "generateAuthRrset L now f label version ttl =
     generate L now f label NS_RR_TYPE version ttl NDNS_AUTH Inr"

definition generateDoeRrset ::
  "ndn \<Rightarrow> nat \<Rightarrow> factory \<Rightarrow> name \<Rightarrow> nat \<Rightarrow> int \<Rightarrow> name \<Rightarrow> name \<Rightarrow> error + rrset" where
  "generateDoeRrset L now f label version ttl lowerLabel upperLabel =
     generate L now f label DOE_RR_TYPE version ttl NDNS_DOE
       (\<lambda>d. bind_err (wireEncode_rrs L [nameBlock L lowerLabel, nameBlock L upperLabel]) (\<lambda>b. Inr (setContent L b d)))"

section \<open>What the generators make\<close>

lemma wireEncode_rrs_block:
  assumes "block_codec L"
  shows "wireEncode_rrs L rrs = Inr (Block tlv_Content (concat (map (blockWire L) rrs)))"
proof -
  have "fst (encode_rrs L rrs) = blockWire L (Block tlv_Content (concat (map (blockWire L) rrs)))"
    using assms by (simp add: encode_rrs_def Let_def fold_prependBytes prependBytes_def block_codecD(1))
  then show ?thesis using assms by (simp add: wireEncode_rrs_def block_codecD(3))
qed

definition version_used :: "ndn \<Rightarrow> nat \<Rightarrow> nat \<Rightarrow> component" where
  "version_used L now version = fromVersion L (if version \<noteq> VERSION_USE_UNIX_TIMESTAMP then version else now)"

definition ttl_used :: "factory \<Rightarrow> int \<Rightarrow> int" where
  "ttl_used f ttl = (if ttl = DEFAULT_RR_TTL then zone_ttl (rf_zone f) else ttl)"

text \<open>The record and the packet in it agree on label, type, version and TTL.\<close>

lemma generate_spec:
  assumes L: "sign_ok L" "data_codec L" and checked: "rf_checked f"
    and key: "\<And>x. signData L (SigningByCertificate (rf_dskCertName f)) x \<noteq> None"
    and fill: "\<And>d. fill d = Inr (d\<lparr>d_content := c\<rparr>)" and pos: "0 \<le> ttl_used f ttl"
  obtains r d where "generate L now f label type version ttl ct fill = Inr r"
    "rrset_id r = 0" "rrset_zone r = Some (rf_addr f, rf_zone f)" "rrset_label r = label" "rrset_type r = type"
    "rrset_version r = version_used L now version" "rrset_ttl r = ttl_used f ttl"
    "rrset_data r = dataBlock L d"
    "d_name d = rr_name (zone_name (rf_zone f)) label type @ [version_used L now version]"
    "d_contentType d = content_type_code ct" "d_freshness d = ttl_used f ttl * 1000" "d_content d = c"
proof -
  let ?n = "rr_name (zone_name (rf_zone f)) label type @ [version_used L now version]"
  let ?d = "(new_data ?n)\<lparr>d_content := c, d_contentType := content_type_code ct, d_freshness := ttl_used f ttl * 1000\<rparr>"
  have base: "generateBaseRrset L now f label type version t =
      ((Rrset_new (Some (rf_addr f, rf_zone f)))\<lparr>rrset_label := label, rrset_type := type, rrset_ttl := t,
         rrset_version := version_used L now version\<rparr>, ?n)" for t
    by (simp add: generateBaseRrset_def rr_name_def version_used_def appendVersion_def Let_def)
  obtain d where d: "signData L (SigningByCertificate (rf_dskCertName f)) ?d = Some d" using key by blast
  note D = sign_okD [OF L(1) d]
  show thesis
  proof (rule that [of _ d])
    show "generate L now f label type version ttl ct fill =
        Inr ((Rrset_new (Some (rf_addr f, rf_zone f)))\<lparr>rrset_label := label, rrset_type := type, rrset_ttl := ttl_used f ttl,
         rrset_version := version_used L now version, rrset_data := dataBlock L d\<rparr>)"
      using checked d pos by (simp add: generate_def Let_def base fill sign_def setContentType_def flip: ttl_used_def)
  qed (use D in simp_all)
qed

text \<open>With a negative TTL no record is made: the freshness period cannot be set.\<close>

lemma generate_negative:
  assumes "rf_checked f" and fill: "\<And>d. \<exists>d'. fill d = Inr d'" and neg: "ttl_used f ttl < 0"
  shows "generate L now f label type version ttl ct fill = Inl Invalid_Argument"
proof -
  obtain d where "fill (new_data (snd (generateBaseRrset L now f label type version (ttl_used f ttl)))) = Inr d" using fill by blast
  then show ?thesis
    using assms(1) neg by (simp add: generate_def Let_def setContentType_def case_prod_unfold flip: ttl_used_def)
qed

lemma generateDoeRrset_spec:
  assumes L: "ndn_ok L" and checked: "rf_checked f" and pos: "0 \<le> ttl_used f ttl"
    and key: "\<And>x. signData L (SigningByCertificate (rf_dskCertName f)) x \<noteq> None"
  obtains r d where "generateDoeRrset L now f label version ttl lower upper = Inr r"
    "rrset_id r = 0" "rrset_zone r = Some (rf_addr f, rf_zone f)" "rrset_label r = label" "rrset_type r = DOE_RR_TYPE"
    "rrset_version r = version_used L now version" "rrset_ttl r = ttl_used f ttl"
    "rrset_data r = dataBlock L d"
    "d_name d = rr_name (zone_name (rf_zone f)) label DOE_RR_TYPE @ [version_used L now version]"
    "d_contentType d = content_type_code NDNS_DOE" "wireDecodeDoe L (d_content d) = Inr (lower, upper)"
proof -
  note D = ndn_okD [OF L]
  let ?c = "Block tlv_Content (concat (map (blockWire L) [nameBlock L lower, nameBlock L upper]))"
  have fill: "bind_err (wireEncode_rrs L [nameBlock L lower, nameBlock L upper]) (\<lambda>b. Inr (setContent L b d)) =
      Inr (d\<lparr>d_content := ?c\<rparr>)" for d
    by (simp add: wireEncode_rrs_block [OF D(3)] setContent_def)
  have "wireDecodeDoe L ?c = Inr (lower, upper)" using wireDecodeDoe_pair [OF D(3)] by simp
  then show thesis
    using that unfolding generateDoeRrset_def
    by (rule_tac generate_spec [OF D(5,4) checked key fill pos, of now label DOE_RR_TYPE version NDNS_DOE]) simp_all
qed

lemma generateTxtRrset_spec:
  assumes L: "ndn_ok L" and checked: "rf_checked f" and pos: "0 \<le> ttl_used f ttl"
    and key: "\<And>x. signData L (SigningByCertificate (rf_dskCertName f)) x \<noteq> None"
  obtains r d where "generateTxtRrset L now f label version ttl strings = Inr r"
    "rrset_id r = 0" "rrset_zone r = Some (rf_addr f, rf_zone f)" "rrset_label r = label" "rrset_type r = TXT_RR_TYPE"
    "rrset_version r = version_used L now version" "rrset_ttl r = ttl_used f ttl" "rrset_data r = dataBlock L d"
    "d_name d = rr_name (zone_name (rf_zone f)) label TXT_RR_TYPE @ [version_used L now version]"
    "d_contentType d = content_type_code NDNS_RESP" "d_freshness d = ttl_used f ttl * 1000"
    "wireDecodeTxt L (d_content d) = Inr strings"
proof -
  note D = ndn_okD [OF L]
  let ?bs = "map (Block (tlv_number RrData)) strings"
  let ?c = "Block tlv_Content (concat (map (blockWire L) ?bs))"
  have fill: "bind_err (wireEncode_rrs L ?bs) (\<lambda>b. Inr (setContent L b d)) = Inr (d\<lparr>d_content := ?c\<rparr>)" for d
    by (simp add: wireEncode_rrs_block [OF D(3)] setContent_def)
  have "wireDecodeTxt L ?c = Inr strings"
    using block_codecD(4) [OF D(3), of tlv_Content ?bs] by (simp add: wireDecodeTxt_def comp_def)
  then show thesis
    using that unfolding generateTxtRrset_def
    by (rule_tac generate_spec [OF D(5,4) checked key fill pos, of now label TXT_RR_TYPE version NDNS_RESP]) simp_all
qed

lemma generateTxtRrset_negative:
  assumes "block_codec L" "rf_checked f" "ttl_used f ttl < 0"
  shows "generateTxtRrset L now f label version ttl strings = Inl Invalid_Argument"
  unfolding generateTxtRrset_def by (rule generate_negative) (use assms in \<open>simp_all add: wireEncode_rrs_block\<close>)

lemma generateNsRrset_negative:
  assumes "rf_checked f" "ttl_used f ttl < 0"
  shows "generateNsRrset L now f label version ttl delegations = Inl Invalid_Argument"
  unfolding generateNsRrset_def by (rule generate_negative) (use assms in simp_all)

lemma generateAuthRrset_negative:
  assumes "rf_checked f" "ttl_used f ttl < 0"
  shows "generateAuthRrset L now f label version ttl = Inl Invalid_Argument"
  unfolding generateAuthRrset_def by (rule generate_negative) (use assms in simp_all)

section \<open>Properties\<close>

text \<open>
  A TXT record made by a checked factory with a usable certificate and a TTL that is not negative holds a packet that the resolver reads back: it decodes, its name
  has the zone, label, type and version of the record, its freshness is the record's TTL (the zone's when none is
  given), and its content decodes to the given strings.
\<close>

theorem generateTxtRrset_readable:
  assumes L: "ndn_ok L" and checked: "rf_checked f" and pos: "0 \<le> ttl_used f ttl"
    and key: "\<And>x. signData L (SigningByCertificate (rf_dskCertName f)) x \<noteq> None"
    and len: "length (zone_name (rf_zone f)) + length label + 3 < 2 ^ 64"
  shows "\<exists>r d. generateTxtRrset L now f label version ttl strings = Inr r \<and> blockData L (rrset_data r) = Some d \<and>
           matchName_data (d_name d) (zone_name (rf_zone f)) =
             Inr (Some \<lparr>m_rrLabel = rrset_label r, m_rrType = rrset_type r, m_version = rrset_version r\<rparr>) \<and>
           rrset_label r = label \<and> rrset_type r = TXT_RR_TYPE \<and>
           rrset_ttl r = (if ttl = DEFAULT_RR_TTL then zone_ttl (rf_zone f) else ttl) \<and>
           d_freshness d = rrset_ttl r * 1000 \<and> to_content_type (d_contentType d) = NDNS_RESP \<and>
           wireDecodeTxt L (d_content d) = Inr strings"
proof -
  obtain r d where r: "generateTxtRrset L now f label version ttl strings = Inr r"
    "rrset_label r = label" "rrset_type r = TXT_RR_TYPE" "rrset_version r = version_used L now version"
    "rrset_ttl r = ttl_used f ttl" "rrset_data r = dataBlock L d"
    "d_name d = rr_name (zone_name (rf_zone f)) label TXT_RR_TYPE @ [version_used L now version]"
    "d_contentType d = content_type_code NDNS_RESP" "d_freshness d = ttl_used f ttl * 1000"
    "wireDecodeTxt L (d_content d) = Inr strings"
    by (rule generateTxtRrset_spec [OF L checked pos key, of now label version strings]) blast
  with len show ?thesis
    by (intro exI [of _ r] exI [of _ d]) (simp add: data_codecD [OF ndn_okD(4) [OF L]] matchName_data_response ttl_used_def)
qed

definition factory_sample :: factory where
  "factory_sample = \<lparr>rf_dbFile = ''db'', rf_addr = 2, rf_zone = snd zone_sample, rf_dskCertName = [generic ''net'', keyComp],
      rf_dskName = [], rf_checked = True\<rparr>"

theorem generateTxtRrset_readable_witness:
  "\<exists>r d. generateTxtRrset ndn0 7 factory_sample [generic ''www''] 5 0 [''hello'', ''world''] = Inr r \<and>
     blockData ndn0 (rrset_data r) = Some d \<and> wireDecodeTxt ndn0 (d_content d) = Inr [''hello'', ''world'']"
  using generateTxtRrset_readable [OF ndn0_ok, of factory_sample 0 "[generic ''www'']" 7 5 "[''hello'', ''world'']"]
  by (auto simp: factory_sample_def zone_sample_def ttl_used_def DEFAULT_RR_TTL_def)

text \<open>
  An NS record made by a checked factory with a TTL that is not negative is read by the resolver as a link (content type LINK) whose delegations are exactly the
  given ones, in order.
\<close>

theorem generateNsRrset_delegations:
  assumes L: "ndn_ok L" and checked: "rf_checked f" and pos: "0 \<le> ttl_used f ttl"
    and key: "\<And>x. signData L (SigningByCertificate (rf_dskCertName f)) x \<noteq> None"
  shows "\<exists>r d. generateNsRrset L now f label version ttl delegations = Inr r \<and> rrset_type r = NS_RR_TYPE \<and>
           blockData L (rrset_data r) = Some d \<and> to_content_type (d_contentType d) = NDNS_LINK \<and>
           linkDelegations L (rrset_data r) = Some delegations"
proof -
  note D = ndn_okD [OF L]
  obtain r d where r: "generateNsRrset L now f label version ttl delegations = Inr r" "rrset_type r = NS_RR_TYPE"
    "rrset_data r = dataBlock L d" "d_contentType d = content_type_code NDNS_LINK" "d_content d = linkContent L delegations"
    unfolding generateNsRrset_def
    by (rule generate_spec [OF D(5,4) checked key, of "\<lambda>d. Inr (d\<lparr>d_content := linkContent L delegations\<rparr>)"
          "linkContent L delegations" ttl now label NS_RR_TYPE version NDNS_LINK]) (use pos in auto)
  then show ?thesis
    by (intro exI [of _ r] exI [of _ d]) (simp add: data_codecD [OF D(4)])
qed

theorem generateNsRrset_delegations_witness:
  "\<exists>r. generateNsRrset ndn0 7 factory_sample [generic ''www''] 5 0 [[generic ''ucla''], [generic ''att'']] = Inr r \<and>
     linkDelegations ndn0 (rrset_data r) = Some [[generic ''ucla''], [generic ''att'']]"
  using generateNsRrset_delegations [OF ndn0_ok, of factory_sample 0 7 "[generic ''www'']" 5 "[[generic ''ucla''], [generic ''att'']]"]
  by (auto simp: factory_sample_def zone_sample_def ttl_used_def DEFAULT_RR_TTL_def)

text \<open>
  The check of the zone is remembered before it is made: when \<open>onlyCheckZone\<close> throws because the zone is not in the
  database, calling it again returns normally, and the factory then counts as checked.
\<close>

theorem onlyCheckZone_failure_forgotten:
  assumes "onlyCheckZone L E dflt disk f = (f', Inl e)"
  shows "onlyCheckZone L E dflt disk' f' = (f', Inr ()) \<and> rf_checked f'"
proof -
  have "rf_checked f'"
    using assms by (auto simp: onlyCheckZone_def Let_def split: if_splits prod.splits sum.splits)
  then show ?thesis by (simp add: onlyCheckZone_def)
qed

theorem onlyCheckZone_failure_forgotten_witness:
  "\<exists>f'. onlyCheckZone ndn0 sqlite0 ''db'' (\<lambda>_. \<lparr>zones = [], zone_info = [], rrsets = []\<rparr>) (factory_sample\<lparr>rf_checked := False\<rparr>) =
      (f', Inl (RrsetFactory_Error ''is not presented in the NDNS db'')) \<and>
     onlyCheckZone ndn0 sqlite0 ''db'' (\<lambda>_. \<lparr>zones = [], zone_info = [], rrsets = []\<rparr>) f' = (f', Inr ())"
proof -
  let ?disk = "\<lambda>_ :: string. \<lparr>zones = [], zone_info = [], rrsets = []\<rparr>"
  obtain f' where f: "onlyCheckZone ndn0 sqlite0 ''db'' ?disk (factory_sample\<lparr>rf_checked := False\<rparr>) =
      (f', Inl (RrsetFactory_Error ''is not presented in the NDNS db''))"
    by (simp add: onlyCheckZone_def factory_sample_def DbMgr_new_def open_db_def findZone_def prepare_def Let_def)
       (simp add: sqlite0_def)
  with onlyCheckZone_failure_forgotten [OF f, of ?disk] show ?thesis by blast
qed

end
