(* ===== verification/ManagementTool.thy ===== *)
theory ManagementTool
  imports RrsetFactory
begin

text \<open>
  The management tool (\<open>src/mgmt/management-tool.cpp\<close>, \<open>.hpp\<close>): adding, replacing and removing records, and the chain
  of denial-of-existence records that is rebuilt after each change. A Rrset and the
  functions it is passed to share its zone through a pointer: a function that may change the zone returns the Rrset (or the zone).

  \<open>K\<close> and \<open>k\<close> are the key chain and its state, \<open>dflt\<close> the default database path, \<open>now\<close> the time and \<open>fa\<close> the address of
  the zone inside the factory that \<open>generateDoe\<close> makes.
\<close>

section \<open>Denial of existence\<close>

definition DEFAULT_CACHE_TTL :: int where "DEFAULT_CACHE_TTL = 3600"

definition doe_name :: "rrset \<Rightarrow> name" where
  "doe_name r = rrset_label r @ [rrset_type r]"

text \<open>\<open>std::sort\<close> with \<open>operator<\<close>; all records point to one zone, so the comparison does not throw.\<close>

fun insert_rec :: "ndn \<Rightarrow> rrset \<Rightarrow> rrset list \<Rightarrow> rrset list" where
  "insert_rec L r [] = [r]"
| "insert_rec L r (x # xs) = (if rrset_key_less L x r then x # insert_rec L r xs else r # x # xs)"

definition sort_recs :: "ndn \<Rightarrow> rrset list \<Rightarrow> rrset list" where
  "sort_recs L rs = foldr (insert_rec L) rs []"

definition insert_doe ::
  "ndn \<Rightarrow> sqlite \<Rightarrow> nat \<Rightarrow> factory \<Rightarrow> dbmgr \<Rightarrow> name \<Rightarrow> name \<Rightarrow> name \<Rightarrow> (dbmgr, unit) res" where
  "insert_doe L E now f d label lower upper =
     and_then (lift_err d (generateDoeRrset L now f label VERSION_USE_UNIX_TIMESTAMP DEFAULT_CACHE_TTL lower upper))
       (\<lambda>d doe. and_then (insertRrset L E d doe) (\<lambda>d _. (d, Inr ())))"

fun insert_chain :: "ndn \<Rightarrow> sqlite \<Rightarrow> nat \<Rightarrow> factory \<Rightarrow> dbmgr \<Rightarrow> rrset list \<Rightarrow> (dbmgr, unit) res" where
  "insert_chain L E now f d (r1 # r2 # rs) =
     and_then (insert_doe L E now f d (doe_name r1) (doe_name r1) (doe_name r2))
       (\<lambda>d _. insert_chain L E now f d (r2 # rs))"
| "insert_chain L E now f d _ = (d, Inr ())"

text \<open>With no record left, \<open>allRecords.size() - 1\<close> wraps and the loop reads past the end.\<close>

definition generateDoe ::
  "ndn \<Rightarrow> sqlite \<Rightarrow> 'k keychain \<Rightarrow> 'k \<Rightarrow> string \<Rightarrow> nat \<Rightarrow> nat \<Rightarrow> dbmgr \<Rightarrow> zone_ptr \<Rightarrow> (dbmgr, zone) res" where
  "generateDoe L E K k dflt now fa d p =
     and_then (findZone L E d (snd p)) (\<lambda>d (z, found).
       if \<not> found then (d, Inl (ManagementTool_Error ''is not present in the NDNS db''))
       else and_then (removeRrsetsOfZoneByType L E d z DOE_RR_TYPE) (\<lambda>d z.
         and_then (findRrsets L E d (fst p, z)) (\<lambda>d (z, rrs).
           let allRecords = sort_recs L rrs in
           and_then (lift_err d (RrsetFactory_new K k fa (m_dbFile d) (zone_name z) DEFAULT_CERT)) (\<lambda>d f.
             case checkZoneKey L E K k dflt (\<lambda>_. m_tables d) f of
               (f, Inl e) \<Rightarrow> (d, Inl e)
             | (f, Inr _) \<Rightarrow>
                 if allRecords = [] then (d, Inl Undefined)
                 else and_then (insert_chain L E now f d allRecords) (\<lambda>d _.
                   let lastLabel = doe_name (last allRecords); firstLabel = doe_name (hd allRecords) in
                   and_then (insert_doe L E now f d lastLabel lastLabel firstLabel) (\<lambda>d _.
                     and_then (insert_doe L E now f d [] lastLabel firstLabel) (\<lambda>d _. (d, Inr z))))))))"

section \<open>Records\<close>

definition checkRrsetVersion :: "ndn \<Rightarrow> sqlite \<Rightarrow> dbmgr \<Rightarrow> rrset \<Rightarrow> (dbmgr, rrset) res" where
  "checkRrsetVersion L E d rrset =
     and_then (findRrset L E d rrset) (\<lambda>d (originalRrset, found).
       let rrset = rrset\<lparr>rrset_zone := rrset_zone originalRrset\<rparr> in
       if \<not> found then (d, Inr rrset)
       else if rrset_version originalRrset = rrset_version rrset then (d, Inl (ManagementTool_Error ''Duplicate''))
       else if compLess L (rrset_version rrset) (rrset_version originalRrset)
       then (d, Inl (ManagementTool_Error ''Newer version exists''))
       else and_then (removeRrset E d originalRrset) (\<lambda>d _. (d, Inr rrset)))"

text \<open>The content type of the packet in a record; \<open>Data(block)\<close> may throw.\<close>

definition stored_type :: "ndn \<Rightarrow> rrset \<Rightarrow> error + NdnsContentType" where
  "stored_type L r = bind_err (or_throw Tlv_Error (blockData L (rrset_data r))) (\<lambda>d. Inr (to_content_type (d_contentType d)))"

text \<open>The common end of the operations that add a record.\<close>

definition store_rrset ::
  "ndn \<Rightarrow> sqlite \<Rightarrow> 'k keychain \<Rightarrow> 'k \<Rightarrow> string \<Rightarrow> nat \<Rightarrow> nat \<Rightarrow> dbmgr \<Rightarrow> rrset \<Rightarrow> (dbmgr, rrset) res" where
  "store_rrset L E K k dflt now fa d rrset =
     and_then (checkRrsetVersion L E d rrset) (\<lambda>d rrset.
       and_then (insertRrset L E d rrset) (\<lambda>d rrset.
         case rrset_zone rrset of
           None \<Rightarrow> (d, Inl Undefined)
         | Some p \<Rightarrow>
             and_then (generateDoe L E K k dflt now fa d p) (\<lambda>d z.
               (d, Inr (rrset\<lparr>rrset_zone := Some (fst p, z)\<rparr>)))))"

definition addRrset ::
  "ndn \<Rightarrow> sqlite \<Rightarrow> 'k keychain \<Rightarrow> 'k \<Rightarrow> string \<Rightarrow> nat \<Rightarrow> nat \<Rightarrow> dbmgr \<Rightarrow> rrset \<Rightarrow> (dbmgr, rrset) res" where
  "addRrset L E K k dflt now fa d rrset =
     and_then (findRrset L E d (rrset\<lparr>rrset_type := NS_RR_TYPE\<rparr>)) (\<lambda>d (rrsetCopy, found).
       let rrset = rrset\<lparr>rrset_zone := rrset_zone rrsetCopy\<rparr> in
       and_then (if found then lift_err d (stored_type L rrsetCopy) else (d, Inr NDNS_UNKNOWN)) (\<lambda>d ct.
         if found \<and> ct = NDNS_AUTH
         then (d, Inl (ManagementTool_Error ''Can not add this Rrset: it overrides a NDNS_AUTH record''))
         else store_rrset L E K k dflt now fa d rrset))"

text \<open>\<open>addMultiLevelLabelRrset\<close>: no proper prefix of the label may be delegated to a child zone, and the prefixes that are not
  there yet get AUTH records. The prefixes are those of length 1 up to \<open>label.size() - 1\<close>, in \<open>size_t\<close>. For the
  empty label this bound wraps to the largest \<open>size_t\<close>, which no index exceeds: the first loop looks at the empty prefix again and
  again, and ends only when it throws.\<close>

definition proper_prefixes :: "name \<Rightarrow> name list" where
  "proper_prefixes label = map (\<lambda>i. take i label) [1..<length label]"

definition ns_object :: "zone_ptr option \<Rightarrow> name \<Rightarrow> rrset" where
  "ns_object p label = (Rrset_new p)\<lparr>rrset_label := label, rrset_type := NS_RR_TYPE\<rparr>"

fun check_prefixes :: "ndn \<Rightarrow> sqlite \<Rightarrow> dbmgr \<Rightarrow> zone_ptr option \<Rightarrow> name list \<Rightarrow> (dbmgr, zone_ptr option) res" where
  "check_prefixes L E d p [] = (d, Inr p)"
| "check_prefixes L E d p (l # ls) =
     and_then (findRrset L E d (ns_object p l)) (\<lambda>d (prefixNsRr, found).
       and_then (if found then lift_err d (stored_type L prefixNsRr) else (d, Inr NDNS_UNKNOWN)) (\<lambda>d ct.
         if found \<and> ct = NDNS_LINK then (d, Inl (ManagementTool_Error ''Cannot override (NDNS_LINK)''))
         else check_prefixes L E d (rrset_zone prefixNsRr) ls))"

fun add_auths ::
  "ndn \<Rightarrow> sqlite \<Rightarrow> nat \<Rightarrow> factory \<Rightarrow> int \<Rightarrow> dbmgr \<Rightarrow> zone_ptr option \<Rightarrow> name list \<Rightarrow> (dbmgr, zone_ptr option) res" where
  "add_auths L E now f authTtl d p [] = (d, Inr p)"
| "add_auths L E now f authTtl d p (l # ls) =
     and_then (findRrset L E d (ns_object p l)) (\<lambda>d (prefixNsRr, found).
       if found then add_auths L E now f authTtl d (rrset_zone prefixNsRr) ls
       else and_then (lift_err d (generateAuthRrset L now f l VERSION_USE_UNIX_TIMESTAMP authTtl)) (\<lambda>d authRr.
         and_then (insertRrset L E d authRr) (\<lambda>d _. add_auths L E now f authTtl d (rrset_zone prefixNsRr) ls)))"

definition addMultiLevelLabelRrset ::
  "ndn \<Rightarrow> sqlite \<Rightarrow> 'k keychain \<Rightarrow> 'k \<Rightarrow> string \<Rightarrow> nat \<Rightarrow> nat \<Rightarrow> dbmgr \<Rightarrow> rrset \<Rightarrow> factory \<Rightarrow> int \<Rightarrow> (dbmgr, rrset) res" where
  "addMultiLevelLabelRrset L E K k dflt now fa d rrset f authTtl =
     and_then (check_prefixes L E d (rrset_zone rrset) (if rrset_label rrset = [] then [[]] else proper_prefixes (rrset_label rrset))) (\<lambda>d p.
       let rrset = rrset\<lparr>rrset_zone := p\<rparr> in
       if rrset_label rrset = [] then (d, Inl Diverges)
       else and_then
         (if rrset_type rrset = NS_RR_TYPE then
            and_then (findRrset L E d rrset) (\<lambda>d (rrsetCopy, found).
              and_then (if found then lift_err d (stored_type L rrsetCopy) else (d, Inr NDNS_UNKNOWN)) (\<lambda>d ct.
                if found \<and> ct = NDNS_AUTH then (d, Inl (ManagementTool_Error ''Cannot override (NDNS_AUTH)''))
                else (d, Inr (rrset\<lparr>rrset_zone := rrset_zone rrsetCopy\<rparr>))))
          else (d, Inr rrset))
         (\<lambda>d rrset.
           and_then (add_auths L E now f authTtl d (rrset_zone rrset) (proper_prefixes (rrset_label rrset))) (\<lambda>d p.
             store_rrset L E K k dflt now fa d (rrset\<lparr>rrset_zone := p\<rparr>))))"

definition removeRrSet ::
  "ndn \<Rightarrow> sqlite \<Rightarrow> 'k keychain \<Rightarrow> 'k \<Rightarrow> string \<Rightarrow> nat \<Rightarrow> nat \<Rightarrow> nat \<Rightarrow> dbmgr \<Rightarrow> name \<Rightarrow> name \<Rightarrow> component \<Rightarrow> (dbmgr, unit) res" where
  "removeRrSet L E K k dflt now fa addr d zoneName label type =
     and_then (findRrset L E d ((Rrset_new (Some (addr, Zone_of zoneName)))\<lparr>rrset_label := label, rrset_type := type\<rparr>))
       (\<lambda>d (rrset, found).
         if \<not> found then (d, Inr ())
         else and_then (removeRrset E d rrset) (\<lambda>d r.
           case rrset_zone rrset of
             None \<Rightarrow> (d, Inl Undefined)
           | Some p \<Rightarrow> and_then (generateDoe L E K k dflt now fa d p) (\<lambda>d _. (d, Inr ()))))"

text \<open>\<open>getRrSet\<close> writes the stored packet, base64 encoded; here the block it writes, or \<open>None\<close> for ``No record is found''.\<close>

definition getRrSet :: "ndn \<Rightarrow> sqlite \<Rightarrow> nat \<Rightarrow> dbmgr \<Rightarrow> name \<Rightarrow> name \<Rightarrow> component \<Rightarrow> (dbmgr, block option) res" where
  "getRrSet L E addr d zoneName label type =
     and_then (findRrset L E d ((Rrset_new (Some (addr, Zone_of zoneName)))\<lparr>rrset_label := label, rrset_type := type\<rparr>))
       (\<lambda>d (rrset, found). (d, Inr (if found then Some (rrset_data rrset) else None)))"

section \<open>Zones\<close>

definition addZone :: "ndn \<Rightarrow> sqlite \<Rightarrow> dbmgr \<Rightarrow> zone \<Rightarrow> (dbmgr, zone) res" where
  "addZone L E d zone =
     and_then (findZone L E d zone) (\<lambda>d (zone, found).
       if found then (d, Inl (ManagementTool_Error ''is already present in local NDNS database''))
       else insertZone L E d zone)"

definition removeZone_tool :: "ndn \<Rightarrow> sqlite \<Rightarrow> dbmgr \<Rightarrow> zone \<Rightarrow> (dbmgr, zone) res" where
  "removeZone_tool L E d zone =
     and_then (findZone L E d zone) (\<lambda>d (zone, found). if \<not> found then (d, Inr zone) else removeZone E d zone)"

fun remove_all :: "sqlite \<Rightarrow> dbmgr \<Rightarrow> rrset list \<Rightarrow> (dbmgr, unit) res" where
  "remove_all E d [] = (d, Inr ())"
| "remove_all E d (r # rs) = and_then (removeRrset E d r) (\<lambda>d _. remove_all E d rs)"

definition deleteZone :: "ndn \<Rightarrow> sqlite \<Rightarrow> nat \<Rightarrow> dbmgr \<Rightarrow> name \<Rightarrow> (dbmgr, unit) res" where
  "deleteZone L E addr d zoneName =
     and_then (findZone L E d (Zone_of zoneName)) (\<lambda>d (zone, found).
       if \<not> found then (d, Inl (ManagementTool_Error ''is not present in the NDNS db''))
       else and_then (findRrsets L E d (addr, zone)) (\<lambda>d (zone, rrsets).
         and_then (remove_all E d rrsets) (\<lambda>d _.
           and_then (removeZone_tool L E d zone) (\<lambda>d _. (d, Inr ())))))"

text \<open>\<open>addIdCert\<close>: the label is cut out of the certificate name, with the length computed in \<open>size_t\<close>.\<close>

definition addIdCert :: "ndn \<Rightarrow> sqlite \<Rightarrow> dbmgr \<Rightarrow> zone_ptr \<Rightarrow> certificate \<Rightarrow> int \<Rightarrow> (dbmgr, zone_ptr) res" where
  "addIdCert L E d p cert ttl =
     (let size = length (zone_name (snd p)); n = d_name cert;
          label = take (size_minus (size_minus (length n) size) 3) (drop (size + 1) n);
          rrsetKey = (Rrset_new (Some p))\<lparr>rrset_label := label, rrset_type := CERT_RR_TYPE, rrset_ttl := ttl,
                       rrset_version := last n, rrset_data := dataBlock L cert\<rparr>
      in and_then (findRrset L E d rrsetKey) (\<lambda>d (rrsetKey, found).
           if found then (d, Inl (ManagementTool_Error ''CERT is already present in local NDNS database''))
           else and_then (insertRrset L E d rrsetKey) (\<lambda>d r.
             (d, Inr (case rrset_zone r of Some q \<Rightarrow> q | None \<Rightarrow> p)))))"

definition matchCertificate_tool :: "'k keychain \<Rightarrow> 'k \<Rightarrow> name \<Rightarrow> name \<Rightarrow> error + bool" where
  "matchCertificate_tool K k certName identity =
     bind_err (getIdentity K k identity) (\<lambda>keys. Inr (\<exists>key \<in> set keys. \<exists>cert \<in> set (snd key). d_name cert = certName))"

text \<open>\<open>getZoneDkey\<close>: \<open>zoneInfo["dkey"]\<close> of a map without the key is an empty block, which is no certificate.\<close>

definition getZoneDkey :: "ndn \<Rightarrow> sqlite \<Rightarrow> dbmgr \<Rightarrow> zone \<Rightarrow> (dbmgr, certificate) res" where
  "getZoneDkey L E d zone =
     and_then (getZoneInfo L E d zone) (\<lambda>d (zone, zoneInfo).
       (d, or_throw Tlv_Error (Option.bind (zoneInfo ''dkey'') (blockData L))))"

end
