(* ===== verification/DoeChain.thy ===== *)
theory DoeChain
  imports ManagementTool
begin

text \<open>
  What \<open>ManagementTool::generateDoe\<close> leaves in the database: the records as they were, and one DoE record per record,
  chained in the order of label and type, with the guard at the empty label.
\<close>

section \<open>Sorting\<close>

lemma mset_insert_rec [simp]: "mset (insert_rec L r xs) = add_mset r (mset xs)"
  by (induction xs) auto

lemma mset_sort_recs [simp]: "mset (sort_recs L rs) = mset rs"
  by (induction rs) (simp_all add: sort_recs_def)

lemma set_sort_recs [simp]: "set (sort_recs L rs) = set rs"
  by (metis mset_sort_recs set_mset_mset)

lemma length_sort_recs [simp]: "length (sort_recs L rs) = length rs"
  by (metis mset_sort_recs size_mset)

lemma rrset_key_less_cong:
  "name_codec L \<Longrightarrow> rrset_key x = rrset_key y \<Longrightarrow> rrset_key_less L z x = rrset_key_less L z y"
  by (simp add: rrset_key_less_lex rrset_key_def)

lemma rrset_key_le_trans:
  assumes L: "name_codec L" and "\<not> rrset_key_less L y x" "\<not> rrset_key_less L z y"
  shows "\<not> rrset_key_less L z x"
  using assms(2,3) rrset_key_less_linear [OF L, of x y] rrset_key_less_trans [OF L, of z x y]
    rrset_key_less_cong [OF L, of x y z] by blast

lemma set_insert_rec [simp]: "set (insert_rec L r ys) = insert r (set ys)"
  by (induction ys) auto

lemma sorted_insert_rec:
  assumes L: "name_codec L" and "sorted_wrt (\<lambda>a b. \<not> rrset_key_less L b a) xs"
  shows "sorted_wrt (\<lambda>a b. \<not> rrset_key_less L b a) (insert_rec L r xs)"
  using assms(2)
proof (induction xs)
  case (Cons x xs)
  show ?case
  proof (cases "rrset_key_less L x r")
    case True
    then have "\<not> rrset_key_less L r x" using rrset_key_less_trans [OF L] rrset_key_less_irrefl [OF L] by blast
    with Cons True show ?thesis by auto
  next
    case False
    then have "\<not> rrset_key_less L y r" if "y \<in> set xs" for y
      using Cons.prems that rrset_key_le_trans [OF L False, of y] by auto
    with Cons False show ?thesis by auto
  qed
qed simp

lemma sorted_sort_recs: "name_codec L \<Longrightarrow> sorted_wrt (\<lambda>a b. \<not> rrset_key_less L b a) (sort_recs L rs)"
  by (induction rs) (auto simp: sort_recs_def intro: sorted_insert_rec)

section \<open>One zone seen through different objects\<close>

text \<open>Reads do not depend on the object that stands for the zone, only on its id.\<close>

lemma store_inv_ptr: "zone_id (snd p) = zone_id (snd q) \<Longrightarrow> store_inv L E p d \<longleftrightarrow> store_inv L E q d"
  by (simp add: store_inv_def)

lemma db_get_ptr:
  assumes "zone_id (snd p) = zone_id (snd q)" "store_inv L E p d"
  shows "db_get L E p d = db_get L E q d"
proof
  fix k
  have "store_inv L E q d" using assms store_inv_ptr by blast
  then show "db_get L E p d k = db_get L E q d k" using assms by (simp add: db_get_at key_of_def)
qed

section \<open>DoE records\<close>

definition range_of :: "ndn \<Rightarrow> rr_value \<Rightarrow> (name \<times> name) option" where
  "range_of L v =
     (case blockData L (snd (snd v)) of
        None \<Rightarrow> None
      | Some d \<Rightarrow> (case wireDecodeDoe L (d_content d) of Inl _ \<Rightarrow> None | Inr r \<Rightarrow> Some r))"

definition doe_range :: "ndn \<Rightarrow> sqlite \<Rightarrow> zone_ptr \<Rightarrow> dbmgr \<Rightarrow> name \<Rightarrow> (name \<times> name) option" where
  "doe_range L E p d n = Option.bind (db_get L E p d (n, DOE_RR_TYPE)) (range_of L)"

text \<open>A value is well named at a key when it holds a packet whose name is that of the record: zone, label, type and version.\<close>

definition named_value :: "ndn \<Rightarrow> name \<Rightarrow> name \<times> component \<Rightarrow> rr_value \<Rightarrow> bool" where
  "named_value L zoneName k v \<longleftrightarrow>
     (case blockData L (snd (snd v)) of
        None \<Rightarrow> False
      | Some d \<Rightarrow> d_name d = rr_name zoneName (fst k) (snd k) @ [fst v])"

lemma named_valueD:
  assumes "named_value L zoneName k (v, t, b)"
  obtains d where "blockData L b = Some d" "d_name d = rr_name zoneName (fst k) (snd k) @ [v]"
  using assms by (auto simp: named_value_def split: option.splits)

text \<open>What a call may rely on to sign and store records of the zone at \<open>p\<close>.\<close>

definition factory_ready :: "ndn \<Rightarrow> zone_ptr \<Rightarrow> factory \<Rightarrow> bool" where
  "factory_ready L p f \<longleftrightarrow> rf_checked f \<and> zone_id (rf_zone f) = zone_id (snd p) \<and> zone_name (rf_zone f) = zone_name (snd p) \<and>
     (\<forall>x. signData L (SigningByCertificate (rf_dskCertName f)) x \<noteq> None)"

definition roomy :: "sqlite \<Rightarrow> dbmgr \<Rightarrow> nat \<Rightarrow> bool" where
  "roomy E d n \<longleftrightarrow> sqlite_roomy E \<and> length (rrsets (m_tables d)) + n < 2 ^ 62"

lemma db_ins_roomy:
  assumes i: "store_inv L E p d" and n: "db_get L E p d k = None" and room: "roomy E d (Suc n)"
  obtains d' where "db_ins L E p d k v = (d', True)" "store_inv L E p d'" "db_get L E p d' = (db_get L E p d)(k \<mapsto> v)"
    "roomy E d' n" "zones (m_tables d') = zones (m_tables d)" "m_dbFile d' = m_dbFile d"
    "length (rrsets (m_tables d')) = Suc (length (rrsets (m_tables d)))"
proof -
  have "length (map r_id (rrsets (m_tables d))) < 2 ^ 62" using room by (simp add: roomy_def)
  then obtain rid where rid: "newRowid E (map r_id (rrsets (m_tables d))) = Some rid"
    using room unfolding roomy_def sqlite_roomy_def by blast
  show thesis using that db_ins_None [OF i n rid refl, of v] room by (simp add: roomy_def)
qed

text \<open>One insertion: the DoE record appears, everything else stays.\<close>

lemma insert_doe_ok:
  assumes L: "ndn_ok L" and i: "store_inv L E p d" and f: "factory_ready L p f" and room: "roomy E d (Suc n)"
    and new: "db_get L E p d (label, DOE_RR_TYPE) = None"
  obtains d' v where "insert_doe L E now f d label lower upper = (d', Inr ())" "store_inv L E p d'" "roomy E d' n"
    "db_get L E p d' = (db_get L E p d)((label, DOE_RR_TYPE) \<mapsto> v)" "range_of L v = Some (lower, upper)"
    "zones (m_tables d') = zones (m_tables d)" "m_dbFile d' = m_dbFile d" "named_value L (zone_name (snd p)) (label, DOE_RR_TYPE) v"
proof -
  let ?q = "(rf_addr f, rf_zone f)"
  have z: "zone_id (snd ?q) = zone_id (snd p)" using f by (simp add: factory_ready_def)
  have iq: "store_inv L E ?q d" using i store_inv_ptr [OF z] by blast
  obtain r x where r: "generateDoeRrset L now f label VERSION_USE_UNIX_TIMESTAMP DEFAULT_CACHE_TTL lower upper = Inr r"
    "rrset_id r = 0" "rrset_zone r = Some ?q" "rrset_label r = label" "rrset_type r = DOE_RR_TYPE"
    "rrset_data r = dataBlock L x" "wireDecodeDoe L (d_content x) = Inr (lower, upper)"
    "d_name x = rr_name (zone_name (rf_zone f)) label DOE_RR_TYPE @ [rrset_version r]"
    by (rule generateDoeRrset_spec [OF L, of f DEFAULT_CACHE_TTL now label VERSION_USE_UNIX_TIMESTAMP lower upper])
       (use f in \<open>auto simp: factory_ready_def ttl_used_def DEFAULT_CACHE_TTL_def DEFAULT_RR_TTL_def\<close>)
  define v where "v = (rrset_version r, rrset_ttl r, rrset_data r)"
  have obj: "rr_fill v (rr_object ?q (label, DOE_RR_TYPE)) = r"
    using r(2-5) by (simp add: v_def rr_fill_def rr_object_def Rrset_new_def)
  have n: "db_get L E ?q d (label, DOE_RR_TYPE) = None" using new db_get_ptr [OF z iq] by simp
  obtain d' where d': "db_ins L E ?q d (label, DOE_RR_TYPE) v = (d', True)" "store_inv L E ?q d'"
    "db_get L E ?q d' = (db_get L E ?q d)((label, DOE_RR_TYPE) \<mapsto> v)" "roomy E d' n"
    "zones (m_tables d') = zones (m_tables d)" "m_dbFile d' = m_dbFile d" by (rule db_ins_roomy [OF iq n room])
  have "insert_doe L E now f d label lower upper = (d', Inr ())"
    using d'(1) r(1) obj by (auto simp: insert_doe_def db_ins_def split: prod.splits sum.splits)
  moreover have "store_inv L E p d'" using d'(2) store_inv_ptr [OF z] by blast
  moreover have "db_get L E p d' = (db_get L E p d)((label, DOE_RR_TYPE) \<mapsto> v)"
    using d'(3) db_get_ptr [OF z iq] db_get_ptr [OF z d'(2)] by simp
  moreover have "range_of L v = Some (lower, upper)"
    using r(6,7) ndn_okD(4) [OF L] by (simp add: v_def range_of_def data_codecD)
  moreover have "named_value L (zone_name (snd p)) (label, DOE_RR_TYPE) v"
    using r(6,8) f ndn_okD(4) [OF L] by (simp add: v_def named_value_def data_codecD factory_ready_def)
  ultimately show thesis using that d'(4-6) by simp
qed

section \<open>The chain\<close>

fun chain_pairs :: "name list \<Rightarrow> (name \<times> name \<times> name) list" where
  "chain_pairs (a # b # ns) = (a, a, b) # chain_pairs (b # ns)"
| "chain_pairs _ = []"

lemma map_fst_chain_pairs: "map fst (chain_pairs ns) = butlast ns"
  by (induction ns rule: chain_pairs.induct) auto

text \<open>How a sequence of DoE insertions changes the database: \<open>m\<close> are the records inserted.\<close>

definition doe_added ::
  "ndn \<Rightarrow> sqlite \<Rightarrow> zone_ptr \<Rightarrow> dbmgr \<Rightarrow> dbmgr \<Rightarrow> (name \<times> name \<times> name) list \<Rightarrow> bool" where
  "doe_added L E p d d' m \<longleftrightarrow>
     store_inv L E p d' \<and> zones (m_tables d') = zones (m_tables d) \<and> m_dbFile d' = m_dbFile d \<and>
     (\<forall>k. snd k \<noteq> DOE_RR_TYPE \<longrightarrow> db_get L E p d' k = db_get L E p d k) \<and>
     (\<forall>l. db_get L E p d' (l, DOE_RR_TYPE) = None \<longleftrightarrow>
          db_get L E p d (l, DOE_RR_TYPE) = None \<and> l \<notin> fst ` set m) \<and>
     (\<forall>l v. db_get L E p d' (l, DOE_RR_TYPE) = Some v \<longrightarrow>
          db_get L E p d (l, DOE_RR_TYPE) = Some v \<or> named_value L (zone_name (snd p)) (l, DOE_RR_TYPE) v) \<and>
     doe_range L E p d' = doe_range L E p d ++ map_of m"

lemma doe_added_trans:
  assumes "doe_added L E p d d1 m" "doe_added L E p d1 d2 m'" "distinct (map fst (m @ m'))"
  shows "doe_added L E p d d2 (m @ m')"
proof -
  have "map_of m ++ map_of m' = map_of (m @ m')"
    using assms(3) map_add_comm [of "map_of m'" "map_of m"] by (simp add: dom_map_of_conv_image_fst Int_commute)
  then have "doe_range L E p d2 = doe_range L E p d ++ map_of (m @ m')"
    using assms(1,2) unfolding doe_added_def by (metis map_add_assoc)
  moreover have "db_get L E p d (l, DOE_RR_TYPE) = Some v \<or> named_value L (zone_name (snd p)) (l, DOE_RR_TYPE) v"
    if "db_get L E p d2 (l, DOE_RR_TYPE) = Some v" for l v
    using assms(1,2) that unfolding doe_added_def by blast
  ultimately show ?thesis using assms by (auto simp: doe_added_def)
qed

lemma insert_doe_added:
  assumes "ndn_ok L" "store_inv L E p d" "factory_ready L p f" "roomy E d (Suc n)"
    and "db_get L E p d (label, DOE_RR_TYPE) = None"
  obtains d' where "insert_doe L E now f d label lower upper = (d', Inr ())" "roomy E d' n"
    "doe_added L E p d d' [(label, lower, upper)]"
proof -
  obtain d' v where d': "insert_doe L E now f d label lower upper = (d', Inr ())" "store_inv L E p d'" "roomy E d' n"
    "db_get L E p d' = (db_get L E p d)((label, DOE_RR_TYPE) \<mapsto> v)" "range_of L v = Some (lower, upper)"
    "zones (m_tables d') = zones (m_tables d)" "m_dbFile d' = m_dbFile d" "named_value L (zone_name (snd p)) (label, DOE_RR_TYPE) v"
    by (rule insert_doe_ok [OF assms])
  then have "doe_added L E p d d' [(label, lower, upper)]"
    by (auto simp: doe_added_def doe_range_def fun_eq_iff)
  with d' show thesis using that by blast
qed

lemma insert_chain_added:
  assumes L: "ndn_ok L" and f: "factory_ready L p f"
  shows "store_inv L E p d \<Longrightarrow> roomy E d (length rs + n) \<Longrightarrow> distinct (map doe_name rs) \<Longrightarrow>
    (\<forall>r \<in> set rs. db_get L E p d (doe_name r, DOE_RR_TYPE) = None) \<Longrightarrow>
    \<exists>d'. insert_chain L E now f d rs = (d', Inr ()) \<and> roomy E d' n \<and>
         doe_added L E p d d' (chain_pairs (map doe_name rs))"
proof (induction rs arbitrary: d rule: induct_list012)
  case (3 r1 r2 rs)
  have new1: "db_get L E p d (doe_name r1, DOE_RR_TYPE) = None" using "3.prems"(4) by simp
  have room1: "roomy E d (Suc (length (r2 # rs) + n))" using "3.prems"(2) by simp
  obtain d1 where d1: "insert_doe L E now f d (doe_name r1) (doe_name r1) (doe_name r2) = (d1, Inr ())"
    "roomy E d1 (length (r2 # rs) + n)" "doe_added L E p d d1 [(doe_name r1, doe_name r1, doe_name r2)]"
    by (rule insert_doe_added [OF L "3.prems"(1) f room1 new1])
  have i: "store_inv L E p d1" using d1(3) by (simp add: doe_added_def)
  have dist: "distinct (map doe_name (r2 # rs))" "doe_name r1 \<notin> set (map doe_name (r2 # rs))"
    using "3.prems"(3) by auto
  have new: "\<forall>r \<in> set (r2 # rs). db_get L E p d1 (doe_name r, DOE_RR_TYPE) = None"
    using d1(3) "3.prems"(4) dist(2) by (auto simp: doe_added_def image_iff)
  obtain d' where d': "insert_chain L E now f d1 (r2 # rs) = (d', Inr ())" "roomy E d' n"
    "doe_added L E p d1 d' (chain_pairs (map doe_name (r2 # rs)))"
    using "3.IH"(2) [OF i d1(2) dist(1) new] by blast
  have c: "map fst (chain_pairs (map doe_name (r2 # rs))) = butlast (map doe_name (r2 # rs))"
    by (rule map_fst_chain_pairs)
  have "doe_name r1 \<notin> set (butlast (map doe_name (r2 # rs)))" using dist(2) in_set_butlastD by fast
  with distinct_butlast [OF dist(1)]
  have "distinct (doe_name r1 # butlast (map doe_name (r2 # rs)))" by (simp only: distinct.simps not_False_eq_True simp_thms)
  then have "distinct (map fst ([(doe_name r1, doe_name r1, doe_name r2)] @ chain_pairs (map doe_name (r2 # rs))))"
    unfolding map_append c by (simp only: list.map fst_conv append_Cons append_Nil)
  from doe_added_trans [OF d1(3) d'(3) this] show ?case using d1(1) d' by simp
qed (auto simp: doe_added_def roomy_def)

section \<open>The preconditions of \<open>generateDoe\<close>\<close>

text \<open>The zone object stands for a row of the zone table.\<close>

definition zone_known :: "ndn \<Rightarrow> zone_ptr \<Rightarrow> dbmgr \<Rightarrow> bool" where
  "zone_known L p d \<longleftrightarrow>
     (\<exists>row \<in> set (zones (m_tables d)). z_name row = nameWire L (zone_name (snd p)) \<and> z_id row = int (zone_id (snd p)))"

text \<open>The key chain has a default key and certificate for the zone, and can sign with it.\<close>

definition zone_keys :: "ndn \<Rightarrow> 'k keychain \<Rightarrow> 'k \<Rightarrow> name \<Rightarrow> bool" where
  "zone_keys L K k zoneName \<longleftrightarrow>
     (\<exists>key cert c. getDefaultKeyNameOfIdentity K k (zoneName @ [NDNS_ITERATIVE_QUERY]) = Inr key \<and>
        getDefaultCertificateNameOfIdentity K k (zoneName @ [NDNS_ITERATIVE_QUERY]) = Inr cert \<and>
        getCertificate K k (zoneName @ [NDNS_ITERATIVE_QUERY]) cert = Inr c \<and>
        (\<forall>x. signData L (SigningByCertificate cert) x \<noteq> None))"

definition zone_ready :: "ndn \<Rightarrow> sqlite \<Rightarrow> 'k keychain \<Rightarrow> 'k \<Rightarrow> string \<Rightarrow> zone_ptr \<Rightarrow> dbmgr \<Rightarrow> bool" where
  "zone_ready L E K k dflt p d \<longleftrightarrow>
     store_inv L E p d \<and> zone_known L p d \<and> zone_keys L K k (zone_name (snd p)) \<and>
     openOk E (if m_dbFile d = [] then dflt else m_dbFile d)"

lemma zone_known_find:
  assumes s: "sqlite_sound E" and r: "sqlite_reliable E" and d: "m_conn d" "db_inv L d" and k: "zone_known L p d"
    and n: "zone_name z = zone_name (snd p)"
  obtains ttl where "findZone L E d z = (d, Inr (z\<lparr>zone_id := zone_id (snd p), zone_ttl := ttl\<rparr>, True))"
proof -
  obtain row where row: "row \<in> set (zones (m_tables d))" "z_name row = nameWire L (zone_name (snd p))"
    "z_id row = int (zone_id (snd p))" using k by (auto simp: zone_known_def)
  have "distinct (map z_name (zones (m_tables d)))" using d(2) by (simp add: db_inv_def zone_rows_ok_def)
  from map_of_key_unique [OF this row(1)]
  have "map_of (map (\<lambda>r. (z_name r, r)) (zones (m_tables d))) (nameWire L (zone_name z)) = Some row"
    using row(2) n by simp
  then have "findZone L E d z = (d, Inr (z\<lparr>zone_id := nat (z_id row), zone_ttl := z_ttl row\<rparr>, True))"
    using findZone_found [OF s _ _ d(2), of z] r d(1) by simp
  with row(3) that show thesis by simp
qed

text \<open>The factory \<open>generateDoe\<close> makes passes its check and is ready to sign.\<close>

lemma zone_factory:
  assumes "zone_ready L E K k dflt p d"
  obtains f f' where "RrsetFactory_new K k fa (m_dbFile d) (zone_name (snd p)) DEFAULT_CERT = Inr f"
    "checkZoneKey L E K k dflt (\<lambda>_. m_tables d) f = (f', Inr ())" "factory_ready L p f'"
proof -
  obtain key cert c where kc: "getDefaultKeyNameOfIdentity K k (zone_name (snd p) @ [NDNS_ITERATIVE_QUERY]) = Inr key"
    "getDefaultCertificateNameOfIdentity K k (zone_name (snd p) @ [NDNS_ITERATIVE_QUERY]) = Inr cert"
    "getCertificate K k (zone_name (snd p) @ [NDNS_ITERATIVE_QUERY]) cert = Inr c"
    "\<forall>x. signData L (SigningByCertificate cert) x \<noteq> None"
    using assms by (auto simp: zone_ready_def zone_keys_def)
  define f where "f = \<lparr>rf_dbFile = m_dbFile d, rf_addr = fa, rf_zone = Zone_of (zone_name (snd p)),
      rf_dskCertName = cert, rf_dskName = key, rf_checked = False\<rparr>"
  have new: "RrsetFactory_new K k fa (m_dbFile d) (zone_name (snd p)) DEFAULT_CERT = Inr f"
    using kc by (simp add: RrsetFactory_new_def f_def)
  have g: "db_good L E d" using assms by (simp add: zone_ready_def store_inv_def)
  note D = db_goodD [OF g]
  define d2 where "d2 = \<lparr>m_dbFile = (if m_dbFile d = [] then dflt else m_dbFile d), m_conn = True, m_tables = m_tables d\<rparr>"
  have open2: "DbMgr_new E dflt (\<lambda>_. m_tables d) (m_dbFile d) = (d2, Inr ())"
    using assms by (auto simp: DbMgr_new_def open_db_def d2_def zone_ready_def Let_def)
  have "m_conn d2" "db_inv L d2" "zone_known L p d2"
    using assms D(6) by (auto simp: d2_def db_inv_def zone_ready_def zone_known_def)
  from zone_known_find [OF D(3,4) this, of "Zone_of (zone_name (snd p))"]
  obtain ttl where "findZone L E d2 (Zone_of (zone_name (snd p))) =
      (d2, Inr ((Zone_of (zone_name (snd p)))\<lparr>zone_id := zone_id (snd p), zone_ttl := ttl\<rparr>, True))" by auto
  then have "checkZoneKey L E K k dflt (\<lambda>_. m_tables d) f =
      (f\<lparr>rf_checked := True, rf_zone := (Zone_of (zone_name (snd p)))\<lparr>zone_id := zone_id (snd p), zone_ttl := ttl\<rparr>\<rparr>, Inr ())"
    using open2 kc(3) by (simp add: checkZoneKey_def onlyCheckZone_def f_def Let_def matchCertificate_def)
  moreover have "factory_ready L p
      (f\<lparr>rf_checked := True, rf_zone := (Zone_of (zone_name (snd p)))\<lparr>zone_id := zone_id (snd p), zone_ttl := ttl\<rparr>\<rparr>)"
    using kc(4) by (simp add: factory_ready_def f_def)
  ultimately show thesis using new that by blast
qed

section \<open>Clearing and listing\<close>

lemma filter_map_of:
  "distinct (map f rs) \<Longrightarrow>
   map_of (map (\<lambda>r. (f r, r)) (filter P rs)) k =
     (case map_of (map (\<lambda>r. (f r, r)) rs) k of Some r \<Rightarrow> if P r then Some r else None | None \<Rightarrow> None)"
  by (induction rs) (auto simp: map_of_eq_None_iff image_iff split: option.splits)

lemma remove_doe:
  assumes i: "store_inv L E p d"
  obtains d' where "removeRrsetsOfZoneByType L E d (snd p) DOE_RR_TYPE = (d', Inr (snd p))" "store_inv L E p d'"
    "\<And>k. db_get L E p d' k = (if snd k = DOE_RR_TYPE then None else db_get L E p d k)"
    "zones (m_tables d') = zones (m_tables d)" "m_dbFile d' = m_dbFile d" "m_conn d' = m_conn d"
    "length (rrsets (m_tables d')) \<le> length (rrsets (m_tables d))"
proof -
  have g: "db_good L E d" "zone_id (snd p) \<noteq> 0" using i by (simp_all add: store_inv_def)
  note D = db_goodD [OF g(1)]
  let ?P = "\<lambda>row. \<not> (r_zone row = col_of_id (zone_id (snd p)) \<and> r_type row = compWire L DOE_RR_TYPE)"
  define d' where "d' = set_rrsets (filter ?P (rrsets (m_tables d))) d"
  have r: "removeRrsetsOfZoneByType L E d (snd p) DOE_RR_TYPE = (d', Inr (snd p))"
    using D(8,9) g(2) by (simp add: removeRrsetsOfZoneByType_def find_if_new_def Let_def d'_def)
  have i': "store_inv L E p d'"
    using i D(7) by (simp add: store_inv_def db_good_def db_inv_def d'_def rr_rows_ok_filter one_version_def distinct_map_filterI)
  have "db_get L E p d' k = (if snd k = DOE_RR_TYPE then None else db_get L E p d k)" for k
  proof -
    have at: "rr_at d' x = (case rr_at d x of Some r \<Rightarrow> if ?P r then Some r else None | None \<Rightarrow> None)" for x
      unfolding rr_at_def d'_def using D(7) filter_map_of [of rr_key "rrsets (m_tables d)" ?P x]
      by (simp add: one_version_def)
    have "?P r \<longleftrightarrow> snd k \<noteq> DOE_RR_TYPE" if "rr_at d (obj_key L p k) = Some r" for r
    proof -
      have "r_zone r = col_of_id (zone_id (snd p))" "r_type r = compWire L (snd k)"
        using rr_at_Some [OF that] by (simp_all add: rr_key_def key_of_def)
      then show ?thesis by (simp add: D(1))
    qed
    then show ?thesis by (auto simp: db_get_at [OF i] db_get_at [OF i'] at split: option.splits)
  qed
  then show thesis using that r i' by (simp add: d'_def)
qed

text \<open>The list of \<open>findRrsets\<close> is the content of the map.\<close>

lemma findRrsets_map:
  assumes i: "store_inv L E p d"
  obtains rs where "findRrsets L E d p = (d, Inr (snd p, rs))" "distinct (map (\<lambda>r. (rrset_label r, rrset_type r)) rs)"
    "\<And>k. db_get L E p d k \<noteq> None \<longleftrightarrow> k \<in> (\<lambda>r. (rrset_label r, rrset_type r)) ` set rs"
    "length rs \<le> length (rrsets (m_tables d))"
    "\<And>r. r \<in> set rs \<Longrightarrow> db_get L E p d (rrset_label r, rrset_type r) = Some (rrset_version r, rrset_ttl r, rrset_data r)"
    "sorted_wrt (\<lambda>a b. \<not> nameLess L (rrset_label b) (rrset_label a)) rs"
proof -
  have g: "db_good L E d" "zone_id (snd p) \<noteq> 0" using i by (simp_all add: store_inv_def)
  note D = db_goodD [OF g(1)]
  obtain rows where F: "findRrsets L E d p = (d, Inr (snd p, map (row_rrset L p) rows))"
    "mset rows = mset (zone_rows (snd p) d)" "\<forall>row \<in> set rows. rr_row_ok L row" "sorted (map r_label rows)"
    by (rule findRrsets_found [OF g])
  have set: "set rows = set (zone_rows (snd p) d)" using F(2) by (rule mset_eq_setD)
  have key: "rr_key row = key_of L (snd p) (lbl_of L row) (typ_of L row)" if "row \<in> set rows" for row
    using that set F(3) row_names(3,4) [OF D(1)] by (auto simp: rr_key_def key_of_def zone_rows_def)
  have "distinct (map rr_key (zone_rows (snd p) d))"
    using D(7) by (simp add: zone_rows_def one_version_def distinct_map_filterI)
  then have "distinct (map rr_key rows)" using F(2) by (metis mset_eq_imp_distinct_iff mset_map)
  then have dist: "distinct (map (\<lambda>row. (lbl_of L row, typ_of L row)) rows)"
    using key by (auto simp: distinct_map inj_on_def)
  have "db_get L E p d k \<noteq> None \<longleftrightarrow> k \<in> (\<lambda>r. (rrset_label r, rrset_type r)) ` set (map (row_rrset L p) rows)" for k
  proof -
    have "db_get L E p d k \<noteq> None \<longleftrightarrow> (\<exists>row \<in> set (rrsets (m_tables d)). rr_key row = obj_key L p k)"
      by (auto simp: db_get_at [OF i] rr_at_None)
    also have "\<dots> \<longleftrightarrow> (\<exists>row \<in> set rows. rr_key row = obj_key L p k)"
      by (auto simp: set zone_rows_def rr_key_def key_of_def)
    also have "\<dots> \<longleftrightarrow> (\<exists>row \<in> set rows. (lbl_of L row, typ_of L row) = k)"
      using key key_of_inj [OF D(1)] by (cases k) auto
    finally show ?thesis by (auto simp: image_iff)
  qed
  moreover have "length rows \<le> length (rrsets (m_tables d))"
    using F(2) by (metis length_filter_le size_mset zone_rows_def)
  moreover have "db_get L E p d (rrset_label r, rrset_type r) = Some (rrset_version r, rrset_ttl r, rrset_data r)"
    if r: "r \<in> set (map (row_rrset L p) rows)" for r
  proof -
    obtain row where row: "row \<in> set rows" "r = row_rrset L p row" using r by auto
    then show ?thesis using rr_at_member [OF D(7), of row] key [OF row(1)] by (simp add: db_get_at [OF i] set zone_rows_def row_value_def)
  qed
  ultimately show thesis using that F(1) dist sorted_wrt_row_rrsets [OF D(1) F(3,4), of p] by (simp add: comp_def)
qed

section \<open>The rebuilt chain\<close>

definition key_less :: "ndn \<Rightarrow> name \<times> component \<Rightarrow> name \<times> component \<Rightarrow> bool" where
  "key_less L k k' \<longleftrightarrow> nameLess L (fst k) (fst k') \<or> fst k = fst k' \<and> compLess L (snd k) (snd k')"

definition key_name :: "name \<times> component \<Rightarrow> name" where
  "key_name k = fst k @ [snd k]"

lemma key_name_inj [simp]: "key_name k = key_name k' \<longleftrightarrow> k = k'"
  by (auto simp: key_name_def prod_eq_iff)

lemma key_name_not_Nil [simp]: "key_name k \<noteq> []"
  by (simp add: key_name_def)

lemma doe_name_key: "doe_name r = key_name (rrset_label r, rrset_type r)"
  by (simp add: doe_name_def key_name_def)

lemma not_less_key_less:
  assumes L: "name_codec L" and "\<not> rrset_key_less L b a" "(rrset_label a, rrset_type a) \<noteq> (rrset_label b, rrset_type b)"
  shows "key_less L (rrset_label a, rrset_type a) (rrset_label b, rrset_type b)"
  using assms(2,3) nameLess_linear [OF L, of "rrset_label a" "rrset_label b"]
    compLess_linear [OF L, of "rrset_type a" "rrset_type b"]
  by (auto simp: key_less_def rrset_key_less_lex [OF L])

lemma sort_recs_keys:
  assumes L: "name_codec L" and d: "distinct (map (\<lambda>r. (rrset_label r, rrset_type r)) rs)"
  shows "sorted_wrt (key_less L) (map (\<lambda>r. (rrset_label r, rrset_type r)) (sort_recs L rs))"
    "distinct (map (\<lambda>r. (rrset_label r, rrset_type r)) (sort_recs L rs))"
proof -
  let ?k = "\<lambda>r. (rrset_label r, rrset_type r)"
  have "mset (map ?k (sort_recs L rs)) = mset (map ?k rs)" by simp
  then show dist: "distinct (map ?k (sort_recs L rs))" using d mset_eq_imp_distinct_iff by blast
  have "sorted_wrt (\<lambda>a b. \<not> rrset_key_less L b a \<and> ?k a \<noteq> ?k b) (sort_recs L rs)"
    using sorted_sort_recs [OF L, of rs] dist by (auto simp: sorted_wrt_iff_nth_less distinct_conv_nth)
  then have "sorted_wrt (\<lambda>a b. key_less L (?k a) (?k b)) (sort_recs L rs)"
    by (rule sorted_wrt_mono_rel [rotated]) (use not_less_key_less [OF L] in blast)
  then show "sorted_wrt (key_less L) (map ?k (sort_recs L rs))" by (simp add: sorted_wrt_map)
qed

text \<open>The DoE records made of the names \<open>ns\<close>: the label of the record and its range.\<close>

definition doe_chain :: "name list \<Rightarrow> (name \<times> name \<times> name) list" where
  "doe_chain ns = chain_pairs ns @ [(last ns, last ns, hd ns)] @ [([], last ns, hd ns)]"

lemma map_fst_doe_chain: "ns \<noteq> [] \<Longrightarrow> map fst (doe_chain ns) = ns @ [[]]"
  using append_butlast_last_id [of ns] by (simp add: doe_chain_def map_fst_chain_pairs)

lemma doe_chain_inserted:
  assumes L: "ndn_ok L" and f: "factory_ready L p f" and i: "store_inv L E p d"
    and room: "roomy E d (length rs + (Suc (Suc n)))"
    and rs: "rs \<noteq> []" "distinct (map doe_name rs)" and clear: "\<And>l. db_get L E p d (l, DOE_RR_TYPE) = None"
  obtains d1 d2 d3 where "insert_chain L E now f d rs = (d1, Inr ())"
    "insert_doe L E now f d1 (doe_name (last rs)) (doe_name (last rs)) (doe_name (hd rs)) = (d2, Inr ())"
    "insert_doe L E now f d2 [] (doe_name (last rs)) (doe_name (hd rs)) = (d3, Inr ())"
    "doe_added L E p d d3 (doe_chain (map doe_name rs))"
proof -
  let ?l = "doe_name (last rs)" and ?f = "doe_name (hd rs)" and ?c = "chain_pairs (map doe_name rs)"
  have "\<forall>r \<in> set rs. db_get L E p d (doe_name r, DOE_RR_TYPE) = None" using clear by simp
  from insert_chain_added [OF L f i room rs(2) this]
  obtain d1 where d1: "insert_chain L E now f d rs = (d1, Inr ())" "roomy E d1 (Suc (Suc n))" "doe_added L E p d d1 ?c"
    by blast
  have c: "doe_chain (map doe_name rs) = ?c @ [(?l, ?l, ?f)] @ [([], ?l, ?f)]"
    using rs(1) by (simp add: doe_chain_def last_map hd_map)
  have "[] \<notin> set (map doe_name rs)" by (auto simp: doe_name_def)
  then have dist: "distinct (map fst (?c @ [(?l, ?l, ?f)] @ [([], ?l, ?f)]))"
    using map_fst_doe_chain [of "map doe_name rs"] rs unfolding c [symmetric] by simp
  then have "?l \<notin> fst ` set ?c" "[] \<notin> fst ` set ?c" "?l \<noteq> []" by auto
  then have new1: "db_get L E p d1 (?l, DOE_RR_TYPE) = None" and new2: "db_get L E p d1 ([], DOE_RR_TYPE) = None"
    using d1(3) clear by (auto simp: doe_added_def)
  have i1: "store_inv L E p d1" using d1(3) by (simp add: doe_added_def)
  obtain d2 where d2: "insert_doe L E now f d1 ?l ?l ?f = (d2, Inr ())" "roomy E d2 (Suc n)"
    "doe_added L E p d1 d2 [(?l, ?l, ?f)]" by (rule insert_doe_added [OF L i1 f d1(2) new1])
  have i2: "store_inv L E p d2" using d2(3) by (simp add: doe_added_def)
  have new3: "db_get L E p d2 ([], DOE_RR_TYPE) = None"
    using new2 d2(3) \<open>?l \<noteq> []\<close> by (simp add: doe_added_def)
  obtain d3 where d3: "insert_doe L E now f d2 [] ?l ?f = (d3, Inr ())" "roomy E d3 n"
    "doe_added L E p d2 d3 [([], ?l, ?f)]" by (rule insert_doe_added [OF L i2 f d2(2) new3])
  have "doe_added L E p d d3 (doe_chain (map doe_name rs))"
    unfolding c by (rule doe_added_trans [OF d1(3) doe_added_trans [OF d2(3) d3(3)] dist]) (use dist in simp)
  with d1(1) d2(1) d3(1) show thesis using that by blast
qed

definition zone_types :: "ndn \<Rightarrow> sqlite \<Rightarrow> zone_ptr \<Rightarrow> dbmgr \<Rightarrow> (name \<times> component) set" where
  "zone_types L E p d = {k. snd k \<noteq> DOE_RR_TYPE \<and> db_get L E p d k \<noteq> None}"

lemma zone_types_cong:
  "(\<And>key. snd key \<noteq> DOE_RR_TYPE \<Longrightarrow> db_get L E p d' key = db_get L E p d key) \<Longrightarrow> zone_types L E p d' = zone_types L E p d"
  unfolding zone_types_def by (rule Collect_cong) metis

text \<open>The keys \<open>ks\<close> are chained when the DoE records of the database are exactly the chain of their names.\<close>

definition chained :: "ndn \<Rightarrow> sqlite \<Rightarrow> zone_ptr \<Rightarrow> dbmgr \<Rightarrow> (name \<times> component) list \<Rightarrow> bool" where
  "chained L E p d ks \<longleftrightarrow>
     set ks = zone_types L E p d \<and> sorted_wrt (key_less L) ks \<and>
     (\<forall>l. db_get L E p d (l, DOE_RR_TYPE) \<noteq> None \<longleftrightarrow> l = [] \<or> l \<in> key_name ` set ks) \<and>
     doe_range L E p d = map_of (doe_chain (map key_name ks))"

text \<open>The steps of \<open>generateDoe\<close> up to the first insertion.\<close>

lemma generateDoe_parts:
  assumes L: "ndn_ok L" and z: "zone_ready L E K k dflt p d"
  obtains ttl d1 rs f f' where "findZone L E d (snd p) = (d, Inr ((snd p)\<lparr>zone_ttl := ttl\<rparr>, True))"
    "removeRrsetsOfZoneByType L E d ((snd p)\<lparr>zone_ttl := ttl\<rparr>) DOE_RR_TYPE = (d1, Inr ((snd p)\<lparr>zone_ttl := ttl\<rparr>))"
    "findRrsets L E d1 (fst p, (snd p)\<lparr>zone_ttl := ttl\<rparr>) = (d1, Inr ((snd p)\<lparr>zone_ttl := ttl\<rparr>, rs))"
    "RrsetFactory_new K k fa (m_dbFile d1) (zone_name (snd p)) DEFAULT_CERT = Inr f"
    "checkZoneKey L E K k dflt (\<lambda>_. m_tables d1) f = (f', Inr ())" "factory_ready L p f'"
    "store_inv L E p d1" "zones (m_tables d1) = zones (m_tables d)" "m_dbFile d1 = m_dbFile d"
    "length (rrsets (m_tables d1)) \<le> length (rrsets (m_tables d))" "length rs \<le> length (rrsets (m_tables d1))"
    "\<And>key. db_get L E p d1 key = (if snd key = DOE_RR_TYPE then None else db_get L E p d key)"
    "distinct (map (\<lambda>r. (rrset_label r, rrset_type r)) rs)"
    "zone_types L E p d = (\<lambda>r. (rrset_label r, rrset_type r)) ` set rs"
proof -
  have i: "store_inv L E p d" and kn: "zone_known L p d" using z by (simp_all add: zone_ready_def)
  have g: "db_good L E d" using i by (simp add: store_inv_def)
  note D = db_goodD [OF g]
  obtain ttl where fz: "findZone L E d (snd p) = (d, Inr ((snd p)\<lparr>zone_id := zone_id (snd p), zone_ttl := ttl\<rparr>, True))"
    by (rule zone_known_find [OF D(3,4,5,6) kn refl])
  let ?q = "(fst p, (snd p)\<lparr>zone_ttl := ttl\<rparr>)"
  have q: "zone_id (snd ?q) = zone_id (snd p)" by simp
  have iq: "store_inv L E ?q d" using i store_inv_ptr [OF q] by blast
  obtain d1 where d1: "removeRrsetsOfZoneByType L E d (snd ?q) DOE_RR_TYPE = (d1, Inr (snd ?q))" "store_inv L E ?q d1"
    "\<And>k. db_get L E ?q d1 k = (if snd k = DOE_RR_TYPE then None else db_get L E ?q d k)"
    "zones (m_tables d1) = zones (m_tables d)" "m_dbFile d1 = m_dbFile d" "m_conn d1 = m_conn d"
    "length (rrsets (m_tables d1)) \<le> length (rrsets (m_tables d))" by (rule remove_doe [OF iq]) blast
  obtain rs where rs: "findRrsets L E d1 ?q = (d1, Inr (snd ?q, rs))" "distinct (map (\<lambda>r. (rrset_label r, rrset_type r)) rs)"
    "\<And>k. db_get L E ?q d1 k \<noteq> None \<longleftrightarrow> k \<in> (\<lambda>r. (rrset_label r, rrset_type r)) ` set rs"
    "length rs \<le> length (rrsets (m_tables d1))" by (rule findRrsets_map [OF d1(2)]) blast
  have i1: "store_inv L E p d1" using d1(2) store_inv_ptr [OF q] by blast
  have get: "db_get L E ?q d = db_get L E p d" "db_get L E ?q d1 = db_get L E p d1"
    using db_get_ptr [OF q] iq d1(2) by blast+
  have zr: "zone_ready L E K k dflt p d1" using z i1 d1(4,5) by (auto simp: zone_ready_def zone_known_def)
  obtain f f' where f: "RrsetFactory_new K k fa (m_dbFile d1) (zone_name (snd p)) DEFAULT_CERT = Inr f"
    "checkZoneKey L E K k dflt (\<lambda>_. m_tables d1) f = (f', Inr ())" "factory_ready L p f'"
    by (rule zone_factory [OF zr])
  have zt: "zone_types L E p d = (\<lambda>r. (rrset_label r, rrset_type r)) ` set rs"
  proof (rule set_eqI)
    fix key show "key \<in> zone_types L E p d \<longleftrightarrow> key \<in> (\<lambda>r. (rrset_label r, rrset_type r)) ` set rs"
      using d1(3) [of key] unfolding rs(3) [symmetric] get by (simp add: zone_types_def)
  qed
  have get1: "\<And>key. db_get L E p d1 key = (if snd key = DOE_RR_TYPE then None else db_get L E p d key)"
    using d1(3) unfolding get .
  have fz': "findZone L E d (snd p) = (d, Inr ((snd p)\<lparr>zone_ttl := ttl\<rparr>, True))" using fz by simp
  show thesis
    by (rule that [OF fz' _ _ f i1 d1(4,5,7) rs(4) get1 rs(2) zt]) (use d1(1) rs(1) in simp_all)
qed

lemma generateDoe_cleared:
  assumes L: "ndn_ok L" and z: "zone_ready L E K k dflt p d"
  obtains d1 ttl rs f where "store_inv L E p d1" "zones (m_tables d1) = zones (m_tables d)" "m_dbFile d1 = m_dbFile d"
    "length (rrsets (m_tables d1)) \<le> length (rrsets (m_tables d))" "length rs \<le> length (rrsets (m_tables d1))"
    "\<And>key. db_get L E p d1 key = (if snd key = DOE_RR_TYPE then None else db_get L E p d key)"
    "distinct (map (\<lambda>r. (rrset_label r, rrset_type r)) rs)"
    "zone_types L E p d = (\<lambda>r. (rrset_label r, rrset_type r)) ` set rs"
    "factory_ready L p f"
    "generateDoe L E K k dflt now fa d p =
       (if rs = [] then (d1, Inl Undefined)
        else and_then (insert_chain L E now f d1 (sort_recs L rs)) (\<lambda>d _.
          and_then (insert_doe L E now f d (doe_name (last (sort_recs L rs))) (doe_name (last (sort_recs L rs)))
                      (doe_name (hd (sort_recs L rs)))) (\<lambda>d _.
            and_then (insert_doe L E now f d [] (doe_name (last (sort_recs L rs))) (doe_name (hd (sort_recs L rs)))) (\<lambda>d _.
              (d, Inr ((snd p)\<lparr>zone_ttl := ttl\<rparr>))))))"
proof -
  obtain ttl d1 rs f f' where P: "findZone L E d (snd p) = (d, Inr ((snd p)\<lparr>zone_ttl := ttl\<rparr>, True))"
    "removeRrsetsOfZoneByType L E d ((snd p)\<lparr>zone_ttl := ttl\<rparr>) DOE_RR_TYPE = (d1, Inr ((snd p)\<lparr>zone_ttl := ttl\<rparr>))"
    "findRrsets L E d1 (fst p, (snd p)\<lparr>zone_ttl := ttl\<rparr>) = (d1, Inr ((snd p)\<lparr>zone_ttl := ttl\<rparr>, rs))"
    "RrsetFactory_new K k fa (m_dbFile d1) (zone_name (snd p)) DEFAULT_CERT = Inr f"
    "checkZoneKey L E K k dflt (\<lambda>_. m_tables d1) f = (f', Inr ())" "factory_ready L p f'"
    and Q: "store_inv L E p d1" "zones (m_tables d1) = zones (m_tables d)" "m_dbFile d1 = m_dbFile d"
    "length (rrsets (m_tables d1)) \<le> length (rrsets (m_tables d))" "length rs \<le> length (rrsets (m_tables d1))"
    "\<And>key. db_get L E p d1 key = (if snd key = DOE_RR_TYPE then None else db_get L E p d key)"
    "distinct (map (\<lambda>r. (rrset_label r, rrset_type r)) rs)"
    "zone_types L E p d = (\<lambda>r. (rrset_label r, rrset_type r)) ` set rs"
    by (rule generateDoe_parts [OF assms, of fa]) blast
  have "sort_recs L rs = [] \<longleftrightarrow> rs = []" by (metis length_0_conv length_sort_recs)
  with P(1-5) show thesis by (intro that [of d1 rs f' ttl, OF Q P(6)]) (simp add: generateDoe_def Let_def)
qed

lemma generateDoe_ok:
  assumes L: "ndn_ok L" and z: "zone_ready L E K k dflt p d"
    and room: "sqlite_roomy E" "length (rrsets (m_tables d)) < 2 ^ 60" and ne: "zone_types L E p d \<noteq> {}"
  obtains d' ttl ks where "generateDoe L E K k dflt now fa d p = (d', Inr ((snd p)\<lparr>zone_ttl := ttl\<rparr>))"
    "zone_ready L E K k dflt p d'" "\<And>key. snd key \<noteq> DOE_RR_TYPE \<Longrightarrow> db_get L E p d' key = db_get L E p d key"
    "chained L E p d' ks"
    "\<And>l v. db_get L E p d' (l, DOE_RR_TYPE) = Some v \<Longrightarrow> named_value L (zone_name (snd p)) (l, DOE_RR_TYPE) v"
proof -
  obtain d1 ttl rs f where d1: "store_inv L E p d1" "zones (m_tables d1) = zones (m_tables d)" "m_dbFile d1 = m_dbFile d"
    "length (rrsets (m_tables d1)) \<le> length (rrsets (m_tables d))" "length rs \<le> length (rrsets (m_tables d1))"
    "\<And>key. db_get L E p d1 key = (if snd key = DOE_RR_TYPE then None else db_get L E p d key)"
    "distinct (map (\<lambda>r. (rrset_label r, rrset_type r)) rs)"
    "zone_types L E p d = (\<lambda>r. (rrset_label r, rrset_type r)) ` set rs" "factory_ready L p f"
    "generateDoe L E K k dflt now fa d p =
       (if rs = [] then (d1, Inl Undefined)
        else and_then (insert_chain L E now f d1 (sort_recs L rs)) (\<lambda>d _.
          and_then (insert_doe L E now f d (doe_name (last (sort_recs L rs))) (doe_name (last (sort_recs L rs)))
                      (doe_name (hd (sort_recs L rs)))) (\<lambda>d _.
            and_then (insert_doe L E now f d [] (doe_name (last (sort_recs L rs))) (doe_name (hd (sort_recs L rs)))) (\<lambda>d _.
              (d, Inr ((snd p)\<lparr>zone_ttl := ttl\<rparr>))))))"
    by (rule generateDoe_cleared [OF L z]) blast
  let ?rs = "sort_recs L rs" and ?k = "\<lambda>r. (rrset_label r, rrset_type r)"
  have rs: "rs \<noteq> []" "?rs \<noteq> []" using ne d1(8) by (auto, metis length_0_conv length_sort_recs)
  note S = sort_recs_keys [OF ndn_okD(1) [OF L] d1(7)]
  have names: "map doe_name ?rs = map key_name (map ?k ?rs)" by (simp add: doe_name_key)
  have dist: "distinct (map doe_name ?rs)" unfolding names using S(2) by (simp add: distinct_map inj_on_def)
  have rm: "roomy E d1 (length ?rs + Suc (Suc 0))" using room d1(4,5) by (simp add: roomy_def)
  have clear: "db_get L E p d1 (l, DOE_RR_TYPE) = None" for l using d1(6) by simp
  obtain d2 d3 d' where d': "insert_chain L E now f d1 ?rs = (d2, Inr ())"
    "insert_doe L E now f d2 (doe_name (last ?rs)) (doe_name (last ?rs)) (doe_name (hd ?rs)) = (d3, Inr ())"
    "insert_doe L E now f d3 [] (doe_name (last ?rs)) (doe_name (hd ?rs)) = (d', Inr ())"
    "doe_added L E p d1 d' (doe_chain (map doe_name ?rs))"
    by (rule doe_chain_inserted [OF L d1(9,1) rm rs(2) dist clear])
  note A = d'(4) [unfolded doe_added_def]
  have same: "db_get L E p d' key = db_get L E p d key" if "snd key \<noteq> DOE_RR_TYPE" for key
    using A d1(6) that by (cases key) simp
  have "doe_range L E p d1 = Map.empty" using clear by (simp add: doe_range_def fun_eq_iff)
  then have r: "doe_range L E p d' = map_of (doe_chain (map key_name (map ?k ?rs)))" using A names by simp
  have "fst ` set (doe_chain (map doe_name ?rs)) = insert [] (key_name ` set (map ?k ?rs))"
    using map_fst_doe_chain [of "map doe_name ?rs"] rs(2) unfolding names set_map [symmetric] by simp
  then have "\<forall>l. db_get L E p d' (l, DOE_RR_TYPE) \<noteq> None \<longleftrightarrow> l = [] \<or> l \<in> key_name ` set (map ?k ?rs)"
    using A clear by simp
  moreover have "set (map ?k ?rs) = zone_types L E p d'"
    unfolding list.set_map set_sort_recs d1(8) [symmetric] using same by (auto simp: zone_types_def)
  ultimately have ch: "chained L E p d' (map ?k ?rs)" using S(1) r by (simp add: chained_def)
  have zr: "zone_ready L E K k dflt p d'" using z A d1(2,3) by (auto simp: zone_ready_def zone_known_def)
  have nv: "named_value L (zone_name (snd p)) (l, DOE_RR_TYPE) v" if "db_get L E p d' (l, DOE_RR_TYPE) = Some v" for l v
  proof -
    have "db_get L E p d1 (l, DOE_RR_TYPE) = Some v \<or> named_value L (zone_name (snd p)) (l, DOE_RR_TYPE) v"
      using A that by blast
    then show ?thesis by (simp add: clear)
  qed
  have "generateDoe L E K k dflt now fa d p = (d', Inr ((snd p)\<lparr>zone_ttl := ttl\<rparr>))"
    using d1(10) rs(1) d'(1-3) by simp
  then show thesis by (rule that [OF _ zr same ch nv])
qed

text \<open>
  C15: \<open>generateDoe\<close> on a zone with at least one record succeeds (the zone is in the database, its key can sign and there is
  room): no other record changes, and the DoE records afterwards are exactly one per record, at label and type, whose range
  reaches to the next record in the order of label and type and from the last one back to the first, and a guard at the
  empty label with the range of the last. Old DoE records are gone.
\<close>

theorem generateDoe_chain:
  assumes "ndn_ok L" and "zone_ready L E K k dflt p d"
    and "sqlite_roomy E" "length (rrsets (m_tables d)) < 2 ^ 60" and "zone_types L E p d \<noteq> {}"
  shows "\<exists>d' ttl ks. generateDoe L E K k dflt now fa d p = (d', Inr ((snd p)\<lparr>zone_ttl := ttl\<rparr>)) \<and>
           (\<forall>key. snd key \<noteq> DOE_RR_TYPE \<longrightarrow> db_get L E p d' key = db_get L E p d key) \<and>
           set ks = zone_types L E p d \<and> sorted_wrt (key_less L) ks \<and>
           (\<forall>l. db_get L E p d' (l, DOE_RR_TYPE) \<noteq> None \<longleftrightarrow> l = [] \<or> l \<in> key_name ` set ks) \<and>
           doe_range L E p d' = map_of (doe_chain (map key_name ks))"
proof -
  obtain d' ttl ks where d': "generateDoe L E K k dflt now fa d p = (d', Inr ((snd p)\<lparr>zone_ttl := ttl\<rparr>))"
    "zone_ready L E K k dflt p d'" "\<And>key. snd key \<noteq> DOE_RR_TYPE \<Longrightarrow> db_get L E p d' key = db_get L E p d key"
    "chained L E p d' ks" by (rule generateDoe_ok [OF assms]) blast
  have "zone_types L E p d' = zone_types L E p d" by (rule zone_types_cong [OF d'(3)])
  with d' show ?thesis by (intro exI [of _ d'] exI [of _ ttl] exI [of _ ks]) (simp add: chained_def)
qed

text \<open>A key chain with one key per identity and a database with two records, for witnesses.\<close>

definition keychain_sample :: "unit keychain" where
  "keychain_sample =
     \<lparr>kc_keys = (\<lambda>_ n. Some [(n @ [keyComp], [new_data (n @ [keyComp])])]), kc_defaultKey = (\<lambda>_ n. Some (n @ [keyComp])),
      kc_defaultCertificate = (\<lambda>_ n. Some (new_data n)), kc_publicKey = (\<lambda>_ _. []), kc_createIdentity = (\<lambda>_ _. ()),
      kc_createKey = (\<lambda>_ n. ((), n @ [keyComp])), kc_deleteCertificate = (\<lambda>_ _ _. ()), kc_addCertificate = (\<lambda>_ _ _. Some ()),
      kc_setDefaultKey = (\<lambda>_ _ _. Some ()), kc_setDefaultCertificate = (\<lambda>_ _ _. Some ())\<rparr>"

lemma zone_keys_sample: "zone_keys ndn0 keychain_sample () n"
  by (simp add: zone_keys_def keychain_sample_def getDefaultKeyNameOfIdentity_def getDefaultCertificateNameOfIdentity_def
      getCertificate_def getIdentity_def)

lemma zone_ready_sample:
  assumes "store_inv ndn0 sqlite0 zone_sample d" "zones (m_tables d) = zones (m_tables db_sample)"
  shows "zone_ready ndn0 sqlite0 keychain_sample () ''db'' zone_sample d"
  using assms zone_keys_sample
  by (simp add: zone_ready_def zone_known_def db_sample_def zone_sample_def sqlite0_def)

abbreviation value_sample :: rr_value where
  "value_sample \<equiv> (fromVersion ndn0 1, 3600, dataBlock ndn0 (new_data []))"

lemma two_records:
  assumes "k1 \<noteq> k2"
  obtains d where "zone_ready ndn0 sqlite0 keychain_sample () ''db'' zone_sample d"
    "db_get ndn0 sqlite0 zone_sample d = [k1 \<mapsto> w1, k2 \<mapsto> w2]" "length (rrsets (m_tables d)) = 2"
proof -
  have r: "roomy sqlite0 db_sample (Suc (Suc 0))" by (simp add: roomy_def sqlite0_roomy db_sample_def)
  obtain d1 where d1: "store_inv ndn0 sqlite0 zone_sample d1"
    "db_get ndn0 sqlite0 zone_sample d1 = (db_get ndn0 sqlite0 zone_sample db_sample)(k1 \<mapsto> w1)"
    "roomy sqlite0 d1 (Suc 0)" "zones (m_tables d1) = zones (m_tables db_sample)"
    "length (rrsets (m_tables d1)) = Suc (length (rrsets (m_tables db_sample)))"
    by (rule db_ins_roomy [OF db_sample_good db_sample_get r, of k1 w1])
  have n: "db_get ndn0 sqlite0 zone_sample d1 k2 = None" using d1(2) assms by (simp add: db_sample_get)
  obtain d2 where d2: "store_inv ndn0 sqlite0 zone_sample d2"
    "db_get ndn0 sqlite0 zone_sample d2 = (db_get ndn0 sqlite0 zone_sample d1)(k2 \<mapsto> w2)"
    "zones (m_tables d2) = zones (m_tables d1)" "length (rrsets (m_tables d2)) = Suc (length (rrsets (m_tables d1)))"
    by (rule db_ins_roomy [OF d1(1) n d1(3), of w2])
  have e: "db_get ndn0 sqlite0 zone_sample db_sample = Map.empty" using db_sample_get by (intro ext) blast
  show thesis
  proof (rule that)
    show "zone_ready ndn0 sqlite0 keychain_sample () ''db'' zone_sample d2"
      using zone_ready_sample [OF d2(1)] d1(4) d2(3) by metis
    show "db_get ndn0 sqlite0 zone_sample d2 = [k1 \<mapsto> w1, k2 \<mapsto> w2]"
      unfolding d2(2) d1(2) e by (rule refl)
    show "length (rrsets (m_tables d2)) = 2" using d1(5) d2(4) by (simp add: db_sample_def)
  qed
qed

theorem generateDoe_chain_witness:
  "\<exists>d d' z'. db_get ndn0 sqlite0 zone_sample d ([generic ''a''], TXT_RR_TYPE) = Some value_sample \<and>
     generateDoe ndn0 sqlite0 keychain_sample () ''db'' 9 2 d zone_sample = (d', Inr z') \<and>
     db_get ndn0 sqlite0 zone_sample d' ([generic ''a''], TXT_RR_TYPE) = Some value_sample \<and>
     db_get ndn0 sqlite0 zone_sample d' ([generic ''a'', TXT_RR_TYPE], DOE_RR_TYPE) \<noteq> None"
proof -
  let ?k1 = "([generic ''a''], TXT_RR_TYPE)" and ?k2 = "([generic ''b''], TXT_RR_TYPE)"
  have ne: "?k1 \<noteq> ?k2" and ty: "TXT_RR_TYPE \<noteq> DOE_RR_TYPE" by (simp_all add: label_defs)
  obtain d where d: "zone_ready ndn0 sqlite0 keychain_sample () ''db'' zone_sample d"
    "db_get ndn0 sqlite0 zone_sample d = [?k1 \<mapsto> value_sample, ?k2 \<mapsto> value_sample]" "length (rrsets (m_tables d)) = 2"
    by (rule two_records [OF ne])
  have len: "length (rrsets (m_tables d)) < 2 ^ 60" using d(3) by simp
  have k: "?k1 \<in> zone_types ndn0 sqlite0 zone_sample d" using d(2) ne ty by (simp add: zone_types_def)
  then have zt: "zone_types ndn0 sqlite0 zone_sample d \<noteq> {}" by blast
  obtain d' z' ks where d': "generateDoe ndn0 sqlite0 keychain_sample () ''db'' 9 2 d zone_sample = (d', Inr z')"
    "\<forall>key. snd key \<noteq> DOE_RR_TYPE \<longrightarrow> db_get ndn0 sqlite0 zone_sample d' key = db_get ndn0 sqlite0 zone_sample d key"
    "set ks = zone_types ndn0 sqlite0 zone_sample d"
    "\<forall>l. db_get ndn0 sqlite0 zone_sample d' (l, DOE_RR_TYPE) \<noteq> None \<longleftrightarrow> l = [] \<or> l \<in> key_name ` set ks"
    using generateDoe_chain [OF ndn0_ok d(1) sqlite0_roomy len zt, of 9 2] by (elim exE conjE) (rule that)
  have "db_get ndn0 sqlite0 zone_sample d' ([generic ''a'', TXT_RR_TYPE], DOE_RR_TYPE) \<noteq> None"
  proof -
    have "key_name ?k1 \<in> key_name ` set ks" using k d'(3) by blast
    moreover have "key_name ?k1 = [generic ''a'', TXT_RR_TYPE]" by (simp add: key_name_def)
    ultimately show ?thesis using d'(4) by metis
  qed
  with d d'(1,2) ty ne show ?thesis by (intro exI [of _ d] exI [of _ d'] exI [of _ z']) simp
qed

lemma generateDoe_undefined:
  assumes L: "ndn_ok L" and z: "zone_ready L E K k dflt p d" and e: "zone_types L E p d = {}"
  shows "\<exists>d'. generateDoe L E K k dflt now fa d p = (d', Inl Undefined) \<and> (\<forall>key. db_get L E p d' key = None)"
proof -
  obtain d1 and rs :: "rrset list" where d1: "\<And>key. db_get L E p d1 key = (if snd key = DOE_RR_TYPE then None else db_get L E p d key)"
    "zone_types L E p d = (\<lambda>r. (rrset_label r, rrset_type r)) ` set rs"
    "rs = [] \<Longrightarrow> generateDoe L E K k dflt now fa d p = (d1, Inl Undefined)"
    by (rule generateDoe_cleared [OF L z, of now fa], rule that, blast, assumption, simp)
  have "db_get L E p d1 key = None" for key
  proof -
    have "key \<notin> zone_types L E p d" using e by blast
    then show ?thesis using d1(1) [of key] unfolding zone_types_def mem_Collect_eq by presburger
  qed
  with d1 e show ?thesis by (intro exI [of _ d1]) simp
qed

text \<open>
  When the last record of a zone other than DoE records is removed, \<open>generateDoe\<close> deletes the DoE
  records and then reads outside the empty vector of records: its behaviour is undefined.
\<close>

theorem generateDoe_empty_zone:
  assumes L: "ndn_ok L" and z: "zone_ready L E K k dflt p d" and e: "zone_types L E p d = {}"
  shows "\<exists>d'. generateDoe L E K k dflt now fa d p = (d', Inl Undefined) \<and> (\<forall>key. db_get L E p d' key = None)"
  using generateDoe_undefined [OF assms] .

theorem generateDoe_empty_zone_witness:
  "\<exists>d'. generateDoe ndn0 sqlite0 keychain_sample () ''db'' 9 2 db_sample zone_sample = (d', Inl Undefined)"
  using generateDoe_empty_zone [OF ndn0_ok zone_ready_sample [OF db_sample_good refl], of 9 2]
  by (auto simp: zone_types_def db_sample_get)

end
