(* ===== verification/ManagementProps.thy ===== *)
theory ManagementProps
  imports DoeChain
begin

text \<open>
  The management operations as operations on the map of records of a zone: \<open>addRrset\<close> and \<open>addMultiLevelLabelRrset\<close> write a
  record unless it is older, \<open>removeRrSet\<close> removes one, \<open>deleteZone\<close> removes all of them and the zone;
  each leaves a chain of DoE records that matches the records.
\<close>

declare not_None_eq [simp del]

section \<open>One write\<close>

lemma findRrset_filled:
  assumes i: "store_inv L E p d"
  shows "findRrset L E d (rr_fill v (rr_object p k)) =
     (d, Inr (case rr_at d (obj_key L p k) of
                None \<Rightarrow> (rr_fill v (rr_object p k), False) | Some row \<Rightarrow> (filled L row (rr_object p k), True)))"
proof -
  have e: "(rr_fill v (rr_object p k))\<lparr>rrset_id := 0\<rparr> = rr_fill v (rr_object p k)"
    by (simp add: rr_fill_def rr_object_def Rrset_new_def)
  have "filled L row (rr_fill v (rr_object p k)) = filled L row (rr_object p k)" for row
    by (simp add: filled_def rr_fill_def)
  then show ?thesis
    using i findRrset_found [of L E d "rr_fill v (rr_object p k)" "fst p" "snd p"]
    by (cases "rr_at d (obj_key L p k)") (simp_all add: store_inv_def e)
qed

lemma rr_zone_self [simp]: "(rr_fill v (rr_object p k))\<lparr>rrset_zone := Some p\<rparr> = rr_fill v (rr_object p k)"
  by (simp add: rr_fill_def rr_object_def)

lemma removeRrset_row:
  assumes i: "store_inv L E p d" and r: "rr_at d (obj_key L p k) = Some row"
  obtains d' where "removeRrset E d (filled L row (rr_object p k)) = (d', Inr (Rrset_new (Some p)))"
    "store_inv L E p d'" "db_get L E p d' = (db_get L E p d)(k := None)"
    "zones (m_tables d') = zones (m_tables d)" "m_dbFile d' = m_dbFile d"
    "length (rrsets (m_tables d')) \<le> length (rrsets (m_tables d))"
proof -
  have g: "db_good L E d" using i by (simp add: store_inv_def)
  have mem: "row \<in> set (rrsets (m_tables d))" using rr_at_Some [OF r] by blast
  let ?d = "set_rrsets (filter (\<lambda>x. r_id x \<noteq> r_id row) (rrsets (m_tables d))) d"
  have rm: "removeRrset E d (filled L row (rr_object p k)) = (?d, Inr (Rrset_new (Some p)))"
    using removeRrset_found(1) [OF g mem, of "filled L row (rr_object p k)"] by simp
  have "findRrset L E d (rr_object p k) = (d, Inr (filled L row (rr_object p k), True))"
    by (simp add: findRrset_object [OF i] r)
  then have del: "db_del L E p d k = ?d" using rm by (simp add: db_del_def)
  have "db_get L E p d k = Some (row_value L row)" by (simp add: db_get_at [OF i] r)
  note db.del_get [OF i this, unfolded del]
  with rm that show thesis by simp
qed

text \<open>What is asked of a zone that is to be changed: ready, and with room for the chain.\<close>

definition changeable :: "ndn \<Rightarrow> sqlite \<Rightarrow> 'k keychain \<Rightarrow> 'k \<Rightarrow> string \<Rightarrow> zone_ptr \<Rightarrow> dbmgr \<Rightarrow> bool" where
  "changeable L E K k dflt p d \<longleftrightarrow>
     ndn_ok L \<and> zone_ready L E K k dflt p d \<and> sqlite_roomy E \<and> length (rrsets (m_tables d)) < 2 ^ 59"

lemma changeable_sample:
  "zone_ready ndn0 sqlite0 keychain_sample () ''db'' zone_sample d \<Longrightarrow> length (rrsets (m_tables d)) < 2 ^ 59 \<Longrightarrow>
   changeable ndn0 sqlite0 keychain_sample () ''db'' zone_sample d"
  by (simp add: changeable_def ndn0_ok sqlite0_roomy)

lemma zone_ready_frame:
  assumes "zone_ready L E K k dflt p d" "store_inv L E p d'" "zones (m_tables d') = zones (m_tables d)" "m_dbFile d' = m_dbFile d"
  shows "zone_ready L E K k dflt p d'"
  using assms by (auto simp: zone_ready_def zone_known_def)

text \<open>The effect of a change: the record map is \<open>m\<close> (up to DoE records), the chain matches it and its records are well named.\<close>

definition changed_to ::
  "ndn \<Rightarrow> sqlite \<Rightarrow> zone_ptr \<Rightarrow> (name \<times> component \<Rightarrow> rr_value option) \<Rightarrow> dbmgr \<Rightarrow> bool" where
  "changed_to L E p m d \<longleftrightarrow>
     store_inv L E p d \<and> (\<forall>k. snd k \<noteq> DOE_RR_TYPE \<longrightarrow> db_get L E p d k = m k) \<and> (\<exists>ks. chained L E p d ks) \<and>
     (\<forall>l v. db_get L E p d (l, DOE_RR_TYPE) = Some v \<longrightarrow> named_value L (zone_name (snd p)) (l, DOE_RR_TYPE) v)"

lemma generateDoe_changed:
  assumes "ndn_ok L" "sqlite_roomy E" "zone_ready L E K k dflt p d" "length (rrsets (m_tables d)) < 2 ^ 60"
    and "snd key \<noteq> DOE_RR_TYPE" "db_get L E p d key \<noteq> None"
  obtains d' ttl where "generateDoe L E K k dflt now fa d p = (d', Inr ((snd p)\<lparr>zone_ttl := ttl\<rparr>))"
    "changed_to L E p (db_get L E p d) d'"
proof -
  have "key \<in> zone_types L E p d" using assms(5,6) by (simp add: zone_types_def)
  then have "zone_types L E p d \<noteq> {}" by blast
  from generateDoe_ok [OF assms(1,3,2,4) this]
  obtain d' ttl ks where d': "generateDoe L E K k dflt now fa d p = (d', Inr ((snd p)\<lparr>zone_ttl := ttl\<rparr>))"
    "zone_ready L E K k dflt p d'" "\<And>key. snd key \<noteq> DOE_RR_TYPE \<Longrightarrow> db_get L E p d' key = db_get L E p d key"
    "chained L E p d' ks"
    "\<And>l v. db_get L E p d' (l, DOE_RR_TYPE) = Some v \<Longrightarrow> named_value L (zone_name (snd p)) (l, DOE_RR_TYPE) v" by metis
  then have "changed_to L E p (db_get L E p d) d'" by (auto simp: changed_to_def zone_ready_def)
  with d'(1) show thesis using that by blast
qed

text \<open>The outcome of a write of \<open>v\<close> at \<open>key\<close>: refused, with nothing changed, if the record there has the same or a newer version.\<close>

definition versioned_write ::
  "ndn \<Rightarrow> sqlite \<Rightarrow> zone_ptr \<Rightarrow> dbmgr \<Rightarrow> name \<times> component \<Rightarrow> rr_value \<Rightarrow> (dbmgr, rrset) res \<Rightarrow> bool" where
  "versioned_write L E p d key v res \<longleftrightarrow>
     (case db_get L E p d key of
        Some u \<Rightarrow>
          if fst u = fst v then res = (d, Inl (ManagementTool_Error ''Duplicate''))
          else if compLess L (fst v) (fst u) then res = (d, Inl (ManagementTool_Error ''Newer version exists''))
          else \<exists>d' r. res = (d', Inr r) \<and> changed_to L E p ((db_get L E p d)(key \<mapsto> v)) d'
      | None \<Rightarrow> \<exists>d' r. res = (d', Inr r) \<and> changed_to L E p ((db_get L E p d)(key \<mapsto> v)) d')"

text \<open>\<open>checkRrsetVersion\<close>, \<open>insert\<close> and \<open>generateDoe\<close> together.\<close>

lemma store_rrset_spec:
  fixes v :: rr_value
  assumes c: "changeable L E K k dflt p d" and ty: "snd key \<noteq> DOE_RR_TYPE"
  defines "r \<equiv> rr_fill v (rr_object p key)"
  shows "versioned_write L E p d key v (store_rrset L E K k dflt now fa d r)"
proof -
  have D: "ndn_ok L" "zone_ready L E K k dflt p d" "sqlite_roomy E" "length (rrsets (m_tables d)) < 2 ^ 59" and i: "store_inv L E p d"
    using c by (auto simp: changeable_def zone_ready_def)
  have r: "rrset_zone r = Some p" "rrset_version r = fst v" "r\<lparr>rrset_zone := Some p\<rparr> = r"
    by (simp_all add: r_def rr_fill_def)
  have stored: "\<exists>d' r'. store_rrset L E K k dflt now fa d r = (d', Inr r') \<and> changed_to L E p ((db_get L E p d)(key \<mapsto> v)) d'"
    if chk: "checkRrsetVersion L E d r = (d1, Inr r)" and i1: "store_inv L E p d1"
      and g1: "db_get L E p d1 = (db_get L E p d)(key := None)" and z1: "zones (m_tables d1) = zones (m_tables d)"
      and f1: "m_dbFile d1 = m_dbFile d" and l1: "length (rrsets (m_tables d1)) \<le> length (rrsets (m_tables d))" for d1
  proof -
    have n: "db_get L E p d1 key = None" and room: "roomy E d1 (Suc 0)" using g1 D(3,4) l1 by (simp_all add: roomy_def)
    obtain d2 where d2: "db_ins L E p d1 key v = (d2, True)" "store_inv L E p d2" "db_get L E p d2 = (db_get L E p d1)(key \<mapsto> v)"
      "zones (m_tables d2) = zones (m_tables d1)" "m_dbFile d2 = m_dbFile d1"
      "length (rrsets (m_tables d2)) = Suc (length (rrsets (m_tables d1)))"
      by (rule db_ins_roomy [OF i1 n room])
    obtain r2 where ins: "insertRrset L E d1 r = (d2, Inr r2)"
      using d2(1) by (auto simp: db_ins_def r_def split: prod.splits sum.splits)
    have zr: "rrset_zone r2 = Some p"
      using ins r(1) i by (cases p) (auto simp: insertRrset_def insert_row_def store_inv_def Let_def and_then_Inr split: if_splits option.splits)
    have "zone_ready L E K k dflt p d2" by (rule zone_ready_frame [OF D(2) d2(2)]) (simp_all add: d2 z1 f1)
    moreover have "length (rrsets (m_tables d2)) < 2 ^ 60" using d2(6) l1 D(4) by simp
    moreover have "db_get L E p d2 key \<noteq> None" using d2(3) by simp
    ultimately obtain d' ttl where "generateDoe L E K k dflt now fa d2 p = (d', Inr ((snd p)\<lparr>zone_ttl := ttl\<rparr>))"
      "changed_to L E p (db_get L E p d2) d'"
      by (rule generateDoe_changed [OF D(1,3) _ _ ty])
    then show ?thesis using chk ins zr d2(3) g1 by (simp add: store_rrset_def)
  qed
  show ?thesis
  proof (cases "rr_at d (obj_key L p key)")
    case None
    then have n: "db_get L E p d key = None" by (simp add: db_get_at [OF i])
    have "checkRrsetVersion L E d r = (d, Inr r)"
      using None r(3) by (simp add: checkRrsetVersion_def r_def findRrset_filled [OF i])
    from stored [OF this i] n show ?thesis by (simp add: versioned_write_def fun_upd_idem)
  next
    case (Some row)
    then have u: "db_get L E p d key = Some (row_value L row)" by (simp add: db_get_at [OF i])
    obtain d1 where d1: "removeRrset E d (filled L row (rr_object p key)) = (d1, Inr (Rrset_new (Some p)))"
      "store_inv L E p d1" "db_get L E p d1 = (db_get L E p d)(key := None)"
      "zones (m_tables d1) = zones (m_tables d)" "m_dbFile d1 = m_dbFile d"
      "length (rrsets (m_tables d1)) \<le> length (rrsets (m_tables d))" by (rule removeRrset_row [OF i Some])
    have chk: "checkRrsetVersion L E d r =
        (if ver_of L row = fst v then (d, Inl (ManagementTool_Error ''Duplicate''))
         else if compLess L (fst v) (ver_of L row) then (d, Inl (ManagementTool_Error ''Newer version exists''))
         else (d1, Inr r))"
      using Some d1(1) r(2,3) by (simp add: checkRrsetVersion_def r_def findRrset_filled [OF i])
    show ?thesis
    proof (cases "ver_of L row = fst v \<or> compLess L (fst v) (ver_of L row)")
      case True
      then show ?thesis using chk u by (auto simp: versioned_write_def store_rrset_def row_value_def)
    next
      case False
      then show ?thesis using stored [OF _ d1(2-6)] chk u by (simp add: versioned_write_def row_value_def)
    qed
  qed
qed

section \<open>Adding a record\<close>

text \<open>The content type of the packet stored at a key.\<close>

definition type_at :: "ndn \<Rightarrow> sqlite \<Rightarrow> zone_ptr \<Rightarrow> dbmgr \<Rightarrow> name \<times> component \<Rightarrow> NdnsContentType option" where
  "type_at L E p d k =
     Option.bind (db_get L E p d k) (\<lambda>v. map_option (\<lambda>x. to_content_type (d_contentType x)) (blockData L (snd (snd v))))"

lemma lookup_type:
  assumes i: "store_inv L E p d" and r: "db_get L E p d k \<noteq> None \<longrightarrow> type_at L E p d k \<noteq> None"
  obtains row where "findRrset L E d (rr_fill v (rr_object p k)) = (d, Inr (row, db_get L E p d k \<noteq> None))"
    "rrset_zone row = Some p" "db_get L E p d k \<noteq> None \<Longrightarrow> stored_type L row = Inr (the (type_at L E p d k))"
proof (cases "rr_at d (obj_key L p k)")
  case None
  then show thesis using that [of "rr_fill v (rr_object p k)"] by (simp add: findRrset_filled [OF i] db_get_at [OF i])
next
  case (Some row)
  have "stored_type L (filled L row (rr_object p k)) = Inr (the (type_at L E p d k))"
    using Some r by (auto simp: stored_type_def type_at_def db_get_at [OF i] row_value_def or_throw_def split: option.splits)
  then show thesis using that [of "filled L row (rr_object p k)"] Some
    by (simp add: findRrset_filled [OF i] db_get_at [OF i])
qed

lemma addRrset_effect:
  assumes c: "changeable L E K k dflt p d" and ty: "snd key \<noteq> DOE_RR_TYPE"
    and r: "db_get L E p d (fst key, NS_RR_TYPE) \<noteq> None \<longrightarrow> type_at L E p d (fst key, NS_RR_TYPE) \<noteq> None"
  shows "if type_at L E p d (fst key, NS_RR_TYPE) = Some NDNS_AUTH
         then addRrset L E K k dflt now fa d (rr_fill v (rr_object p key)) =
                (d, Inl (ManagementTool_Error ''Can not add this Rrset: it overrides a NDNS_AUTH record''))
         else versioned_write L E p d key v (addRrset L E K k dflt now fa d (rr_fill v (rr_object p key)))"
proof -
  have i: "store_inv L E p d" using c by (simp add: changeable_def zone_ready_def)
  have e: "(rr_fill v (rr_object p key))\<lparr>rrset_type := NS_RR_TYPE\<rparr> = rr_fill v (rr_object p (fst key, NS_RR_TYPE))"
    by (simp add: rr_fill_def rr_object_def)
  have z: "(rr_fill v (rr_object p key))\<lparr>rrset_zone := Some p\<rparr> = rr_fill v (rr_object p key)"
    by (simp add: rr_fill_def rr_object_def)
  obtain row where row: "findRrset L E d (rr_fill v (rr_object p (fst key, NS_RR_TYPE))) =
      (d, Inr (row, db_get L E p d (fst key, NS_RR_TYPE) \<noteq> None))" "rrset_zone row = Some p"
    "db_get L E p d (fst key, NS_RR_TYPE) \<noteq> None \<Longrightarrow> stored_type L row = Inr (the (type_at L E p d (fst key, NS_RR_TYPE)))"
    by (rule lookup_type [OF i r]) blast
  have none: "type_at L E p d (fst key, NS_RR_TYPE) \<noteq> None \<Longrightarrow> db_get L E p d (fst key, NS_RR_TYPE) \<noteq> None"
    by (auto simp: type_at_def split: Option.bind_splits)
  have "addRrset L E K k dflt now fa d (rr_fill v (rr_object p key)) =
      (if type_at L E p d (fst key, NS_RR_TYPE) = Some NDNS_AUTH
       then (d, Inl (ManagementTool_Error ''Can not add this Rrset: it overrides a NDNS_AUTH record''))
       else store_rrset L E K k dflt now fa d (rr_fill v (rr_object p key)))"
    using row none r by (cases "db_get L E p d (fst key, NS_RR_TYPE)") (auto simp: addRrset_def e z)
  then show ?thesis using store_rrset_spec [OF c ty, of v now fa] by simp
qed

text \<open>
  C18: \<open>addRrset\<close> refuses a record at a label that has an AUTH record, and one whose version is the same as or older than the
  version in the database, and then changes nothing. Otherwise it succeeds: the record is in the database with its version,
  TTL and data, no other record is changed, and the DoE records are the chain of the new set of records.
\<close>

theorem addRrset_spec:
  assumes c: "changeable L E K k dflt p d" and ty: "snd key \<noteq> DOE_RR_TYPE"
    and r: "db_get L E p d (fst key, NS_RR_TYPE) \<noteq> None \<longrightarrow> type_at L E p d (fst key, NS_RR_TYPE) \<noteq> None"
  shows "if type_at L E p d (fst key, NS_RR_TYPE) = Some NDNS_AUTH
         then addRrset L E K k dflt now fa d (rr_fill v (rr_object p key)) =
                (d, Inl (ManagementTool_Error ''Can not add this Rrset: it overrides a NDNS_AUTH record''))
         else versioned_write L E p d key v (addRrset L E K k dflt now fa d (rr_fill v (rr_object p key)))"
  using addRrset_effect [OF assms] .

theorem addRrset_spec_witness:
  "\<exists>d d' r'. addRrset ndn0 sqlite0 keychain_sample () ''db'' 9 2 d (rr_fill value_sample (rr_object zone_sample ([generic ''c''], TXT_RR_TYPE))) =
       (d', Inr r') \<and>
     changed_to ndn0 sqlite0 zone_sample
       ((db_get ndn0 sqlite0 zone_sample d)(([generic ''c''], TXT_RR_TYPE) \<mapsto> value_sample)) d'"
proof -
  let ?k1 = "([generic ''a''], TXT_RR_TYPE)" and ?k2 = "([generic ''b''], TXT_RR_TYPE)" and ?k = "([generic ''c''], TXT_RR_TYPE)"
  have ne: "?k1 \<noteq> ?k2" and ty: "snd ?k \<noteq> DOE_RR_TYPE" by (simp_all add: label_defs)
  obtain d where d: "zone_ready ndn0 sqlite0 keychain_sample () ''db'' zone_sample d"
    "db_get ndn0 sqlite0 zone_sample d = [?k1 \<mapsto> value_sample, ?k2 \<mapsto> value_sample]" "length (rrsets (m_tables d)) = 2"
    by (rule two_records [OF ne])
  have c: "changeable ndn0 sqlite0 keychain_sample () ''db'' zone_sample d" using changeable_sample d(1,3) by simp
  have none: "db_get ndn0 sqlite0 zone_sample d ?k = None" "db_get ndn0 sqlite0 zone_sample d ([generic ''c''], NS_RR_TYPE) = None"
    unfolding d(2) by simp_all
  then have t: "type_at ndn0 sqlite0 zone_sample d (fst ?k, NS_RR_TYPE) = None" by (simp add: type_at_def)
  from addRrset_spec [OF c ty, of 9 2 value_sample] none t
  have "versioned_write ndn0 sqlite0 zone_sample d ?k value_sample
      (addRrset ndn0 sqlite0 keychain_sample () ''db'' 9 2 d (rr_fill value_sample (rr_object zone_sample ?k)))" by simp
  then show ?thesis unfolding versioned_write_def none(1) option.case by blast
qed

section \<open>Removing a record\<close>

definition same_zone :: "zone_ptr \<Rightarrow> zone_ptr \<Rightarrow> bool" where
  "same_zone p q \<longleftrightarrow> zone_id (snd p) = zone_id (snd q) \<and> zone_name (snd p) = zone_name (snd q)"

lemma zone_ready_ptr: "same_zone p q \<Longrightarrow> zone_ready L E K k dflt p d \<longleftrightarrow> zone_ready L E K k dflt q d"
  by (simp add: same_zone_def zone_ready_def zone_known_def store_inv_def)

lemma changed_to_ptr:
  assumes "same_zone p q"
  shows "changed_to L E p m d \<longleftrightarrow> changed_to L E q m d"
proof -
  have z: "zone_id (snd p) = zone_id (snd q)" and n: "zone_name (snd p) = zone_name (snd q)"
    using assms by (simp_all add: same_zone_def)
  show ?thesis
  proof (cases "store_inv L E p d")
    case True
    then have g: "db_get L E p d = db_get L E q d" by (rule db_get_ptr [OF z])
    have r: "doe_range L E p d = doe_range L E q d" by (rule ext) (simp only: doe_range_def g)
    show ?thesis by (simp only: changed_to_def chained_def zone_types_def g r n store_inv_ptr [OF z])
  next
    case False
    then show ?thesis by (simp add: changed_to_def store_inv_ptr [OF z])
  qed
qed

text \<open>An object that names its zone without an id is completed by the lookup.\<close>

lemma findRrset_by_name:
  assumes i: "store_inv L E p d" and kn: "zone_known L p d"
  obtains q where "same_zone q p" "fst q = addr"
    "findRrset L E d ((Rrset_new (Some (addr, Zone_of (zone_name (snd p)))))\<lparr>rrset_label := fst key, rrset_type := snd key\<rparr>) =
       findRrset L E d (rr_object q key)"
proof -
  have g: "db_good L E d" "zone_id (snd p) \<noteq> 0" using i by (simp_all add: store_inv_def)
  note D = db_goodD [OF g(1)]
  let ?z = "Zone_of (zone_name (snd p))"
  obtain ttl where f: "findZone L E d ?z = (d, Inr (?z\<lparr>zone_id := zone_id (snd p), zone_ttl := ttl\<rparr>, True))"
    by (rule zone_known_find [OF D(3,4,5,6) kn, of ?z]) simp_all
  let ?q = "(addr, ?z\<lparr>zone_id := zone_id (snd p), zone_ttl := ttl\<rparr>)"
  have "findRrset L E d ((Rrset_new (Some (addr, ?z)))\<lparr>rrset_label := fst key, rrset_type := snd key\<rparr>) =
      findRrset L E d (rr_object ?q key)"
    using f g(2) by (simp add: findRrset_def with_zone_def rr_object_def Rrset_new_def Let_def)
  then show thesis using that [of ?q] by (simp add: same_zone_def)
qed

lemma other_member: "x \<in> S \<Longrightarrow> y \<noteq> x \<Longrightarrow> S \<noteq> {y}"
  by auto

lemma removeRrSet_outcome:
  assumes c: "changeable L E K k dflt p d"
  shows "if db_get L E p d key = None
         then removeRrSet L E K k dflt now fa addr d (zone_name (snd p)) (fst key) (snd key) = (d, Inr ())
         else if zone_types L E p d - {key} = {}
         then \<exists>d'. removeRrSet L E K k dflt now fa addr d (zone_name (snd p)) (fst key) (snd key) = (d', Inl Undefined)
         else \<exists>d'. removeRrSet L E K k dflt now fa addr d (zone_name (snd p)) (fst key) (snd key) = (d', Inr ()) \<and>
                   changed_to L E p ((db_get L E p d)(key := None)) d'"
proof -
  have D: "ndn_ok L" "zone_ready L E K k dflt p d" "sqlite_roomy E" "length (rrsets (m_tables d)) < 2 ^ 59"
    and i: "store_inv L E p d" and kn: "zone_known L p d"
    using c by (auto simp: changeable_def zone_ready_def)
  obtain q where q: "same_zone q p" "fst q = addr"
    "findRrset L E d ((Rrset_new (Some (addr, Zone_of (zone_name (snd p)))))\<lparr>rrset_label := fst key, rrset_type := snd key\<rparr>) =
       findRrset L E d (rr_object q key)" by (rule findRrset_by_name [OF i kn])
  have z: "zone_id (snd q) = zone_id (snd p)" using q(1) by (simp add: same_zone_def)
  have iq: "store_inv L E q d" using i store_inv_ptr [OF z] by blast
  have get: "db_get L E q d = db_get L E p d" using db_get_ptr [OF z iq] .
  show ?thesis
  proof (cases "rr_at d (obj_key L q key)")
    case None
    then have "db_get L E p d key = None" using db_get_at [OF iq, of key] get by simp
    then show ?thesis using None by (simp add: removeRrSet_def q(3) findRrset_object [OF iq])
  next
    case (Some row)
    then have some: "db_get L E p d key \<noteq> None" using db_get_at [OF iq, of key] get by simp
    obtain d1 where d1: "removeRrset E d (filled L row (rr_object q key)) = (d1, Inr (Rrset_new (Some q)))"
      "store_inv L E q d1" "db_get L E q d1 = (db_get L E q d)(key := None)"
      "zones (m_tables d1) = zones (m_tables d)" "m_dbFile d1 = m_dbFile d"
      "length (rrsets (m_tables d1)) \<le> length (rrsets (m_tables d))" by (rule removeRrset_row [OF iq Some])
    have rm: "removeRrSet L E K k dflt now fa addr d (zone_name (snd p)) (fst key) (snd key) =
        and_then (generateDoe L E K k dflt now fa d1 q) (\<lambda>d _. (d, Inr ()))"
      using Some d1(1) by (simp add: removeRrSet_def q(3) findRrset_object [OF iq])
    have zr: "zone_ready L E K k dflt q d1"
      by (rule zone_ready_frame [OF _ d1(2,4,5)]) (use D(2) zone_ready_ptr [OF q(1), of L E K k dflt d] in simp)
    have types: "zone_types L E q d1 = zone_types L E p d - {key}" using d1(3) get by (auto simp: zone_types_def)
    show ?thesis
    proof (cases "zone_types L E p d - {key} = {}")
      case True
      then have "zone_types L E q d1 = {}" using types by simp
      then obtain d' where "generateDoe L E K k dflt now fa d1 q = (d', Inl Undefined)"
        using generateDoe_undefined [OF D(1) zr, of now fa] by blast
      then show ?thesis using rm some True by simp
    next
      case False
      then obtain other where "other \<in> zone_types L E q d1" using types by blast
      then have o: "snd other \<noteq> DOE_RR_TYPE" "db_get L E q d1 other \<noteq> None" by (simp_all add: zone_types_def)
      have len: "length (rrsets (m_tables d1)) < 2 ^ 60" using d1(6) D(4) by simp
      obtain d' ttl where "generateDoe L E K k dflt now fa d1 q = (d', Inr ((snd q)\<lparr>zone_ttl := ttl\<rparr>))"
        "changed_to L E q (db_get L E q d1) d'" by (rule generateDoe_changed [OF D(1,3) zr len o])
      then show ?thesis using rm some False d1(3) get changed_to_ptr [OF q(1)] by simp
    qed
  qed
qed

lemma removeRrSet_effect:
  assumes c: "changeable L E K k dflt p d" and ty: "snd key \<noteq> DOE_RR_TYPE"
  shows "if db_get L E p d key = None
         then removeRrSet L E K k dflt now fa addr d (zone_name (snd p)) (fst key) (snd key) = (d, Inr ())
         else if zone_types L E p d = {key}
         then \<exists>d'. removeRrSet L E K k dflt now fa addr d (zone_name (snd p)) (fst key) (snd key) = (d', Inl Undefined)
         else \<exists>d'. removeRrSet L E K k dflt now fa addr d (zone_name (snd p)) (fst key) (snd key) = (d', Inr ()) \<and>
                   changed_to L E p ((db_get L E p d)(key := None)) d'"
proof (cases "db_get L E p d key = None")
  case False
  then have "key \<in> zone_types L E p d" using ty by (simp add: zone_types_def)
  then have "zone_types L E p d - {key} = {} \<longleftrightarrow> zone_types L E p d = {key}" by blast
  then show ?thesis using removeRrSet_outcome [OF c, of key now fa addr] by (simp only:)
qed (use removeRrSet_outcome [OF c, of key now fa addr] in simp)

text \<open>
  C37: \<open>removeRrSet\<close> does nothing when the record is not there. Otherwise it removes that record, keeps every other, and
  rebuilds the chain of DoE records, provided another record is left; if it was the last one, the behaviour is undefined.
\<close>

theorem removeRrSet_spec:
  assumes c: "changeable L E K k dflt p d" and ty: "snd key \<noteq> DOE_RR_TYPE"
  shows "if db_get L E p d key = None
         then removeRrSet L E K k dflt now fa addr d (zone_name (snd p)) (fst key) (snd key) = (d, Inr ())
         else if zone_types L E p d = {key}
         then \<exists>d'. removeRrSet L E K k dflt now fa addr d (zone_name (snd p)) (fst key) (snd key) = (d', Inl Undefined)
         else \<exists>d'. removeRrSet L E K k dflt now fa addr d (zone_name (snd p)) (fst key) (snd key) = (d', Inr ()) \<and>
                   changed_to L E p ((db_get L E p d)(key := None)) d'"
  using removeRrSet_effect [OF assms] .

theorem removeRrSet_spec_witness:
  "\<exists>d d'. db_get ndn0 sqlite0 zone_sample d ([generic ''a''], TXT_RR_TYPE) \<noteq> None \<and>
     removeRrSet ndn0 sqlite0 keychain_sample () ''db'' 9 2 3 d [generic ''net''] [generic ''a''] TXT_RR_TYPE = (d', Inr ()) \<and>
     changed_to ndn0 sqlite0 zone_sample ((db_get ndn0 sqlite0 zone_sample d)(([generic ''a''], TXT_RR_TYPE) := None)) d'"
proof -
  let ?k1 = "([generic ''a''], TXT_RR_TYPE)" and ?k2 = "([generic ''b''], TXT_RR_TYPE)"
  have ne: "?k1 \<noteq> ?k2" and ty: "snd ?k1 \<noteq> DOE_RR_TYPE" "snd ?k2 \<noteq> DOE_RR_TYPE" by (simp_all add: label_defs)
  obtain d where d: "zone_ready ndn0 sqlite0 keychain_sample () ''db'' zone_sample d"
    "db_get ndn0 sqlite0 zone_sample d = [?k1 \<mapsto> value_sample, ?k2 \<mapsto> value_sample]" "length (rrsets (m_tables d)) = 2"
    by (rule two_records [OF ne])
  have c: "changeable ndn0 sqlite0 keychain_sample () ''db'' zone_sample d" using changeable_sample d(1,3) by simp
  have some: "db_get ndn0 sqlite0 zone_sample d ?k1 \<noteq> None" "db_get ndn0 sqlite0 zone_sample d ?k2 \<noteq> None"
    unfolding d(2) by simp_all
  have "?k2 \<in> zone_types ndn0 sqlite0 zone_sample d" unfolding zone_types_def mem_Collect_eq using ty(2) some(2) by (rule conjI)
  then have "zone_types ndn0 sqlite0 zone_sample d \<noteq> {?k1}" using ne by (rule other_member)
  then have no: "(zone_types ndn0 sqlite0 zone_sample d = {?k1}) = False" "(db_get ndn0 sqlite0 zone_sample d ?k1 = None) = False"
    using some(1) by simp_all
  from removeRrSet_spec [OF c ty(1), of 9 2 3, unfolded no if_False]
  have "\<exists>d'. removeRrSet ndn0 sqlite0 keychain_sample () ''db'' 9 2 3 d (zone_name (snd zone_sample)) (fst ?k1) (snd ?k1) = (d', Inr ()) \<and>
          changed_to ndn0 sqlite0 zone_sample ((db_get ndn0 sqlite0 zone_sample d)(?k1 := None)) d'" .
  then obtain d' where "removeRrSet ndn0 sqlite0 keychain_sample () ''db'' 9 2 3 d [generic ''net''] [generic ''a''] TXT_RR_TYPE = (d', Inr ())"
    "changed_to ndn0 sqlite0 zone_sample ((db_get ndn0 sqlite0 zone_sample d)(?k1 := None)) d'"
    by (elim exE conjE) (simp add: zone_sample_def)
  with some(1) show ?thesis by (intro exI [of _ d] exI [of _ d'] conjI)
qed

section \<open>Records under several labels\<close>

lemma ns_object_fold: "ns_object (Some p) l = rr_object p (l, NS_RR_TYPE)"
  by (simp add: ns_object_def rr_object_def)

lemma rr_object_as_fill: "rr_object p k = rr_fill (no_component, 0, no_block) (rr_object p k)"
  by (simp add: rr_object_def rr_fill_def Rrset_new_def)

definition ns_readable :: "ndn \<Rightarrow> sqlite \<Rightarrow> zone_ptr \<Rightarrow> dbmgr \<Rightarrow> bool" where
  "ns_readable L E p d \<longleftrightarrow> (\<forall>l. db_get L E p d (l, NS_RR_TYPE) \<noteq> None \<longrightarrow> type_at L E p d (l, NS_RR_TYPE) \<noteq> None)"

lemma lookup_ns:
  assumes i: "store_inv L E p d" and r: "ns_readable L E p d"
  obtains row where "findRrset L E d (ns_object (Some p) l) = (d, Inr (row, db_get L E p d (l, NS_RR_TYPE) \<noteq> None))"
    "rrset_zone row = Some p"
    "db_get L E p d (l, NS_RR_TYPE) \<noteq> None \<Longrightarrow> stored_type L row = Inr (the (type_at L E p d (l, NS_RR_TYPE)))"
  using lookup_type [OF i, of "(l, NS_RR_TYPE)" "(no_component, 0, no_block)"] r
  unfolding ns_object_fold ns_readable_def rr_object_as_fill [symmetric] by blast

lemma check_prefixes_spec:
  assumes i: "store_inv L E p d" and r: "ns_readable L E p d"
  shows "check_prefixes L E d (Some p) ls =
     (d, if \<exists>l \<in> set ls. type_at L E p d (l, NS_RR_TYPE) = Some NDNS_LINK
         then Inl (ManagementTool_Error ''Cannot override (NDNS_LINK)'') else Inr (Some p))"
proof (induction ls)
  case (Cons l ls)
  obtain row where row: "findRrset L E d (ns_object (Some p) l) = (d, Inr (row, db_get L E p d (l, NS_RR_TYPE) \<noteq> None))"
    "rrset_zone row = Some p"
    "db_get L E p d (l, NS_RR_TYPE) \<noteq> None \<Longrightarrow> stored_type L row = Inr (the (type_at L E p d (l, NS_RR_TYPE)))"
    by (rule lookup_ns [OF i r]) blast
  show ?case
  proof (cases "db_get L E p d (l, NS_RR_TYPE)")
    case None
    then have "type_at L E p d (l, NS_RR_TYPE) = None" by (simp add: type_at_def)
    with None row Cons show ?thesis by simp
  next
    case (Some u)
    then obtain t where t: "type_at L E p d (l, NS_RR_TYPE) = Some t" using r unfolding ns_readable_def by fastforce
    with Some row Cons show ?thesis by simp
  qed
qed simp

text \<open>An AUTH record: no content, so the record carries only its type.\<close>

lemma generateAuthRrset_ok:
  assumes L: "ndn_ok L" and f: "factory_ready L p f" and pos: "0 \<le> ttl_used f ttl"
  obtains v x where "generateAuthRrset L now f label version ttl = Inr (rr_fill v (rr_object (rf_addr f, rf_zone f) (label, NS_RR_TYPE)))"
    "blockData L (snd (snd v)) = Some x" "to_content_type (d_contentType x) = NDNS_AUTH"
    "named_value L (zone_name (snd p)) (label, NS_RR_TYPE) v"
proof -
  note D = ndn_okD [OF L]
  have e: "generateAuthRrset L now f label version ttl =
      generate L now f label NS_RR_TYPE version ttl NDNS_AUTH (\<lambda>d. Inr (d\<lparr>d_content := Block tlv_Content []\<rparr>))"
    by (simp add: generateAuthRrset_def generate_def new_data_def Let_def)
  obtain r d where r: "generateAuthRrset L now f label version ttl = Inr r"
    "rrset_id r = 0" "rrset_zone r = Some (rf_addr f, rf_zone f)" "rrset_label r = label" "rrset_type r = NS_RR_TYPE"
    "rrset_data r = dataBlock L d" "d_contentType d = content_type_code NDNS_AUTH"
    "d_name d = rr_name (zone_name (rf_zone f)) label NS_RR_TYPE @ [rrset_version r]"
    unfolding e
    by (rule generate_spec [OF D(5,4), of f "\<lambda>d. Inr (d\<lparr>d_content := Block tlv_Content []\<rparr>)" "Block tlv_Content []" ttl now label
          NS_RR_TYPE version NDNS_AUTH]) (use f pos in \<open>auto simp: factory_ready_def not_None_eq\<close>)
  let ?v = "(rrset_version r, rrset_ttl r, rrset_data r)"
  have "rr_fill ?v (rr_object (rf_addr f, rf_zone f) (label, NS_RR_TYPE)) = r"
    using r(2-5) by (simp add: rr_fill_def rr_object_def Rrset_new_def)
  then show thesis using that [of ?v d] r(1,6-8) f by (simp add: data_codecD [OF D(4)] named_value_def factory_ready_def)
qed

text \<open>The AUTH records are added where no record is, and nothing else changes.\<close>

definition auth_at :: "ndn \<Rightarrow> sqlite \<Rightarrow> zone_ptr \<Rightarrow> dbmgr \<Rightarrow> name \<Rightarrow> bool" where
  "auth_at L E p d l \<longleftrightarrow>
     type_at L E p d (l, NS_RR_TYPE) = Some NDNS_AUTH \<and>
     (\<forall>v. db_get L E p d (l, NS_RR_TYPE) = Some v \<longrightarrow> named_value L (zone_name (snd p)) (l, NS_RR_TYPE) v)"

definition auths_added :: "ndn \<Rightarrow> sqlite \<Rightarrow> zone_ptr \<Rightarrow> dbmgr \<Rightarrow> name list \<Rightarrow> dbmgr \<Rightarrow> bool" where
  "auths_added L E p d ls d' \<longleftrightarrow>
     store_inv L E p d' \<and> zones (m_tables d') = zones (m_tables d) \<and> m_dbFile d' = m_dbFile d \<and>
     (\<forall>k. db_get L E p d k \<noteq> None \<or> k \<notin> (\<lambda>l. (l, NS_RR_TYPE)) ` set ls \<longrightarrow> db_get L E p d' k = db_get L E p d k) \<and>
     (\<forall>l \<in> set ls. db_get L E p d (l, NS_RR_TYPE) = None \<longrightarrow> auth_at L E p d' l)"

lemma type_at_cong: "db_get L E p d' k = db_get L E p d k \<Longrightarrow> type_at L E p d' k = type_at L E p d k"
  by (simp add: type_at_def)

lemma auth_at_cong: "db_get L E p d' (l, NS_RR_TYPE) = db_get L E p d (l, NS_RR_TYPE) \<Longrightarrow> auth_at L E p d' l = auth_at L E p d l"
  by (simp add: auth_at_def type_at_def)

lemma auths_added_readable:
  assumes a: "auths_added L E p d ls d'" and r: "ns_readable L E p d"
  shows "ns_readable L E p d'"
  unfolding ns_readable_def
proof (intro allI impI)
  fix l assume some: "db_get L E p d' (l, NS_RR_TYPE) \<noteq> None"
  show "type_at L E p d' (l, NS_RR_TYPE) \<noteq> None"
  proof (cases "l \<in> set ls \<and> db_get L E p d (l, NS_RR_TYPE) = None")
    case True
    then show ?thesis using a by (auto simp: auths_added_def auth_at_def)
  next
    case False
    then have "db_get L E p d' (l, NS_RR_TYPE) = db_get L E p d (l, NS_RR_TYPE)" using a by (auto simp: auths_added_def)
    with some r type_at_cong show ?thesis unfolding ns_readable_def by metis
  qed
qed

lemma auths_added_keeps:
  "auths_added L E p d ls d' \<Longrightarrow> db_get L E p d k \<noteq> None \<or> k \<notin> (\<lambda>l. (l, NS_RR_TYPE)) ` set ls \<Longrightarrow>
   db_get L E p d' k = db_get L E p d k"
  unfolding auths_added_def by blast

lemma auths_added_new:
  "auths_added L E p d ls d' \<Longrightarrow> l \<in> set ls \<Longrightarrow> db_get L E p d (l, NS_RR_TYPE) = None \<Longrightarrow>
   auth_at L E p d' l"
  by (simp add: auths_added_def)

lemma auths_added_Cons:
  assumes a1: "auths_added L E p d [l] d1" and a2: "auths_added L E p d1 ls d'" and none: "db_get L E p d (l, NS_RR_TYPE) = None"
  shows "auths_added L E p d (l # ls) d'"
proof -
  have keep: "db_get L E p d' k = db_get L E p d k"
    if "db_get L E p d k \<noteq> None \<or> k \<notin> (\<lambda>l. (l, NS_RR_TYPE)) ` set (l # ls)" for k
  proof -
    have "db_get L E p d1 k = db_get L E p d k" by (rule auths_added_keeps [OF a1]) (use that in auto)
    then show ?thesis using auths_added_keeps [OF a2, of k] that by auto
  qed
  have t1: "auth_at L E p d1 l" by (rule auths_added_new [OF a1 _ none]) simp
  then have "db_get L E p d1 (l, NS_RR_TYPE) \<noteq> None" by (intro notI) (simp add: auth_at_def type_at_def)
  from auth_at_cong [OF auths_added_keeps [OF a2 disjI1 [OF this]]] t1
  have tl: "auth_at L E p d' l" by simp
  have "auth_at L E p d' m" if "m \<in> set ls" "m \<noteq> l" "db_get L E p d (m, NS_RR_TYPE) = None" for m
  proof -
    have "db_get L E p d1 (m, NS_RR_TYPE) = None" using auths_added_keeps [OF a1, of "(m, NS_RR_TYPE)"] that by auto
    then show ?thesis by (rule auths_added_new [OF a2 that(1)])
  qed
  then have "\<forall>m \<in> set (l # ls). db_get L E p d (m, NS_RR_TYPE) = None \<longrightarrow> auth_at L E p d' m"
    using tl by auto
  with keep a1 a2 show ?thesis unfolding auths_added_def by metis
qed

text \<open>The prefixes without an NS record, for which an AUTH record has to be made.\<close>

definition lacks_ns :: "ndn \<Rightarrow> sqlite \<Rightarrow> zone_ptr \<Rightarrow> dbmgr \<Rightarrow> name list \<Rightarrow> bool" where
  "lacks_ns L E p d ls \<longleftrightarrow> (\<exists>l \<in> set ls. db_get L E p d (l, NS_RR_TYPE) = None)"

lemma add_auths_negative:
  assumes f: "rf_checked f" "ttl_used f authTtl < 0" and i: "store_inv L E p d" "ns_readable L E p d"
  shows "lacks_ns L E p d ls \<Longrightarrow> add_auths L E now f authTtl d (Some p) ls = (d, Inl Invalid_Argument)"
proof (induction ls)
  case (Cons l ls)
  obtain row where row: "findRrset L E d (ns_object (Some p) l) = (d, Inr (row, db_get L E p d (l, NS_RR_TYPE) \<noteq> None))"
    "rrset_zone row = Some p" by (rule lookup_ns [OF i])
  show ?case
    using Cons row generateAuthRrset_negative [OF f]
    by (cases "db_get L E p d (l, NS_RR_TYPE) = None") (auto simp: lacks_ns_def)
qed (simp add: lacks_ns_def)

lemma add_auths_spec:
  assumes L: "ndn_ok L" and f: "factory_ready L p f"
  shows "store_inv L E p d \<Longrightarrow> ns_readable L E p d \<Longrightarrow> roomy E d (length ls + n) \<Longrightarrow> 0 \<le> ttl_used f authTtl \<or> \<not> lacks_ns L E p d ls \<Longrightarrow>
    \<exists>d'. add_auths L E now f authTtl d (Some p) ls = (d', Inr (Some p)) \<and> auths_added L E p d ls d' \<and> roomy E d' n"
proof (induction ls arbitrary: d)
  case Nil
  then show ?case by (simp add: auths_added_def)
next
  case (Cons l ls)
  obtain row where row: "findRrset L E d (ns_object (Some p) l) = (d, Inr (row, db_get L E p d (l, NS_RR_TYPE) \<noteq> None))"
    "rrset_zone row = Some p" by (rule lookup_ns [OF Cons.prems(1,2)])
  show ?case
  proof (cases "db_get L E p d (l, NS_RR_TYPE) = None")
    case False
    have "roomy E d (length ls + n)" using Cons.prems(3) by (simp add: roomy_def)
    moreover have "0 \<le> ttl_used f authTtl \<or> \<not> lacks_ns L E p d ls" using Cons.prems(4) by (auto simp: lacks_ns_def)
    ultimately obtain d'
      where d': "add_auths L E now f authTtl d (Some p) ls = (d', Inr (Some p))" "auths_added L E p d ls d'" "roomy E d' n"
      using Cons.IH [OF Cons.prems(1,2)] by blast
    then have "auths_added L E p d (l # ls) d'" using False by (auto simp: auths_added_def)
    with d' row False show ?thesis by simp
  next
    case True
    let ?q = "(rf_addr f, rf_zone f)"
    have z: "zone_id (snd ?q) = zone_id (snd p)" using f by (simp add: factory_ready_def)
    have pos: "0 \<le> ttl_used f authTtl" using Cons.prems(4) True by (simp add: lacks_ns_def)
    obtain v x where v: "generateAuthRrset L now f l VERSION_USE_UNIX_TIMESTAMP authTtl = Inr (rr_fill v (rr_object ?q (l, NS_RR_TYPE)))"
      "blockData L (snd (snd v)) = Some x" "to_content_type (d_contentType x) = NDNS_AUTH"
      "named_value L (zone_name (snd p)) (l, NS_RR_TYPE) v" by (rule generateAuthRrset_ok [OF L f pos])
    have iq: "store_inv L E ?q d" using Cons.prems(1) store_inv_ptr [OF z] by blast
    have nq: "db_get L E ?q d (l, NS_RR_TYPE) = None" using True db_get_ptr [OF z iq] by simp
    have rm: "roomy E d (Suc (length ls + n))" using Cons.prems(3) by simp
    obtain d1 where d1: "db_ins L E ?q d (l, NS_RR_TYPE) v = (d1, True)" "store_inv L E ?q d1"
      "db_get L E ?q d1 = (db_get L E ?q d)((l, NS_RR_TYPE) \<mapsto> v)" "roomy E d1 (length ls + n)"
      "zones (m_tables d1) = zones (m_tables d)" "m_dbFile d1 = m_dbFile d" by (rule db_ins_roomy [OF iq nq rm])
    have g1: "db_get L E p d1 = (db_get L E p d)((l, NS_RR_TYPE) \<mapsto> v)"
      using d1(3) db_get_ptr [OF z iq] db_get_ptr [OF z d1(2)] by simp
    have i1: "store_inv L E p d1" using d1(2) store_inv_ptr [OF z] by blast
    obtain r where ins: "insertRrset L E d (rr_fill v (rr_object ?q (l, NS_RR_TYPE))) = (d1, Inr r)"
      using d1(1) by (auto simp: db_ins_def split: prod.splits sum.splits)
    have t1: "auth_at L E p d1 l" using g1 v(2-4) by (simp add: auth_at_def type_at_def)
    have a1: "auths_added L E p d [l] d1" using i1 d1(5,6) g1 True t1 by (auto simp: auths_added_def)
    from Cons.IH [OF i1 auths_added_readable [OF a1 Cons.prems(2)] d1(4) disjI1 [OF pos]] obtain d'
      where d': "add_auths L E now f authTtl d1 (Some p) ls = (d', Inr (Some p))" "auths_added L E p d1 ls d'" "roomy E d' n" by blast
    have "auths_added L E p d (l # ls) d'"
      by (rule auths_added_Cons [OF a1 d'(2) True])
    then show ?thesis using d' row True v(1) ins by (simp add: ns_object_def)
  qed
qed

lemma ns_override_check:
  fixes l ty
  assumes i: "store_inv L E p d" and r: "ns_readable L E p d"
  defines "res \<equiv> \<lambda>x :: rr_value. rr_fill x (rr_object p (l, ty))"
  shows "and_then (if ty = NS_RR_TYPE then
            and_then (findRrset L E d (res v)) (\<lambda>d (rrsetCopy, found).
              and_then (if found then lift_err d (stored_type L rrsetCopy) else (d, Inr NDNS_UNKNOWN)) (\<lambda>d ct.
                if found \<and> ct = NDNS_AUTH then (d, Inl (ManagementTool_Error ''Cannot override (NDNS_AUTH)''))
                else (d, Inr ((res v)\<lparr>rrset_zone := rrset_zone rrsetCopy\<rparr>))))
          else (d, Inr (res v))) g =
      (if ty = NS_RR_TYPE \<and> type_at L E p d (l, NS_RR_TYPE) = Some NDNS_AUTH
       then (d, Inl (ManagementTool_Error ''Cannot override (NDNS_AUTH)'')) else g d (res v))"
proof (cases "ty = NS_RR_TYPE")
  case True
  have rd: "db_get L E p d (l, ty) \<noteq> None \<longrightarrow> type_at L E p d (l, ty) \<noteq> None" using r True by (simp add: ns_readable_def)
  then obtain row where row: "findRrset L E d (res v) = (d, Inr (row, db_get L E p d (l, ty) \<noteq> None))" "rrset_zone row = Some p"
    "db_get L E p d (l, ty) \<noteq> None \<Longrightarrow> stored_type L row = Inr (the (type_at L E p d (l, ty)))"
    unfolding res_def by (rule lookup_type [OF i, of "(l, ty)" v]) blast
  show ?thesis
  proof (cases "db_get L E p d (l, ty)")
    case None
    then have "type_at L E p d (l, ty) = None" by (simp add: type_at_def)
    then show ?thesis using True row None by (simp add: res_def)
  next
    case (Some u)
    then obtain t where "type_at L E p d (l, ty) = Some t" using rd by fastforce
    then show ?thesis using True row Some by (simp add: res_def)
  qed
qed simp

lemma addMultiLevelLabelRrset_effect:
  assumes c: "changeable L E K k dflt p d" and f: "factory_ready L p f" and r: "ns_readable L E p d"
    and l: "l \<noteq> []" "length (rrsets (m_tables d)) + length l < 2 ^ 59" and ty: "ty \<noteq> DOE_RR_TYPE"
  shows "if \<exists>i \<in> {1..<length l}. type_at L E p d (take i l, NS_RR_TYPE) = Some NDNS_LINK
         then addMultiLevelLabelRrset L E K k dflt now fa d (rr_fill v (rr_object p (l, ty))) f authTtl =
                (d, Inl (ManagementTool_Error ''Cannot override (NDNS_LINK)''))
         else if ty = NS_RR_TYPE \<and> type_at L E p d (l, NS_RR_TYPE) = Some NDNS_AUTH
         then addMultiLevelLabelRrset L E K k dflt now fa d (rr_fill v (rr_object p (l, ty))) f authTtl =
                (d, Inl (ManagementTool_Error ''Cannot override (NDNS_AUTH)''))
         else if ttl_used f authTtl < 0 \<and> lacks_ns L E p d (map (\<lambda>i. take i l) [1..<length l])
         then addMultiLevelLabelRrset L E K k dflt now fa d (rr_fill v (rr_object p (l, ty))) f authTtl = (d, Inl Invalid_Argument)
         else \<exists>d1. auths_added L E p d (map (\<lambda>i. take i l) [1..<length l]) d1 \<and>
                versioned_write L E p d1 (l, ty) v
                  (addMultiLevelLabelRrset L E K k dflt now fa d (rr_fill v (rr_object p (l, ty))) f authTtl)"
proof -
  have D: "ndn_ok L" "zone_ready L E K k dflt p d" "sqlite_roomy E" and i: "store_inv L E p d"
    using c by (auto simp: changeable_def zone_ready_def)
  let ?ls = "map (\<lambda>i. take i l) [1..<length l]" and ?r = "rr_fill v (rr_object p (l, ty))"
  have pp: "(if l = [] then [[]] else proper_prefixes l) = ?ls" "proper_prefixes l = ?ls" using l(1) by (simp_all add: proper_prefixes_def)
  have rz: "rrset_zone ?r = Some p" "rrset_label ?r = l" "rrset_type ?r = ty"
    by (simp_all add: rr_fill_def rr_object_def)
  have "roomy E d (length ?ls + (2 ^ 62 - 2 ^ 59))" using l D(3) by (simp add: roomy_def)
  note room = this
  have link: "(\<exists>x \<in> set ?ls. type_at L E p d (x, NS_RR_TYPE) = Some NDNS_LINK) \<longleftrightarrow>
      (\<exists>i \<in> {1..<length l}. type_at L E p d (take i l, NS_RR_TYPE) = Some NDNS_LINK)" by auto
  note chk = check_prefixes_spec [OF i r, of ?ls, unfolded link]
  show ?thesis
  proof (cases "\<exists>i \<in> {1..<length l}. type_at L E p d (take i l, NS_RR_TYPE) = Some NDNS_LINK")
    case True
    then show ?thesis by (simp only: addMultiLevelLabelRrset_def rz(1,2) pp chk l(1) if_True if_False and_then_simps)
  next
    case False
    have run: "addMultiLevelLabelRrset L E K k dflt now fa d ?r f authTtl =
        (if ty = NS_RR_TYPE \<and> type_at L E p d (l, NS_RR_TYPE) = Some NDNS_AUTH
         then (d, Inl (ManagementTool_Error ''Cannot override (NDNS_AUTH)''))
         else and_then (add_auths L E now f authTtl d (Some p) ?ls)
                (\<lambda>d p. store_rrset L E K k dflt now fa d (?r\<lparr>rrset_zone := p\<rparr>)))"
      by (simp only: addMultiLevelLabelRrset_def rz(1-3) pp chk False l(1) if_False and_then_simps Let_def rr_zone_self
          ns_override_check [OF i r])
    show ?thesis
    proof (cases "ttl_used f authTtl < 0 \<and> lacks_ns L E p d ?ls")
      case True
      have "rf_checked f" using f by (simp add: factory_ready_def)
      then have "add_auths L E now f authTtl d (Some p) ?ls = (d, Inl Invalid_Argument)"
        using add_auths_negative [OF _ _ i r, of f authTtl ?ls now] True by blast
      with run have "addMultiLevelLabelRrset L E K k dflt now fa d ?r f authTtl =
          (if ty = NS_RR_TYPE \<and> type_at L E p d (l, NS_RR_TYPE) = Some NDNS_AUTH
           then (d, Inl (ManagementTool_Error ''Cannot override (NDNS_AUTH)'')) else (d, Inl Invalid_Argument))" by simp
      moreover define a where "a \<longleftrightarrow> ty = NS_RR_TYPE \<and> type_at L E p d (l, NS_RR_TYPE) = Some NDNS_AUTH"
      ultimately show ?thesis using False True unfolding a_def [symmetric] by (cases a) simp_all
    next
      case pos: False
      then have "0 \<le> ttl_used f authTtl \<or> \<not> lacks_ns L E p d ?ls" by auto
      from add_auths_spec [OF D(1) f i r room this] obtain d1
        where d1: "add_auths L E now f authTtl d (Some p) ?ls = (d1, Inr (Some p))" "auths_added L E p d ?ls d1" "roomy E d1 (2 ^ 62 - 2 ^ 59)"
        by blast
      have a: "store_inv L E p d1" "zones (m_tables d1) = zones (m_tables d)" "m_dbFile d1 = m_dbFile d"
        using d1(2) unfolding auths_added_def by blast+
      have "changeable L E K k dflt p d1"
        using zone_ready_frame [OF D(2) a] D(1,3) d1(3) by (simp add: changeable_def roomy_def)
      then have "versioned_write L E p d1 (l, ty) v (store_rrset L E K k dflt now fa d1 ?r)"
        by (rule store_rrset_spec) (use ty in simp)
      then show ?thesis using False pos d1(1,2) run by (auto simp: rr_zone_self)
    qed
  qed
qed

text \<open>For the empty label the operation does not return: it throws when the zone's apex is delegated, and otherwise loops.\<close>

lemma addMultiLevelLabelRrset_apex:
  assumes i: "store_inv L E p d" and r: "ns_readable L E p d"
  shows "addMultiLevelLabelRrset L E K k dflt now fa d (rr_fill v (rr_object p ([], ty))) f authTtl =
    (d, Inl (if type_at L E p d ([], NS_RR_TYPE) = Some NDNS_LINK then ManagementTool_Error ''Cannot override (NDNS_LINK)'' else Diverges))"
proof -
  have rz: "rrset_zone (rr_fill v (rr_object p ([], ty))) = Some p" "rrset_label (rr_fill v (rr_object p ([], ty))) = []"
    by (simp_all add: rr_fill_def rr_object_def)
  note chk = check_prefixes_spec [OF i r, of "[[]]"]
  show ?thesis by (simp add: addMultiLevelLabelRrset_def rz chk del: check_prefixes.simps)
qed

text \<open>
  C36: \<open>addMultiLevelLabelRrset\<close> refuses a record below a label that is delegated (an NS record of type LINK at a proper
  prefix) and an NS record in place of an AUTH record, changing nothing. It also changes nothing when a proper prefix has no NS record and the TTL
  for the AUTH records is negative: the first of them cannot be given its freshness period, and the exception of the library is passed on. Otherwise every
  proper prefix of the label that had no NS record gets an AUTH record, so that the search for the delegation can pass through it, and the record
  is then written as by \<open>addRrset\<close>. A write refused for its version leaves the AUTH records behind.
\<close>

theorem addMultiLevelLabelRrset_spec:
  assumes c: "changeable L E K k dflt p d" and f: "factory_ready L p f" and r: "ns_readable L E p d"
    and l: "l \<noteq> []" "length (rrsets (m_tables d)) + length l < 2 ^ 59" and ty: "ty \<noteq> DOE_RR_TYPE"
  shows "if \<exists>i \<in> {1..<length l}. type_at L E p d (take i l, NS_RR_TYPE) = Some NDNS_LINK
         then addMultiLevelLabelRrset L E K k dflt now fa d (rr_fill v (rr_object p (l, ty))) f authTtl =
                (d, Inl (ManagementTool_Error ''Cannot override (NDNS_LINK)''))
         else if ty = NS_RR_TYPE \<and> type_at L E p d (l, NS_RR_TYPE) = Some NDNS_AUTH
         then addMultiLevelLabelRrset L E K k dflt now fa d (rr_fill v (rr_object p (l, ty))) f authTtl =
                (d, Inl (ManagementTool_Error ''Cannot override (NDNS_AUTH)''))
         else if ttl_used f authTtl < 0 \<and> lacks_ns L E p d (map (\<lambda>i. take i l) [1..<length l])
         then addMultiLevelLabelRrset L E K k dflt now fa d (rr_fill v (rr_object p (l, ty))) f authTtl = (d, Inl Invalid_Argument)
         else \<exists>d1. auths_added L E p d (map (\<lambda>i. take i l) [1..<length l]) d1 \<and>
                versioned_write L E p d1 (l, ty) v
                  (addMultiLevelLabelRrset L E K k dflt now fa d (rr_fill v (rr_object p (l, ty))) f authTtl)"
  using addMultiLevelLabelRrset_effect [OF assms] .

theorem addMultiLevelLabelRrset_spec_witness:
  "\<exists>d1 d' r'. auths_added ndn0 sqlite0 zone_sample db_sample [[generic ''www'']] d1 \<and>
     addMultiLevelLabelRrset ndn0 sqlite0 keychain_sample () ''db'' 9 2 db_sample
       (rr_fill value_sample (rr_object zone_sample ([generic ''www'', generic ''a''], TXT_RR_TYPE))) factory_sample 3600 = (d', Inr r') \<and>
     changed_to ndn0 sqlite0 zone_sample
       ((db_get ndn0 sqlite0 zone_sample d1)(([generic ''www'', generic ''a''], TXT_RR_TYPE) \<mapsto> value_sample)) d'"
proof -
  let ?l = "[generic ''www'', generic ''a'']"
  have c: "changeable ndn0 sqlite0 keychain_sample () ''db'' zone_sample db_sample"
    by (rule changeable_sample [OF zone_ready_sample [OF db_sample_good refl]]) (simp add: db_sample_def)
  have f: "factory_ready ndn0 zone_sample factory_sample" by (simp add: factory_ready_def factory_sample_def not_None_eq)
  have r: "ns_readable ndn0 sqlite0 zone_sample db_sample" by (simp add: ns_readable_def db_sample_get)
  have t: "type_at ndn0 sqlite0 zone_sample db_sample k = None" for k by (simp add: type_at_def db_sample_get)
  have room: "length (rrsets (m_tables db_sample)) + length ?l < 2 ^ 59" by (simp add: db_sample_def)
  have ty: "TXT_RR_TYPE \<noteq> DOE_RR_TYPE" "(TXT_RR_TYPE = NS_RR_TYPE) = False" by (simp_all add: label_defs)
  have pre: "map (\<lambda>i. take i ?l) [1..<length ?l] = [[generic ''www'']]" by simp
  obtain d1 where d1: "auths_added ndn0 sqlite0 zone_sample db_sample [[generic ''www'']] d1"
    "versioned_write ndn0 sqlite0 zone_sample d1 (?l, TXT_RR_TYPE) value_sample
       (addMultiLevelLabelRrset ndn0 sqlite0 keychain_sample () ''db'' 9 2 db_sample
         (rr_fill value_sample (rr_object zone_sample (?l, TXT_RR_TYPE))) factory_sample 3600)"
    using addMultiLevelLabelRrset_spec [OF c f r _ room ty(1), of 9 2 value_sample 3600, unfolded t pre ty(2)]
    by (auto simp: ttl_used_def DEFAULT_RR_TTL_def)
  have "db_get ndn0 sqlite0 zone_sample d1 (?l, TXT_RR_TYPE) = None"
    using auths_added_keeps [OF d1(1), of "(?l, TXT_RR_TYPE)"] by (simp add: db_sample_get)
  then show ?thesis using d1 unfolding versioned_write_def by auto
qed

section \<open>Deleting a zone\<close>

lemma map_key_iff: "distinct (map f xs) \<Longrightarrow> x \<in> set xs \<Longrightarrow> y \<in> set xs \<Longrightarrow> f x = f y \<longleftrightarrow> x = y"
  by (auto simp: distinct_map inj_on_def)

lemma remove_all_rows:
  assumes "sqlite_reliable E"
  shows "m_conn d \<Longrightarrow> (\<forall>row \<in> set rows. 0 < r_id row \<and> r_id row < 2 ^ 63) \<Longrightarrow>
    remove_all E d (map (row_rrset L p) rows) =
      (set_rrsets (filter (\<lambda>x. r_id x \<notin> r_id ` set rows) (rrsets (m_tables d))) d, Inr ())"
proof (induction rows arbitrary: d)
  case (Cons row rows)
  have "removeRrset E d (row_rrset L p row) =
      (set_rrsets (filter (\<lambda>x. r_id x \<noteq> r_id row) (rrsets (m_tables d))) d, Inr (Rrset_new (Some p)))"
    using assms Cons.prems by (simp add: removeRrset_def Let_def nat_less_iff sqlite_reliable_def)
  then show ?case using Cons by (simp add: filter_filter conj_commute)
qed simp

text \<open>
  C38: \<open>deleteZone\<close> of a zone in the database succeeds and removes exactly its row and its records: the zones and the
  records of every other zone stay as they are.
\<close>

theorem deleteZone_spec:
  assumes i: "store_inv L E p d" and kn: "zone_known L p d"
  shows "\<exists>d'. deleteZone L E addr d (zone_name (snd p)) = (d', Inr ()) \<and>
           zones (m_tables d') = filter (\<lambda>r. z_name r \<noteq> nameWire L (zone_name (snd p))) (zones (m_tables d)) \<and>
           rrsets (m_tables d') = filter (\<lambda>r. r_zone r \<noteq> int (zone_id (snd p))) (rrsets (m_tables d))"
proof -
  have g: "db_good L E d" "zone_id (snd p) \<noteq> 0" using i by (simp_all add: store_inv_def)
  note D = db_goodD [OF g(1)]
  obtain zr where zr: "zr \<in> set (zones (m_tables d))" "z_name zr = nameWire L (zone_name (snd p))" "z_id zr = int (zone_id (snd p))"
    using kn by (auto simp: zone_known_def)
  have zs: "distinct (map z_id (zones (m_tables d)))" "distinct (map z_name (zones (m_tables d)))" "z_id zr < 2 ^ 63"
    using D(6) zr(1) by (auto simp: db_inv_def zone_rows_ok_def)
  then have col: "col_of_id (zone_id (snd p)) = int (zone_id (snd p))" using zr(3) by simp
  let ?z = "Zone_of (zone_name (snd p))"
  obtain ttl where f: "findZone L E d ?z = (d, Inr (?z\<lparr>zone_id := zone_id (snd p), zone_ttl := ttl\<rparr>, True))"
    by (rule zone_known_find [OF D(3-6) kn, of ?z]) simp_all
  let ?q = "(addr, ?z\<lparr>zone_id := zone_id (snd p), zone_ttl := ttl\<rparr>)"
  obtain rows where F: "findRrsets L E d ?q = (d, Inr (snd ?q, map (row_rrset L ?q) rows))"
    "mset rows = mset (zone_rows (snd ?q) d)" "\<forall>row \<in> set rows. rr_row_ok L row"
    using findRrsets_found [OF g(1), of ?q] g(2) by auto
  let ?keep = "filter (\<lambda>r. r_zone r \<noteq> int (zone_id (snd p))) (rrsets (m_tables d))"
  have set: "set rows = {r \<in> set (rrsets (m_tables d)). r_zone r = int (zone_id (snd p))}"
    using mset_eq_setD [OF F(2)] col by (auto simp: zone_rows_def)
  have ids: "distinct (map r_id (rrsets (m_tables d)))" using D(6) by (simp add: db_inv_def rr_rows_ok_def)
  have keep: "filter (\<lambda>x. r_id x \<notin> r_id ` set rows) (rrsets (m_tables d)) = ?keep"
    by (rule filter_cong [OF refl]) (use set ids in \<open>auto simp: distinct_map inj_on_def\<close>)
  define d1 where "d1 = set_rrsets ?keep d"
  have rm: "remove_all E d (map (row_rrset L ?q) rows) = (d1, Inr ())"
    using remove_all_rows [OF D(4,5), of rows L ?q] F(3) keep by (simp add: d1_def rr_row_ok_def)
  have d1: "m_conn d1" "db_inv L d1" "zone_known L p d1" "zones (m_tables d1) = zones (m_tables d)" "rrsets (m_tables d1) = ?keep"
    using D(5,6) kn by (simp_all add: d1_def db_inv_def rr_rows_ok_filter zone_known_def)
  obtain ttl' where f1: "findZone L E d1 (snd ?q) = (d1, Inr ((snd ?q)\<lparr>zone_id := zone_id (snd p), zone_ttl := ttl'\<rparr>, True))"
    by (rule zone_known_find [OF D(3,4) d1(1-3), of "snd ?q"]) simp_all
  have "filter (\<lambda>r. z_id r \<noteq> int (zone_id (snd p))) (zones (m_tables d)) =
      filter (\<lambda>r. z_name r \<noteq> nameWire L (zone_name (snd p))) (zones (m_tables d))"
    by (rule filter_cong [OF refl]) (use map_key_iff [OF zs(1) _ zr(1)] map_key_iff [OF zs(2) _ zr(1)] zr(2,3) in auto)
  then show ?thesis
    using f F(1) rm f1 d1(1,4,5) D(4) g(2) col
    by (simp add: deleteZone_def removeZone_tool_def removeZone_def prepare_def sqlite_reliable_def Let_def)
qed

theorem deleteZone_spec_witness:
  "\<exists>d'. deleteZone ndn0 sqlite0 3 db_sample [generic ''net''] = (d', Inr ()) \<and> zones (m_tables d') = []"
proof -
  have kn: "zone_known ndn0 zone_sample db_sample"
    using zone_ready_sample [OF db_sample_good refl] by (simp add: zone_ready_def)
  from deleteZone_spec [OF db_sample_good kn, of 3] show ?thesis
    by (auto simp: zone_sample_def db_sample_def)
qed

end
