(* ===== verification/NameServer.thy ===== *)
theory NameServer
  imports DbMgrProps Response
begin

text \<open>
  The authoritative name server (\<open>src/daemon/name-server.cpp\<close>, \<open>.hpp\<close>): it answers queries from the
  database, with a denial of existence when there is no record, and applies dynamic updates that
  pass validation. The validator answers later, so an update waits in \<open>srv_pending\<close> between
  \<open>handleUpdate\<close> and \<open>doUpdate\<close>; the packets put on the face are \<open>srv_out\<close>, the last one first.

  The assertions of \<open>matchName\<close> end the process; they are no exceptions, so the handler of
  \<open>doUpdate\<close> does not catch them.
\<close>

section \<open>State\<close>

text \<open>\<open>m_contentFreshness\<close> is not negative, so that \<open>setFreshnessPeriod\<close> takes it: it is initialised with 4 seconds, and its only setter, which
  the program does not call, asserts a positive period.\<close>

record nameserver =
  ns_addr :: nat
  ns_zone :: zone
  ns_ndnsPrefix :: name
  ns_certName :: name
  ns_contentFreshness :: nat

record server =
  srv_ns :: nameserver
  srv_db :: dbmgr
  srv_pending :: "(interest \<times> data) list"
  srv_out :: "data list"

abbreviation srv_ptr :: "server \<Rightarrow> zone_ptr" where
  "srv_ptr s \<equiv> (ns_addr (srv_ns s), ns_zone (srv_ns s))"

definition NAME_SERVER_DEFAULT_CONTENT_FRESHNESS :: nat where
  "NAME_SERVER_DEFAULT_CONTENT_FRESHNESS = 4000"

text \<open>\<open>addr\<close> is the address of the member \<open>m_zone\<close>.\<close>

definition NameServer_new :: "ndn \<Rightarrow> sqlite \<Rightarrow> dbmgr \<Rightarrow> nat \<Rightarrow> name \<Rightarrow> name \<Rightarrow> (dbmgr, nameserver) res" where
  "NameServer_new L E d addr zoneName certName =
     and_then (findZone L E d (Zone_of zoneName)) (\<lambda>d (z, _).
       if zone_id z = 0 then (d, Inl (NameServer_Error ''does not exist in the database''))
       else (d, Inr \<lparr>ns_addr = addr, ns_zone = z, ns_ndnsPrefix = zoneName @ [NDNS_ITERATIVE_QUERY],
                    ns_certName = certName, ns_contentFreshness = NAME_SERVER_DEFAULT_CONTENT_FRESHNESS\<rparr>))"

definition setContentFreshness :: "nameserver \<Rightarrow> int \<Rightarrow> error + nameserver" where
  "setContentFreshness ns t = (if t > 0 then Inr (ns\<lparr>ns_contentFreshness := nat t\<rparr>) else Inl AssertFailed)"

definition onRegisterFailed :: "nameserver \<Rightarrow> name \<Rightarrow> string \<Rightarrow> error + unit" where
  "onRegisterFailed ns prefix_name reason = Inl (NameServer_Error ''register prefix fails'')"

text \<open>What a lookup did to \<open>m_zone\<close> through the pointer of the Rrset.\<close>

definition keep_zone :: "rrset \<Rightarrow> server \<Rightarrow> server" where
  "keep_zone r s = (case rrset_zone r of
      None \<Rightarrow> s
    | Some (_, z) \<Rightarrow> s\<lparr>srv_ns := (srv_ns s)\<lparr>ns_zone := z\<rparr>\<rparr>)"

definition put :: "data \<Rightarrow> server \<Rightarrow> server" where
  "put d s = s\<lparr>srv_out := d # srv_out s\<rparr>"

section \<open>Queries\<close>

definition answer_nack :: "ndn \<Rightarrow> sqlite \<Rightarrow> nat \<Rightarrow> server \<Rightarrow> interest \<Rightarrow> MatchResult \<Rightarrow> (server, unit) res" where
  "answer_nack L E now s i re =
     (let answer = new_data (appendVersion L now (i_name i));
          doe = (Rrset_new (Some (srv_ptr s)))\<lparr>rrset_label := m_rrLabel re @ [m_rrType re], rrset_type := DOE_RR_TYPE\<rparr>
      in case findLowerBound L E (srv_db s) doe of
           (d, Inl e) \<Rightarrow> (s\<lparr>srv_db := d\<rparr>, Inl e)
         | (d, Inr (doe, found)) \<Rightarrow>
             let s = keep_zone doe (s\<lparr>srv_db := d\<rparr>) in
             if \<not> found then (s, Inl (Runtime_Error ''fail to find DoE record of zone''))
             else let answer = (setContent L (rrset_data doe) answer)
                        \<lparr>d_freshness := int (ns_contentFreshness (srv_ns s)), d_contentType := content_type_code NDNS_NACK\<rparr>
                  in and_then (lift_err s (or_throw Pib_Error (signData L SigningDefault answer)))
                       (\<lambda>s answer. (put answer s, Inr ())))"

definition handleQuery :: "ndn \<Rightarrow> sqlite \<Rightarrow> nat \<Rightarrow> server \<Rightarrow> interest \<Rightarrow> MatchResult \<Rightarrow> (server, unit) res" where
  "handleQuery L E now s i re =
     (let rrset = (Rrset_new (Some (srv_ptr s)))\<lparr>rrset_label := m_rrLabel re, rrset_type := m_rrType re\<rparr>
      in case findRrset L E (srv_db s) rrset of
           (d, Inl e) \<Rightarrow> (s\<lparr>srv_db := d\<rparr>, Inl e)
         | (d, Inr (rrset, found)) \<Rightarrow>
             let s = keep_zone rrset (s\<lparr>srv_db := d\<rparr>) in
             if found \<and> (comp_empty (m_version re) \<or> m_version re = rrset_version rrset)
             then and_then (lift_err s (or_throw Tlv_Error (blockData L (rrset_data rrset))))
                    (\<lambda>s answer. (put answer s, Inr ()))
             else answer_nack L E now s i re)"

section \<open>Updates\<close>

definition handleUpdate :: "ndn \<Rightarrow> server \<Rightarrow> interest \<Rightarrow> MatchResult \<Rightarrow> (server, unit) res" where
  "handleUpdate L s i re =
     (case m_rrLabel re of
        [c] \<Rightarrow>
          (case blockFromValue L (Block (comp_type c) (comp_value c)) of
             None \<Rightarrow> (s, Inr ())
           | Some b \<Rightarrow>
               (case blockData L b of
                  None \<Rightarrow> (s, Inr ())
                | Some d \<Rightarrow> (s\<lparr>srv_pending := srv_pending s @ [(i, d)]\<rparr>, Inr ())))
      | _ \<Rightarrow> (s, Inr ()))"

definition onInterest :: "ndn \<Rightarrow> sqlite \<Rightarrow> nat \<Rightarrow> server \<Rightarrow> interest \<Rightarrow> (server, unit) res" where
  "onInterest L E now s i =
     and_then (lift_err s (matchName_interest L (i_name i) (zone_name (ns_zone (srv_ns s))))) (\<lambda>s m.
       case m of
         None \<Rightarrow> (s, Inr ())
       | Some re \<Rightarrow> if m_rrType re = NDNS_UPDATE_LABEL then handleUpdate L s i re
                    else handleQuery L E now s i re)"

text \<open>The block \<open>try { ... } catch\<close> of \<open>doUpdate\<close>: the database after it and the return code.\<close>

definition apply_update ::
  "ndn \<Rightarrow> sqlite \<Rightarrow> server \<Rightarrow> MatchResult \<Rightarrow> data \<Rightarrow> server \<times> UpdateReturnCode" where
  "apply_update L E s re data =
     (let rrset = (Rrset_new (Some (srv_ptr s)))\<lparr>rrset_label := m_rrLabel re, rrset_type := m_rrType re\<rparr>
      in case findRrset L E (srv_db s) rrset of
           (d, Inl e) \<Rightarrow> (s\<lparr>srv_db := d\<rparr>, UPDATE_FAILURE)
         | (d, Inr (rrset, found)) \<Rightarrow>
             let s = keep_zone rrset (s\<lparr>srv_db := d\<rparr>) in
             if found then
               if compLess L (rrset_version rrset) (m_version re) then
                 case updateRrset L E d (rrset\<lparr>rrset_version := m_version re, rrset_data := dataBlock L data\<rparr>) of
                   (d, Inl e) \<Rightarrow> (s\<lparr>srv_db := d\<rparr>, UPDATE_FAILURE)
                 | (d, Inr _) \<Rightarrow> (s\<lparr>srv_db := d\<rparr>, UPDATE_OK)
               else (s, UPDATE_FAILURE)
             else
               case insertRrset L E d
                      (rrset\<lparr>rrset_version := m_version re, rrset_data := dataBlock L data,
                             rrset_ttl := zone_ttl (ns_zone (srv_ns s))\<rparr>) of
                 (d, Inl e) \<Rightarrow> (s\<lparr>srv_db := d\<rparr>, UPDATE_FAILURE)
               | (d, Inr r) \<Rightarrow> (keep_zone r (s\<lparr>srv_db := d\<rparr>), UPDATE_OK))"

definition update_block :: "ndn \<Rightarrow> UpdateReturnCode \<Rightarrow> block" where
  "update_block L code =
     Block (tlv_number RrData) (blockWire L (nonNegBlock L (tlv_number UpdateReturnCodeTlv) (update_code code)))"

definition doUpdate :: "ndn \<Rightarrow> sqlite \<Rightarrow> nat \<Rightarrow> server \<Rightarrow> interest \<Rightarrow> data \<Rightarrow> (server, unit) res" where
  "doUpdate L E now s i data =
     and_then (lift_err s (matchName_data (d_name data) (zone_name (ns_zone (srv_ns s))))) (\<lambda>s m.
       case m of
         None \<Rightarrow> (s, Inr ())
       | Some re \<Rightarrow>
           (case apply_update L E s re data of
              (s, code) \<Rightarrow>
                let answer = (setContent L (update_block L code) (new_data (appendVersion L now (i_name i))))
                      \<lparr>d_freshness := int (ns_contentFreshness (srv_ns s)), d_contentType := content_type_code NDNS_RESP\<rparr>
                in and_then (lift_err s (or_throw Pib_Error (signData L (SigningByCertificate (ns_certName (srv_ns s))) answer)))
                     (\<lambda>s answer. (put answer s, Inr ()))))"

section \<open>The server as a transition system\<close>

text \<open>
  One step is an Interest of the registered prefix, or the verdict of the validator \<open>V\<close> on a
  waiting update, in any order. \<open>now\<close> is the time of the step.
\<close>

inductive server_step :: "ndn \<Rightarrow> sqlite \<Rightarrow> (data \<Rightarrow> bool) \<Rightarrow> server \<Rightarrow> server \<Rightarrow> bool" for L E V where
  interest: "onInterest L E now s i = (s', Inr ()) \<Longrightarrow> server_step L E V s s'"
| validated: "srv_pending s = us @ (i, d) # vs \<Longrightarrow> V d \<Longrightarrow>
     doUpdate L E now (s\<lparr>srv_pending := us @ vs\<rparr>) i d = (s', Inr ()) \<Longrightarrow> server_step L E V s s'"
| rejected: "srv_pending s = us @ (i, d) # vs \<Longrightarrow> \<not> V d \<Longrightarrow>
     server_step L E V s (s\<lparr>srv_pending := us @ vs\<rparr>)"

inductive server_run :: "ndn \<Rightarrow> sqlite \<Rightarrow> (data \<Rightarrow> bool) \<Rightarrow> server \<Rightarrow> server \<Rightarrow> bool" for L E V where
  run_nil: "server_run L E V s s"
| run_step: "server_run L E V s t \<Longrightarrow> server_step L E V t u \<Longrightarrow> server_run L E V s u"

end
