(* ===== verification/NameServerProps.thy ===== *)
theory NameServerProps
  imports NameServer
begin

text \<open>
  The name server is correct with respect to the versioned store: an update is a \<open>put_newer\<close>,
  a query is a lookup, only validated data reach the database, and no run of the server loses or
  downgrades a record.
\<close>

section \<open>One update is one versioned write\<close>

definition server_ok :: "ndn \<Rightarrow> sqlite \<Rightarrow> server \<Rightarrow> bool" where
  "server_ok L E s \<longleftrightarrow> store_inv L E (srv_ptr s) (srv_db s)"

lemma server_okD: "server_ok L E s \<Longrightarrow> store_inv L E (srv_ptr s) (srv_db s)"
  by (simp add: server_ok_def)

lemma server_ok_codec: "server_ok L E s \<Longrightarrow> name_codec L" "server_ok L E s \<Longrightarrow> block_codec L"
  by (simp_all add: server_ok_def store_inv_def db_good_def)

abbreviation srv_get :: "ndn \<Rightarrow> sqlite \<Rightarrow> server \<Rightarrow> name \<times> component \<Rightarrow> rr_value option" where
  "srv_get L E s \<equiv> db_get L E (srv_ptr s) (srv_db s)"

lemma keep_zone_same [simp]:
  "rrset_zone r = Some (srv_ptr s) \<Longrightarrow> keep_zone r (s\<lparr>srv_db := d\<rparr>) = s\<lparr>srv_db := d\<rparr>"
  "rrset_zone r = Some (srv_ptr s) \<Longrightarrow> keep_zone r s = s"
  by (simp_all add: keep_zone_def)

definition match_key :: "MatchResult \<Rightarrow> name \<times> component" where
  "match_key re = (m_rrLabel re, m_rrType re)"

text \<open>The value an update writes: the TTL of the record it replaces, or that of the zone.\<close>

definition update_value :: "ndn \<Rightarrow> sqlite \<Rightarrow> server \<Rightarrow> MatchResult \<Rightarrow> data \<Rightarrow> rr_value" where
  "update_value L E s re data =
     (m_version re,
      (case srv_get L E s (match_key re) of Some (_, ttl, _) \<Rightarrow> ttl | None \<Rightarrow> zone_ttl (ns_zone (srv_ns s))),
      dataBlock L data)"

lemma rr_object_match:
  "(Rrset_new (Some p))\<lparr>rrset_label := m_rrLabel re, rrset_type := m_rrType re\<rparr> = rr_object p (match_key re)"
  by (simp add: rr_object_def match_key_def)

lemma rr_object_fold:
  "(Rrset_new (Some p))\<lparr>rrset_label := l, rrset_type := t\<rparr> = rr_object p (l, t)"
  by (simp add: rr_object_def)

lemma apply_update_put:
  assumes s: "server_ok L E s"
  shows "apply_update L E s re data =
           (case db.put_newer L E (srv_ptr s) (srv_db s) (match_key re) (update_value L E s re data) of
              (d, ok) \<Rightarrow> (s\<lparr>srv_db := d\<rparr>, if ok then UPDATE_OK else UPDATE_FAILURE))"
proof (cases "srv_get L E s (match_key re)")
  case None
  let ?v = "update_value L E s re data" and ?o = "rr_object (srv_ptr s) (match_key re)"
  have fill: "?o\<lparr>rrset_version := m_version re, rrset_data := dataBlock L data,
      rrset_ttl := zone_ttl (ns_zone (srv_ns s))\<rparr> = rr_fill ?v ?o"
    using None by (simp add: rr_fill_def update_value_def)
  note f = findRrset_absent [OF server_okD [OF s] None]
  have put: "db.put_newer L E (srv_ptr s) (srv_db s) (match_key re) ?v =
      db_ins L E (srv_ptr s) (srv_db s) (match_key re) ?v"
    using None by (simp add: db.put_newer_def)
  obtain d x where ins: "insertRrset L E (srv_db s) (rr_fill ?v ?o) = (d, x)" by fastforce
  have "rrset_zone r = Some (srv_ptr s)" if "x = Inr r" for r
  proof -
    have "zone_id (ns_zone (srv_ns s)) \<noteq> 0" using s by (simp add: server_ok_def store_inv_def)
    then show ?thesis using ins that
      by (auto simp: insertRrset_def insert_row_def Let_def split: if_splits option.splits)
  qed
  then show ?thesis
    by (cases x) (simp_all add: apply_update_def rr_object_match f put db_ins_def fill ins Let_def)
next
  case (Some u)
  let ?v = "update_value L E s re data"
  obtain r where r: "findRrset L E (srv_db s) (rr_object (srv_ptr s) (match_key re)) = (srv_db s, Inr (r, True))"
    "(rrset_version r, rrset_ttl r, rrset_data r) = u" "rrset_zone r = Some (srv_ptr s)"
    "updateRrset L E (srv_db s) (rr_fill ?v r) = (db_upd L E (srv_ptr s) (srv_db s) (match_key re) ?v, Inr ())"
    by (rule findRrset_present [OF server_okD [OF s] Some]) blast
  have fill: "r\<lparr>rrset_version := m_version re, rrset_data := dataBlock L data\<rparr> = rr_fill ?v r"
    using Some r(2) by (auto simp: rr_fill_def update_value_def)
  have "older_rr L u ?v \<longleftrightarrow> compLess L (rrset_version r) (m_version re)"
    using r(2) server_ok_codec(1) [OF s] by (auto simp: older_rr_def update_value_def name_codecD)
  then show ?thesis using r
    by (simp add: apply_update_def rr_object_match db.put_newer_def Some fill)
qed

lemma apply_update_ok: "server_ok L E s \<Longrightarrow> server_ok L E (fst (apply_update L E s re data))"
  using db.put_newer_inv [OF server_okD]
  by (simp add: apply_update_put server_ok_def split: prod.splits) (metis fst_conv)

lemma apply_update_ns [simp]: "server_ok L E s \<Longrightarrow> srv_ns (fst (apply_update L E s re data)) = srv_ns s"
  by (simp add: apply_update_put split: prod.splits)

lemma db_ins_flag:
  assumes i: "store_inv L E p d" and n: "db_get L E p d k = None"
  shows "snd (db_ins L E p d k v) \<longleftrightarrow> newRowid E (map r_id (rrsets (m_tables d))) \<noteq> None"
  using db_ins_None(1) [OF i n _ refl, of _ v] insertRrset_full [OF i, of v k]
  by (cases "newRowid E (map r_id (rrsets (m_tables d)))") (auto simp: db_ins_def)

text \<open>An update is accepted when the record is new (and the table has room) or its version is newer.\<close>

definition accepts :: "ndn \<Rightarrow> sqlite \<Rightarrow> server \<Rightarrow> MatchResult \<Rightarrow> bool" where
  "accepts L E s re =
     (case srv_get L E s (match_key re) of
        None \<Rightarrow> newRowid E (map r_id (rrsets (m_tables (srv_db s)))) \<noteq> None
      | Some (v, _, _) \<Rightarrow> compLess L v (m_version re))"

lemma apply_update_spec:
  assumes s: "server_ok L E s" and r: "apply_update L E s re data = (s', code)"
  shows "code = (if accepts L E s re then UPDATE_OK else UPDATE_FAILURE)"
    and "srv_get L E s' = (if accepts L E s re then (srv_get L E s)(match_key re \<mapsto> update_value L E s re data)
                           else srv_get L E s)"
    and "server_ok L E s'" and "srv_ns s' = srv_ns s" and "srv_out s' = srv_out s"
proof -
  let ?v = "update_value L E s re data"
  note i = server_okD [OF s]
  obtain d ok where p: "db.put_newer L E (srv_ptr s) (srv_db s) (match_key re) ?v = (d, ok)" by fastforce
  then have s': "s' = s\<lparr>srv_db := d\<rparr>" "code = (if ok then UPDATE_OK else UPDATE_FAILURE)"
    using r by (simp_all add: apply_update_put [OF s])
  have ok: "ok = accepts L E s re"
  proof (cases "srv_get L E s (match_key re)")
    case None
    then have "ok = snd (db_ins L E (srv_ptr s) (srv_db s) (match_key re) ?v)"
      using p by (simp add: db.put_newer_def)
    with None db_ins_flag [OF i None, of ?v] show ?thesis by (simp add: accepts_def)
  next
    case (Some u)
    then have "ok = older_rr L u ?v" using p by (simp add: db.put_newer_def split: if_splits)
    with Some server_ok_codec(1) [OF s] show ?thesis
      by (simp add: accepts_def older_rr_def update_value_def name_codecD split: prod.splits)
  qed
  then show "code = (if accepts L E s re then UPDATE_OK else UPDATE_FAILURE)" using s' by simp
  show "srv_get L E s' = (if accepts L E s re then (srv_get L E s)(match_key re \<mapsto> ?v) else srv_get L E s)"
    using db.put_newer_done [OF i, of "match_key re" ?v d] db.put_newer_refused [OF i, of "match_key re" ?v d]
      p ok s'(1) by (cases ok) simp_all
  show "server_ok L E s'" using apply_update_ok [OF s, of re data] r by simp
  show "srv_ns s' = srv_ns s" "srv_out s' = srv_out s" using s'(1) by simp_all
qed

section \<open>Dynamic update\<close>

definition update_answer :: "ndn \<Rightarrow> nat \<Rightarrow> server \<Rightarrow> interest \<Rightarrow> UpdateReturnCode \<Rightarrow> data" where
  "update_answer L now s i code =
     (setContent L (update_block L code) (new_data (appendVersion L now (i_name i))))
       \<lparr>d_freshness := int (ns_contentFreshness (srv_ns s)), d_contentType := content_type_code NDNS_RESP\<rparr>"

lemma doUpdate_run:
  assumes s: "server_ok L E s" and m: "matchName_data (d_name data) (zone_name (ns_zone (srv_ns s))) = Inr (Some re)"
    and a: "apply_update L E s re data = (s', code)"
    and g: "signData L (SigningByCertificate (ns_certName (srv_ns s))) (update_answer L now s i code) = Some ans"
  shows "doUpdate L E now s i data = (put ans s', Inr ())"
  using m a g apply_update_spec(4) [OF s a] by (simp add: doUpdate_def update_answer_def Let_def)

lemma doUpdate_effect:
  assumes s: "server_ok L E s" and sg: "sign_ok L"
    and cert: "\<And>x. signData L (SigningByCertificate (ns_certName (srv_ns s))) x \<noteq> None"
    and m: "matchName_data (d_name data) (zone_name (ns_zone (srv_ns s))) = Inr (Some re)"
  shows "\<exists>s' ans. doUpdate L E now s i data = (s', Inr ()) \<and> server_ok L E s' \<and>
           srv_get L E s' = (if accepts L E s re then (srv_get L E s)(match_key re \<mapsto> update_value L E s re data)
                             else srv_get L E s) \<and>
           srv_out s' = ans # srv_out s \<and> d_name ans = i_name i @ [fromVersion L now] \<and>
           to_content_type (d_contentType ans) = NDNS_RESP \<and>
           d_content ans = Block tlv_Content (blockWire L (update_block L
              (if accepts L E s re then UPDATE_OK else UPDATE_FAILURE)))"
proof -
  obtain s1 code where a: "apply_update L E s re data = (s1, code)" by fastforce
  note A = apply_update_spec [OF s a]
  obtain ans where g: "signData L (SigningByCertificate (ns_certName (srv_ns s))) (update_answer L now s i code) = Some ans"
    using cert by blast
  note D = sign_okD [OF sg g]
  have "doUpdate L E now s i data = (put ans s1, Inr ())" by (rule doUpdate_run [OF s m a g])
  moreover have "srv_get L E (put ans s1) = srv_get L E s1" "server_ok L E (put ans s1)"
    using A(3) by (simp_all add: put_def server_ok_def)
  moreover have "srv_out (put ans s1) = ans # srv_out s" using A(5) by (simp add: put_def)
  moreover have "d_content ans = Block tlv_Content (blockWire L (update_block L code))"
    by (simp add: D update_answer_def setContent_def update_block_def)
  ultimately show ?thesis
    using A(1,2) D by (intro exI [of _ "put ans s1"] exI [of _ ans])
      (simp add: update_answer_def appendVersion_def)
qed

text \<open>
  C14: A dynamic update with a Data packet named zone, NDNS, label, type, version is accepted exactly when
  the zone has no such record (and the table has room) or an older version of it. Then that record, and no other,
  becomes the packet, with the old TTL or the zone's; otherwise nothing changes. In both cases exactly one
  signed answer is sent, named after the Interest, whose content is the return code.
\<close>

theorem doUpdate_spec:
  assumes s: "server_ok L E s" and sg: "sign_ok L"
    and cert: "\<And>x. signData L (SigningByCertificate (ns_certName (srv_ns s))) x \<noteq> None"
    and m: "matchName_data (d_name data) (zone_name (ns_zone (srv_ns s))) = Inr (Some re)"
  shows "\<exists>s' ans. doUpdate L E now s i data = (s', Inr ()) \<and> server_ok L E s' \<and>
           srv_get L E s' = (if accepts L E s re then (srv_get L E s)(match_key re \<mapsto> update_value L E s re data)
                             else srv_get L E s) \<and>
           srv_out s' = ans # srv_out s \<and> d_name ans = i_name i @ [fromVersion L now] \<and>
           to_content_type (d_contentType ans) = NDNS_RESP \<and>
           d_content ans = Block tlv_Content (blockWire L (update_block L
              (if accepts L E s re then UPDATE_OK else UPDATE_FAILURE)))"
  by (rule doUpdate_effect [OF s sg cert m])

text \<open>A server with the sample database, for witnesses.\<close>

definition server_sample :: server where
  "server_sample =
     \<lparr>srv_ns = \<lparr>ns_addr = 1, ns_zone = snd zone_sample, ns_ndnsPrefix = [generic ''net'', NDNS_ITERATIVE_QUERY],
               ns_certName = [generic ''net'', generic ''KEY''], ns_contentFreshness = 4000\<rparr>,
      srv_db = db_sample, srv_pending = [], srv_out = []\<rparr>"

lemma server_sample_ok: "server_ok ndn0 sqlite0 server_sample"
  using db_sample_good by (simp add: server_ok_def server_sample_def zone_sample_def)

lemma server_sample_get: "srv_get ndn0 sqlite0 server_sample k = None"
  using db_sample_get by (simp add: server_sample_def zone_sample_def)

definition data_sample :: data where
  "data_sample = new_data (rr_name [generic ''net''] [generic ''www''] TXT_RR_TYPE @ [Component 54 (unary 3)])"

definition match_sample :: MatchResult where
  "match_sample = \<lparr>m_rrLabel = [generic ''www''], m_rrType = TXT_RR_TYPE, m_version = Component 54 (unary 3)\<rparr>"

lemma match_sample_data:
  "matchName_data (d_name data_sample) (zone_name (ns_zone (srv_ns server_sample))) = Inr (Some match_sample)"
  by (simp add: data_sample_def server_sample_def zone_sample_def match_sample_def matchName_data_response)

lemma accepts_sample: "accepts ndn0 sqlite0 server_sample match_sample"
  by (simp add: accepts_def server_sample_get) (simp add: server_sample_def db_sample_def)

theorem doUpdate_spec_witness:
  "\<exists>s'. doUpdate ndn0 sqlite0 9 server_sample (toInterest Query_default) data_sample = (s', Inr ()) \<and>
        srv_get ndn0 sqlite0 s' ([generic ''www''], TXT_RR_TYPE) = Some (Component 54 (unary 3), 3600, dataBlock ndn0 data_sample)"
proof -
  have "signData ndn0 (SigningByCertificate (ns_certName (srv_ns server_sample))) x \<noteq> None" for x by simp
  from doUpdate_spec [OF server_sample_ok ndn0_sign_ok this match_sample_data, of 9 "toInterest Query_default"]
  obtain s' where s': "doUpdate ndn0 sqlite0 9 server_sample (toInterest Query_default) data_sample = (s', Inr ())"
    "srv_get ndn0 sqlite0 s' = (srv_get ndn0 sqlite0 server_sample)
       (match_key match_sample \<mapsto> update_value ndn0 sqlite0 server_sample match_sample data_sample)"
    using accepts_sample by (elim exE conjE) simp
  have k: "match_key match_sample = ([generic ''www''], TXT_RR_TYPE)"
    by (simp add: match_key_def match_sample_def)
  have "update_value ndn0 sqlite0 server_sample match_sample data_sample =
      (Component 54 (unary 3), 3600, dataBlock ndn0 data_sample)"
    unfolding update_value_def server_sample_get
    by (simp add: match_sample_def server_sample_def zone_sample_def)
  with s' k show ?thesis by (intro exI [of _ s']) simp
qed

section \<open>Queries\<close>

lemma handleQuery_found:
  assumes s: "server_ok L E s" and g: "srv_get L E s (match_key re) = Some (v, t, b)"
    and v: "comp_empty (m_version re) \<or> m_version re = v"
  shows "handleQuery L E now s i re =
           (case blockData L b of None \<Rightarrow> (s, Inl Tlv_Error) | Some d \<Rightarrow> (put d s, Inr ()))"
proof -
  obtain r where r: "findRrset L E (srv_db s) (rr_object (srv_ptr s) (match_key re)) = (srv_db s, Inr (r, True))"
    "(rrset_version r, rrset_ttl r, rrset_data r) = (v, t, b)" "rrset_zone r = Some (srv_ptr s)"
    by (rule findRrset_present [OF server_okD [OF s] g]) blast
  then show ?thesis using v
    by (simp add: handleQuery_def rr_object_match split: option.splits)
qed

lemma handleQuery_missing:
  assumes s: "server_ok L E s"
    and g: "case srv_get L E s (match_key re) of None \<Rightarrow> True
            | Some (v, _, _) \<Rightarrow> \<not> comp_empty (m_version re) \<and> m_version re \<noteq> v"
  shows "handleQuery L E now s i re = answer_nack L E now s i re"
proof (cases "srv_get L E s (match_key re)")
  case None
  from findRrset_absent [OF server_okD [OF s] this] show ?thesis
    by (simp add: handleQuery_def rr_object_match)
next
  case (Some u)
  obtain r where r: "findRrset L E (srv_db s) (rr_object (srv_ptr s) (match_key re)) = (srv_db s, Inr (r, True))"
    "(rrset_version r, rrset_ttl r, rrset_data r) = u" "rrset_zone r = Some (srv_ptr s)"
    by (rule findRrset_present [OF server_okD [OF s] Some]) blast
  with g Some show ?thesis by (auto simp: handleQuery_def rr_object_match)
qed

text \<open>The denial of existence that covers a name: the DoE row with the greatest label below it.\<close>

definition covering_doe :: "ndn \<Rightarrow> server \<Rightarrow> name \<Rightarrow> rr_row \<Rightarrow> bool" where
  "covering_doe L s n row \<longleftrightarrow>
     (let P = lower_row L (ns_zone (srv_ns s)) (srv_db s) n DOE_RR_TYPE in
      P row \<and> (\<forall>x. P x \<longrightarrow> \<not> nameLess L (lbl_of L row) (lbl_of L x)))"

lemma findLowerBound_covering:
  fixes n
  assumes g: "db_good L E (srv_db s)" "zone_id (ns_zone (srv_ns s)) \<noteq> 0"
  defines "doe \<equiv> rr_object (srv_ptr s) (n, DOE_RR_TYPE)"
  shows "if \<exists>row. lower_row L (ns_zone (srv_ns s)) (srv_db s) n DOE_RR_TYPE row
         then \<exists>row. covering_doe L s n row \<and> findLowerBound L E (srv_db s) doe = (srv_db s, Inr (filled L row doe, True))
         else findLowerBound L E (srv_db s) doe = (srv_db s, Inr (doe, False))"
proof -
  have z: "rrset_zone doe = Some (ns_addr (srv_ns s), ns_zone (srv_ns s))" "rrset_label doe = n"
    "rrset_type doe = DOE_RR_TYPE" "doe\<lparr>rrset_id := 0\<rparr> = doe"
    by (simp_all add: doe_def)
  show ?thesis
    using findLowerBound_max [OF g(1) z(1) g(2)] unfolding z(2,3,4) covering_doe_def Let_def
    by (auto split: if_splits)
qed

lemma onInterest_lookup:
  assumes "i_name i = rr_name (zone_name (ns_zone (srv_ns s))) l ty" "length (i_name i) < 2 ^ 64"
    and "\<not> isVersion L ty" "ty \<noteq> NDNS_UPDATE_LABEL"
  shows "onInterest L E now s i = handleQuery L E now s i \<lparr>m_rrLabel = l, m_rrType = ty, m_version = no_component\<rparr>"
  using assms by (simp add: onInterest_def matchName_interest_query)

lemma onInterest_absent:
  assumes s: "server_ok L E s" and sg: "sign_ok L" and key: "\<And>x. signData L SigningDefault x \<noteq> None"
    and n: "i_name i = rr_name (zone_name (ns_zone (srv_ns s))) l ty" "length (i_name i) < 2 ^ 64"
    and ty: "\<not> isVersion L ty" "ty \<noteq> NDNS_UPDATE_LABEL" and none: "srv_get L E s (l, ty) = None"
  shows "if \<exists>row. lower_row L (ns_zone (srv_ns s)) (srv_db s) (l @ [ty]) DOE_RR_TYPE row
         then \<exists>row ans. covering_doe L s (l @ [ty]) row \<and> onInterest L E now s i = (put ans s, Inr ()) \<and>
                d_name ans = i_name i @ [fromVersion L now] \<and>
                to_content_type (d_contentType ans) = NDNS_NACK \<and>
                d_content ans = d_content (setContent L (blk_of L row) ans)
         else onInterest L E now s i = (s, Inl (Runtime_Error ''fail to find DoE record of zone''))"
proof -
  let ?re = "\<lparr>m_rrLabel = l, m_rrType = ty, m_version = no_component\<rparr>"
  have g: "db_good L E (srv_db s)" "zone_id (ns_zone (srv_ns s)) \<noteq> 0"
    using s by (simp_all add: server_ok_def store_inv_def)
  have doe: "(Rrset_new (Some (srv_ptr s)))\<lparr>rrset_label := m_rrLabel ?re @ [m_rrType ?re], rrset_type := DOE_RR_TYPE\<rparr> =
      rr_object (srv_ptr s) (l @ [ty], DOE_RR_TYPE)"
    by (simp add: rr_object_def)
  have nack: "onInterest L E now s i = answer_nack L E now s i ?re"
    using handleQuery_missing [OF s, of ?re] none by (simp add: onInterest_lookup [OF n ty] match_key_def)
  note F = findLowerBound_covering [OF g, of "l @ [ty]"]
  show ?thesis
  proof (cases "\<exists>row. lower_row L (ns_zone (srv_ns s)) (srv_db s) (l @ [ty]) DOE_RR_TYPE row")
    case False
    with F show ?thesis by (simp add: nack answer_nack_def doe [simplified])
  next
    case True
    then obtain row where row: "covering_doe L s (l @ [ty]) row"
      "findLowerBound L E (srv_db s) (rr_object (srv_ptr s) (l @ [ty], DOE_RR_TYPE)) =
         (srv_db s, Inr (filled L row (rr_object (srv_ptr s) (l @ [ty], DOE_RR_TYPE)), True))"
      using F by auto
    let ?a = "(setContent L (blk_of L row) (new_data (appendVersion L now (i_name i))))
        \<lparr>d_freshness := int (ns_contentFreshness (srv_ns s)), d_contentType := content_type_code NDNS_NACK\<rparr>"
    obtain ans where ans: "signData L SigningDefault ?a = Some ans" using key by blast
    then have on': "onInterest L E now s i = (put ans s, Inr ())"
      by (simp add: nack answer_nack_def doe [simplified] row(2) Let_def)
    note D = sign_okD [OF sg ans]
    have "\<exists>row ans. covering_doe L s (l @ [ty]) row \<and> onInterest L E now s i = (put ans s, Inr ()) \<and>
                  d_name ans = i_name i @ [fromVersion L now] \<and>
                  to_content_type (d_contentType ans) = NDNS_NACK \<and>
                  d_content ans = d_content (setContent L (blk_of L row) ans)"
      using row(1) on' D by (intro exI [of _ row] exI [of _ ans]) (simp add: appendVersion_def setContent_def)
    with True show ?thesis by simp
  qed
qed

text \<open>
  C28: A query for a record the zone has is answered with exactly the stored packet. A query for one it does not have is answered
  with a NACK whose content is the DoE record with the greatest label below label and type; if the zone has
  no such DoE the handler throws. The database is never changed by a query.
\<close>

theorem onInterest_query:
  assumes s: "server_ok L E s" and sg: "sign_ok L" and key: "\<And>x. signData L SigningDefault x \<noteq> None"
    and n: "i_name i = rr_name (zone_name (ns_zone (srv_ns s))) l ty" "length (i_name i) < 2 ^ 64"
    and ty: "\<not> isVersion L ty" "ty \<noteq> NDNS_UPDATE_LABEL"
  shows "case srv_get L E s (l, ty) of
           Some (v, t, b) \<Rightarrow>
             onInterest L E now s i = (case blockData L b of None \<Rightarrow> (s, Inl Tlv_Error) | Some d \<Rightarrow> (put d s, Inr ()))
         | None \<Rightarrow>
             if \<exists>row. lower_row L (ns_zone (srv_ns s)) (srv_db s) (l @ [ty]) DOE_RR_TYPE row
             then \<exists>row ans. covering_doe L s (l @ [ty]) row \<and> onInterest L E now s i = (put ans s, Inr ()) \<and>
                    d_name ans = i_name i @ [fromVersion L now] \<and>
                    to_content_type (d_contentType ans) = NDNS_NACK \<and>
                    d_content ans = d_content (setContent L (blk_of L row) ans)
             else onInterest L E now s i = (s, Inl (Runtime_Error ''fail to find DoE record of zone''))"
proof (cases "srv_get L E s (l, ty)")
  case None
  with onInterest_absent [OF s sg key n ty None, of now] show ?thesis by simp
next
  case (Some u)
  let ?re = "\<lparr>m_rrLabel = l, m_rrType = ty, m_version = no_component\<rparr>"
  have "comp_empty (m_version ?re)" by (simp add: comp_empty_def)
  with Some show ?thesis
    using handleQuery_found [OF s, of ?re] by (cases u) (simp add: onInterest_lookup [OF n ty] match_key_def)
qed

theorem onInterest_query_witness:
  "onInterest ndn0 sqlite0 9 server_sample
     (toInterest ((Query_new [generic ''net''] NDNS_ITERATIVE_QUERY)\<lparr>q_rrLabel := [generic ''www''], q_rrType := TXT_RR_TYPE\<rparr>)) =
   (server_sample, Inl (Runtime_Error ''fail to find DoE record of zone''))"
proof -
  let ?i = "toInterest ((Query_new [generic ''net''] NDNS_ITERATIVE_QUERY)\<lparr>q_rrLabel := [generic ''www''], q_rrType := TXT_RR_TYPE\<rparr>)"
  have n: "i_name ?i = rr_name (zone_name (ns_zone (srv_ns server_sample))) [generic ''www''] TXT_RR_TYPE"
    by (simp add: toInterest_def Query_new_def rr_name_def server_sample_def zone_sample_def)
  have "\<not> lower_row ndn0 (ns_zone (srv_ns server_sample)) (srv_db server_sample) m t row" for m t row
    by (simp add: lower_row_def zone_rows_def server_sample_def db_sample_def)
  moreover have "length (i_name ?i) < 2 ^ 64" by (simp add: toInterest_def Query_new_def)
  moreover have "TXT_RR_TYPE \<noteq> NDNS_UPDATE_LABEL" by (simp add: label_defs)
  ultimately show ?thesis
    using onInterest_query [OF server_sample_ok ndn0_sign_ok _ n, of 9] by (simp add: server_sample_get)
qed

text \<open>
  Once the server has accepted an update with a Data packet, a query for its label and type is answered with that very
  packet, bit for bit, and nothing else.
\<close>

theorem update_then_query:
  assumes s: "server_ok L E s" and dc: "data_codec L"
    and m: "matchName_data (d_name data) (zone_name (ns_zone (srv_ns s))) = Inr (Some re)" and acc: "accepts L E s re"
    and u: "doUpdate L E now s i data = (s', Inr ())"
    and n: "i_name j = rr_name (zone_name (ns_zone (srv_ns s))) (m_rrLabel re) (m_rrType re)" "length (i_name j) < 2 ^ 64"
    and ty: "\<not> isVersion L (m_rrType re)" "m_rrType re \<noteq> NDNS_UPDATE_LABEL"
  shows "onInterest L E now' s' j = (put data s', Inr ())"
proof -
  obtain s1 code where a: "apply_update L E s re data = (s1, code)" by fastforce
  note A = apply_update_spec [OF s a]
  obtain ans where s': "s' = put ans s1"
    using u by (auto simp: doUpdate_def m a Let_def and_then_Inr)
  have ok: "server_ok L E s'" and get: "srv_get L E s' = srv_get L E s1" and ns: "srv_ns s' = srv_ns s"
    using A(3,4) by (simp_all add: s' put_def server_ok_def)
  define rq where "rq = \<lparr>m_rrLabel = m_rrLabel re, m_rrType = m_rrType re, m_version = no_component\<rparr>"
  have "srv_get L E s' (match_key rq) = Some (update_value L E s re data)"
    using A(2) acc by (simp add: get rq_def match_key_def)
  from handleQuery_found [OF ok this [unfolded update_value_def]]
  have "handleQuery L E now' s' j rq = (put data s', Inr ())"
    using dc by (simp add: rq_def comp_empty_def data_codecD)
  then show ?thesis
    using n ty by (simp add: onInterest_def ns matchName_interest_query rq_def)
qed

theorem update_then_query_witness:
  "\<exists>s'. doUpdate ndn0 sqlite0 9 server_sample (toInterest Query_default) data_sample = (s', Inr ()) \<and>
     onInterest ndn0 sqlite0 10 s'
       (toInterest ((Query_new [generic ''net''] NDNS_ITERATIVE_QUERY)\<lparr>q_rrLabel := [generic ''www''], q_rrType := TXT_RR_TYPE\<rparr>)) =
     (put data_sample s', Inr ())"
proof -
  let ?j = "toInterest ((Query_new [generic ''net''] NDNS_ITERATIVE_QUERY)\<lparr>q_rrLabel := [generic ''www''], q_rrType := TXT_RR_TYPE\<rparr>)"
  obtain s1 code where a: "apply_update ndn0 sqlite0 server_sample match_sample data_sample = (s1, code)" by fastforce
  have "\<exists>ans. signData ndn0 (SigningByCertificate (ns_certName (srv_ns server_sample)))
      (update_answer ndn0 9 server_sample (toInterest Query_default) code) = Some ans" by simp
  then obtain s' where u: "doUpdate ndn0 sqlite0 9 server_sample (toInterest Query_default) data_sample = (s', Inr ())"
    using doUpdate_run [OF server_sample_ok match_sample_data a] by blast
  have n: "i_name ?j = rr_name (zone_name (ns_zone (srv_ns server_sample))) (m_rrLabel match_sample) (m_rrType match_sample)"
    by (simp add: toInterest_def Query_new_def rr_name_def server_sample_def zone_sample_def match_sample_def)
  have t: "\<not> isVersion ndn0 (m_rrType match_sample)" "m_rrType match_sample \<noteq> NDNS_UPDATE_LABEL"
    "length (i_name ?j) < 2 ^ 64"
    by (simp_all add: match_sample_def toInterest_def Query_new_def) (simp add: label_defs)
  show ?thesis
    using update_then_query [OF server_sample_ok ndn0_data_codec match_sample_data accepts_sample u n t(3,1,2), of 10] u
    by blast
qed

section \<open>Runs of the server\<close>

lemma handleUpdate_db [simp]:
  "srv_db (fst (handleUpdate L s i re)) = srv_db s" "srv_ns (fst (handleUpdate L s i re)) = srv_ns s"
  by (simp_all add: handleUpdate_def split: list.splits option.splits)

lemma answer_nack_db:
  assumes "server_ok L E s"
  shows "srv_db (fst (answer_nack L E now s i re)) = srv_db s \<and>
         srv_ns (fst (answer_nack L E now s i re)) = srv_ns s"
proof -
  have "db_good L E (srv_db s)" "zone_id (ns_zone (srv_ns s)) \<noteq> 0"
    using assms by (simp_all add: server_ok_def store_inv_def)
  from findLowerBound_covering [OF this, of "m_rrLabel re @ [m_rrType re]"]
  show ?thesis
    by (auto simp: answer_nack_def rr_object_fold put_def or_throw_def Let_def split: if_splits option.splits)
qed

lemma handleQuery_db:
  assumes s: "server_ok L E s"
  shows "srv_db (fst (handleQuery L E now s i re)) = srv_db s \<and>
         srv_ns (fst (handleQuery L E now s i re)) = srv_ns s"
proof (cases "\<exists>v t b. srv_get L E s (match_key re) = Some (v, t, b) \<and> (comp_empty (m_version re) \<or> m_version re = v)")
  case True
  then obtain v t b where "srv_get L E s (match_key re) = Some (v, t, b)" "comp_empty (m_version re) \<or> m_version re = v"
    by blast
  from handleQuery_found [OF s this] show ?thesis by (simp add: put_def split: option.splits)
next
  case False
  then have "case srv_get L E s (match_key re) of None \<Rightarrow> True
            | Some (v, _, _) \<Rightarrow> \<not> comp_empty (m_version re) \<and> m_version re \<noteq> v"
    by (auto split: option.splits)
  from handleQuery_missing [OF s this] show ?thesis using answer_nack_db [OF s] by simp
qed

lemma onInterest_db:
  assumes s: "server_ok L E s" and o: "onInterest L E now s i = (s', x)"
  shows "srv_db s' = srv_db s \<and> srv_ns s' = srv_ns s"
proof (cases "matchName_interest L (i_name i) (zone_name (ns_zone (srv_ns s)))")
  case (Inl e)
  then show ?thesis using o by (simp add: onInterest_def)
next
  case (Inr m)
  show ?thesis
  proof (cases m)
    case None
    then show ?thesis using o Inr by (simp add: onInterest_def)
  next
    case (Some re)
    then show ?thesis
      using o Inr handleQuery_db [OF s, of now i re] handleUpdate_db [of L s i re]
      by (cases "m_rrType re = NDNS_UPDATE_LABEL") (simp_all add: onInterest_def)
  qed
qed

text \<open>What one step can do to the database: nothing, or one versioned write of validated data.\<close>

lemma server_step_effect:
  assumes "server_step L E V s s'" and s: "server_ok L E s"
  shows "srv_ns s' = srv_ns s \<and>
         (srv_db s' = srv_db s \<or>
          (\<exists>d re. V d \<and> matchName_data (d_name d) (zone_name (ns_zone (srv_ns s))) = Inr (Some re) \<and>
             srv_db s' = fst (db.put_newer L E (srv_ptr s) (srv_db s) (match_key re) (update_value L E s re d))))"
  using assms(1)
proof cases
  case (interest now i)
  then show ?thesis using onInterest_db [OF s] by blast
next
  case (rejected us i d vs)
  then show ?thesis by simp
next
  case (validated us i d vs now)
  let ?s = "s\<lparr>srv_pending := us @ vs\<rparr>"
  have s1: "server_ok L E ?s" using s by (simp add: server_ok_def)
  obtain m where m: "matchName_data (d_name d) (zone_name (ns_zone (srv_ns ?s))) = Inr m"
    using validated(3) by (auto simp: doUpdate_def and_then_Inr)
  show ?thesis
  proof (cases m)
    case None
    then have "s' = ?s" using validated(3) m by (simp add: doUpdate_def)
    then show ?thesis by simp
  next
    case (Some re)
    obtain s2 code where a: "apply_update L E ?s re d = (s2, code)" by fastforce
    obtain ans where s': "s' = put ans s2"
      using validated(3) m Some a by (auto simp: doUpdate_def and_then_Inr Let_def)
    have uv: "update_value L E ?s re d = update_value L E s re d"
      by (simp add: update_value_def split: option.split)
    have "srv_db s2 = fst (db.put_newer L E (srv_ptr s) (srv_db s) (match_key re) (update_value L E s re d))"
      using a uv by (auto simp: apply_update_put [OF s1] split: prod.splits)
    then show ?thesis
      using validated(2) m Some apply_update_spec(4) [OF s1 a] by (auto simp: s' put_def)
  qed
qed

lemma server_step_ok:
  assumes "server_step L E V s s'" and s: "server_ok L E s"
  shows "server_ok L E s'"
proof -
  have "store_inv L E (srv_ptr s) (fst (db.put_newer L E (srv_ptr s) (srv_db s) k v))" for k v
    using s by (simp add: server_ok_def db.put_newer_inv)
  moreover have "store_inv L E (srv_ptr s) (srv_db s)" using s by (rule server_okD)
  ultimately show ?thesis using server_step_effect [OF assms] unfolding server_ok_def by metis
qed

lemma server_run_ok: "server_run L E V s s' \<Longrightarrow> server_ok L E s \<Longrightarrow> server_ok L E s' \<and> srv_ns s' = srv_ns s"
  by (induction rule: server_run.induct) (auto dest: server_step_ok server_step_effect)

text \<open>
  In every run of the server, whatever Interests arrive and in whatever order the validator answers, each record of
  the zone is either the one the run started with or a Data packet that the validator accepted and whose name is the
  record's name: no unvalidated packet and no packet of another name ever gets into the database.
\<close>

theorem server_run_only_validated:
  assumes "server_run L E V s s'" and "server_ok L E s"
  shows "srv_get L E s' k = srv_get L E s k \<or>
         (\<exists>d re ttl. V d \<and> matchName_data (d_name d) (zone_name (ns_zone (srv_ns s))) = Inr (Some re) \<and>
                     match_key re = k \<and> srv_get L E s' k = Some (m_version re, ttl, dataBlock L d))"
  using assms
proof (induction rule: server_run.induct)
  case (run_step s t u)
  note t = server_run_ok [OF run_step.hyps(1) run_step.prems]
  note e = server_step_effect [OF run_step.hyps(2)]
  from e t have ns: "srv_ns u = srv_ns t" "srv_ns t = srv_ns s" by blast+
  show ?case
  proof (cases "srv_get L E u k = srv_get L E t k")
    case True
    then show ?thesis using run_step.IH [OF run_step.prems] by simp
  next
    case False
    then obtain d re where d: "V d" "matchName_data (d_name d) (zone_name (ns_zone (srv_ns t))) = Inr (Some re)"
      "srv_db u = fst (db.put_newer L E (srv_ptr t) (srv_db t) (match_key re) (update_value L E t re d))"
      using e t ns by auto
    let ?p = "db.put_newer L E (srv_ptr t) (srv_db t) (match_key re) (update_value L E t re d)"
    have i: "store_inv L E (srv_ptr t) (srv_db t)" using t server_okD by blast
    have "snd ?p"
    proof (rule ccontr)
      assume "\<not> snd ?p"
      then have "?p = (fst ?p, False)" by (simp add: prod_eq_iff)
      then have "fst ?p = srv_db t" by (rule db.put_newer_refused [OF i])
      then show False using False d(3) ns by simp
    qed
    then have "db_get L E (srv_ptr t) (fst ?p) = (srv_get L E t)(match_key re \<mapsto> update_value L E t re d)"
      using db.put_newer_done [OF i, of "match_key re" "update_value L E t re d" "fst ?p"] by (metis prod.collapse)
    then have "k = match_key re" "srv_get L E u k = Some (update_value L E t re d)"
      using False d(3) ns by (auto split: if_splits)
    then show ?thesis using d ns by (auto simp: update_value_def)
  qed
qed simp

text \<open>A run in which one waiting update is validated and applied.\<close>

definition server_waiting :: server where
  "server_waiting = server_sample\<lparr>srv_pending := [(toInterest Query_default, data_sample)]\<rparr>"

lemma server_waiting_run:
  obtains s' where "server_run ndn0 sqlite0 (\<lambda>_. True) server_waiting s'"
    "srv_get ndn0 sqlite0 s' (match_key match_sample) \<noteq> None" "server_ok ndn0 sqlite0 server_waiting"
    "srv_ns s' = srv_ns server_waiting"
proof -
  have ok: "server_ok ndn0 sqlite0 server_waiting"
    using server_sample_ok by (simp add: server_ok_def server_waiting_def)
  have w: "server_waiting\<lparr>srv_pending := [] @ []\<rparr> = server_sample"
    by (simp add: server_waiting_def server_sample_def)
  obtain s1 code where a: "apply_update ndn0 sqlite0 server_sample match_sample data_sample = (s1, code)" by fastforce
  note A = apply_update_spec [OF server_sample_ok a]
  have "\<exists>ans. signData ndn0 (SigningByCertificate (ns_certName (srv_ns server_sample)))
      (update_answer ndn0 9 server_sample (toInterest Query_default) code) = Some ans" by simp
  then obtain ans where u: "doUpdate ndn0 sqlite0 9 server_sample (toInterest Query_default) data_sample = (put ans s1, Inr ())"
    using doUpdate_run [OF server_sample_ok match_sample_data a] by blast
  have "server_step ndn0 sqlite0 (\<lambda>_. True) server_waiting (put ans s1)"
    by (rule validated [where us = "[]" and vs = "[]" and now = 9 and i = "toInterest Query_default" and d = data_sample])
       (simp_all only: w u, simp add: server_waiting_def)
  then have "server_run ndn0 sqlite0 (\<lambda>_. True) server_waiting (put ans s1)" by (rule run_step [OF run_nil])
  moreover have "srv_get ndn0 sqlite0 (put ans s1) (match_key match_sample) \<noteq> None"
    using A(2) accepts_sample by (simp add: put_def)
  moreover have "srv_ns (put ans s1) = srv_ns server_waiting" using A(4) by (simp add: put_def server_waiting_def)
  ultimately show thesis using that ok by blast
qed

theorem server_run_only_validated_witness:
  "\<exists>s' d re ttl. server_run ndn0 sqlite0 (\<lambda>_. True) server_waiting s' \<and>
     matchName_data (d_name d) [generic ''net''] = Inr (Some re) \<and>
     srv_get ndn0 sqlite0 s' ([generic ''www''], TXT_RR_TYPE) = Some (m_version re, ttl, dataBlock ndn0 d)"
proof -
  obtain s' where r: "server_run ndn0 sqlite0 (\<lambda>_. True) server_waiting s'"
    "srv_get ndn0 sqlite0 s' (match_key match_sample) \<noteq> None" "server_ok ndn0 sqlite0 server_waiting"
    by (rule server_waiting_run)
  have "srv_get ndn0 sqlite0 server_waiting (match_key match_sample) = None"
    using server_sample_get by (simp add: server_waiting_def)
  with server_run_only_validated [OF r(1,3), of "match_key match_sample"] r(2)
  obtain d re ttl where "matchName_data (d_name d) (zone_name (ns_zone (srv_ns server_waiting))) = Inr (Some re)"
    "srv_get ndn0 sqlite0 s' (match_key match_sample) = Some (m_version re, ttl, dataBlock ndn0 d)"
    by metis
  moreover have "zone_name (ns_zone (srv_ns server_waiting)) = [generic ''net'']"
    "match_key match_sample = ([generic ''www''], TXT_RR_TYPE)"
    by (simp_all add: server_waiting_def server_sample_def zone_sample_def match_key_def match_sample_def)
  ultimately show ?thesis using r(1) by auto
qed

text \<open>A run in which a record that exists is replaced.\<close>

lemma server_second_update:
  obtains s s' b where "server_run ndn0 sqlite0 (\<lambda>_. True) s s'" "server_ok ndn0 sqlite0 s"
    "srv_get ndn0 sqlite0 s ([generic ''www''], TXT_RR_TYPE) = Some (Component 54 (unary 3), 3600, dataBlock ndn0 data_sample)"
    "srv_get ndn0 sqlite0 s' ([generic ''www''], TXT_RR_TYPE) = Some (Component 54 (unary 5), 3600, b)"
proof -
  let ?k = "([generic ''www''], TXT_RR_TYPE)" and ?q = "toInterest Query_default" and ?five = "Component 54 (unary 5)"
  let ?newer = "new_data (rr_name [generic ''net''] [generic ''www''] TXT_RR_TYPE @ [?five])"
    and ?parts = "\<lparr>m_rrLabel = [generic ''www''], m_rrType = TXT_RR_TYPE, m_version = ?five\<rparr>"
  have sg: "signData ndn0 g x \<noteq> None" for g x by simp
  obtain s1 where r: "server_run ndn0 sqlite0 (\<lambda>_. True) server_waiting s1"
    "srv_get ndn0 sqlite0 s1 (match_key match_sample) \<noteq> None" "server_ok ndn0 sqlite0 server_waiting" "srv_ns s1 = srv_ns server_waiting"
    by (rule server_waiting_run)
  have zn: "zone_name (ns_zone (srv_ns s1)) = [generic ''net'']" by (simp add: r(4) server_waiting_def server_sample_def zone_sample_def)
  obtain s2 ans where s2: "doUpdate ndn0 sqlite0 9 server_sample ?q data_sample = (s2, Inr ())" "server_ok ndn0 sqlite0 s2"
    "srv_get ndn0 sqlite0 s2 = (srv_get ndn0 sqlite0 server_sample)(match_key match_sample \<mapsto> update_value ndn0 sqlite0 server_sample match_sample data_sample)"
    using doUpdate_effect [OF server_sample_ok ndn0_sign_ok sg match_sample_data, of 9 ?q] accepts_sample by auto
  have "update_value ndn0 sqlite0 server_sample match_sample data_sample = (Component 54 (unary 3), 3600, dataBlock ndn0 data_sample)"
    unfolding update_value_def server_sample_get by (simp add: match_sample_def server_sample_def zone_sample_def)
  then have g2: "srv_get ndn0 sqlite0 s2 ?k = Some (Component 54 (unary 3), 3600, dataBlock ndn0 data_sample)"
    by (simp add: s2(3) match_key_def match_sample_def)
  have "server_waiting\<lparr>srv_pending := [] @ []\<rparr> = server_sample" by (simp add: server_waiting_def server_sample_def)
  then have st: "server_step ndn0 sqlite0 (\<lambda>_. True) server_waiting s2"
    by (intro validated [where us = "[]" and vs = "[]" and now = 9 and i = ?q and d = data_sample])
       (use s2(1) in \<open>simp_all only:\<close>, simp add: server_waiting_def)
  have ns: "srv_ns s2 = srv_ns server_waiting" using server_step_effect [OF st r(3)] by blast
  then have z2: "zone_name (ns_zone (srv_ns s2)) = [generic ''net'']" by (simp add: server_waiting_def server_sample_def zone_sample_def)
  let ?quiet = "s2\<lparr>srv_pending := []\<rparr>" and ?s = "s2\<lparr>srv_pending := [(?q, ?newer)]\<rparr>"
  have ok: "server_ok ndn0 sqlite0 ?quiet" "server_ok ndn0 sqlite0 ?s" using s2(2) by (simp_all add: server_ok_def)
  have m: "matchName_data (d_name ?newer) (zone_name (ns_zone (srv_ns ?quiet))) = Inr (Some ?parts)"
    by (simp add: z2 matchName_data_response)
  have acc: "accepts ndn0 sqlite0 ?quiet ?parts"
    using g2 by (simp add: accepts_def match_key_def) (simp add: ndn0_def compWire0_def blockWire0_def comp_block_def unary_def eval_nat_numeral)
  obtain s' where s': "doUpdate ndn0 sqlite0 9 ?quiet ?q ?newer = (s', Inr ())"
    "srv_get ndn0 sqlite0 s' = (srv_get ndn0 sqlite0 ?quiet)(match_key ?parts \<mapsto> update_value ndn0 sqlite0 ?quiet ?parts ?newer)"
    using doUpdate_effect [OF ok(1) ndn0_sign_ok sg m, of 9 ?q] acc by auto
  have st': "server_step ndn0 sqlite0 (\<lambda>_. True) ?s s'"
    by (rule validated [where us = "[]" and vs = "[]" and now = 9 and i = ?q and d = ?newer]) (use s'(1) in simp_all)
  show thesis
  proof (rule that [OF run_step [OF run_nil st'] ok(2)])
    show "srv_get ndn0 sqlite0 s' ?k = Some (?five, 3600, dataBlock ndn0 ?newer)"
      using g2 by (simp add: s'(2) match_key_def update_value_def)
  qed (use g2 in simp)
qed

text \<open>
  C11: In every run of the server a record that exists keeps existing, and is only ever replaced by a strictly newer
  version (in the canonical order of components): replayed or reordered updates cannot roll a record back.
\<close>

theorem server_run_never_downgrades:
  assumes "server_run L E V s s'" and "server_ok L E s" and "srv_get L E s k = Some (v, t, b)"
  shows "\<exists>v' t' b'. srv_get L E s' k = Some (v', t', b') \<and> ((v', t', b') = (v, t, b) \<or> compLess L v v')"
  using assms
proof (induction rule: server_run.induct)
  case (run_step s t1 u)
  note t1 = server_run_ok [OF run_step.hyps(1) run_step.prems(1)]
  have L: "name_codec L" using run_step.prems(1) by (rule server_ok_codec)
  note e = server_step_effect [OF run_step.hyps(2)]
  from run_step obtain w where w: "srv_get L E t1 k = Some w" "w = (v, t, b) \<or> compLess L v (fst w)" by auto
  have i: "store_inv L E (srv_ptr t1) (srv_db t1)" using t1 server_okD by blast
  have "\<exists>x. srv_get L E u k = Some x \<and> (x = w \<or> older_rr L w x)"
  proof (cases "srv_db u = srv_db t1")
    case True
    then show ?thesis using e t1 w(1) by (intro exI [of _ w]) auto
  next
    case False
    then obtain k1 x where "srv_db u = fst (db.put_newer L E (srv_ptr t1) (srv_db t1) k1 x)"
      using e t1 by blast
    then show ?thesis using db.put_newer_grows [OF i w(1), of k1 x] e t1 by simp
  qed
  then obtain x where "srv_get L E u k = Some x" "x = w \<or> compLess L (fst w) (fst x)"
    using L by (auto simp: older_rr_def name_codecD)
  with w(2) compLess_trans [OF L] show ?case by (cases x) force
qed simp

theorem server_run_never_downgrades_witness:
  "\<exists>s s' b b'. server_run ndn0 sqlite0 (\<lambda>_. True) s s' \<and>
     srv_get ndn0 sqlite0 s ([generic ''www''], TXT_RR_TYPE) = Some (Component 54 (unary 3), 3600, b) \<and>
     srv_get ndn0 sqlite0 s' ([generic ''www''], TXT_RR_TYPE) = Some (Component 54 (unary 5), 3600, b') \<and>
     compLess ndn0 (Component 54 (unary 3)) (Component 54 (unary 5))"
proof -
  obtain s s' b where r: "server_run ndn0 sqlite0 (\<lambda>_. True) s s'" "server_ok ndn0 sqlite0 s"
    "srv_get ndn0 sqlite0 s ([generic ''www''], TXT_RR_TYPE) = Some (Component 54 (unary 3), 3600, dataBlock ndn0 data_sample)"
    "srv_get ndn0 sqlite0 s' ([generic ''www''], TXT_RR_TYPE) = Some (Component 54 (unary 5), 3600, b)"
    by (rule server_second_update)
  have "unary 3 \<noteq> unary 5" by (simp add: unary_def eval_nat_numeral)
  then show ?thesis using server_run_never_downgrades [OF r(1-3)] r by auto
qed

section \<open>Updates of other zones\<close>

text \<open>
  When the Data packet of a validated update is not named under the zone and the marker NDNS, \<open>doUpdate\<close> ends in a
  failed assertion of \<open>calculateSkip\<close>, outside of what its handler catches; the database is untouched and
  no answer is sent.
\<close>

theorem doUpdate_foreign_name:
  assumes "\<not> prefix (zone_name (ns_zone (srv_ns s)) @ [NDNS_ITERATIVE_QUERY]) (d_name data)"
  shows "doUpdate L E now s i data = (s, Inl AssertFailed)"
proof -
  have "calculateSkip (d_name data) (zone_name (ns_zone (srv_ns s))) \<noteq> Inr k" for k
    using assms by (auto simp: calculateSkip_Inr prefix_def)
  moreover have "calculateSkip n z \<in> {Inl AssertFailed, Inr (Suc (length z))}" for n z
    by (simp add: calculateSkip_def Let_def)
  ultimately have "calculateSkip (d_name data) (zone_name (ns_zone (srv_ns s))) = Inl AssertFailed"
    by (metis insertE singletonD)
  then show ?thesis by (simp add: doUpdate_def matchName_data_def)
qed

theorem doUpdate_foreign_name_witness:
  "doUpdate ndn0 sqlite0 9 server_sample (toInterest Query_default) (new_data [generic ''com'']) =
     (server_sample, Inl AssertFailed)"
  by (rule doUpdate_foreign_name) (simp add: server_sample_def zone_sample_def)

end
