(* ===== verification/IterativeQuery.thy ===== *)
theory IterativeQuery
  imports Response
begin

text \<open>
  The iterative resolver (\<open>src/clients/iterative-query-controller.cpp\<close>, \<open>.hpp\<close>, with its base class of
  \<open>src/clients/query-controller.hpp\<close>): a state machine driven by the answers to the Interests it
  expresses. What it does to the outside is the list \<open>iq_out\<close>, the last action first: an Interest sent to the
  face, a call of \<open>m_onSucceed\<close>, or a call of \<open>m_onFail\<close>.

  The validator is \<open>V\<close>, \<open>None\<close> when the pointer is null; its verdict is delivered before anything
  else happens to the controller, which has no Interest outstanding then. The cache of NS records is an
  \<open>InMemoryStorage\<close> of ndn-cxx: the record \<open>storage\<close> of its two operations. A cache hit re-enters
  \<open>onData\<close>; the fuel of \<open>express\<close> bounds these re-entries.
\<close>

section \<open>State\<close>

datatype QueryStep =
    QUERY_STEP_QUERY_NS | QUERY_STEP_QUERY_RR | QUERY_STEP_ANSWER_STUB | QUERY_STEP_ABORT
  | QUERY_STEP_UNKNOWN

datatype iq_action =
    Sent interest
  | Succeeded data response
  | Failed nat string

record 'c storage =
  st_insert :: "'c \<Rightarrow> data \<Rightarrow> 'c"
  st_find :: "'c \<Rightarrow> interest \<Rightarrow> data option"

record query_controller =
  iq_dstLabel :: name
  iq_rrType :: component
  iq_interestLifetime :: int

record 'c iqc = query_controller +
  iq_step :: QueryStep
  iq_nFinishedComps :: nat
  iq_nTryComps :: nat
  iq_lastLink :: "block option"
  iq_doe :: "data option"
  iq_lastLabelType :: name
  iq_nsCache :: "'c option"
  iq_out :: "iq_action list"

definition IterativeQueryController_new :: "name \<Rightarrow> component \<Rightarrow> int \<Rightarrow> 'c option \<Rightarrow> 'c iqc" where
  "IterativeQueryController_new dstLabel rrType lifetime cache =
     \<lparr>iq_dstLabel = dstLabel, iq_rrType = rrType, iq_interestLifetime = lifetime,
      iq_step = QUERY_STEP_QUERY_NS, iq_nFinishedComps = 0, iq_nTryComps = 1, iq_lastLink = None,
      iq_doe = None, iq_lastLabelType = [], iq_nsCache = cache, iq_out = []\<rparr>"

definition setStartComponentIndex :: "'c iqc \<Rightarrow> nat \<Rightarrow> 'c iqc" where
  "setStartComponentIndex c finished = c\<lparr>iq_nFinishedComps := finished\<rparr>"

definition act :: "iq_action \<Rightarrow> 'c iqc \<Rightarrow> 'c iqc" where
  "act a c = c\<lparr>iq_out := a # iq_out c\<rparr>"

definition abort :: "'c iqc \<Rightarrow> 'c iqc" where
  "abort c = act (Failed 0 ''abort'') c"

definition onTimeout :: "'c iqc \<Rightarrow> interest \<Rightarrow> 'c iqc" where
  "onTimeout c i = abort c"

definition hasEnded :: "'c iqc \<Rightarrow> bool" where
  "hasEnded c \<longleftrightarrow> iq_step c \<noteq> QUERY_STEP_QUERY_NS \<and> iq_step c \<noteq> QUERY_STEP_QUERY_RR"

section \<open>Interests\<close>

definition latest_query :: "'c iqc \<Rightarrow> name list \<Rightarrow> name \<Rightarrow> component \<Rightarrow> query" where
  "latest_query c hint label type =
     \<lparr>q_zone = take (iq_nFinishedComps c) (iq_dstLabel c), q_queryType = NDNS_ITERATIVE_QUERY,
      q_forwardingHint = hint, q_rrLabel = label, q_rrType = type,
      q_interestLifetime = iq_interestLifetime c\<rparr>"

definition makeLatestInterest :: "ndn \<Rightarrow> 'c iqc \<Rightarrow> ('c iqc, interest) res" where
  "makeLatestInterest L c =
     and_then (lift_err c (case iq_lastLink c of
                             None \<Rightarrow> Inr []
                           | Some b \<Rightarrow> or_throw Tlv_Error (linkDelegations L b)))
       (\<lambda>c hint.
         let q = (case iq_step c of
                    QUERY_STEP_QUERY_NS \<Rightarrow>
                      Some (latest_query c hint
                              (take (iq_nTryComps c) (drop (iq_nFinishedComps c) (iq_dstLabel c))) NS_RR_TYPE)
                  | QUERY_STEP_QUERY_RR \<Rightarrow>
                      Some (latest_query c hint (drop (iq_nFinishedComps c) (iq_dstLabel c)) (iq_rrType c))
                  | _ \<Rightarrow> None)
         in case q of
              None \<Rightarrow> (c, Inl (Runtime_Error ''call makeLatestInterest() unexpected''))
            | Some q \<Rightarrow> (c\<lparr>iq_lastLabelType := q_rrLabel q @ [q_rrType q]\<rparr>, Inr (toInterest q)))"

definition isAbsentByDoe :: "ndn \<Rightarrow> 'c iqc \<Rightarrow> data \<Rightarrow> error + bool" where
  "isAbsentByDoe L c data =
     bind_err (wireDecodeDoe L (d_content data)) (\<lambda>(first, second).
       if nameLess L first (iq_lastLabelType c) \<and> nameLess L (iq_lastLabelType c) second then Inr True
       else if nameLess L second first \<and>
               (nameLess L (iq_lastLabelType c) first \<or> nameLess L second (iq_lastLabelType c)) then Inr True
       else Inr False)"

definition parseFinalResponse :: "ndn \<Rightarrow> 'c iqc \<Rightarrow> data \<Rightarrow> error + response" where
  "parseFinalResponse L c data =
     (case fromData L Response_default (take (iq_nFinishedComps c) (iq_dstLabel c)) data of
        (re, Inl e) \<Rightarrow> Inl e | (re, Inr _) \<Rightarrow> Inr re)"

section \<open>Answers\<close>

text \<open>The branch \<open>case QUERY_STEP_QUERY_NS\<close> of \<open>onDataValidated\<close>: the reaction to the answer,
  then the check that no component is left to try.\<close>

definition ns_transition :: "ndn \<Rightarrow> 'c iqc \<Rightarrow> data \<Rightarrow> NdnsContentType \<Rightarrow> ('c iqc, unit) res" where
  "ns_transition L c data ct =
     (if ct = NDNS_DOE then
        (case isAbsentByDoe L c data of
           Inl e \<Rightarrow> (c, Inl e)
         | Inr absent \<Rightarrow>
             if absent then (c\<lparr>iq_step := QUERY_STEP_QUERY_RR\<rparr>, Inr ())
             else (c, Inl (Runtime_Error ''absence of record can not be infered from DoE'')))
      else if ct = NDNS_LINK then
        (case linkDelegations L (dataBlock L data) of
           None \<Rightarrow> (c, Inl Tlv_Error)
         | Some ds \<Rightarrow>
             let c = c\<lparr>iq_lastLink := (if ds = [] then None else Some (dataBlock L data))\<rparr> in
             if iq_nFinishedComps c + iq_nTryComps c = length (iq_dstLabel c) \<and> iq_rrType c = NS_RR_TYPE
             then (c\<lparr>iq_step := QUERY_STEP_ANSWER_STUB\<rparr>, Inr ())
             else (c\<lparr>iq_nFinishedComps := iq_nFinishedComps c + iq_nTryComps c, iq_nTryComps := 1\<rparr>, Inr ()))
      else if ct = NDNS_AUTH then (c\<lparr>iq_nTryComps := iq_nTryComps c + 1\<rparr>, Inr ())
      else (c, Inr ()))"

definition tried_all :: "'c iqc \<Rightarrow> 'c iqc" where
  "tried_all c =
     (if iq_nFinishedComps c + iq_nTryComps c > length (iq_dstLabel c)
      then c\<lparr>iq_step := (if iq_rrType c = NS_RR_TYPE then QUERY_STEP_ANSWER_STUB else QUERY_STEP_QUERY_RR)\<rparr>
      else c)"

definition answer_ns :: "ndn \<Rightarrow> 'c iqc \<Rightarrow> data \<Rightarrow> NdnsContentType \<Rightarrow> ('c iqc, unit) res" where
  "answer_ns L c data ct = and_then (ns_transition L c data ct) (\<lambda>c _. (tried_all c, Inr ()))"

text \<open>\<open>onDataValidated\<close> up to the call of \<open>express\<close>: the Interest to express, if any.\<close>

definition onDataValidated ::
  "ndn \<Rightarrow> 'c storage \<Rightarrow> 'c iqc \<Rightarrow> data \<Rightarrow> NdnsContentType \<Rightarrow> ('c iqc, interest option) res" where
  "onDataValidated L st c data ct =
     (let c = (case iq_nsCache c of
                 Some m \<Rightarrow> if ct = NDNS_LINK then c\<lparr>iq_nsCache := Some (st_insert st m data)\<rparr> else c
               | None \<Rightarrow> c)
      in and_then
           (case iq_step c of
              QUERY_STEP_QUERY_NS \<Rightarrow> answer_ns L c data ct
            | QUERY_STEP_QUERY_RR \<Rightarrow> (c\<lparr>iq_step := QUERY_STEP_ANSWER_STUB\<rparr>, Inr ())
            | _ \<Rightarrow> (c\<lparr>iq_step := QUERY_STEP_ABORT\<rparr>, Inr ()))
           (\<lambda>c _.
             if \<not> hasEnded c then and_then (makeLatestInterest L c) (\<lambda>c i. (c, Inr (Some i)))
             else if iq_step c = QUERY_STEP_ANSWER_STUB
             then and_then (lift_err c (parseFinalResponse L c data)) (\<lambda>c re. (act (Succeeded data re) c, Inr None))
             else (abort c, Inr None)))"

text \<open>\<open>onData\<close> up to the call of \<open>express\<close>.\<close>

definition onData_next ::
  "ndn \<Rightarrow> 'c storage \<Rightarrow> (data \<Rightarrow> bool) option \<Rightarrow> 'c iqc \<Rightarrow> data \<Rightarrow> ('c iqc, interest option) res" where
  "onData_next L st V c data =
     and_then
       (if to_content_type (d_contentType data) = NDNS_NACK then
          and_then (lift_err c (or_throw Tlv_Error (Option.bind (blockFromValue L (d_content data)) (blockData L))))
            (\<lambda>c doe. (c\<lparr>iq_doe := Some doe\<rparr>, Inr (doe, NDNS_DOE)))
        else (c, Inr (data, to_content_type (d_contentType data))))
       (\<lambda>c (d, ct).
         case V of
           None \<Rightarrow> onDataValidated L st c d ct
         | Some valid \<Rightarrow> if valid d then onDataValidated L st c d ct else (abort c, Inr None))"

fun express ::
  "ndn \<Rightarrow> 'c storage \<Rightarrow> (data \<Rightarrow> bool) option \<Rightarrow> nat \<Rightarrow> 'c iqc \<Rightarrow> interest \<Rightarrow> ('c iqc, unit) res" where
  "express L st V fuel c i =
     (case Option.bind (iq_nsCache c) (\<lambda>m. st_find st m i) of
        None \<Rightarrow> (act (Sent i) c, Inr ())
      | Some cached \<Rightarrow>
          (case fuel of
             0 \<Rightarrow> (c, Inl Diverges)
           | Suc fuel \<Rightarrow>
               and_then (onData_next L st V c cached) (\<lambda>c next.
                 case next of None \<Rightarrow> (c, Inr ()) | Some i \<Rightarrow> express L st V fuel c i)))"

declare express.simps [simp del]

definition onData ::
  "ndn \<Rightarrow> 'c storage \<Rightarrow> (data \<Rightarrow> bool) option \<Rightarrow> nat \<Rightarrow> 'c iqc \<Rightarrow> data \<Rightarrow> ('c iqc, unit) res" where
  "onData L st V fuel c data =
     and_then (onData_next L st V c data) (\<lambda>c next.
       case next of None \<Rightarrow> (c, Inr ()) | Some i \<Rightarrow> express L st V fuel c i)"

definition start :: "ndn \<Rightarrow> 'c storage \<Rightarrow> (data \<Rightarrow> bool) option \<Rightarrow> nat \<Rightarrow> 'c iqc \<Rightarrow> ('c iqc, unit) res" where
  "start L st V fuel c =
     (let c = (if length (iq_dstLabel c) = iq_nFinishedComps c then c\<lparr>iq_step := QUERY_STEP_QUERY_RR\<rparr> else c)
      in and_then (makeLatestInterest L c) (\<lambda>c i. express L st V fuel c i))"

fun show_step :: "QueryStep \<Rightarrow> string" where
  "show_step QUERY_STEP_QUERY_NS = ''QueryNS''"
| "show_step QUERY_STEP_QUERY_RR = ''QueryRR''"
| "show_step QUERY_STEP_ANSWER_STUB = ''AnswerStub''"
| "show_step QUERY_STEP_ABORT = ''Abort''"
| "show_step QUERY_STEP_UNKNOWN = ''UNKNOW''"

definition show_query_controller :: "(name \<Rightarrow> string) \<Rightarrow> (component \<Rightarrow> string) \<Rightarrow> 'a query_controller_scheme \<Rightarrow> string" where
  "show_query_controller uri curi c = ''QueryController: dstLabel='' @ uri (iq_dstLabel c) @ '' rrType='' @ curi (iq_rrType c)"

definition show_controller ::
  "(name \<Rightarrow> string) \<Rightarrow> (component \<Rightarrow> string) \<Rightarrow> (nat \<Rightarrow> string) \<Rightarrow> 'c iqc \<Rightarrow> string" where
  "show_controller uri curi num c =
     ''InterativeQueryController: dstLabel='' @ uri (iq_dstLabel c) @ '' rrType='' @ curi (iq_rrType c) @
     '' currentStep='' @ show_step (iq_step c) @ '' nFinishedComps='' @ num (iq_nFinishedComps c) @
     '' nTryComp='' @ num (iq_nTryComps c)"

end
