(* ===== verification/IterativeQueryProps.thy ===== *)
theory IterativeQueryProps
  imports IterativeQuery
begin

text \<open>
  The iterative resolver makes progress: every answer of a kind the protocol has moves it on, so a
  query ends after at most as many answers as the target name has components, plus one. The
  Interests it sends split the target name into zone and label, and what it concludes from a
  denial of existence is stated exactly.
\<close>

section \<open>The Interests\<close>

lemma iqc_act_simps [simp]:
  "iq_step (act a c) = iq_step c" "iq_out (act a c) = a # iq_out c" "iq_dstLabel (act a c) = iq_dstLabel c"
  "iq_out (abort c) = Failed 0 ''abort'' # iq_out c" "iq_step (abort c) = iq_step c"
  by (simp_all add: act_def abort_def)

lemma makeLatestInterest_Inr:
  assumes "makeLatestInterest L c = (c', Inr i)"
  obtains hint label type where
    "i = toInterest (latest_query c hint label type)" "c' = c\<lparr>iq_lastLabelType := label @ [type]\<rparr>"
    "case iq_lastLink c of None \<Rightarrow> hint = [] | Some b \<Rightarrow> linkDelegations L b = Some hint"
    "iq_step c = QUERY_STEP_QUERY_NS \<and> type = NS_RR_TYPE \<and>
       label = take (iq_nTryComps c) (drop (iq_nFinishedComps c) (iq_dstLabel c)) \<or>
     iq_step c = QUERY_STEP_QUERY_RR \<and> type = iq_rrType c \<and> label = drop (iq_nFinishedComps c) (iq_dstLabel c)"
proof -
  from assms obtain hint where h: "case iq_lastLink c of None \<Rightarrow> hint = [] | Some b \<Rightarrow> linkDelegations L b = Some hint"
    by (auto simp: makeLatestInterest_def and_then_Inr or_throw_Inr split: option.splits)
  then have link: "(case iq_lastLink c of None \<Rightarrow> Inr [] | Some b \<Rightarrow> or_throw Tlv_Error (linkDelegations L b)) = Inr hint"
    by (simp split: option.splits)
  show thesis
    using assms h that
    by (cases "iq_step c") (auto simp: makeLatestInterest_def link Let_def latest_query_def)
qed

lemma makeLatestInterest_frame:
  assumes "makeLatestInterest L c = (c', Inr i)"
  shows "\<exists>l. c' = c\<lparr>iq_lastLabelType := l\<rparr>" "\<not> hasEnded c"
  by (rule makeLatestInterest_Inr [OF assms], blast) (rule makeLatestInterest_Inr [OF assms], auto simp: hasEnded_def)

text \<open>
  Every Interest the resolver builds is named zone, NDNS, label, type, where zone is the part of the target name
  resolved so far and zone and label together are the target name itself (when asking for the record) or the part of
  it up to the components being tried (when asking for the delegation); the label and type it
  remembers for judging a DoE are those of the Interest, and the forwarding hint is that of the last link.
\<close>

theorem makeLatestInterest_name:
  assumes "makeLatestInterest L c = (c', Inr i)"
  shows "\<exists>zone label type. i_name i = zone @ [NDNS_ITERATIVE_QUERY] @ label @ [type] \<and>
           iq_lastLabelType c' = label @ [type] \<and> zone = take (iq_nFinishedComps c) (iq_dstLabel c) \<and>
           (if iq_step c = QUERY_STEP_QUERY_RR then zone @ label = iq_dstLabel c \<and> type = iq_rrType c
            else zone @ label = take (iq_nFinishedComps c + iq_nTryComps c) (iq_dstLabel c) \<and> type = NS_RR_TYPE) \<and>
           (case iq_lastLink c of None \<Rightarrow> i_forwardingHint i = []
            | Some b \<Rightarrow> linkDelegations L b = Some (i_forwardingHint i))"
proof -
  obtain hint label type where i: "i = toInterest (latest_query c hint label type)"
    "c' = c\<lparr>iq_lastLabelType := label @ [type]\<rparr>"
    "case iq_lastLink c of None \<Rightarrow> hint = [] | Some b \<Rightarrow> linkDelegations L b = Some hint"
    "iq_step c = QUERY_STEP_QUERY_NS \<and> type = NS_RR_TYPE \<and>
       label = take (iq_nTryComps c) (drop (iq_nFinishedComps c) (iq_dstLabel c)) \<or>
     iq_step c = QUERY_STEP_QUERY_RR \<and> type = iq_rrType c \<and> label = drop (iq_nFinishedComps c) (iq_dstLabel c)"
    by (rule makeLatestInterest_Inr [OF assms])
  show ?thesis
    by (rule exI [of _ "take (iq_nFinishedComps c) (iq_dstLabel c)"], rule exI [of _ label], rule exI [of _ type])
       (use i in \<open>auto simp: toInterest_def latest_query_def take_add split: option.splits\<close>)
qed

theorem makeLatestInterest_name_witness:
  "\<exists>c' i. makeLatestInterest ndn0 (IterativeQueryController_new [generic ''net'', generic ''ndnsim''] TXT_RR_TYPE 4000 (None :: unit option)) =
            (c', Inr i) \<and>
          iq_lastLabelType c' = [generic ''net'', NS_RR_TYPE]"
proof -
  let ?c = "IterativeQueryController_new [generic ''net'', generic ''ndnsim''] TXT_RR_TYPE 4000 (None :: unit option)"
  obtain c' i where m: "makeLatestInterest ndn0 ?c = (c', Inr i)"
    by (simp add: makeLatestInterest_def IterativeQueryController_new_def Let_def)
  from makeLatestInterest_name [OF m]
  have "iq_lastLabelType c' = [generic ''net'', NS_RR_TYPE]"
    by (auto simp: IterativeQueryController_new_def)
  with m show ?thesis by blast
qed

section \<open>Denial of existence\<close>

text \<open>
  What the resolver infers from a DoE record with range (first, second): when first precedes second, that exactly the
  names strictly between them are absent; when second precedes first (the record that closes the
  chain), that \<^emph>\<open>every\<close> name is absent, also those between second and first that exist;
  when both are equal, that none is.
\<close>

theorem isAbsentByDoe_exact:
  assumes L: "name_codec L" and r: "wireDecodeDoe L (d_content data) = Inr (first, second)"
  shows "isAbsentByDoe L c data =
           Inr (nameLess L first (iq_lastLabelType c) \<and> nameLess L (iq_lastLabelType c) second \<or> nameLess L second first)"
proof -
  have "nameLess L second first \<Longrightarrow>
      nameLess L (iq_lastLabelType c) first \<or> nameLess L second (iq_lastLabelType c)"
    using nameLess_linear [OF L, of "iq_lastLabelType c" first] nameLess_trans [OF L] by blast
  then show ?thesis by (auto simp: isAbsentByDoe_def r)
qed

lemma isAbsentByDoe_pair:
  assumes "ndn_ok L" and "d_content data = Block t (blockWire L (nameBlock L a) @ blockWire L (nameBlock L b))"
  shows "isAbsentByDoe L c data =
     Inr (nameLess L a (iq_lastLabelType c) \<and> nameLess L (iq_lastLabelType c) b \<or> nameLess L b a)"
proof -
  note L = ndn_okD [OF assms(1)]
  have "wireDecodeDoe L (d_content data) = Inr (a, b)" by (simp add: assms(2) wireDecodeDoe_pair [OF L(3)])
  moreover have "nameLess L b a \<Longrightarrow> nameLess L (iq_lastLabelType c) a \<or> nameLess L b (iq_lastLabelType c)"
    using nameLess_linear [OF L(1), of "iq_lastLabelType c" a] nameLess_trans [OF L(1)] by blast
  ultimately show ?thesis by (auto simp: isAbsentByDoe_def)
qed

definition doe_sample :: "name \<Rightarrow> name \<Rightarrow> data" where
  "doe_sample a b = (new_data [])\<lparr>d_content := Block 21 (blockWire0 (nameBlock0 a) @ blockWire0 (nameBlock0 b))\<rparr>"

lemma doe_sample_range: "wireDecodeDoe ndn0 (d_content (doe_sample a b)) = Inr (a, b)"
proof -
  have "wireDecodeDoe ndn0 (Block 21 (blockWire ndn0 (nameBlock ndn0 a) @ blockWire ndn0 (nameBlock ndn0 b))) = Inr (a, b)"
    by (rule wireDecodeDoe_pair [OF ndn0_block_codec])
  moreover have "nameBlock ndn0 = nameBlock0" by (simp add: ndn0_def)
  ultimately show ?thesis by (simp add: doe_sample_def)
qed

lemma ndn0_nameLess_single:
  "nameLess ndn0 [generic s] [generic t] \<longleftrightarrow> length s < length t \<or> length s = length t \<and> s < t"
  by (simp add: ndn0_def compWire0_def blockWire0_def comp_block_def)

text \<open>The record that closes a chain from z back to a denies m, which the chain may well contain.\<close>

theorem isAbsentByDoe_exact_witness:
  "isAbsentByDoe ndn0 ((IterativeQueryController_new [] TXT_RR_TYPE 0 (None :: unit option))\<lparr>iq_lastLabelType := [generic ''m'']\<rparr>)
     (doe_sample [generic ''z''] [generic ''a'']) = Inr True"
  using isAbsentByDoe_exact [OF ndn0_name_codec doe_sample_range, of _ "[generic ''z'']" "[generic ''a'']"]
  by (simp add: ndn0_nameLess_single)

section \<open>Progress\<close>

definition iq_inv :: "'c iqc \<Rightarrow> bool" where
  "iq_inv c \<longleftrightarrow> (iq_step c = QUERY_STEP_QUERY_NS \<longrightarrow>
      1 \<le> iq_nTryComps c \<and> iq_nFinishedComps c + iq_nTryComps c \<le> length (iq_dstLabel c))"

definition rank :: "'c iqc \<Rightarrow> nat" where
  "rank c = (if iq_step c = QUERY_STEP_QUERY_NS
             then length (iq_dstLabel c) - (iq_nFinishedComps c + iq_nTryComps c) + 2
             else if iq_step c = QUERY_STEP_QUERY_RR then 1 else 0)"

definition protocol_type :: "NdnsContentType \<Rightarrow> bool" where
  "protocol_type ct \<longleftrightarrow> ct = NDNS_DOE \<or> ct = NDNS_LINK \<or> ct = NDNS_AUTH"

text \<open>The kinds of answer the protocol has for an NS query.\<close>

definition ns_answer :: "data \<Rightarrow> bool" where
  "ns_answer d \<longleftrightarrow> to_content_type (d_contentType d) \<in> {NDNS_NACK, NDNS_DOE, NDNS_LINK, NDNS_AUTH}"

text \<open>An Interest sent while looking for a delegation asks for an NS record.\<close>

definition ns_query :: "'c iqc \<Rightarrow> interest \<Rightarrow> bool" where
  "ns_query c i \<longleftrightarrow> (iq_step c = QUERY_STEP_QUERY_NS \<longrightarrow> last (i_name i) = NS_RR_TYPE)"

lemma makeLatestInterest_ns_query: "makeLatestInterest L c = (c', Inr i) \<Longrightarrow> ns_query c' i"
  by (erule makeLatestInterest_Inr) (auto simp: ns_query_def toInterest_def latest_query_def)

lemma rank_label [simp]: "rank (c\<lparr>iq_lastLabelType := l\<rparr>) = rank c" "iq_inv (c\<lparr>iq_lastLabelType := l\<rparr>) = iq_inv c"
  "rank (c\<lparr>iq_nsCache := m\<rparr>) = rank c" "iq_inv (c\<lparr>iq_nsCache := m\<rparr>) = iq_inv c"
  "rank (c\<lparr>iq_doe := d\<rparr>) = rank c" "iq_inv (c\<lparr>iq_doe := d\<rparr>) = iq_inv c"
  "hasEnded (c\<lparr>iq_doe := d\<rparr>) = hasEnded c" "hasEnded (c\<lparr>iq_nsCache := m\<rparr>) = hasEnded c"
  "hasEnded (c\<lparr>iq_lastLabelType := l\<rparr>) = hasEnded c"
  by (simp_all add: rank_def iq_inv_def hasEnded_def)

lemma rank_act [simp]: "rank (act a c) = rank c" "iq_inv (act a c) = iq_inv c" "hasEnded (act a c) = hasEnded c"
  by (simp_all add: act_def rank_def iq_inv_def hasEnded_def)

lemma ns_transition_progress:
  assumes "ns_transition L c d ct = (c1, Inr ())" "protocol_type ct" "iq_step c = QUERY_STEP_QUERY_NS"
  shows "iq_out c1 = iq_out c \<and> iq_dstLabel c1 = iq_dstLabel c \<and>
    (iq_step c1 = QUERY_STEP_QUERY_RR \<or> iq_step c1 = QUERY_STEP_ANSWER_STUB \<or>
     iq_step c1 = QUERY_STEP_QUERY_NS \<and> 1 \<le> iq_nTryComps c1 \<and>
       iq_nFinishedComps c1 + iq_nTryComps c1 = Suc (iq_nFinishedComps c + iq_nTryComps c))"
  using assms
  by (auto simp: ns_transition_def protocol_type_def Let_def split: if_splits option.splits sum.splits)

lemma answer_ns_progress:
  assumes "answer_ns L c d ct = (c', Inr ())" and ct: "protocol_type ct" and inv: "iq_inv c"
    and ns: "iq_step c = QUERY_STEP_QUERY_NS"
  shows "rank c' < rank c \<and> iq_inv c' \<and> iq_out c' = iq_out c"
proof -
  obtain c1 where c1: "ns_transition L c d ct = (c1, Inr ())" "c' = tried_all c1"
    using assms(1) by (auto simp: answer_ns_def and_then_Inr)
  then show ?thesis using ns_transition_progress [OF c1(1) ct ns] inv ns
    by (auto simp: tried_all_def rank_def iq_inv_def)
qed

lemma onDataValidated_progress:
  assumes "onDataValidated L st c d ct = (c', Inr next)" "protocol_type ct \<or> iq_step c = QUERY_STEP_QUERY_RR"
    "iq_inv c" "\<not> hasEnded c"
  shows "case next of
           Some i \<Rightarrow> rank c' < rank c \<and> iq_inv c' \<and> \<not> hasEnded c' \<and> iq_out c' = iq_out c \<and> ns_query c' i
         | None \<Rightarrow> hasEnded c' \<and> (\<exists>a. iq_out c' = a # iq_out c \<and> (\<forall>i. a \<noteq> Sent i))"
proof -
  define c0 where "c0 = (case iq_nsCache c of
      Some m \<Rightarrow> if ct = NDNS_LINK then c\<lparr>iq_nsCache := Some (st_insert st m d)\<rparr> else c | None \<Rightarrow> c)"
  have c0: "iq_step c0 = iq_step c" "rank c0 = rank c" "iq_inv c0 = iq_inv c" "iq_out c0 = iq_out c"
    by (simp_all add: c0_def split: option.splits)
  obtain c1 where c1: "(case iq_step c0 of
              QUERY_STEP_QUERY_NS \<Rightarrow> answer_ns L c0 d ct
            | QUERY_STEP_QUERY_RR \<Rightarrow> (c0\<lparr>iq_step := QUERY_STEP_ANSWER_STUB\<rparr>, Inr ())
            | _ \<Rightarrow> (c0\<lparr>iq_step := QUERY_STEP_ABORT\<rparr>, Inr ())) = (c1, Inr ())"
    and k: "(if \<not> hasEnded c1 then and_then (makeLatestInterest L c1) (\<lambda>c i. (c, Inr (Some i)))
             else if iq_step c1 = QUERY_STEP_ANSWER_STUB
             then and_then (lift_err c1 (parseFinalResponse L c1 d)) (\<lambda>c re. (act (Succeeded d re) c, Inr None))
             else (abort c1, Inr None)) = (c', Inr next)"
    using assms(1) by (auto simp: onDataValidated_def Let_def and_then_Inr simp flip: c0_def)
  have p: "rank c1 < rank c \<and> iq_inv c1 \<and> iq_out c1 = iq_out c"
  proof (cases "iq_step c = QUERY_STEP_QUERY_NS")
    case True
    then show ?thesis using answer_ns_progress [of L c0 d ct c1] c1 assms(2,3) c0 by auto
  next
    case False
    then have "iq_step c = QUERY_STEP_QUERY_RR" using assms(4) by (simp add: hasEnded_def)
    then show ?thesis using c1 c0 by (auto simp: rank_def iq_inv_def)
  qed
  show ?thesis
    using k p makeLatestInterest_frame [of L c1] makeLatestInterest_ns_query [of L c1]
    by (auto simp: and_then_Inr abort_def split: if_splits)
qed

lemma onData_next_progress:
  assumes "onData_next L st V c d = (c', Inr next)" "ns_answer d \<or> iq_step c = QUERY_STEP_QUERY_RR"
    "iq_inv c" "\<not> hasEnded c"
  shows "case next of
           Some i \<Rightarrow> rank c' < rank c \<and> iq_inv c' \<and> \<not> hasEnded c' \<and> iq_out c' = iq_out c \<and> ns_query c' i
         | None \<Rightarrow> \<exists>a. iq_out c' = a # iq_out c \<and> (\<forall>i. a \<noteq> Sent i)"
proof -
  obtain c1 d1 ct where c1: "(case V of None \<Rightarrow> onDataValidated L st c1 d1 ct
         | Some valid \<Rightarrow> if valid d1 then onDataValidated L st c1 d1 ct else (abort c1, Inr None)) = (c', Inr next)"
    "rank c1 = rank c" "iq_inv c1 = iq_inv c" "hasEnded c1 = hasEnded c" "iq_out c1 = iq_out c" "iq_step c1 = iq_step c"
    "ns_answer d \<Longrightarrow> protocol_type ct"
    using assms(1)
    by (auto simp: onData_next_def and_then_Inr ns_answer_def protocol_type_def split: if_splits)
  then show ?thesis
    using onDataValidated_progress [of L st c1 d1 ct c' "next"] assms(2-4)
    by (auto split: option.splits if_splits simp: abort_def)
qed

text \<open>\<open>onData\<close> and \<open>express\<close> never use up the fuel: re-entries through the cache make progress too.\<close>

definition waiting :: "'c iqc \<Rightarrow> bool" where
  "waiting c \<longleftrightarrow> iq_inv c \<and> \<not> hasEnded c \<and> (\<exists>i rest. iq_out c = Sent i # rest \<and> ns_query c i)"

definition reported :: "'c iqc \<Rightarrow> bool" where
  "reported c \<longleftrightarrow> (\<exists>a rest. iq_out c = a # rest \<and> (\<forall>i. a \<noteq> Sent i))"

definition ends :: "('s, 'a) res \<Rightarrow> bool" where
  "ends r \<longleftrightarrow> snd r \<noteq> Inl Diverges"

lemma ends_simps [simp]: "ends (s, Inr x)" "ends (s, Inl e) \<longleftrightarrow> e \<noteq> Diverges"
  by (simp_all add: ends_def)

lemma ends_and_then: "ends r \<Longrightarrow> (\<And>s x. ends (k s x)) \<Longrightarrow> ends (and_then r k)"
  by (cases r; cases "snd r") (auto simp: ends_def)

lemma ends_or_throw: "e \<noteq> Diverges \<Longrightarrow> ends (s, or_throw e x)"
  by (cases x) simp_all

lemma fromData_ends: "ends (fromData L r zone d)"
proof -
  have "matchName_data n zone \<noteq> Inl Diverges" for n
    by (simp add: matchName_data_def calculateSkip_def bind_err_def Let_def)
  moreover have "ends (wireDecode_response L r w)" for r w
    by (simp add: wireDecode_response_def split: option.splits)
  ultimately show ?thesis
    unfolding fromData_def by (auto split: sum.splits option.splits intro!: ends_and_then)
qed

lemma makeLatestInterest_ends: "ends (makeLatestInterest L c)"
  unfolding makeLatestInterest_def
  by (intro ends_and_then) (auto simp: Let_def split: option.splits QueryStep.splits intro: ends_or_throw)

lemma onDataValidated_ends: "ends (onDataValidated L st c d ct)"
proof -
  have "wireDecodeDoe L b \<noteq> Inl Diverges" for b
    by (simp add: wireDecodeDoe_def bind_err_def or_throw_def split: option.splits)
  then have "isAbsentByDoe L c d \<noteq> Inl Diverges" for c :: "'a iqc"
    by (auto simp: isAbsentByDoe_def bind_err_def split: sum.splits if_splits)
  then have "ends (ns_transition L c d ct)" for c :: "'a iqc"
    by (auto simp: ns_transition_def Let_def split: sum.splits option.splits)
  then have 1: "ends (answer_ns L c d ct)" for c :: "'a iqc"
    unfolding answer_ns_def by (intro ends_and_then) auto
  have 2: "ends (c, parseFinalResponse L c d)" for c :: "'a iqc"
    using fromData_ends [of L Response_default "take (iq_nFinishedComps c) (iq_dstLabel c)" d]
    by (auto simp: parseFinalResponse_def split: prod.splits sum.splits)
  show ?thesis
    unfolding onDataValidated_def Let_def
    by (intro ends_and_then)
       (auto split: QueryStep.splits simp: 1 intro!: ends_and_then makeLatestInterest_ends 2)
qed

lemma onData_next_ends: "ends (onData_next L st V c d)"
  unfolding onData_next_def
  by (intro ends_and_then)
     (auto split: option.splits intro!: ends_and_then onDataValidated_ends ends_or_throw)

lemma onData_next_not_Diverges: "onData_next L st V c d \<noteq> (c', Inl Diverges)"
  using onData_next_ends [of L st V c d] by (auto simp: ends_def)

text \<open>What a cache of NS records may return.\<close>

definition cache_ok :: "'c storage \<Rightarrow> bool" where
  "cache_ok st \<longleftrightarrow> (\<forall>m i d. st_find st m i = Some d \<longrightarrow> ns_answer d)"

lemma express_progress:
  assumes "cache_ok st" and "iq_inv c" "\<not> hasEnded c" "rank c \<le> fuel" "ns_query c i"
    and "express L st V fuel c i = (c', x)"
  shows "x \<noteq> Inl Diverges \<and> (x = Inr () \<longrightarrow> reported c' \<or> waiting c' \<and> rank c' \<le> rank c)"
  using assms(2-6)
proof (induction fuel arbitrary: c i)
  case 0
  then show ?case by (auto simp: rank_def hasEnded_def split: if_splits)
next
  case (Suc fuel)
  show ?case
  proof (cases "Option.bind (iq_nsCache c) (\<lambda>m. st_find st m i)")
    case None
    with Suc.prems show ?thesis by (auto simp: express.simps waiting_def ns_query_def)
  next
    case (Some d)
    then have d: "ns_answer d" using assms(1) by (cases "iq_nsCache c") (auto simp: cache_ok_def)
    obtain c1 y where y: "onData_next L st V c d = (c1, y)" by fastforce
    show ?thesis
    proof (cases y)
      case (Inl e)
      then have "c' = c1 \<and> x = Inl e" using Suc.prems Some y by (simp add: express.simps)
      then show ?thesis using y Inl onData_next_not_Diverges [of L st V c d c1] by auto
    next
      case (Inr n)
      note P = onData_next_progress [OF y [unfolded Inr] disjI1 [OF d] Suc.prems(1,2)]
      show ?thesis
      proof (cases n)
        case None
        then have "c' = c1 \<and> x = Inr ()" using Suc.prems Some y Inr by (simp add: express.simps)
        then show ?thesis using P None by (auto simp: reported_def)
      next
        case (Some j)
        then have "express L st V fuel c1 j = (c', x)"
          using Suc.prems \<open>Option.bind _ _ = Some d\<close> y Inr by (simp add: express.simps)
        then show ?thesis using Suc.IH [of c1 j] P Some Suc.prems(3) by auto
      qed
    qed
  qed
qed

lemma onData_progress:
  assumes "cache_ok st" and "ns_answer d \<or> iq_step c = QUERY_STEP_QUERY_RR" "iq_inv c" "\<not> hasEnded c" "rank c \<le> fuel"
    and "onData L st V fuel c d = (c', x)"
  shows "x \<noteq> Inl Diverges \<and> (x = Inr () \<longrightarrow> reported c' \<or> waiting c' \<and> rank c' < rank c)"
proof -
  obtain c1 y where y: "onData_next L st V c d = (c1, y)" by fastforce
  show ?thesis
  proof (cases y)
    case (Inl e)
    then show ?thesis using y assms(6) onData_next_not_Diverges [of L st V c d c1] by (auto simp: onData_def)
  next
    case (Inr n)
    note P = onData_next_progress [OF y [unfolded Inr] assms(2,3,4)]
    show ?thesis
    proof (cases n)
      case None
      then show ?thesis using P y Inr assms(6) by (auto simp: onData_def reported_def)
    next
      case (Some j)
      then have e: "express L st V fuel c1 j = (c', x)" using y Inr assms(6) by (simp add: onData_def)
      show ?thesis using express_progress [OF assms(1) _ _ _ _ e] P Some assms(5) by auto
    qed
  qed
qed

section \<open>A query ends\<close>

text \<open>At most n exchanges with a network that answers every Interest; \<open>ans\<close> may answer each time differently.\<close>

fun exchange ::
  "ndn \<Rightarrow> 'c storage \<Rightarrow> (data \<Rightarrow> bool) option \<Rightarrow> nat \<Rightarrow> (nat \<Rightarrow> interest \<Rightarrow> data) \<Rightarrow> nat \<Rightarrow> 'c iqc \<Rightarrow> ('c iqc, unit) res" where
  "exchange L st V fuel ans 0 c = (c, Inr ())"
| "exchange L st V fuel ans (Suc n) c =
     (case iq_out c of
        Sent i # _ \<Rightarrow> and_then (onData L st V fuel c (ans n i)) (\<lambda>c _. exchange L st V fuel ans n c)
      | _ \<Rightarrow> (c, Inr ()))"

text \<open>The network answers NS queries in one of the ways of the protocol.\<close>

definition ns_answers :: "(nat \<Rightarrow> interest \<Rightarrow> data option) \<Rightarrow> bool" where
  "ns_answers net \<longleftrightarrow> (\<forall>n i d. net n i = Some d \<longrightarrow> last (i_name i) = NS_RR_TYPE \<longrightarrow> ns_answer d)"

lemma waiting_answer:
  assumes "waiting c" "ns_answers net" "iq_out c = Sent i # rest" "net n i = Some d"
  shows "ns_answer d \<or> iq_step c = QUERY_STEP_QUERY_RR"
  using assms by (auto simp: waiting_def ns_answers_def ns_query_def hasEnded_def)

lemma exchange_reported: "reported c \<Longrightarrow> exchange L st V fuel ans n c = (c, Inr ())"
  by (cases n) (auto simp: reported_def split: iq_action.splits)

lemma exchange_ends:
  assumes "cache_ok st" and net: "ns_answers (\<lambda>n i. Some (ans n i))"
  shows "waiting c \<Longrightarrow> rank c \<le> fuel \<Longrightarrow> rank c \<le> n \<Longrightarrow>
         exchange L st V fuel ans n c = (c', x) \<Longrightarrow> x \<noteq> Inl Diverges \<and> (x = Inr () \<longrightarrow> reported c')"
proof (induction n arbitrary: c)
  case 0
  then show ?case by (auto simp: waiting_def rank_def hasEnded_def split: if_splits)
next
  case (Suc n)
  obtain i rest where i: "iq_out c = Sent i # rest" using Suc.prems by (auto simp: waiting_def)
  obtain c1 y where y: "onData L st V fuel c (ans n i) = (c1, y)" by fastforce
  have "ns_answer (ans n i) \<or> iq_step c = QUERY_STEP_QUERY_RR" by (rule waiting_answer [OF Suc.prems(1) net i]) simp
  then have P: "y \<noteq> Inl Diverges \<and> (y = Inr () \<longrightarrow> reported c1 \<or> waiting c1 \<and> rank c1 < rank c)"
    using onData_progress [OF assms(1) _ _ _ Suc.prems(2) y] Suc.prems(1) by (simp add: waiting_def)
  show ?case
  proof (cases y)
    case (Inl e)
    then show ?thesis using P Suc.prems(4) y i by auto
  next
    case (Inr u)
    then have e: "exchange L st V fuel ans n c1 = (c', x)" using Suc.prems(4) y i by simp
    from P Inr consider "reported c1" | "waiting c1" "rank c1 < rank c" by auto
    then show ?thesis
      using e Suc.IH [of c1] Suc.prems(2,3) by cases (auto simp: exchange_reported)
  qed
qed

lemma start_progress:
  assumes "cache_ok st" and c: "iq_step c = QUERY_STEP_QUERY_NS" "iq_nTryComps c = 1" "iq_nFinishedComps c \<le> length (iq_dstLabel c)"
    and fuel: "length (iq_dstLabel c) < fuel" and s: "start L st V fuel c = (c', x)"
  shows "x \<noteq> Inl Diverges \<and> (x = Inr () \<longrightarrow> reported c' \<or> waiting c' \<and> rank c' \<le> Suc (length (iq_dstLabel c)))"
proof -
  let ?c = "if length (iq_dstLabel c) = iq_nFinishedComps c then c\<lparr>iq_step := QUERY_STEP_QUERY_RR\<rparr> else c"
  have c0: "iq_inv ?c" "\<not> hasEnded ?c" "rank ?c \<le> Suc (length (iq_dstLabel c))"
    using c by (auto simp: iq_inv_def hasEnded_def rank_def)
  obtain c1 y where m: "makeLatestInterest L ?c = (c1, y)" by fastforce
  show ?thesis
  proof (cases y)
    case (Inl e)
    then show ?thesis using s m makeLatestInterest_ends [of L ?c] by (auto simp: start_def Let_def ends_def)
  next
    case (Inr i)
    then have e: "express L st V fuel c1 i = (c', x)" using s m by (simp add: start_def Let_def)
    obtain l where "c1 = ?c\<lparr>iq_lastLabelType := l\<rparr>" using makeLatestInterest_frame(1) m Inr by blast
    then have c1: "iq_inv c1" "\<not> hasEnded c1" "rank c1 = rank ?c"
      using c0 by (simp_all only: rank_label) (simp_all add: hasEnded_def)
    show ?thesis
      using express_progress [OF assms(1) c1(1,2) _ makeLatestInterest_ns_query [OF m [unfolded Inr]] e] c0(3) c1(3) fuel
      by auto
  qed
qed

text \<open>
  C13: A query ends. For a target name of n components, the resolver needs at most n + 1 answers: when every NS query is answered
  in a way the protocol has (with a NACK that holds a DoE, a link, an AUTH record or a DoE), the query for the record itself in any
  way, then it has called back, with success or failure, unless one of the answers was malformed and raised an exception. Cached
  NS records never send it into an endless loop.
\<close>

theorem iterative_query_ends:
  fixes dst :: name and cache :: "'c option"
  assumes cached: "cache_ok st"
    and start: "start L st V fuel (IterativeQueryController_new dst ty life cache) = (c, Inr ())"
    and fuel: "length dst < fuel" and exchanges: "length dst < n"
    and answers: "\<forall>n i. last (i_name i) = NS_RR_TYPE \<longrightarrow> ns_answer (ans n i)"
    and run: "exchange L st V fuel ans n c = (c', x)"
  shows "x \<noteq> Inl Diverges \<and> (x = Inr () \<longrightarrow> (\<exists>a rest. iq_out c' = a # rest \<and> (\<forall>i. a \<noteq> Sent i)))"
proof -
  let ?c = "IterativeQueryController_new dst ty life cache"
  have net: "ns_answers (\<lambda>n i. Some (ans n i))" using answers by (simp add: ns_answers_def)
  from start_progress [OF cached _ _ _ _ start] fuel consider "reported c" | "waiting c" "rank c \<le> Suc (length dst)"
    by (auto simp: IterativeQueryController_new_def)
  then show ?thesis
  proof cases
    case 1
    then show ?thesis using exchange_reported [OF 1] run by (auto simp: reported_def)
  next
    case 2
    then show ?thesis using exchange_ends [OF cached net 2(1) _ _ run] fuel exchanges by (simp add: reported_def)
  qed
qed

text \<open>A run without a cache: one AUTH answer for /a, then the record.\<close>

definition no_cache :: "unit storage" where
  "no_cache = \<lparr>st_insert = (\<lambda>m d. m), st_find = (\<lambda>m i. None)\<rparr>"

lemma no_cache_ok: "cache_ok no_cache"
  by (simp add: cache_ok_def no_cache_def)

definition auth_sample :: data where
  "auth_sample = (new_data [NDNS_ITERATIVE_QUERY, generic ''a'', TXT_RR_TYPE, Component 54 (unary 1)])
      \<lparr>d_contentType := content_type_code NDNS_AUTH\<rparr>"

theorem iterative_query_ends_witness:
  "\<exists>c c' x. start ndn0 no_cache None 2 (IterativeQueryController_new [generic ''a''] TXT_RR_TYPE 4000 None) = (c, Inr ()) \<and>
     exchange ndn0 no_cache None 2 (\<lambda>n i. if last (i_name i) = NS_RR_TYPE then auth_sample else new_data (i_name i)) 2 c = (c', x) \<and>
     x \<noteq> Inl Diverges"
proof -
  let ?ans = "\<lambda>(n :: nat) i. if last (i_name i) = NS_RR_TYPE then auth_sample else new_data (i_name i)"
  obtain c where s: "start ndn0 no_cache None 2 (IterativeQueryController_new [generic ''a''] TXT_RR_TYPE 4000 None) = (c, Inr ())"
    by (simp add: start_def IterativeQueryController_new_def makeLatestInterest_def Let_def express.simps act_def)
  obtain c' x where e: "exchange ndn0 no_cache None 2 ?ans 2 c = (c', x)" by fastforce
  have a: "\<forall>(n :: nat) i. last (i_name i) = NS_RR_TYPE \<longrightarrow> ns_answer (?ans n i)" by (simp add: auth_sample_def ns_answer_def)
  show ?thesis using iterative_query_ends [OF no_cache_ok s _ _ a e] s e by auto
qed

section \<open>One action per call of the resolver\<close>

lemma ns_transition_out: "ns_transition L c d ct = (c', r) \<Longrightarrow> iq_out c' = iq_out c"
  by (auto simp: ns_transition_def Let_def split: if_splits sum.splits option.splits)

lemma answer_ns_out: "answer_ns L c d ct = (c', Inr u) \<Longrightarrow> iq_out c' = iq_out c"
  by (auto simp: answer_ns_def and_then_Inr tried_all_def dest!: ns_transition_out)

lemma onDataValidated_out:
  assumes "onDataValidated L st c d ct = (c', Inr next)"
  shows "case next of Some i \<Rightarrow> iq_out c' = iq_out c | None \<Rightarrow> \<exists>a. iq_out c' = a # iq_out c"
proof -
  define c0 where "c0 = (case iq_nsCache c of
      Some m \<Rightarrow> if ct = NDNS_LINK then c\<lparr>iq_nsCache := Some (st_insert st m d)\<rparr> else c | None \<Rightarrow> c)"
  have c0: "iq_out c0 = iq_out c" by (simp add: c0_def split: option.splits)
  obtain c1 where c1: "(case iq_step c0 of
              QUERY_STEP_QUERY_NS \<Rightarrow> answer_ns L c0 d ct
            | QUERY_STEP_QUERY_RR \<Rightarrow> (c0\<lparr>iq_step := QUERY_STEP_ANSWER_STUB\<rparr>, Inr ())
            | _ \<Rightarrow> (c0\<lparr>iq_step := QUERY_STEP_ABORT\<rparr>, Inr ())) = (c1, Inr ())"
    and k: "(if \<not> hasEnded c1 then and_then (makeLatestInterest L c1) (\<lambda>c i. (c, Inr (Some i)))
             else if iq_step c1 = QUERY_STEP_ANSWER_STUB
             then and_then (lift_err c1 (parseFinalResponse L c1 d)) (\<lambda>c re. (act (Succeeded d re) c, Inr None))
             else (abort c1, Inr None)) = (c', Inr next)"
    using assms(1) by (auto simp: onDataValidated_def Let_def and_then_Inr simp flip: c0_def)
  have "iq_out c1 = iq_out c" using c1 c0 by (auto split: QueryStep.splits dest: answer_ns_out)
  then show ?thesis
    using k makeLatestInterest_frame [of L c1] by (auto simp: and_then_Inr abort_def split: if_splits)
qed

lemma onData_next_out:
  assumes "onData_next L st V c d = (c', Inr next)"
  shows "case next of Some i \<Rightarrow> iq_out c' = iq_out c | None \<Rightarrow> \<exists>a. iq_out c' = a # iq_out c"
proof -
  obtain c1 d1 ct where "(case V of None \<Rightarrow> onDataValidated L st c1 d1 ct
         | Some valid \<Rightarrow> if valid d1 then onDataValidated L st c1 d1 ct else (abort c1, Inr None)) = (c', Inr next)"
    "iq_out c1 = iq_out c"
    using assms by (auto simp: onData_next_def and_then_Inr split: if_splits)
  then show ?thesis
    using onDataValidated_out [of L st c1 d1 ct c' "next"] by (auto simp: abort_def split: option.splits if_splits)
qed

lemma express_out: "express L st V fuel c i = (c', Inr ()) \<Longrightarrow> \<exists>a. iq_out c' = a # iq_out c"
proof (induction fuel arbitrary: c i)
  case 0
  then show ?case by (auto simp: express.simps split: option.splits)
next
  case (Suc fuel)
  show ?case
  proof (cases "Option.bind (iq_nsCache c) (\<lambda>m. st_find st m i)")
    case None
    then show ?thesis using Suc.prems by (auto simp: express.simps)
  next
    case (Some cached)
    then obtain c1 n where c1: "onData_next L st V c cached = (c1, Inr n)"
      "(case n of None \<Rightarrow> (c1, Inr ()) | Some i \<Rightarrow> express L st V fuel c1 i) = (c', Inr ())"
      using Suc.prems by (subst (asm) express.simps) (auto simp: and_then_Inr)
    then show ?thesis using onData_next_out [OF c1(1)] Suc.IH [of c1] by (cases n) auto
  qed
qed

lemma onData_out: "onData L st V fuel c d = (c', Inr ()) \<Longrightarrow> \<exists>a. iq_out c' = a # iq_out c"
  by (auto simp: onData_def and_then_Inr split: option.splits dest!: onData_next_out express_out)

lemma start_out:
  assumes "start L st V fuel c = (c', Inr ())"
  shows "\<exists>a. iq_out c' = a # iq_out c"
proof -
  let ?c = "if length (iq_dstLabel c) = iq_nFinishedComps c then c\<lparr>iq_step := QUERY_STEP_QUERY_RR\<rparr> else c"
  obtain c1 i where m: "makeLatestInterest L ?c = (c1, Inr i)" and e: "express L st V fuel c1 i = (c', Inr ())"
    using assms by (auto simp: start_def Let_def and_then_Inr)
  obtain l where "c1 = ?c\<lparr>iq_lastLabelType := l\<rparr>" using makeLatestInterest_frame(1) [OF m] by blast
  then show ?thesis using express_out [OF e] by (simp split: if_splits)
qed

section \<open>Answers the protocol does not have\<close>

text \<open>
  An answer of any other content type to an NS query (a plain record, for instance) makes no progress at all: the resolver
  is left in the state it was in and asks the very same question again, every time.
\<close>

theorem unexpected_answer_repeats:
  assumes step: "iq_step c = QUERY_STEP_QUERY_NS" and inv: "iq_inv c" and d: "\<not> ns_answer d"
    and V: "case V of None \<Rightarrow> True | Some valid \<Rightarrow> valid d" and m: "makeLatestInterest L c = (c1, Inr i)"
  shows "onData_next L st V c d = (c1, Inr (Some i)) \<and> rank c1 = rank c \<and>
         onData_next L st V c1 d = (c1, Inr (Some i))"
proof -
  let ?ct = "to_content_type (d_contentType d)"
  have ct: "?ct \<noteq> NDNS_NACK" "?ct \<noteq> NDNS_DOE" "?ct \<noteq> NDNS_LINK" "?ct \<noteq> NDNS_AUTH"
    using d by (auto simp: ns_answer_def)
  have one: "onData_next L st V c d = (c1, Inr (Some i))"
    if "iq_step c = QUERY_STEP_QUERY_NS" "iq_inv c" "makeLatestInterest L c = (c1, Inr i)" for c
  proof -
    have "answer_ns L c d ?ct = (c, Inr ())"
      using ct that(1,2) by (simp add: answer_ns_def ns_transition_def tried_all_def iq_inv_def)
    moreover have "(case iq_nsCache c of
        Some m \<Rightarrow> if ?ct = NDNS_LINK then c\<lparr>iq_nsCache := Some (st_insert st m d)\<rparr> else c | None \<Rightarrow> c) = c"
      using ct by (simp split: option.split)
    moreover have "\<not> hasEnded c" using that(1) by (simp add: hasEnded_def)
    ultimately have "onDataValidated L st c d ?ct = (c1, Inr (Some i))"
      using that by (simp add: onDataValidated_def Let_def)
    then show ?thesis using ct V by (auto simp: onData_next_def split: option.splits)
  qed
  obtain hint label type where r: "i = toInterest (latest_query c hint label type)" "c1 = c\<lparr>iq_lastLabelType := label @ [type]\<rparr>"
    "case iq_lastLink c of None \<Rightarrow> hint = [] | Some b \<Rightarrow> linkDelegations L b = Some hint"
    "type = NS_RR_TYPE" "label = take (iq_nTryComps c) (drop (iq_nFinishedComps c) (iq_dstLabel c))"
    by (rule makeLatestInterest_Inr [OF m]) (use step in auto)
  have link: "(case iq_lastLink c of None \<Rightarrow> Inr [] | Some b \<Rightarrow> or_throw Tlv_Error (linkDelegations L b)) = Inr hint"
    using r(3) by (simp split: option.splits)
  have "makeLatestInterest L c1 = (c1, Inr i)"
    using step link by (simp add: makeLatestInterest_def r(2,4,5) Let_def latest_query_def)
      (simp add: r(1,4,5) latest_query_def)
  then show ?thesis using one [OF step inv m] one [of c1] step inv by (simp add: r(2))
qed

theorem unexpected_answer_repeats_witness:
  "\<exists>c1 i. onData_next ndn0 no_cache None (IterativeQueryController_new [generic ''a''] TXT_RR_TYPE 4000 None)
      (auth_sample\<lparr>d_contentType := content_type_code NDNS_RESP\<rparr>) = (c1, Inr (Some i)) \<and>
     onData_next ndn0 no_cache None c1 (auth_sample\<lparr>d_contentType := content_type_code NDNS_RESP\<rparr>) = (c1, Inr (Some i))"
proof -
  let ?c = "IterativeQueryController_new [generic ''a''] TXT_RR_TYPE 4000 (None :: unit option)"
  obtain c1 i where m: "makeLatestInterest ndn0 ?c = (c1, Inr i)"
    by (simp add: makeLatestInterest_def IterativeQueryController_new_def Let_def)
  have "iq_step ?c = QUERY_STEP_QUERY_NS" "iq_inv ?c"
    by (simp_all add: IterativeQueryController_new_def iq_inv_def)
  moreover have "\<not> ns_answer (auth_sample\<lparr>d_contentType := content_type_code NDNS_RESP\<rparr>)"
    by (simp add: ns_answer_def)
  ultimately show ?thesis using unexpected_answer_repeats [OF _ _ _ _ m, of _ None no_cache] by auto
qed

section \<open>The final denial\<close>

text \<open>
  In the last step of a query a NACK is accepted whatever range its DoE record has: the validated inner record is
  handed to the success callback without the check that the NS step makes.
\<close>

theorem final_nack_unchecked:
  assumes "iq_step c = QUERY_STEP_QUERY_RR" and "to_content_type (d_contentType data) = NDNS_NACK"
    and "Option.bind (blockFromValue L (d_content data)) (blockData L) = Some doe"
    and "case V of None \<Rightarrow> True | Some valid \<Rightarrow> valid doe" and "parseFinalResponse L c doe = Inr re"
  shows "onData L st V fuel c data =
           (act (Succeeded doe re) (c\<lparr>iq_doe := Some doe, iq_step := QUERY_STEP_ANSWER_STUB\<rparr>), Inr ())"
proof -
  let ?c = "c\<lparr>iq_doe := Some doe\<rparr>"
  have "(case iq_nsCache ?c of Some m \<Rightarrow> if NDNS_DOE = NDNS_LINK then ?c\<lparr>iq_nsCache := Some (st_insert st m doe)\<rparr> else ?c
      | None \<Rightarrow> ?c) = ?c"
    by (simp split: option.split)
  moreover have "parseFinalResponse L (?c\<lparr>iq_step := QUERY_STEP_ANSWER_STUB\<rparr>) doe = Inr re"
    using assms(5) by (simp add: parseFinalResponse_def)
  ultimately have "onDataValidated L st ?c doe NDNS_DOE =
      (act (Succeeded doe re) (?c\<lparr>iq_step := QUERY_STEP_ANSWER_STUB\<rparr>), Inr None)"
    using assms(1) by (simp add: onDataValidated_def Let_def hasEnded_def)
  then have "onData_next L st V c data =
      (act (Succeeded doe re) (?c\<lparr>iq_step := QUERY_STEP_ANSWER_STUB\<rparr>), Inr None)"
    using assms(2,3,4) by (auto simp: onData_next_def split: option.splits)
  then show ?thesis by (simp add: onData_def)
qed

definition doe_elsewhere :: data where
  "doe_elsewhere = (doe_sample [generic ''y''] [generic ''z''])
      \<lparr>d_name := rr_name [] [generic ''y''] DOE_RR_TYPE @ [Component 54 (unary 1)]\<rparr>"

definition nack_elsewhere :: data where
  "nack_elsewhere = (new_data [])\<lparr>d_contentType := content_type_code NDNS_NACK,
      d_content := Block 21 (blockWire0 (dataBlock0 doe_elsewhere))\<rparr>"

theorem final_nack_unchecked_witness:
  "\<exists>c re. isAbsentByDoe ndn0 (c :: unit iqc) doe_elsewhere = Inr False \<and>
     onData ndn0 no_cache None 0 c nack_elsewhere =
       (act (Succeeded doe_elsewhere re) (c\<lparr>iq_doe := Some doe_elsewhere, iq_step := QUERY_STEP_ANSWER_STUB\<rparr>), Inr ())"
proof -
  let ?c = "(IterativeQueryController_new [generic ''a''] TXT_RR_TYPE 4000 (None :: unit option))
      \<lparr>iq_step := QUERY_STEP_QUERY_RR, iq_lastLabelType := [generic ''a'']\<rparr>"
  have "wireDecodeDoe ndn0 (d_content doe_elsewhere) = Inr ([generic ''y''], [generic ''z''])"
    using doe_sample_range [of "[generic ''y'']" "[generic ''z'']"] by (simp add: doe_elsewhere_def)
  then have a: "isAbsentByDoe ndn0 ?c doe_elsewhere = Inr False"
    by (simp add: isAbsentByDoe_def ndn0_nameLess_single)
  have "matchName_data (d_name doe_elsewhere) [] =
      Inr (Some \<lparr>m_rrLabel = [generic ''y''], m_rrType = DOE_RR_TYPE, m_version = Component 54 (unary 1)\<rparr>)"
    using matchName_data_response [of "[]" "[generic ''y'']"] by (simp add: doe_elsewhere_def)
  moreover have "to_content_type (d_contentType doe_elsewhere) = NDNS_BLOB" by (simp add: doe_elsewhere_def doe_sample_def)
  ultimately obtain re where "parseFinalResponse ndn0 ?c doe_elsewhere = Inr re"
    by (simp add: parseFinalResponse_def fromData_def IterativeQueryController_new_def wireDecode_response_def raw_content_def)
  moreover have "Option.bind (blockFromValue ndn0 (d_content nack_elsewhere)) (blockData ndn0) = Some doe_elsewhere"
    by (simp add: nack_elsewhere_def ndn0_def)
  ultimately show ?thesis
    using a final_nack_unchecked [of ?c nack_elsewhere ndn0 doe_elsewhere None re no_cache 0]
    by (intro exI [of _ ?c] exI [of _ re]) (simp add: nack_elsewhere_def)
qed

end
