(* ===== verification/DenialProps.thy ===== *)
theory DenialProps
  imports DoeChain NameServerProps IterativeQueryProps
begin

text \<open>
  Denial of existence from end to end: the chain the management tool writes, the record the name server picks from it
  and what the resolver concludes from that record.
\<close>

section \<open>Looking up the chain\<close>

lemma chain_pairs_nth: "Suc i < length ns \<Longrightarrow> (ns ! i, ns ! i, ns ! Suc i) \<in> set (chain_pairs ns)"
proof (induction ns arbitrary: i rule: chain_pairs.induct)
  case (1 a b ns)
  then show ?case by (cases i) auto
qed auto

lemma doe_chain_lookup:
  assumes "distinct ns" "[] \<notin> set ns" "ns \<noteq> []"
  shows "Suc i < length ns \<Longrightarrow> map_of (doe_chain ns) (ns ! i) = Some (ns ! i, ns ! Suc i)"
    "map_of (doe_chain ns) (last ns) = Some (last ns, hd ns)"
    "map_of (doe_chain ns) [] = Some (last ns, hd ns)"
proof -
  have d: "distinct (map fst (doe_chain ns))" using assms by (simp add: map_fst_doe_chain)
  show "Suc i < length ns \<Longrightarrow> map_of (doe_chain ns) (ns ! i) = Some (ns ! i, ns ! Suc i)"
    by (rule map_of_is_SomeI [OF d]) (use chain_pairs_nth [of i ns] in \<open>auto simp: doe_chain_def\<close>)
  show "map_of (doe_chain ns) (last ns) = Some (last ns, hd ns)" "map_of (doe_chain ns) [] = Some (last ns, hd ns)"
    by (rule map_of_is_SomeI [OF d], simp add: doe_chain_def)+
qed

lemma sorted_names_distinct: "name_codec L \<Longrightarrow> sorted_wrt (nameLess L) ns \<Longrightarrow> distinct ns"
  using nameLess_irrefl by (induction ns) auto

text \<open>The range of the record with the greatest label below an absent name proves it absent.\<close>

definition denies :: "ndn \<Rightarrow> name \<times> name \<Rightarrow> name \<Rightarrow> bool" where
  "denies L r n \<longleftrightarrow> nameLess L (fst r) n \<and> nameLess L n (snd r) \<or> nameLess L (snd r) (fst r)"

lemma isAbsentByDoe_denies:
  assumes L: "name_codec L" and "wireDecodeDoe L (d_content data) = Inr r"
  shows "isAbsentByDoe L c data = Inr (denies L r (iq_lastLabelType c))"
proof -
  have "nameLess L (snd r) (fst r) \<Longrightarrow>
      nameLess L (iq_lastLabelType c) (fst r) \<or> nameLess L (snd r) (iq_lastLabelType c)"
    using nameLess_linear [OF L, of "iq_lastLabelType c" "fst r"] nameLess_trans [OF L] by metis
  then show ?thesis by (cases r) (auto simp: isAbsentByDoe_def assms(2) denies_def)
qed

lemma chain_denies:
  assumes L: "name_codec L" and s: "sorted_wrt (nameLess L) ns" and len: "2 \<le> length ns" and nil: "[] \<notin> set ns"
    and n: "n \<notin> set ns" and lab: "lab = [] \<or> lab \<in> set ns" "nameLess L lab n"
    and great: "\<And>x. x \<in> set ns \<Longrightarrow> nameLess L x n \<Longrightarrow> \<not> nameLess L lab x"
  obtains r where "map_of (doe_chain ns) lab = Some r" "denies L r n"
proof -
  have ne: "ns \<noteq> []" using len by auto
  note D = doe_chain_lookup [OF sorted_names_distinct [OF L s] nil ne]
  have "nameLess L (hd ns) (last ns)"
    using s len ne by (simp add: hd_conv_nth last_conv_nth sorted_wrt_nth_less)
  then have wrap: "denies L (last ns, hd ns) n" by (simp add: denies_def)
  consider "lab = []" | "lab = last ns" | i where "lab = ns ! i" "Suc i < length ns"
  proof (cases "lab = []")
    case False
    then obtain i where i: "i < length ns" "lab = ns ! i" using lab(1) by (auto simp: in_set_conv_nth)
    then have "i = length ns - 1 \<or> Suc i < length ns" by linarith
    then show ?thesis using that ne i by (auto simp: last_conv_nth)
  qed
  then show thesis
  proof cases
    case 3
    then have "nameLess L lab (ns ! Suc i)" using s by (simp add: sorted_wrt_nth_less)
    then have "\<not> nameLess L (ns ! Suc i) n" "ns ! Suc i \<noteq> n" using great n 3(2) nth_mem by blast+
    then have "nameLess L n (ns ! Suc i)" using nameLess_linear [OF L] by blast
    then show thesis using that D(1) [OF 3(2)] lab(2) 3(1) by (simp add: denies_def)
  qed (use that wrap D(2,3) in auto)
qed

section \<open>The record the server sends\<close>

lemma covering_doe_range:
  assumes s: "server_ok L E s" and c: "covering_doe L s n row"
  shows "db_get L E (srv_ptr s) (srv_db s) (lbl_of L row, DOE_RR_TYPE) = Some (row_value L row)"
    "nameLess L (lbl_of L row) n"
    "\<And>l. db_get L E (srv_ptr s) (srv_db s) (l, DOE_RR_TYPE) \<noteq> None \<Longrightarrow> nameLess L l n \<Longrightarrow> \<not> nameLess L (lbl_of L row) l"
proof -
  note i = server_okD [OF s]
  have g: "db_good L E (srv_db s)" using i by (simp add: store_inv_def)
  note D = db_goodD [OF g]
  have key: "rr_key x = obj_key L (srv_ptr s) (lbl_of L x, typ_of L x)" if "x \<in> set (zone_rows (ns_zone (srv_ns s)) (srv_db s))" for x
    using that row_names(3,4) [OF D(1) db_good_rows [OF g]] by (auto simp: zone_rows_def rr_key_def key_of_def)
  have row: "row \<in> set (zone_rows (ns_zone (srv_ns s)) (srv_db s))" "typ_of L row = DOE_RR_TYPE" "nameLess L (lbl_of L row) n"
    using c by (simp_all add: covering_doe_def lower_row_def Let_def)
  then show "nameLess L (lbl_of L row) n" by blast
  have "row \<in> set (rrsets (m_tables (srv_db s)))" using row(1) by (simp add: zone_rows_def)
  from rr_at_member [OF D(7) this] key [OF row(1)] row(2)
  show "db_get L E (srv_ptr s) (srv_db s) (lbl_of L row, DOE_RR_TYPE) = Some (row_value L row)"
    by (simp add: db_get_at [OF i])
  fix l assume l: "db_get L E (srv_ptr s) (srv_db s) (l, DOE_RR_TYPE) \<noteq> None" "nameLess L l n"
  then obtain x where x: "rr_at (srv_db s) (obj_key L (srv_ptr s) (l, DOE_RR_TYPE)) = Some x"
    by (auto simp: db_get_at [OF i])
  have xs: "x \<in> set (zone_rows (ns_zone (srv_ns s)) (srv_db s))"
    using rr_at_Some [OF x] by (auto simp: zone_rows_def rr_key_def key_of_def)
  then have "lbl_of L x = l" "typ_of L x = DOE_RR_TYPE"
    using key [OF xs] rr_at_Some [OF x] key_of_inj [OF D(1)] by auto
  then show "\<not> nameLess L (lbl_of L row) l"
    using c xs l(2) by (auto simp: covering_doe_def lower_row_def Let_def)
qed

text \<open>With the guard in place there is a denial below every name.\<close>

lemma guard_covering:
  assumes s: "server_ok L E s" and guard: "srv_get L E s ([], DOE_RR_TYPE) \<noteq> None" and n: "n \<noteq> []"
  shows "\<exists>row. lower_row L (ns_zone (srv_ns s)) (srv_db s) n DOE_RR_TYPE row"
proof -
  note i = server_okD [OF s]
  have g: "db_good L E (srv_db s)" using i by (simp add: store_inv_def)
  note D = db_goodD [OF g]
  obtain x where x: "rr_at (srv_db s) (obj_key L (srv_ptr s) ([], DOE_RR_TYPE)) = Some x"
    using guard by (auto simp: db_get_at [OF i])
  note X = rr_at_Some [OF x]
  have "obj_key L (srv_ptr s) (lbl_of L x, typ_of L x) = obj_key L (srv_ptr s) ([], DOE_RR_TYPE)"
    using X row_names(3,4) [OF D(1) db_good_rows [OF g]] by (auto simp: rr_key_def key_of_def)
  then have "lbl_of L x = []" "typ_of L x = DOE_RR_TYPE" using key_of_inj [OF D(1)] by auto
  moreover have "x \<in> set (zone_rows (ns_zone (srv_ns s)) (srv_db s))"
    using X by (auto simp: zone_rows_def rr_key_def key_of_def)
  ultimately show ?thesis using n nameLess_Nil [OF D(1)] by (auto simp: lower_row_def)
qed

lemma absent_covering:
  "server_ok L E s \<Longrightarrow> chained L E (srv_ptr s) (srv_db s) ks \<Longrightarrow> n \<noteq> [] \<Longrightarrow>
   \<exists>row. lower_row L (ns_zone (srv_ns s)) (srv_db s) n DOE_RR_TYPE row"
  by (rule guard_covering, assumption, unfold chained_def, blast)

text \<open>The range of the record the server picks for a name.\<close>

lemma covering_lookup:
  assumes s: "server_ok L E s" and ch: "chained L E (srv_ptr s) (srv_db s) ks" and c: "covering_doe L s n row"
  shows "lbl_of L row = [] \<or> lbl_of L row \<in> set (map key_name ks)" "nameLess L (lbl_of L row) n"
    "\<And>x. x \<in> set (map key_name ks) \<Longrightarrow> nameLess L x n \<Longrightarrow> \<not> nameLess L (lbl_of L row) x"
    "map_of (doe_chain (map key_name ks)) (lbl_of L row) = range_of L (row_value L row)"
proof -
  note C = covering_doe_range [OF s c]
  have ds: "db_get L E (srv_ptr s) (srv_db s) (l, DOE_RR_TYPE) \<noteq> None \<longleftrightarrow> l = [] \<or> l \<in> set (map key_name ks)" for l
    using ch by (simp add: chained_def)
  show "lbl_of L row = [] \<or> lbl_of L row \<in> set (map key_name ks)" using C(1) ds by (metis option.distinct(1))
  show "nameLess L (lbl_of L row) n" by (rule C(2))
  show "\<And>x. x \<in> set (map key_name ks) \<Longrightarrow> nameLess L x n \<Longrightarrow> \<not> nameLess L (lbl_of L row) x" using C(3) ds by blast
  have "doe_range L E (srv_ptr s) (srv_db s) (lbl_of L row) = range_of L (row_value L row)"
    using C(1) by (simp add: doe_range_def)
  then show "map_of (doe_chain (map key_name ks)) (lbl_of L row) = range_of L (row_value L row)"
    using ch by (simp add: chained_def)
qed

lemma range_of_Some:
  assumes "range_of L v = Some r"
  obtains doe where "blockData L (snd (snd v)) = Some doe" "wireDecodeDoe L (d_content doe) = Inr r"
  using assms by (auto simp: range_of_def split: option.splits sum.splits)

lemma absent_not_in_chain:
  assumes "chained L E p d ks" "db_get L E p d (l, ty) = None"
  shows "l @ [ty] \<notin> set (map key_name ks)"
  using assms by (auto simp: chained_def zone_types_def key_name_def)

lemma chained_distinct:
  assumes L: "name_codec L" and "chained L E p d ks"
  shows "distinct (map key_name ks)"
proof -
  have "sorted_wrt (key_less L) ks" using assms(2) by (simp add: chained_def)
  then have "distinct ks"
    using nameLess_irrefl [OF L] compLess_irrefl [OF L] by (induction ks) (auto simp: key_less_def)
  then show ?thesis by (simp add: distinct_map inj_on_def)
qed

text \<open>What the resolver makes of a NACK that carries a DoE record.\<close>

lemma nack_opened:
  assumes "block_codec L" "data_codec L" and ct: "to_content_type (d_contentType ans) = NDNS_NACK"
    and cont: "d_content ans = d_content (setContent L b ans)" and b: "blockData L b = Some doe"
    and v: "case V of None \<Rightarrow> True | Some valid \<Rightarrow> valid doe"
  shows "onData_next L st V c ans = onDataValidated L st (c\<lparr>iq_doe := Some doe\<rparr>) doe NDNS_DOE"
proof -
  have "block_type b \<noteq> tlv_Content" by (rule data_codecD(4) [OF assms(2) b])
  then have "d_content ans = Block tlv_Content (blockWire L b)" using cont by (simp add: setContent_def)
  then have "Option.bind (blockFromValue L (d_content ans)) (blockData L) = Some doe"
    using b by (simp add: block_codecD [OF assms(1)])
  then show ?thesis using ct v by (simp add: onData_next_def split: option.splits)
qed

text \<open>A server over a zone with two chained records, for witnesses.\<close>

lemma sorted_pair:
  assumes "sorted_wrt R ks" "\<And>x. \<not> R x x" "set ks = {x, y}" "x \<noteq> y" "\<not> R y x"
  shows "ks = [x, y]"
proof -
  have "distinct ks" using assms(1,2) by (induction ks) auto
  then have "length ks = 2" using assms(3,4) distinct_card [of ks] by simp
  then obtain a b where "ks = [a, b]" by (auto simp: length_Suc_conv numeral_2_eq_2)
  with assms show ?thesis by (auto simp: doubleton_eq_iff)
qed

lemma two_chained:
  assumes less: "key_less ndn0 k1 k2" and ty: "snd k1 \<noteq> DOE_RR_TYPE" "snd k2 \<noteq> DOE_RR_TYPE"
  obtains s where "server_ok ndn0 sqlite0 s" "srv_ns s = srv_ns server_sample"
    "chained ndn0 sqlite0 (srv_ptr s) (srv_db s) [k1, k2]"
    "\<forall>k. snd k \<noteq> DOE_RR_TYPE \<longrightarrow> srv_get ndn0 sqlite0 s k = [k1 \<mapsto> w1, k2 \<mapsto> w2] k"
proof -
  note L = ndn0_name_codec
  have ir: "\<not> key_less ndn0 k k" for k using nameLess_irrefl [OF L] compLess_irrefl [OF L] by (simp add: key_less_def)
  have as: "\<not> key_less ndn0 k2 k1"
    using less nameLess_asym [OF L] compLess_asym [OF L] nameLess_irrefl [OF L] unfolding key_less_def by metis
  have ne: "k1 \<noteq> k2" using less ir by blast
  obtain d where d: "zone_ready ndn0 sqlite0 keychain_sample () ''db'' zone_sample d"
    "db_get ndn0 sqlite0 zone_sample d = [k1 \<mapsto> w1, k2 \<mapsto> w2]" "length (rrsets (m_tables d)) = 2"
    by (rule two_records [OF ne])
  have zt: "zone_types ndn0 sqlite0 zone_sample d = {k1, k2}"
    unfolding zone_types_def d(2) using ty by (cases w1; cases w2) (auto split: if_splits)
  have len: "length (rrsets (m_tables d)) < 2 ^ 60" and ne': "zone_types ndn0 sqlite0 zone_sample d \<noteq> {}" using d(3) zt by simp_all
  obtain d' ks where d': "zone_ready ndn0 sqlite0 keychain_sample () ''db'' zone_sample d'"
    "\<And>key. snd key \<noteq> DOE_RR_TYPE \<Longrightarrow> db_get ndn0 sqlite0 zone_sample d' key = db_get ndn0 sqlite0 zone_sample d key"
    "chained ndn0 sqlite0 zone_sample d' ks"
    by (rule generateDoe_ok [OF ndn0_ok d(1) sqlite0_roomy len ne', of 9 2], rule that, assumption, blast, assumption)
  have "zone_types ndn0 sqlite0 zone_sample d' = {k1, k2}" using zt zone_types_cong [OF d'(2)] by simp
  then have ks: "ks = [k1, k2]" using sorted_pair [OF _ ir _ ne as] d'(3) by (simp add: chained_def)
  define s where "s = server_sample\<lparr>srv_db := d'\<rparr>"
  have p: "srv_ptr s = zone_sample" by (simp add: s_def server_sample_def zone_sample_def)
  show thesis
  proof (rule that [of s])
    show "server_ok ndn0 sqlite0 s" using d'(1) p by (simp add: server_ok_def zone_ready_def s_def)
    show "chained ndn0 sqlite0 (srv_ptr s) (srv_db s) [k1, k2]" using d'(3) p by (simp add: ks s_def)
    show "\<forall>k. snd k \<noteq> DOE_RR_TYPE \<longrightarrow> srv_get ndn0 sqlite0 s k = [k1 \<mapsto> w1, k2 \<mapsto> w2] k"
      using d'(2) d(2) p by (auto simp: s_def)
  qed (simp add: s_def)
qed

section \<open>Absent records\<close>

text \<open>The answer to a query for an absent record, and the stored DoE record in it.\<close>

lemma absent_answer:
  assumes s: "server_ok L E s" and L: "ndn_ok L" and key: "\<And>x. signData L SigningDefault x \<noteq> None"
    and ch: "chained L E (srv_ptr s) (srv_db s) ks"
    and order: "sorted_wrt (nameLess L) (map key_name ks)" and two: "2 \<le> length ks"
    and n: "i_name i = rr_name (zone_name (ns_zone (srv_ns s))) l ty" "length (i_name i) < 2 ^ 64"
    and ty: "\<not> isVersion L ty" "ty \<noteq> NDNS_UPDATE_LABEL" and none: "srv_get L E s (l, ty) = None"
  obtains ans doe row where "onInterest L E now s i = (put ans s, Inr ())" "to_content_type (d_contentType ans) = NDNS_NACK"
    "srv_get L E s (lbl_of L row, DOE_RR_TYPE) = Some (row_value L row)" "blockData L (blk_of L row) = Some doe"
    "\<And>st V (c :: 'c iqc). (case V of None \<Rightarrow> True | Some valid \<Rightarrow> valid doe) \<Longrightarrow>
       onData_next L st V c ans = onDataValidated L st (c\<lparr>iq_doe := Some doe\<rparr>) doe NDNS_DOE"
    "\<And>c :: 'c iqc. iq_lastLabelType c = l @ [ty] \<Longrightarrow> isAbsentByDoe L c doe = Inr True"
proof -
  note D = ndn_okD [OF L]
  obtain row ans where row: "covering_doe L s (l @ [ty]) row" and on: "onInterest L E now s i = (put ans s, Inr ())"
    and ct: "to_content_type (d_contentType ans) = NDNS_NACK" and cont: "d_content ans = d_content (setContent L (blk_of L row) ans)"
    using onInterest_absent [OF s D(5) key n ty none, of now] absent_covering [OF s ch, of "l @ [ty]"] by auto
  note C = covering_lookup [OF s ch row]
  have nil: "[] \<notin> set (map key_name ks)" and len: "2 \<le> length (map key_name ks)" using two by (auto simp: key_name_def)
  obtain r where r: "map_of (doe_chain (map key_name ks)) (lbl_of L row) = Some r" "denies L r (l @ [ty])"
    by (rule chain_denies [OF D(1) order len nil absent_not_in_chain [OF ch none] C(1,2,3)])
  then obtain doe where doe: "blockData L (blk_of L row) = Some doe" "wireDecodeDoe L (d_content doe) = Inr r"
    using range_of_Some [of L "row_value L row" r] C(4) by (auto simp: row_value_def)
  have "isAbsentByDoe L c doe = Inr True" if "iq_lastLabelType c = l @ [ty]" for c :: "'c iqc"
    using isAbsentByDoe_denies [OF D(1) doe(2), of c] r(2) that by simp
  then show thesis
    using that on ct covering_doe_range(1) [OF s row] doe(1) nack_opened [OF D(3,4) ct cont doe(1)] by blast
qed

text \<open>
  C10: Denial of existence is complete: in a zone whose DoE chain was made by \<open>generateDoe\<close>, with at least two records
  and whose order by label and type agrees with the order of the names, a query for a record that is not there is answered with a
  NACK from which every resolver that asked for that name infers its absence; in the search for the delegation it
  goes on to query the record itself.
\<close>

theorem absent_record_denied:
  assumes s: "server_ok L E s" and L: "ndn_ok L" and key: "\<And>x. signData L SigningDefault x \<noteq> None"
    and ch: "chained L E (srv_ptr s) (srv_db s) ks"
    and order: "sorted_wrt (nameLess L) (map key_name ks)" and two: "2 \<le> length ks"
    and n: "i_name i = rr_name (zone_name (ns_zone (srv_ns s))) l ty" "length (i_name i) < 2 ^ 64"
    and ty: "\<not> isVersion L ty" "ty \<noteq> NDNS_UPDATE_LABEL" and none: "srv_get L E s (l, ty) = None"
  shows "\<exists>ans doe. onInterest L E now s i = (put ans s, Inr ()) \<and> to_content_type (d_contentType ans) = NDNS_NACK \<and>
           (\<forall>st V (c :: 'c iqc). (case V of None \<Rightarrow> True | Some valid \<Rightarrow> valid doe) \<longrightarrow>
              onData_next L st V c ans = onDataValidated L st (c\<lparr>iq_doe := Some doe\<rparr>) doe NDNS_DOE) \<and>
           (\<forall>c :: 'c iqc. iq_lastLabelType c = l @ [ty] \<longrightarrow>
              isAbsentByDoe L c doe = Inr True \<and> ns_transition L c doe NDNS_DOE = (c\<lparr>iq_step := QUERY_STEP_QUERY_RR\<rparr>, Inr ()))"
proof -
  obtain ans doe row where a: "onInterest L E now s i = (put ans s, Inr ())" "to_content_type (d_contentType ans) = NDNS_NACK"
    "\<And>st V (c :: 'c iqc). (case V of None \<Rightarrow> True | Some valid \<Rightarrow> valid doe) \<Longrightarrow>
       onData_next L st V c ans = onDataValidated L st (c\<lparr>iq_doe := Some doe\<rparr>) doe NDNS_DOE"
    "\<And>c :: 'c iqc. iq_lastLabelType c = l @ [ty] \<Longrightarrow> isAbsentByDoe L c doe = Inr True"
    by (rule absent_answer [OF s L key ch order two n ty none, of now]) blast
  then have "ns_transition L c doe NDNS_DOE = (c\<lparr>iq_step := QUERY_STEP_QUERY_RR\<rparr>, Inr ())"
    if "iq_lastLabelType c = l @ [ty]" for c :: "'c iqc"
    using that by (simp add: ns_transition_def)
  with a show ?thesis by blast
qed

lemma query_name_sample:
  "i_name (toInterest ((Query_new [generic ''net''] NDNS_ITERATIVE_QUERY)\<lparr>q_rrLabel := l, q_rrType := ty\<rparr>)) =
     rr_name (zone_name (ns_zone (srv_ns server_sample))) l ty"
  by (simp add: toInterest_def Query_new_def rr_name_def server_sample_def zone_sample_def)

theorem absent_record_denied_witness:
  "\<exists>s ans doe. onInterest ndn0 sqlite0 9 s
       (toInterest ((Query_new [generic ''net''] NDNS_ITERATIVE_QUERY)\<lparr>q_rrLabel := [generic ''c''], q_rrType := NS_RR_TYPE\<rparr>)) =
       (put ans s, Inr ()) \<and>
     (\<forall>c :: unit iqc. iq_lastLabelType c = [generic ''c'', NS_RR_TYPE] \<longrightarrow> isAbsentByDoe ndn0 c doe = Inr True)"
proof -
  let ?k1 = "([generic ''a''], TXT_RR_TYPE)" and ?k2 = "([generic ''b''], TXT_RR_TYPE)"
  let ?i = "toInterest ((Query_new [generic ''net''] NDNS_ITERATIVE_QUERY)\<lparr>q_rrLabel := [generic ''c''], q_rrType := NS_RR_TYPE\<rparr>)"
  have less: "key_less ndn0 ?k1 ?k2" by (simp add: key_less_def ndn0_nameLess_single)
  have ty: "snd ?k1 \<noteq> DOE_RR_TYPE" "snd ?k2 \<noteq> DOE_RR_TYPE" "snd ([generic ''c''], NS_RR_TYPE) \<noteq> DOE_RR_TYPE"
    "NS_RR_TYPE \<noteq> NDNS_UPDATE_LABEL"
    by (simp_all add: label_defs)
  obtain s where s: "server_ok ndn0 sqlite0 s" "srv_ns s = srv_ns server_sample"
    "chained ndn0 sqlite0 (srv_ptr s) (srv_db s) [?k1, ?k2]"
    "\<forall>k. snd k \<noteq> DOE_RR_TYPE \<longrightarrow> srv_get ndn0 sqlite0 s k = [?k1 \<mapsto> value_sample, ?k2 \<mapsto> value_sample] k"
    by (rule two_chained [OF less ty(1,2)])
  have order: "sorted_wrt (nameLess ndn0) (map key_name [?k1, ?k2])"
    by (simp add: key_name_def ndn0_def compWire0_def blockWire0_def comp_block_def)
  have none: "srv_get ndn0 sqlite0 s ([generic ''c''], NS_RR_TYPE) = None" using s(4) ty(3) by simp
  have n: "i_name ?i = rr_name (zone_name (ns_zone (srv_ns s))) [generic ''c''] NS_RR_TYPE"
    unfolding s(2) by (rule query_name_sample)
  have len: "length (i_name ?i) < 2 ^ 64" by (simp add: toInterest_def Query_new_def)
  have key: "signData ndn0 SigningDefault x \<noteq> None" for x by simp
  have v: "\<not> isVersion ndn0 NS_RR_TYPE" by simp
  show ?thesis
    using absent_record_denied [OF s(1) ndn0_ok key s(3) order _ n len v ty(4) none, of 9] by fastforce
qed

text \<open>
  C39: Where the chain does not run forwards (its last name does not follow its first one: a zone with a single record, or a zone
  whose order by label and type, by which \<open>generateDoe\<close> sorts, is not the order of the names), the guard record cannot
  deny a name below all others: the server answers the query for such an absent record with a NACK, and the resolver
  throws because it cannot infer the absence.
\<close>

theorem absent_record_not_denied:
  assumes s: "server_ok L E s" and L: "ndn_ok L" and key: "\<And>x. signData L SigningDefault x \<noteq> None"
    and ch: "chained L E (srv_ptr s) (srv_db s) ks" and ne: "ks \<noteq> []"
    and turn: "\<not> nameLess L (key_name (hd ks)) (key_name (last ks))"
    and low: "\<forall>k \<in> set ks. nameLess L (l @ [ty]) (key_name k)"
    and n: "i_name i = rr_name (zone_name (ns_zone (srv_ns s))) l ty" "length (i_name i) < 2 ^ 64"
    and ty: "\<not> isVersion L ty" "ty \<noteq> NDNS_UPDATE_LABEL" and none: "srv_get L E s (l, ty) = None"
  shows "\<exists>ans doe. onInterest L E now s i = (put ans s, Inr ()) \<and> to_content_type (d_contentType ans) = NDNS_NACK \<and>
           (\<forall>st V (c :: 'c iqc). (case V of None \<Rightarrow> True | Some valid \<Rightarrow> valid doe) \<longrightarrow>
              onData_next L st V c ans = onDataValidated L st (c\<lparr>iq_doe := Some doe\<rparr>) doe NDNS_DOE) \<and>
           (\<forall>c :: 'c iqc. iq_lastLabelType c = l @ [ty] \<longrightarrow>
              ns_transition L c doe NDNS_DOE = (c, Inl (Runtime_Error ''absence of record can not be infered from DoE'')))"
proof -
  note D = ndn_okD [OF L]
  obtain row ans where row: "covering_doe L s (l @ [ty]) row" and on: "onInterest L E now s i = (put ans s, Inr ())"
    and ct: "to_content_type (d_contentType ans) = NDNS_NACK" and cont: "d_content ans = d_content (setContent L (blk_of L row) ans)"
    using onInterest_absent [OF s D(5) key n ty none, of now] absent_covering [OF s ch, of "l @ [ty]"] by auto
  note C = covering_lookup [OF s ch row]
  let ?ns = "map key_name ks"
  have low': "\<And>x. x \<in> set ?ns \<Longrightarrow> nameLess L (l @ [ty]) x" using low by auto
  then have lab: "lbl_of L row = []" using C(1,2) nameLess_asym [OF D(1)] by blast
  have nil: "[] \<notin> set ?ns" by (auto simp: key_name_def)
  have "map_of (doe_chain ?ns) [] = Some (last ?ns, hd ?ns)"
    by (rule doe_chain_lookup(3) [OF chained_distinct [OF D(1) ch] nil]) (use ne in simp)
  then obtain doe where doe: "blockData L (blk_of L row) = Some doe" "wireDecodeDoe L (d_content doe) = Inr (last ?ns, hd ?ns)"
    using range_of_Some [of L "row_value L row" "(last ?ns, hd ?ns)"] C(4) lab by (auto simp: row_value_def)
  have "last ?ns \<in> set ?ns" using ne by (intro last_in_set) simp
  then have "\<not> nameLess L (last ?ns) (l @ [ty])" using low' nameLess_asym [OF D(1)] by blast
  then have "\<not> denies L (last ?ns, hd ?ns) (l @ [ty])" using turn ne by (simp add: denies_def last_map hd_map)
  then have "ns_transition L c doe NDNS_DOE = (c, Inl (Runtime_Error ''absence of record can not be infered from DoE''))"
    if "iq_lastLabelType c = l @ [ty]" for c :: "'c iqc"
    using isAbsentByDoe_denies [OF D(1) doe(2), of c] that by (simp add: ns_transition_def)
  with on ct nack_opened [OF D(3,4) ct cont doe(1)] show ?thesis by blast
qed

text \<open>The label www holds a delegation check (NS) and www/a a text: by label the first precedes, by name the second.\<close>

theorem absent_record_not_denied_witness:
  "\<exists>s ans doe. onInterest ndn0 sqlite0 9 s
       (toInterest ((Query_new [generic ''net''] NDNS_ITERATIVE_QUERY)\<lparr>q_rrLabel := [generic ''c''], q_rrType := NS_RR_TYPE\<rparr>)) =
       (put ans s, Inr ()) \<and>
     (\<forall>c :: unit iqc. iq_lastLabelType c = [generic ''c'', NS_RR_TYPE] \<longrightarrow>
        ns_transition ndn0 c doe NDNS_DOE = (c, Inl (Runtime_Error ''absence of record can not be infered from DoE'')))"
proof -
  let ?k1 = "([generic ''www''], NS_RR_TYPE)" and ?k2 = "([generic ''www'', generic ''a''], TXT_RR_TYPE)"
  let ?i = "toInterest ((Query_new [generic ''net''] NDNS_ITERATIVE_QUERY)\<lparr>q_rrLabel := [generic ''c''], q_rrType := NS_RR_TYPE\<rparr>)"
  have less: "key_less ndn0 ?k1 ?k2"
    by (simp add: key_less_def ndn0_def compWire0_def blockWire0_def comp_block_def)
  have ty: "snd ?k1 \<noteq> DOE_RR_TYPE" "snd ?k2 \<noteq> DOE_RR_TYPE" "snd ([generic ''c''], NS_RR_TYPE) \<noteq> DOE_RR_TYPE"
    "NS_RR_TYPE \<noteq> NDNS_UPDATE_LABEL"
    by (simp_all add: label_defs)
  obtain s where s: "server_ok ndn0 sqlite0 s" "srv_ns s = srv_ns server_sample"
    "chained ndn0 sqlite0 (srv_ptr s) (srv_db s) [?k1, ?k2]"
    "\<forall>k. snd k \<noteq> DOE_RR_TYPE \<longrightarrow> srv_get ndn0 sqlite0 s k = [?k1 \<mapsto> value_sample, ?k2 \<mapsto> value_sample] k"
    by (rule two_chained [OF less ty(1,2)])
  have turn: "\<not> nameLess ndn0 (key_name (hd [?k1, ?k2])) (key_name (last [?k1, ?k2]))"
    by (simp add: key_name_def ndn0_def compWire0_def blockWire0_def comp_block_def label_defs)
  have low: "\<forall>k \<in> set [?k1, ?k2]. nameLess ndn0 ([generic ''c''] @ [NS_RR_TYPE]) (key_name k)"
    by (simp add: key_name_def ndn0_def compWire0_def blockWire0_def comp_block_def label_defs)
  have none: "srv_get ndn0 sqlite0 s ([generic ''c''], NS_RR_TYPE) = None" using s(4) ty(3) by simp
  have n: "i_name ?i = rr_name (zone_name (ns_zone (srv_ns s))) [generic ''c''] NS_RR_TYPE"
    unfolding s(2) by (rule query_name_sample)
  have len: "length (i_name ?i) < 2 ^ 64" by (simp add: toInterest_def Query_new_def)
  have key: "signData ndn0 SigningDefault x \<noteq> None" for x by simp
  have v: "\<not> isVersion ndn0 NS_RR_TYPE" by simp
  show ?thesis
    using absent_record_not_denied [OF s(1) ndn0_ok key s(3) _ turn low n len v ty(4) none, of 9] by fastforce
qed

end
