(* ===== verification/CertFetcher.thy ===== *)
theory CertFetcher
  imports IterativeQueryProps
begin

text \<open>
  The certificate fetchers (\<open>src/validator/certificate-fetcher-ndns-cert.cpp\<close>, \<open>certificate-fetcher-ndns-appcert.cpp\<close>): the
  validator calls them for each certificate of a chain. The first looks up the delegation of the zone in the certificate
  name with the iterative resolver and then asks for the certificate itself; the second resolves the certificate as a record.

  One request with its validation state is the record \<open>fetching\<close>. Its tag keeps the resolver alive. What is done to the outside is the list
  \<open>fx_out\<close>, the last action first. \<open>C\<close> says which packets are certificates (\<open>Certificate(data)\<close> does not throw), \<open>W\<close> is the cache of
  unverified certificates that \<open>CertificateFetcher::fetch\<close> of ndn-cxx asks before it calls \<open>doFetch\<close>.
\<close>

section \<open>State\<close>

datatype fail_code = MALFORMED_CERT | CANNOT_RETRIEVE_CERT

datatype fetch_action =
    ExpressNs interest
  | ExpressCert interest
  | ContinueValidation data
  | FailValidation fail_code

record 'c cert_fetcher =
  cf_nsCache :: 'c
  cf_startComponentIndex :: nat

record 'c fetching =
  fx_fetcher :: "'c cert_fetcher"
  fx_interest :: interest
  fx_nRetriesLeft :: int
  fx_tag :: "'c iqc option"
  fx_out :: "fetch_action list"

definition CertificateFetcherNdnsCert_new :: "'c \<Rightarrow> nat \<Rightarrow> 'c cert_fetcher" where
  "CertificateFetcherNdnsCert_new emptyCache startComponentIndex =
     \<lparr>cf_nsCache = emptyCache, cf_startComponentIndex = startComponentIndex\<rparr>"

definition emit :: "fetch_action \<Rightarrow> 'c fetching \<Rightarrow> 'c fetching" where
  "emit a x = x\<lparr>fx_out := a # fx_out x\<rparr>"

section \<open>The certificate of a zone\<close>

fun domain_before_marker :: "name \<Rightarrow> name option" where
  "domain_before_marker [] = None"
| "domain_before_marker (c # key) =
     (if c = NDNS_ITERATIVE_QUERY then Some [] else map_option ((#) c) (domain_before_marker key))"

definition calculateDomain :: "name \<Rightarrow> error + name" where
  "calculateDomain key = or_throw (Runtime_Error ''is not a legal NDNS certificate name'') (domain_before_marker key)"

definition cert_interest :: "'c fetching \<Rightarrow> name list \<Rightarrow> interest" where
  "cert_interest x hint =
     \<lparr>i_name = i_name (fx_interest x) @ [CERT_RR_TYPE], i_canBePrefix = True,
      i_lifetime = DEFAULT_INTEREST_LIFETIME, i_forwardingHint = hint\<rparr>"

definition nsSuccessCallback :: "ndn \<Rightarrow> data \<Rightarrow> 'c fetching \<Rightarrow> ('c fetching, unit) res" where
  "nsSuccessCallback L data x =
     (if to_content_type (d_contentType data) = NDNS_LINK
      then (case linkDelegations L (dataBlock L data) of
              None \<Rightarrow> (x, Inl Tlv_Error)
            | Some delList \<Rightarrow> (emit (ExpressCert (cert_interest x delList)) x, Inr ()))
      else (emit (ExpressCert (cert_interest x [])) x, Inr ()))"

definition nsFailCallback :: "'c fetching \<Rightarrow> 'c fetching" where
  "nsFailCallback x = emit (ExpressCert (cert_interest x [])) x"

text \<open>The actions of the resolver, in their order, as the callbacks given to it see them.\<close>

fun relay :: "ndn \<Rightarrow> iq_action list \<Rightarrow> 'c fetching \<Rightarrow> ('c fetching, unit) res" where
  "relay L [] x = (x, Inr ())"
| "relay L (Sent i # as) x = relay L as (emit (ExpressNs i) x)"
| "relay L (Succeeded d re # as) x = and_then (nsSuccessCallback L d x) (\<lambda>x _. relay L as x)"
| "relay L (Failed errCode errMsg # as) x = relay L as (nsFailCallback x)"

text \<open>After a call of the resolver: its changes of the shared cache, its actions, and the exception if it threw one.\<close>

definition share_cache :: "'c iqc \<Rightarrow> 'c fetching \<Rightarrow> 'c fetching" where
  "share_cache q x =
     (case iq_nsCache q of Some m \<Rightarrow> x\<lparr>fx_fetcher := (fx_fetcher x)\<lparr>cf_nsCache := m\<rparr>\<rparr> | None \<Rightarrow> x)"

definition after_call ::
  "ndn \<Rightarrow> 'c fetching \<Rightarrow> ('c iqc, unit) res \<Rightarrow> ('c fetching, 'c iqc) res" where
  "after_call L x r =
     and_then (relay L (rev (iq_out (fst r))) (share_cache (fst r) x)) (\<lambda>x _.
       case snd r of Inl e \<Rightarrow> (x, Inl e) | Inr _ \<Rightarrow> (x, Inr ((fst r)\<lparr>iq_out := []\<rparr>)))"

definition new_query :: "'c fetching \<Rightarrow> name \<Rightarrow> component \<Rightarrow> 'c iqc" where
  "new_query x domain rrType =
     setStartComponentIndex
       (IterativeQueryController_new domain rrType (i_lifetime (fx_interest x)) (Some (cf_nsCache (fx_fetcher x))))
       (cf_startComponentIndex (fx_fetcher x))"

definition doFetch :: "ndn \<Rightarrow> 'c storage \<Rightarrow> nat \<Rightarrow> 'c fetching \<Rightarrow> ('c fetching, unit) res" where
  "doFetch L st fuel x =
     and_then (lift_err x (calculateDomain (i_name (fx_interest x)))) (\<lambda>x domain.
       if length domain = cf_startComponentIndex (fx_fetcher x) then (nsFailCallback x, Inr ())
       else and_then (after_call L x (start L st None fuel (new_query x domain NS_RR_TYPE))) (\<lambda>x q.
              (x\<lparr>fx_tag := Some q\<rparr>, Inr ())))"

definition fetch ::
  "ndn \<Rightarrow> 'c storage \<Rightarrow> nat \<Rightarrow> (interest \<Rightarrow> data option) \<Rightarrow> 'c fetching \<Rightarrow> ('c fetching, unit) res" where
  "fetch L st fuel W x =
     (case W (fx_interest x) of
        Some cert \<Rightarrow> (emit (ContinueValidation cert) x, Inr ())
      | None \<Rightarrow> doFetch L st fuel x)"

text \<open>Answers to the resolver; without the tag the resolver has been destroyed.\<close>

definition with_query ::
  "ndn \<Rightarrow> 'c fetching \<Rightarrow> ('c iqc \<Rightarrow> ('c iqc, unit) res) \<Rightarrow> ('c fetching, unit) res" where
  "with_query L x f =
     (case fx_tag x of
        None \<Rightarrow> (x, Inl Undefined)
      | Some q \<Rightarrow>
          and_then (after_call L x (f (q\<lparr>iq_nsCache := Some (cf_nsCache (fx_fetcher x))\<rparr>))) (\<lambda>x q.
            (x\<lparr>fx_tag := Some q\<rparr>, Inr ())))"

definition dataCallback :: "(data \<Rightarrow> bool) \<Rightarrow> data \<Rightarrow> 'c fetching \<Rightarrow> 'c fetching" where
  "dataCallback C data x =
     (let x = x\<lparr>fx_tag := None\<rparr>
      in if C data then emit (ContinueValidation data) x else emit (FailValidation MALFORMED_CERT) x)"

text \<open>The two callbacks differ only in what they log.\<close>

definition nackCallback ::
  "ndn \<Rightarrow> 'c storage \<Rightarrow> nat \<Rightarrow> (interest \<Rightarrow> data option) \<Rightarrow> 'c fetching \<Rightarrow> ('c fetching, unit) res" where
  "nackCallback L st fuel W x =
     (let x = x\<lparr>fx_nRetriesLeft := fx_nRetriesLeft x - 1\<rparr>
      in if 0 \<le> fx_nRetriesLeft x then fetch L st fuel W x
         else (emit (FailValidation CANNOT_RETRIEVE_CERT) (x\<lparr>fx_tag := None\<rparr>), Inr ()))"

definition timeoutCallback ::
  "ndn \<Rightarrow> 'c storage \<Rightarrow> nat \<Rightarrow> (interest \<Rightarrow> data option) \<Rightarrow> 'c fetching \<Rightarrow> ('c fetching, unit) res" where
  "timeoutCallback L st fuel W x =
     (let x = x\<lparr>fx_nRetriesLeft := fx_nRetriesLeft x - 1\<rparr>
      in if 0 \<le> fx_nRetriesLeft x then fetch L st fuel W x
         else (emit (FailValidation CANNOT_RETRIEVE_CERT) (x\<lparr>fx_tag := None\<rparr>), Inr ()))"

section \<open>A request as a transition system\<close>

text \<open>The Interest that is out is the last action; each kind of answer to it is a step.\<close>

inductive fetch_step ::
  "ndn \<Rightarrow> 'c storage \<Rightarrow> nat \<Rightarrow> (interest \<Rightarrow> data option) \<Rightarrow> (data \<Rightarrow> bool) \<Rightarrow> 'c fetching \<Rightarrow> 'c fetching \<Rightarrow> bool"
  for L st fuel W C where
  ns_data: "fx_out x = ExpressNs i # as \<Longrightarrow> with_query L x (\<lambda>q. onData L st None fuel q d) = (x', Inr ()) \<Longrightarrow>
     fetch_step L st fuel W C x x'"
| ns_timeout: "fx_out x = ExpressNs i # as \<Longrightarrow> with_query L x (\<lambda>q. (onTimeout q i, Inr ())) = (x', Inr ()) \<Longrightarrow>
     fetch_step L st fuel W C x x'"
| cert_data: "fx_out x = ExpressCert i # as \<Longrightarrow> fetch_step L st fuel W C x (dataCallback C d x)"
| cert_timeout: "fx_out x = ExpressCert i # as \<Longrightarrow> timeoutCallback L st fuel W x = (x', Inr ()) \<Longrightarrow>
     fetch_step L st fuel W C x x'"
| cert_nack: "fx_out x = ExpressCert i # as \<Longrightarrow> nackCallback L st fuel W x = (x', Inr ()) \<Longrightarrow>
     fetch_step L st fuel W C x x'"

inductive fetch_run ::
  "ndn \<Rightarrow> 'c storage \<Rightarrow> nat \<Rightarrow> (interest \<Rightarrow> data option) \<Rightarrow> (data \<Rightarrow> bool) \<Rightarrow> 'c fetching \<Rightarrow> 'c fetching \<Rightarrow> bool"
  for L st fuel W C where
  fetched: "fx_out x = [] \<Longrightarrow> fx_tag x = None \<Longrightarrow> fetch L st fuel W x = (x', Inr ()) \<Longrightarrow> fetch_run L st fuel W C x x'"
| answered: "fetch_run L st fuel W C x y \<Longrightarrow> fetch_step L st fuel W C y z \<Longrightarrow> fetch_run L st fuel W C x z"

section \<open>The certificate of an application\<close>

text \<open>The record is resolved, validated by \<open>V\<close> and then taken apart. Only the callbacks differ.\<close>

definition onQueryFailCallback :: "'c fetching \<Rightarrow> 'c fetching" where
  "onQueryFailCallback x = emit (FailValidation CANNOT_RETRIEVE_CERT) (x\<lparr>fx_tag := None\<rparr>)"

definition onValidationSuccessCallback :: "ndn \<Rightarrow> (data \<Rightarrow> bool) \<Rightarrow> data \<Rightarrow> 'c fetching \<Rightarrow> 'c fetching" where
  "onValidationSuccessCallback L C data x =
     (let x = x\<lparr>fx_tag := None\<rparr>
      in if to_content_type (d_contentType data) = NDNS_NACK then emit (FailValidation CANNOT_RETRIEVE_CERT) x
         else case Option.bind (blockFromValue L (d_content data)) (blockData L) of
                None \<Rightarrow> emit (FailValidation MALFORMED_CERT) x
              | Some cert \<Rightarrow> if C cert then emit (ContinueValidation cert) x else emit (FailValidation MALFORMED_CERT) x)"

definition onValidationFailCallback :: "'c fetching \<Rightarrow> 'c fetching" where
  "onValidationFailCallback x = emit (FailValidation CANNOT_RETRIEVE_CERT) (x\<lparr>fx_tag := None\<rparr>)"

definition onQuerySuccessCallback :: "ndn \<Rightarrow> (data \<Rightarrow> bool) \<Rightarrow> (data \<Rightarrow> bool) \<Rightarrow> data \<Rightarrow> 'c fetching \<Rightarrow> 'c fetching" where
  "onQuerySuccessCallback L C V data x =
     (if V data then onValidationSuccessCallback L C data x else onValidationFailCallback x)"

fun relay_app :: "ndn \<Rightarrow> (data \<Rightarrow> bool) \<Rightarrow> (data \<Rightarrow> bool) \<Rightarrow> iq_action list \<Rightarrow> 'c fetching \<Rightarrow> 'c fetching" where
  "relay_app L C V [] x = x"
| "relay_app L C V (Sent i # as) x = relay_app L C V as (emit (ExpressNs i) x)"
| "relay_app L C V (Succeeded d re # as) x = relay_app L C V as (onQuerySuccessCallback L C V d x)"
| "relay_app L C V (Failed errCode errMsg # as) x = relay_app L C V as (onQueryFailCallback x)"

definition after_call_app ::
  "ndn \<Rightarrow> (data \<Rightarrow> bool) \<Rightarrow> (data \<Rightarrow> bool) \<Rightarrow> 'c fetching \<Rightarrow> ('c iqc, unit) res \<Rightarrow> ('c fetching, 'c iqc) res" where
  "after_call_app L C V x r =
     (let x = relay_app L C V (rev (iq_out (fst r))) (share_cache (fst r) x)
      in case snd r of Inl e \<Rightarrow> (x, Inl e) | Inr _ \<Rightarrow> (x, Inr ((fst r)\<lparr>iq_out := []\<rparr>)))"

definition doFetch_app ::
  "ndn \<Rightarrow> 'c storage \<Rightarrow> (data \<Rightarrow> bool) \<Rightarrow> (data \<Rightarrow> bool) \<Rightarrow> nat \<Rightarrow> 'c fetching \<Rightarrow> ('c fetching, unit) res" where
  "doFetch_app L st C V fuel x =
     and_then (after_call_app L C V x (start L st None fuel (new_query x (i_name (fx_interest x)) APPCERT_RR_TYPE))) (\<lambda>x q.
       (x\<lparr>fx_tag := Some q\<rparr>, Inr ()))"

text \<open>An answer to the resolver. A final callback removes the tag; the resolver lives until its call returns.\<close>

definition answer_app ::
  "ndn \<Rightarrow> 'c storage \<Rightarrow> (data \<Rightarrow> bool) \<Rightarrow> (data \<Rightarrow> bool) \<Rightarrow> nat \<Rightarrow> 'c fetching \<Rightarrow> data \<Rightarrow> ('c fetching, unit) res" where
  "answer_app L st C V fuel x data =
     (case fx_tag x of
        None \<Rightarrow> (x, Inl Undefined)
      | Some q \<Rightarrow>
          and_then (after_call_app L C V x (onData L st None fuel (q\<lparr>iq_nsCache := Some (cf_nsCache (fx_fetcher x))\<rparr>) data)) (\<lambda>x q.
            (if fx_tag x = None then x else x\<lparr>fx_tag := Some q\<rparr>, Inr ())))"

end
