(* ===== verification/CertFetcherProps.thy ===== *)
theory CertFetcherProps
  imports CertFetcher
begin

text \<open>
  A request for a certificate gives exactly one verdict, after a bounded number of attempts.
\<close>

section \<open>One attempt\<close>

definition tag_clean :: "'c fetching \<Rightarrow> bool" where
  "tag_clean x \<longleftrightarrow> (\<forall>q. fx_tag x = Some q \<longrightarrow> iq_out q = [])"

text \<open>What one call leaves: one more action, an Interest or the continuation with a cached certificate.\<close>

definition one_more :: "(interest \<Rightarrow> data option) \<Rightarrow> 'c fetching \<Rightarrow> 'c fetching \<Rightarrow> bool" where
  "one_more W x x' \<longleftrightarrow>
     fx_nRetriesLeft x' = fx_nRetriesLeft x \<and> fx_interest x' = fx_interest x \<and> tag_clean x' \<and>
     (\<exists>a. fx_out x' = a # fx_out x \<and>
        ((\<exists>i. a = ExpressNs i) \<or> (\<exists>hint. a = ExpressCert (cert_interest x hint)) \<or>
         (\<exists>cert. a = ContinueValidation cert \<and> W (fx_interest x) = Some cert)))"

lemma share_cache_simps [simp]:
  "fx_out (share_cache q x) = fx_out x" "fx_nRetriesLeft (share_cache q x) = fx_nRetriesLeft x"
  "fx_interest (share_cache q x) = fx_interest x" "fx_tag (share_cache q x) = fx_tag x"
  "cert_interest (share_cache q x) hint = cert_interest x hint"
  by (simp_all add: share_cache_def cert_interest_def split: option.splits)

lemma emit_simps [simp]:
  "fx_out (emit a x) = a # fx_out x" "fx_nRetriesLeft (emit a x) = fx_nRetriesLeft x"
  "fx_interest (emit a x) = fx_interest x" "fx_tag (emit a x) = fx_tag x" "fx_fetcher (emit a x) = fx_fetcher x"
  by (simp_all add: emit_def)

lemma after_call_Inr:
  "after_call L x (q, r) = (x1, Inr q1) \<Longrightarrow>
   r = Inr () \<and> q1 = q\<lparr>iq_out := []\<rparr> \<and> relay L (rev (iq_out q)) (share_cache q x) = (x1, Inr ())"
  by (cases r) (auto simp: after_call_def and_then_Inr)

lemma after_call_one:
  assumes "after_call L x (q, r) = (x1, Inr q1)" "iq_out q = [a]"
  shows "one_more W x (x1\<lparr>fx_tag := Some q1\<rparr>)"
proof -
  have r: "relay L [a] (share_cache q x) = (x1, Inr ())" and q1: "iq_out q1 = []"
    using after_call_Inr [OF assms(1)] assms(2) by simp_all
  have "\<exists>b. x1 = emit b (share_cache q x) \<and> ((\<exists>i. b = ExpressNs i) \<or> (\<exists>hint. b = ExpressCert (cert_interest x hint)))"
    using r by (cases a) (auto simp: nsSuccessCallback_def nsFailCallback_def and_then_Inr split: if_splits option.splits)
  then show ?thesis using q1 by (auto simp: one_more_def tag_clean_def)
qed

lemma fetch_one:
  assumes "fetch L st fuel W x = (x', Inr ())" "tag_clean x"
  shows "one_more W x x'"
proof (cases "W (fx_interest x)")
  case (Some cert)
  then show ?thesis using assms by (auto simp: fetch_def one_more_def tag_clean_def)
next
  case None
  then obtain domain where d: "calculateDomain (i_name (fx_interest x)) = Inr domain"
    and k: "(if length domain = cf_startComponentIndex (fx_fetcher x) then (nsFailCallback x, Inr ())
       else and_then (after_call L x (start L st None fuel (new_query x domain NS_RR_TYPE))) (\<lambda>x q. (x\<lparr>fx_tag := Some q\<rparr>, Inr ()))) =
       (x', Inr ())"
    using assms(1) by (auto simp: fetch_def doFetch_def and_then_Inr)
  show ?thesis
  proof (cases "length domain = cf_startComponentIndex (fx_fetcher x)")
    case True
    then show ?thesis using k assms(2) by (auto simp: nsFailCallback_def one_more_def tag_clean_def)
  next
    case False
    obtain q r where s: "start L st None fuel (new_query x domain NS_RR_TYPE) = (q, r)" by fastforce
    then obtain x1 q1 where x1: "after_call L x (q, r) = (x1, Inr q1)" "x' = x1\<lparr>fx_tag := Some q1\<rparr>"
      using k False by (auto simp: and_then_Inr)
    then have "r = Inr ()" using after_call_Inr by blast
    then obtain a where "iq_out q = [a]"
      using start_out s by (fastforce simp: new_query_def setStartComponentIndex_def IterativeQueryController_new_def)
    then show ?thesis using after_call_one [OF x1(1)] x1(2) by blast
  qed
qed

lemma with_query_one:
  assumes "with_query L x f = (x', Inr ())" "tag_clean x"
    and f: "\<And>q q'. f q = (q', Inr ()) \<Longrightarrow> \<exists>a. iq_out q' = a # iq_out q"
  shows "one_more W x x'"
proof -
  obtain q where q: "fx_tag x = Some q" "iq_out q = []" using assms(1,2) by (auto simp: with_query_def tag_clean_def split: option.splits)
  obtain q' r where fq: "f (q\<lparr>iq_nsCache := Some (cf_nsCache (fx_fetcher x))\<rparr>) = (q', r)" by fastforce
  then obtain x1 q1 where x1: "after_call L x (q', r) = (x1, Inr q1)" "x' = x1\<lparr>fx_tag := Some q1\<rparr>"
    using assms(1) q(1) by (auto simp: with_query_def and_then_Inr)
  then have "r = Inr ()" using after_call_Inr by blast
  then obtain a where "iq_out q' = [a]" using f [of "q\<lparr>iq_nsCache := Some (cf_nsCache (fx_fetcher x))\<rparr>" q'] fq q(2) by auto
  then show ?thesis using after_call_one [OF x1(1)] x1(2) by blast
qed

section \<open>Runs\<close>

fun is_cert :: "fetch_action \<Rightarrow> bool" where
  "is_cert (ExpressCert i) = True"
| "is_cert _ = False"

fun is_verdict :: "fetch_action \<Rightarrow> bool" where
  "is_verdict (ContinueValidation c) = True"
| "is_verdict (FailValidation c) = True"
| "is_verdict _ = False"

definition certs :: "'c fetching \<Rightarrow> int" where
  "certs x = int (length (filter is_cert (fx_out x)))"

definition fetch_inv :: "(interest \<Rightarrow> data option) \<Rightarrow> (data \<Rightarrow> bool) \<Rightarrow> interest \<Rightarrow> int \<Rightarrow> 'c fetching \<Rightarrow> bool" where
  "fetch_inv W C i n x \<longleftrightarrow>
     tag_clean x \<and> fx_interest x = i \<and> fx_out x \<noteq> [] \<and> certs x \<le> n + 1 \<and>
     (\<not> is_verdict (hd (fx_out x)) \<longrightarrow>
        0 \<le> fx_nRetriesLeft x \<and> certs x + fx_nRetriesLeft x \<le> (if is_cert (hd (fx_out x)) then n + 1 else n)) \<and>
     (\<forall>a \<in> set (tl (fx_out x)). \<not> is_verdict a) \<and>
     (\<forall>j. ExpressCert j \<in> set (fx_out x) \<longrightarrow> i_name j = i_name i @ [CERT_RR_TYPE]) \<and>
     (\<forall>cert. ContinueValidation cert \<in> set (fx_out x) \<longrightarrow> C cert \<or> W i = Some cert)"

lemma one_more_inv:
  assumes "one_more W x x'" and i: "fx_interest x = i" and v: "\<forall>a \<in> set (fx_out x). \<not> is_verdict a"
    and n: "0 \<le> fx_nRetriesLeft x" "certs x + fx_nRetriesLeft x \<le> n"
    and c: "\<forall>j. ExpressCert j \<in> set (fx_out x) \<longrightarrow> i_name j = i_name i @ [CERT_RR_TYPE]"
  shows "fetch_inv W C i n x'"
proof -
  obtain a where a: "fx_out x' = a # fx_out x" "(\<exists>i. a = ExpressNs i) \<or> (\<exists>hint. a = ExpressCert (cert_interest x hint)) \<or>
         (\<exists>cert. a = ContinueValidation cert \<and> W (fx_interest x) = Some cert)"
    "fx_nRetriesLeft x' = fx_nRetriesLeft x" "fx_interest x' = fx_interest x" "tag_clean x'"
    using assms(1) by (auto simp: one_more_def)
  have "certs x' = certs x + (if is_cert a then 1 else 0)" by (simp add: certs_def a(1))
  moreover have "ContinueValidation cert \<notin> set (fx_out x)" for cert using v by (metis is_verdict.simps(1))
  moreover have "is_cert a \<Longrightarrow> \<not> is_verdict a" by (cases a) simp_all
  ultimately show ?thesis
    using a(2-5) i v n c unfolding fetch_inv_def a(1) by (auto simp: cert_interest_def)
qed

lemma no_verdict_yet:
  "fetch_inv W C i n x \<Longrightarrow> \<not> is_verdict (hd (fx_out x)) \<Longrightarrow> \<forall>a \<in> set (fx_out x). \<not> is_verdict a"
  by (cases "fx_out x") (auto simp: fetch_inv_def)

lemma timeoutCallback_inv:
  assumes "timeoutCallback L st fuel W x = (x', Inr ())" and out: "fx_out x = ExpressCert j # as" and inv: "fetch_inv W C i n x"
  shows "fetch_inv W C i n x'"
proof -
  note I = inv [unfolded fetch_inv_def]
  let ?y = "x\<lparr>fx_nRetriesLeft := fx_nRetriesLeft x - 1\<rparr>"
  have y: "\<forall>a \<in> set (fx_out ?y). \<not> is_verdict a" "certs ?y + fx_nRetriesLeft ?y \<le> n" "tag_clean ?y" "fx_interest ?y = i"
    "\<forall>j. ExpressCert j \<in> set (fx_out ?y) \<longrightarrow> i_name j = i_name i @ [CERT_RR_TYPE]"
    using I no_verdict_yet [OF inv] out by (auto simp: certs_def tag_clean_def)
  show ?thesis
  proof (cases "0 \<le> fx_nRetriesLeft ?y")
    case True
    then have "fetch L st fuel W ?y = (x', Inr ())" using assms(1) by (simp add: timeoutCallback_def)
    from one_more_inv [OF fetch_one [OF this y(3)] y(4,1) True y(2,5)] show ?thesis .
  next
    case False
    then have "x' = emit (FailValidation CANNOT_RETRIEVE_CERT) (?y\<lparr>fx_tag := None\<rparr>)"
      using assms(1) by (simp add: timeoutCallback_def)
    then show ?thesis using I y(1) out by (auto simp: fetch_inv_def certs_def tag_clean_def)
  qed
qed

lemma nackCallback_timeoutCallback: "nackCallback = timeoutCallback"
  by (simp add: fun_eq_iff nackCallback_def timeoutCallback_def)

lemma fetch_step_inv:
  assumes "fetch_step L st fuel W C x x'" and inv: "fetch_inv W C i n x"
  shows "fetch_inv W C i n x'"
proof -
  note I = inv [unfolded fetch_inv_def] and last = no_verdict_yet [OF inv]
  from assms(1) show ?thesis
  proof cases
    case (ns_data j as d)
    have "one_more W x x'" by (rule with_query_one [OF ns_data(2)]) (use I onData_out in blast)+
    then show ?thesis by (rule one_more_inv) (use I last ns_data(1) in auto)
  next
    case (ns_timeout j as)
    have "one_more W x x'" by (rule with_query_one [OF ns_timeout(2)]) (use I in \<open>auto simp: onTimeout_def\<close>)
    then show ?thesis by (rule one_more_inv) (use I last ns_timeout(1) in auto)
  next
    case (cert_data j as d)
    then show ?thesis using I last
      by (auto simp: fetch_inv_def dataCallback_def Let_def certs_def tag_clean_def)
  qed (auto intro: timeoutCallback_inv [OF _ _ inv] simp: nackCallback_timeoutCallback)
qed

lemma fetch_run_inv:
  assumes "fetch_run L st fuel W C x y" "0 \<le> fx_nRetriesLeft x"
  shows "fetch_inv W C (fx_interest x) (fx_nRetriesLeft x) y"
  using assms
proof (induction rule: fetch_run.induct)
  case (fetched x x')
  have "one_more W x x'" by (rule fetch_one [OF fetched(3)]) (simp add: tag_clean_def fetched(2))
  then show ?case by (rule one_more_inv) (use fetched in \<open>auto simp: certs_def\<close>)
next
  case (answered x y z)
  then show ?case using fetch_step_inv by blast
qed

text \<open>
  C17: However the answers, NACKs and timeouts arrive, a request for a certificate with n retries sends at most n + 1 Interests for the
  certificate, each for the requested name with the type CERT, and gives at most one verdict, after which nothing follows;
  validation is only continued with a packet that is a certificate, or with the one in the cache.
\<close>

theorem certificate_fetch_bounded:
  assumes run: "fetch_run L st fuel W C x y" and n: "0 \<le> fx_nRetriesLeft x"
  shows "int (length (filter is_cert (fx_out y))) \<le> fx_nRetriesLeft x + 1 \<and>
         (\<forall>j. ExpressCert j \<in> set (fx_out y) \<longrightarrow> i_name j = i_name (fx_interest x) @ [CERT_RR_TYPE]) \<and>
         (\<forall>a \<in> set (tl (fx_out y)). \<not> is_verdict a) \<and>
         (is_verdict (hd (fx_out y)) \<longrightarrow> (\<forall>z. \<not> fetch_step L st fuel W C y z)) \<and>
         (\<forall>cert. ContinueValidation cert \<in> set (fx_out y) \<longrightarrow> C cert \<or> W (fx_interest x) = Some cert)"
proof -
  have "is_verdict (hd (fx_out y)) \<Longrightarrow> \<not> fetch_step L st fuel W C y z" for z
    by (auto elim!: fetch_step.cases)
  with fetch_run_inv [OF run n] show ?thesis unfolding fetch_inv_def certs_def by blast
qed

lemma domain_before_marker_eq:
  "domain_before_marker key =
     (if NDNS_ITERATIVE_QUERY \<in> set key then Some (takeWhile (\<lambda>c. c \<noteq> NDNS_ITERATIVE_QUERY) key) else None)"
  by (induction key) auto

text \<open>A request for a key of a zone that is globally routable, answered at once.\<close>

definition fetching_sample :: "unit fetching" where
  "fetching_sample =
     \<lparr>fx_fetcher = CertificateFetcherNdnsCert_new () 1,
      fx_interest = \<lparr>i_name = [generic ''net'', NDNS_ITERATIVE_QUERY, generic ''KEY'', generic ''1''], i_canBePrefix = True,
                     i_lifetime = 4000, i_forwardingHint = []\<rparr>,
      fx_nRetriesLeft = 3, fx_tag = None, fx_out = []\<rparr>"

theorem certificate_fetch_bounded_witness:
  "\<exists>y. fetch_run ndn0 no_cache 5 (\<lambda>_. None) (\<lambda>_. True) fetching_sample y \<and>
     hd (fx_out y) = ContinueValidation (new_data []) \<and> int (length (filter is_cert (fx_out y))) \<le> 4"
proof -
  have "NDNS_ITERATIVE_QUERY \<noteq> generic ''net''" by (simp add: label_defs)
  then have "calculateDomain (i_name (fx_interest fetching_sample)) = Inr [generic ''net'']"
    by (simp add: calculateDomain_def domain_before_marker_eq fetching_sample_def)
  then have f: "fetch ndn0 no_cache 5 (\<lambda>_. None) fetching_sample = (nsFailCallback fetching_sample, Inr ())"
    by (simp add: fetch_def doFetch_def) (simp add: fetching_sample_def CertificateFetcherNdnsCert_new_def)
  have n: "fx_out fetching_sample = []" "fx_tag fetching_sample = None" "0 \<le> fx_nRetriesLeft fetching_sample"
    "fx_nRetriesLeft fetching_sample + 1 = 4" by (simp_all add: fetching_sample_def)
  let ?y = "dataCallback (\<lambda>_. True) (new_data []) (nsFailCallback fetching_sample)"
  have run: "fetch_run ndn0 no_cache 5 (\<lambda>_. None) (\<lambda>_. True) fetching_sample ?y"
    by (rule answered [OF fetched [OF n(1,2) f] cert_data]) (simp add: nsFailCallback_def n(1))
  show ?thesis
    using certificate_fetch_bounded [OF run n(3)] run n(4) by (intro exI [of _ ?y]) (simp add: dataCallback_def)
qed

end
