(* ===== verification/UpdateTool.thy ===== *)
theory UpdateTool
  imports NameServerProps CertHelper
begin

text \<open>
  The update client (\<open>tools/ndns-update.cpp\<close>): the class \<open>NdnsUpdate\<close>, which sends one update and interprets the answer, and the part of \<open>main\<close> that
  makes or loads the packet. Sent Interests are \<open>up_out\<close>; \<open>stop()\<close> ends the event loop, here \<open>up_stopped\<close>. The validator is the predicate \<open>V\<close>. The options are the
  record \<open>options\<close>, \<open>None\<close> for an option that is not given.
\<close>

section \<open>The updater\<close>

record updater =
  up_zone :: name
  up_interestLifetime :: int
  up_update :: data
  up_hasError :: bool
  up_stopped :: bool
  up_out :: "interest list"

definition NdnsUpdate_new :: "name \<Rightarrow> data \<Rightarrow> updater" where
  "NdnsUpdate_new zone update =
     \<lparr>up_zone = zone, up_interestLifetime = DEFAULT_INTEREST_LIFETIME, up_update = update,
      up_hasError = False, up_stopped = False, up_out = []\<rparr>"

definition setInterestLifetime :: "updater \<Rightarrow> int \<Rightarrow> updater" where
  "setInterestLifetime u interestLifetime = u\<lparr>up_interestLifetime := interestLifetime\<rparr>"

definition stop :: "updater \<Rightarrow> updater" where
  "stop u = u\<lparr>up_stopped := True\<rparr>"

text \<open>The label of the Interest is one component that holds the encoded packet.\<close>

definition makeUpdateInterest :: "ndn \<Rightarrow> updater \<Rightarrow> interest" where
  "makeUpdateInterest L u =
     toInterest ((Query_new (up_zone u) NDNS_ITERATIVE_QUERY)
       \<lparr>q_rrLabel := [Component 8 (blockWire L (dataBlock L (up_update u)))], q_rrType := NDNS_UPDATE_LABEL,
        q_interestLifetime := up_interestLifetime u\<rparr>)"

definition start_update :: "ndn \<Rightarrow> updater \<Rightarrow> updater" where
  "start_update L u = u\<lparr>up_out := makeUpdateInterest L u # up_out u\<rparr>"

fun response_fields :: "ndn \<Rightarrow> block list \<Rightarrow> int \<times> string \<Rightarrow> error + int \<times> string" where
  "response_fields L [] r = Inr r"
| "response_fields L (val # vals) (ret, msg) =
     (if block_type val = tlv_number UpdateReturnCodeTlv
      then bind_err (or_throw Tlv_Error (readNonNeg L val)) (\<lambda>n. response_fields L vals (to_int32 (int n), msg))
      else if block_type val = tlv_number UpdateReturnMsgTlv then response_fields L vals (ret, block_value val)
      else response_fields L vals (ret, msg))"

definition parseResponse :: "ndn \<Rightarrow> data \<Rightarrow> error + int \<times> string" where
  "parseResponse L data =
     bind_err (or_throw Tlv_Error (blockElements L (d_content data))) (\<lambda>_.
       bind_err (or_throw Tlv_Error (blockFromValue L (d_content data))) (\<lambda>block.
         bind_err (or_throw Tlv_Error (blockElements L block)) (\<lambda>elements. response_fields L elements (-1, []))))"

definition onTimeout_update :: "updater \<Rightarrow> updater" where
  "onTimeout_update u = stop (u\<lparr>up_hasError := True\<rparr>)"

definition onDataValidated_update :: "updater \<Rightarrow> updater" where
  "onDataValidated_update u = stop u"

definition onDataValidationFailed_update :: "updater \<Rightarrow> updater" where
  "onDataValidationFailed_update u = stop (u\<lparr>up_hasError := True\<rparr>)"

definition onData_update :: "ndn \<Rightarrow> (data \<Rightarrow> bool) \<Rightarrow> updater \<Rightarrow> data \<Rightarrow> (updater, unit) res" where
  "onData_update L V u data =
     and_then (lift_err u (parseResponse L data)) (\<lambda>u (ret, msg).
       let u = (if ret \<noteq> int (update_code UPDATE_OK) then u\<lparr>up_hasError := True\<rparr> else u)
       in (if V data then onDataValidated_update u else onDataValidationFailed_update u, Inr ()))"

section \<open>The packet\<close>

record options =
  o_zone :: "name option"
  o_rrlabel :: "name option"
  o_rrtype :: "string option"
  o_contentType :: string
  o_cert :: name
  o_contents :: "string list"
  o_hasContent :: bool
  o_contentFile :: "string option"
  o_ttl :: int

text \<open>The longest prefix that is an identity with a default certificate; the loop counts \<open>i\<close> down from \<open>name.size() + 1\<close>.\<close>

fun pick_certificate :: "'k keychain \<Rightarrow> 'k \<Rightarrow> name \<Rightarrow> nat \<Rightarrow> name" where
  "pick_certificate K k n 0 = []"
| "pick_certificate K k n (Suc i) =
     (if doesIdentityExist K k (take i n)
      then (case getDefaultCertificateNameOfIdentity K k (take i n) of
              Inr certName \<Rightarrow> certName
            | Inl _ \<Rightarrow> pick_certificate K k n i)
      else pick_certificate K k n i)"

definition the_name :: "name option \<Rightarrow> name" where
  "the_name x = (case x of None \<Rightarrow> [] | Some n \<Rightarrow> n)"

definition the_rrtype :: "options \<Rightarrow> string" where
  "the_rrtype opt = (case o_rrtype opt of None \<Rightarrow> ''TXT'' | Some t \<Rightarrow> t)"

definition make_update :: "ndn \<Rightarrow> nat \<Rightarrow> options \<Rightarrow> name \<Rightarrow> error + data" where
  "make_update L now opt certName =
     (let contentType = toNdnsContentType (o_contentType opt) in
      if contentType = NDNS_UNKNOWN then Inl (Runtime_Error ''unknown NdnsContentType'')
      else let re = Response_default\<lparr>s_zone := the_name (o_zone opt), s_rrLabel := the_name (o_rrlabel opt),
                      s_queryType := NDNS_ITERATIVE_QUERY, s_rrType := generic (the_rrtype opt), s_contentType := contentType\<rparr>;
               re = fold (\<lambda>content re. addRr re (Block (tlv_number RrData) content)) (o_contents opt) re
           in bind_err (snd (toData L now re)) (\<lambda>update.
                or_throw Pib_Error (signData L (SigningByCertificate certName) update)))"

text \<open>\<open>R1\<close> and \<open>R2\<close> are the first groups of the two regular expressions for the names of certificates and of other records.\<close>

definition check_loaded ::
  "ndn \<Rightarrow> (name \<Rightarrow> name option) \<Rightarrow> (name \<Rightarrow> name option) \<Rightarrow> options \<Rightarrow> data \<Rightarrow> error + name" where
  "check_loaded L R1 R2 opt update =
     bind_err (or_throw (Runtime_Error ''does not have a proper name'')
         (case R1 (d_name update) of Some z \<Rightarrow> Some z | None \<Rightarrow> R2 (d_name update))) (\<lambda>zone2.
       if o_zone opt \<noteq> None \<and> o_zone opt \<noteq> Some zone2 then Inl (Runtime_Error ''supposed to be stored at another zone'')
       else case fromData L Response_default zone2 update of
         (re, Inl e) \<Rightarrow> Inl e
       | (re, Inr _) \<Rightarrow>
           if o_rrlabel opt \<noteq> None \<and> o_rrlabel opt \<noteq> Some (s_rrLabel re) then Inl (Runtime_Error ''supposed to have another rrLabel'')
           else if o_rrtype opt \<noteq> None \<and> generic (the_rrtype opt) \<noteq> s_rrType re then Inl (Runtime_Error ''supposed to have another rrType'')
           else Inr zone2)"

text \<open>The part of \<open>main\<close> before the face: the zone and the packet, or the exit code 1. \<open>io::load\<close> returns a null pointer for a file without
  a packet, which is then dereferenced.\<close>

definition prepare_update ::
  "ndn \<Rightarrow> 'k keychain \<Rightarrow> 'k \<Rightarrow> (string \<Rightarrow> data option) \<Rightarrow> (name \<Rightarrow> name option) \<Rightarrow> (name \<Rightarrow> name option) \<Rightarrow> nat \<Rightarrow> options \<Rightarrow>
   error + name \<times> data" where
  "prepare_update L K k loadFile R1 R2 now opt =
     (if o_hasContent opt \<and> o_contentFile opt \<noteq> None then Inl (Runtime_Error ''Only one is allowed'')
      else case o_contentFile opt of
        None \<Rightarrow>
          if o_zone opt = None \<or> o_rrlabel opt = None then Inl (Runtime_Error ''-o option must be set together with -z zone and -r rrLabel'')
          else let name = the_name (o_zone opt) @ the_name (o_rrlabel opt);
                   certName = (if o_cert opt = [] then pick_certificate K k name (Suc (length name)) else o_cert opt)
               in if certName = [] then Inl (Runtime_Error ''cannot figure out the certificate automatically'')
                  else bind_err (make_update L now opt certName) (\<lambda>update. Inr (the_name (o_zone opt), update))
      | Some contentFile \<Rightarrow>
          bind_err (or_throw Undefined (loadFile contentFile)) (\<lambda>update.
            bind_err (check_loaded L R1 R2 opt update) (\<lambda>zone. Inr (zone, update))))"

definition exit_code :: "updater \<Rightarrow> int" where
  "exit_code u = (if up_hasError u then 1 else 0)"

end
