(* ===== verification/UpdateToolProps.thy ===== *)
theory UpdateToolProps
  imports UpdateTool
begin

text \<open>
  The update client and the server together: the Interest of the client carries the packet to the server, and the answer tells the client whether
  the server has stored it. The packets the client makes, and the certificate it signs them with.
\<close>

section \<open>One update\<close>

lemma makeUpdateInterest_name:
  "i_name (makeUpdateInterest L u) =
     rr_name (up_zone u) [Component 8 (blockWire L (dataBlock L (up_update u)))] NDNS_UPDATE_LABEL"
  by (simp add: makeUpdateInterest_def toInterest_def Query_new_def rr_name_def)

lemma update_received:
  assumes L: "version_ok L" "block_codec L" "data_codec L" and z: "up_zone u = zone_name (ns_zone (srv_ns s))" "length (up_zone u) + 3 < 2 ^ 64"
  shows "onInterest L E now s (makeUpdateInterest L u) =
     (s\<lparr>srv_pending := srv_pending s @ [(makeUpdateInterest L u, up_update u)]\<rparr>, Inr ())"
proof -
  have "comp_type NDNS_UPDATE_LABEL = 8" by (simp add: label_defs)
  then have "\<not> isVersion L NDNS_UPDATE_LABEL" using version_okD(2) [OF L(1), of NDNS_UPDATE_LABEL] by auto
  moreover have "length (i_name (makeUpdateInterest L u)) < 2 ^ 64" using z(2) by (simp add: makeUpdateInterest_name rr_name_def)
  ultimately have "matchName_interest L (i_name (makeUpdateInterest L u)) (zone_name (ns_zone (srv_ns s))) =
      Inr (Some \<lparr>m_rrLabel = [Component 8 (blockWire L (dataBlock L (up_update u)))], m_rrType = NDNS_UPDATE_LABEL, m_version = no_component\<rparr>)"
    unfolding z(1) [symmetric] makeUpdateInterest_name by (rule matchName_interest_query)
  then show ?thesis
    by (simp add: onInterest_def handleUpdate_def block_codecD(5) [OF L(2)] data_codecD(1) [OF L(3)])
qed

lemma parseResponse_update:
  assumes L: "block_codec L" and c: "d_content ans = Block tlv_Content (blockWire L (update_block L code))"
  shows "parseResponse L ans = Inr (int (update_code code), [])"
proof -
  let ?b = "nonNegBlock L (tlv_number UpdateReturnCodeTlv) (update_code code)"
  have "blockElements L (d_content ans) = Some [update_block L code]"
    using block_codecD(4) [OF L, of tlv_Content "[update_block L code]"] by (simp add: c)
  moreover have "blockElements L (update_block L code) = Some [?b]"
    using block_codecD(4) [OF L, of "tlv_number RrData" "[?b]"] by (simp add: update_block_def)
  moreover have "to_int32 (int (update_code code)) = int (update_code code)" by (cases code) simp_all
  ultimately show ?thesis
    by (simp add: parseResponse_def c block_codecD(5) [OF L] block_codecD(7,8) [OF L])
qed

text \<open>
  C22: The Interest of the update client reaches the server as exactly the packet it was made of. The server's answer ends the client, whose exit code is 0
  exactly when the server has stored the packet and the answer passes validation.
\<close>

theorem update_acknowledged:
  assumes s: "server_ok L E s" and L: "ndn_ok L"
    and cert: "\<And>x. signData L (SigningByCertificate (ns_certName (srv_ns s))) x \<noteq> None"
    and z: "up_zone u = zone_name (ns_zone (srv_ns s))" "length (up_zone u) + 3 < 2 ^ 64"
    and m: "matchName_data (d_name (up_update u)) (up_zone u) = Inr (Some re)" and u: "\<not> up_hasError u"
  shows "\<exists>s' ans.
     onInterest L E now s (makeUpdateInterest L u) =
       (s\<lparr>srv_pending := srv_pending s @ [(makeUpdateInterest L u, up_update u)]\<rparr>, Inr ()) \<and>
     doUpdate L E now' s (makeUpdateInterest L u) (up_update u) = (s', Inr ()) \<and> srv_out s' = ans # srv_out s \<and>
     srv_get L E s' = (if accepts L E s re then (srv_get L E s)(match_key re \<mapsto> update_value L E s re (up_update u)) else srv_get L E s) \<and>
     (\<forall>V. \<exists>u'. onData_update L V u ans = (u', Inr ()) \<and> up_stopped u' \<and> (exit_code u' = 0 \<longleftrightarrow> accepts L E s re \<and> V ans))"
proof -
  note D = ndn_okD [OF L]
  let ?code = "if accepts L E s re then UPDATE_OK else UPDATE_FAILURE"
  obtain s' ans where d: "doUpdate L E now' s (makeUpdateInterest L u) (up_update u) = (s', Inr ())"
    "srv_get L E s' = (if accepts L E s re then (srv_get L E s)(match_key re \<mapsto> update_value L E s re (up_update u)) else srv_get L E s)"
    "srv_out s' = ans # srv_out s" "d_content ans = Block tlv_Content (blockWire L (update_block L ?code))"
    using doUpdate_effect [OF s D(5) cert m [unfolded z(1)], of now' "makeUpdateInterest L u"] by blast
  have "\<exists>u'. onData_update L V u ans = (u', Inr ()) \<and> up_stopped u' \<and> (exit_code u' = 0 \<longleftrightarrow> accepts L E s re \<and> V ans)" for V
    using u by (simp add: onData_update_def parseResponse_update [OF D(3) d(4)] onDataValidated_update_def
        onDataValidationFailed_update_def stop_def exit_code_def)
  with d(1-3) update_received [OF D(2-4) z] show ?thesis by blast
qed

definition updater_sample :: updater where
  "updater_sample = NdnsUpdate_new [generic ''net''] data_sample"

theorem update_acknowledged_witness:
  "\<exists>s' ans u'. doUpdate ndn0 sqlite0 9 server_sample (makeUpdateInterest ndn0 updater_sample) data_sample = (s', Inr ()) \<and>
     srv_out s' = [ans] \<and> onData_update ndn0 (\<lambda>_. True) updater_sample ans = (u', Inr ()) \<and> exit_code u' = 0"
proof -
  have u: "up_update updater_sample = data_sample" "up_zone updater_sample = zone_name (ns_zone (srv_ns server_sample))"
    "length (up_zone updater_sample) + 3 < 2 ^ 64" "\<not> up_hasError updater_sample"
    by (simp_all add: updater_sample_def NdnsUpdate_new_def server_sample_def zone_sample_def)
  have m: "matchName_data (d_name (up_update updater_sample)) (up_zone updater_sample) = Inr (Some match_sample)"
    unfolding u(1,2) by (rule match_sample_data)
  have "signData ndn0 (SigningByCertificate (ns_certName (srv_ns server_sample))) x \<noteq> None" for x by simp
  from update_acknowledged [OF server_sample_ok ndn0_ok this u(2,3) m u(4), of 9 9]
  obtain s' ans where A: "doUpdate ndn0 sqlite0 9 server_sample (makeUpdateInterest ndn0 updater_sample) data_sample = (s', Inr ())"
    "srv_out s' = ans # srv_out server_sample"
    "\<forall>V. \<exists>u'. onData_update ndn0 V updater_sample ans = (u', Inr ()) \<and> up_stopped u' \<and>
       (exit_code u' = 0 \<longleftrightarrow> accepts ndn0 sqlite0 server_sample match_sample \<and> V ans)" unfolding u(1) by blast
  obtain u' where "onData_update ndn0 (\<lambda>_. True) updater_sample ans = (u', Inr ())"
    "exit_code u' = 0 \<longleftrightarrow> accepts ndn0 sqlite0 server_sample match_sample" using A(3) by blast
  then show ?thesis using A(1,2) accepts_sample by (auto simp: server_sample_def)
qed

section \<open>Choosing a certificate\<close>

definition has_default :: "'k keychain \<Rightarrow> 'k \<Rightarrow> name \<Rightarrow> bool" where
  "has_default K k n \<longleftrightarrow> (\<exists>c. getDefaultCertificateNameOfIdentity K k n = Inr c)"

lemma has_default_exists: "has_default K k n \<Longrightarrow> doesIdentityExist K k n"
  by (auto simp: has_default_def getDefaultCertificateNameOfIdentity_def getDefaultKeyNameOfIdentity_def getIdentity_def
      doesIdentityExist_def bind_err_Inr or_throw_Inr)

lemma pick_certificate_Suc:
  "pick_certificate K k n (Suc i) =
     (case getDefaultCertificateNameOfIdentity K k (take i n) of Inr c \<Rightarrow> c | Inl _ \<Rightarrow> pick_certificate K k n i)"
  using has_default_exists [of K k "take i n"] by (auto simp: has_default_def split: sum.splits)

lemma find_skip: "\<forall>x \<in> set xs. \<not> P x \<Longrightarrow> find P (xs @ ys) = find P ys"
  by (induction xs) auto

lemma pick_certificate_find:
  "pick_certificate K k n m =
     (case find (\<lambda>i. has_default K k (take i n)) (rev [0..<m]) of
        None \<Rightarrow> [] | Some i \<Rightarrow> projr (getDefaultCertificateNameOfIdentity K k (take i n)))"
proof (induction m)
  case (Suc m)
  then show ?case
    by (simp add: pick_certificate_Suc del: pick_certificate.simps(2)) (auto simp: has_default_def split: sum.splits)
qed simp

text \<open>
  The loop of \<open>ndns-update\<close> that figures out the certificate computes the reference: the default certificate of the longest prefix
  of the record's name that is an identity with a default certificate, and no certificate when there is none.
\<close>

theorem pick_certificate_longest:
  "if \<exists>i \<le> length n. has_default K k (take i n)
   then getDefaultCertificateNameOfIdentity K k (take (GREATEST i. i \<le> length n \<and> has_default K k (take i n)) n) =
          Inr (pick_certificate K k n (Suc (length n)))
   else pick_certificate K k n (Suc (length n)) = []"
proof (cases "\<exists>i \<le> length n. has_default K k (take i n)")
  case True
  define g where "g = (GREATEST i. i \<le> length n \<and> has_default K k (take i n))"
  have g: "g \<le> length n \<and> has_default K k (take g n)" unfolding g_def by (rule GreatestI_ex_nat) (use True in auto)
  have above: "\<not> has_default K k (take i n)" if "g < i" "i \<le> length n" for i
    using Greatest_le_nat [of "\<lambda>i. i \<le> length n \<and> has_default K k (take i n)" i "length n"] that by (force simp: g_def)
  have "rev [0..<Suc (length n)] = rev [Suc g..<Suc (length n)] @ g # rev [0..<g]"
    using g upt_add_eq_append [of 0 g "Suc (length n) - g"] by (simp add: upt_conv_Cons del: upt_Suc)
  moreover have "find (\<lambda>i. has_default K k (take i n)) (rev [Suc g..<Suc (length n)] @ g # rev [0..<g]) = Some g"
    using g above by (subst find_skip) (auto simp del: upt_Suc)
  ultimately have "pick_certificate K k n (Suc (length n)) = projr (getDefaultCertificateNameOfIdentity K k (take g n))"
    by (simp only: pick_certificate_find option.case)
  moreover obtain c where "getDefaultCertificateNameOfIdentity K k (take g n) = Inr c" using g by (auto simp: has_default_def)
  ultimately show ?thesis unfolding g_def [symmetric] using True by (simp del: pick_certificate.simps(2))
next
  case False
  then have "find (\<lambda>i. has_default K k (take i n)) (rev [0..<Suc (length n)]) = None"
    by (auto simp: find_None_iff simp del: upt_Suc)
  then have "pick_certificate K k n (Suc (length n)) = []" by (simp only: pick_certificate_find option.case)
  then show ?thesis using False by (simp only: if_False)
qed

section \<open>Making a packet\<close>

lemma fold_addRr: "fold (\<lambda>content re. addRr re (f content)) contents re = re\<lparr>s_rrs := s_rrs re @ map f contents\<rparr>"
  by (induction contents arbitrary: re) (simp_all add: addRr_def)

lemma toData_result:
  assumes "block_codec L" "0 \<le> s_freshnessPeriod r"
  shows "snd (toData L now r) = Inr ((setContent L
      (if raw_content r then s_appContent r else Block tlv_Content (concat (map (blockWire L) (s_rrs r))))
      (new_data (s_zone r @ [s_queryType r] @ s_rrLabel r @ [s_rrType r, if comp_empty (s_version r) then fromVersion L now else s_version r])))
        \<lparr>d_freshness := s_freshnessPeriod r * 1000, d_contentType := content_type_code (s_contentType r)\<rparr>)"
proof -
  have "setFreshnessPeriod (s_freshnessPeriod r * 1000) d = Inr (d\<lparr>d_freshness := s_freshnessPeriod r * 1000\<rparr>)" for d
    using assms(2) by simp
  then show ?thesis
    by (simp add: toData_def Let_def appendVersion_def wireEncode_response_block [OF assms(1)]) (simp add: raw_content_def)
qed

text \<open>
  Without a file, \<open>ndns-update\<close> sends a packet of the zone and label given, whose name the server splits into this label, the type (TXT by default) and the
  time as version; it is signed with a certificate, and for the content types resp, nack, auth and link its records are the strings given.
\<close>

theorem prepare_update_packet:
  assumes L: "ndn_ok L" and f: "o_contentFile opt = None" and p: "prepare_update L K k loadFile R1 R2 now opt = Inr (zone, update)"
    and len: "length zone + length (the_name (o_rrlabel opt)) + 3 < 2 ^ 64"
  shows "o_zone opt = Some zone \<and>
     d_name update = rr_name zone (the_name (o_rrlabel opt)) (generic (the_rrtype opt)) @ [fromVersion L now] \<and>
     matchName_data (d_name update) zone =
       Inr (Some \<lparr>m_rrLabel = the_name (o_rrlabel opt), m_rrType = generic (the_rrtype opt), m_version = fromVersion L now\<rparr>) \<and>
     d_contentType update = content_type_code (toNdnsContentType (o_contentType opt)) \<and>
     (o_contentType opt \<notin> {''blob'', ''key''} \<longrightarrow>
        blockElements L (d_content update) = Some (map (Block (tlv_number RrData)) (o_contents opt)))"
proof -
  note D = ndn_okD [OF L]
  obtain certName where u: "make_update L now opt certName = Inr update" and z: "o_zone opt = Some zone"
    using p f by (auto simp: prepare_update_def Let_def the_name_def bind_err_Inr split: if_splits option.splits)
  define ct where "ct = toNdnsContentType (o_contentType opt)"
  define re where "re = Response_default\<lparr>s_zone := zone, s_rrLabel := the_name (o_rrlabel opt), s_queryType := NDNS_ITERATIVE_QUERY,
      s_rrType := generic (the_rrtype opt), s_contentType := ct, s_rrs := map (Block (tlv_number RrData)) (o_contents opt)\<rparr>"
  obtain d where d: "snd (toData L now re) = Inr d" and sg: "signData L (SigningByCertificate certName) d = Some update"
    using u by (auto simp: make_update_def z the_name_def [of "Some zone"] fold_addRr re_def ct_def bind_err_Inr or_throw_Inr Let_def
        Response_default_def Response_new_def split: if_splits)
  note S = sign_okD [OF D(5) sg]
  have "0 \<le> s_freshnessPeriod re" by (simp add: re_def Response_default_def Response_new_def DEFAULT_RR_FRESHNESS_PERIOD_def)
  note T = d [unfolded toData_result [OF D(3) this], simplified]
  have name: "d_name update = rr_name zone (the_name (o_rrlabel opt)) (generic (the_rrtype opt)) @ [fromVersion L now]"
    "d_contentType update = content_type_code ct"
    by (simp_all add: S re_def Response_default_def Response_new_def comp_empty_def rr_name_def flip: T)
  have "blockElements L (d_content update) = Some (s_rrs re)" if "\<not> raw_content re"
    using that block_codecD(4) [OF D(3), of tlv_Content "s_rrs re"] by (simp add: S setContent_def flip: T)
  moreover have "raw_content re \<Longrightarrow> o_contentType opt \<in> {''blob'', ''key''}"
    by (auto simp: re_def raw_content_def ct_def toNdnsContentType_def split: if_splits)
  ultimately have "o_contentType opt \<notin> {''blob'', ''key''} \<longrightarrow>
      blockElements L (d_content update) = Some (map (Block (tlv_number RrData)) (o_contents opt))" by (auto simp: re_def)
  moreover have "length (d_name update) < 2 ^ 64" using len by (simp add: name rr_name_def)
  ultimately show ?thesis using z name matchName_data_response by (simp add: ct_def)
qed

definition keychain0 :: "unit keychain" where
  "keychain0 = \<lparr>kc_keys = (\<lambda>_ _. None), kc_defaultKey = (\<lambda>_ _. None), kc_defaultCertificate = (\<lambda>_ _. None), kc_publicKey = (\<lambda>_ _. []),
     kc_createIdentity = (\<lambda>k _. k), kc_createKey = (\<lambda>k n. (k, n)), kc_deleteCertificate = (\<lambda>k _ _. k),
     kc_addCertificate = (\<lambda>k _ _. None), kc_setDefaultKey = (\<lambda>k _ _. None), kc_setDefaultCertificate = (\<lambda>k _ _. None)\<rparr>"

definition options_sample :: options where
  "options_sample = \<lparr>o_zone = Some [generic ''net''], o_rrlabel = Some [generic ''www''], o_rrtype = None, o_contentType = ''resp'',
     o_cert = [generic ''net'', generic ''KEY''], o_contents = [''hi''], o_hasContent = True, o_contentFile = None, o_ttl = 4\<rparr>"

theorem prepare_update_packet_witness:
  "\<exists>update. prepare_update ndn0 keychain0 () (\<lambda>_. None) (\<lambda>_. None) (\<lambda>_. None) 9 options_sample = Inr ([generic ''net''], update) \<and>
     blockElements ndn0 (d_content update) = Some [Block (tlv_number RrData) ''hi'']"
proof -
  obtain update where u: "prepare_update ndn0 keychain0 () (\<lambda>_. None) (\<lambda>_. None) (\<lambda>_. None) 9 options_sample = Inr ([generic ''net''], update)"
    by (simp add: prepare_update_def options_sample_def the_name_def make_update_def toNdnsContentType_def toData_result [OF ndn0_block_codec]
        addRr_def Response_default_def Response_new_def DEFAULT_RR_FRESHNESS_PERIOD_def or_throw_def Let_def split: option.splits)
  show ?thesis
    using prepare_update_packet [OF ndn0_ok _ u] u by (simp add: options_sample_def the_name_def)
qed

end
