(* ===== verification/ZoneSetup.thy ===== *)
theory ZoneSetup
  imports ManagementTool
begin

text \<open>
  The rest of the management tool (\<open>src/mgmt/management-tool.cpp\<close>): the creation of a zone with its keys and
  certificates, the export of a certificate and records read from a file. The tool holds the database and the key chain; \<open>K\<close> is the
  interface of the key chain and \<open>t_keyChain\<close> its state. A \<open>Key\<close> is its name.

  A zone has three keys. The KSK signs the DSK, the DSK signs the records, and the D-Key, of an identity in the parent zone,
  signs the KSK. The readings of the two clocks are the sequences \<open>now\<close> (microseconds, for versions) and \<open>sys\<close> (seconds).
\<close>

record 'k tool =
  t_db :: dbmgr
  t_keyChain :: 'k

definition ROOT_ZONE :: name where "ROOT_ZONE = []"
definition DEFAULT_CERT_TTL :: int where "DEFAULT_CERT_TTL = 365 * 24 * 3600"
definition DEFAULT_IO :: string where "DEFAULT_IO = ''-''"

definition ManagementTool_new :: "sqlite \<Rightarrow> string \<Rightarrow> (string \<Rightarrow> tables) \<Rightarrow> string \<Rightarrow> 'k \<Rightarrow> ('k tool, unit) res" where
  "ManagementTool_new E dflt disk dbFile keyChain =
     (case DbMgr_new E dflt disk dbFile of (d, r) \<Rightarrow> (\<lparr>t_db = d, t_keyChain = keyChain\<rparr>, r))"

text \<open>A call on the database within the tool.\<close>

definition on_db :: "'k tool \<Rightarrow> (dbmgr, 'a) res \<Rightarrow> ('k tool, 'a) res" where
  "on_db t r = (t\<lparr>t_db := fst r\<rparr>, snd r)"

lemma on_db_simps [simp]: "on_db t (d, r) = (t\<lparr>t_db := d\<rparr>, r)"
  by (simp add: on_db_def)

section \<open>Keys\<close>

text \<open>A call on the key chain: \<open>None\<close> is an exception of ndn-cxx.\<close>

definition on_keyChain :: "'k tool \<Rightarrow> 'k option \<Rightarrow> ('k tool, unit) res" where
  "on_keyChain t r = (case r of None \<Rightarrow> (t, Inl Pib_Error) | Some k \<Rightarrow> (t\<lparr>t_keyChain := k\<rparr>, Inr ()))"

lemma on_keyChain_simps [simp]:
  "on_keyChain t None = (t, Inl Pib_Error)" "on_keyChain t (Some k) = (t\<lparr>t_keyChain := k\<rparr>, Inr ())"
  by (simp_all add: on_keyChain_def)

text \<open>\<open>make_key\<close>: a new key whose automatic certificate is replaced by one with the issuer CERT, signed by
  \<open>signer\<close> (\<open>None\<close>: the key itself). The freshness period is set after signing; when it is negative that call throws, and the key
  stays behind without a certificate.\<close>

definition make_key ::
  "ndn \<Rightarrow> 'k keychain \<Rightarrow> nat \<Rightarrow> int \<Rightarrow> 'k tool \<Rightarrow> name \<Rightarrow> name option \<Rightarrow> int \<Rightarrow> int \<Rightarrow> ('k tool, name \<times> certificate) res" where
  "make_key L K now sys t identity signer cacheTtl certValidity =
     (case kc_createKey K (t_keyChain t) identity of (k, key) \<Rightarrow>
        let t = t\<lparr>t_keyChain := k\<rparr> in
        and_then (lift_err t (or_throw Pib_Error (kc_defaultCertificate K k key))) (\<lambda>t selfSigned.
          let k = kc_deleteCertificate K k key (d_name selfSigned); t = t\<lparr>t_keyChain := k\<rparr> in
          and_then (lift_err t (createCertificate L K k now sys key (case signer of None \<Rightarrow> key | Some s \<Rightarrow> s) ''CERT'' certValidity))
            (\<lambda>t cert.
              and_then (lift_err t (setFreshnessPeriod (cacheTtl * 1000) cert)) (\<lambda>t cert.
                and_then (on_keyChain t (kc_addCertificate K (t_keyChain t) key cert)) (\<lambda>t _. (t, Inr (key, cert)))))))"

text \<open>\<open>given_key\<close>: the key of a certificate that is in the key chain; the key name is the certificate name without
  issuer and version.\<close>

definition getKeyName :: "certificate \<Rightarrow> name" where
  "getKeyName cert = take (length (d_name cert) - 2) (d_name cert)"

definition given_key :: "'k keychain \<Rightarrow> 'k \<Rightarrow> name \<Rightarrow> name \<Rightarrow> error + (name \<times> certificate)" where
  "given_key K k identity certName =
     bind_err (getCertificate K k identity certName) (\<lambda>cert.
       bind_err (getIdentity K k identity) (\<lambda>keys.
         if getKeyName cert \<in> fst ` set keys then Inr (getKeyName cert, cert) else Inl Pib_Error))"

section \<open>Creating a zone\<close>

definition check_new_zone ::
  "ndn \<Rightarrow> sqlite \<Rightarrow> 'k keychain \<Rightarrow> 'k tool \<Rightarrow> name \<Rightarrow> name \<Rightarrow> int \<Rightarrow> name \<Rightarrow> name \<Rightarrow> name \<Rightarrow> ('k tool, zone) res" where
  "check_new_zone L E K t zoneName parentZoneName cacheTtl kskCertName dskCertName dkeyCertName =
     (let isRoot = (zoneName = ROOT_ZONE); zoneIdentityName = zoneName @ [NDNS_ITERATIVE_QUERY];
          verify = (\<lambda>certName msg.
            bind_err (matchCertificate_tool K (t_keyChain t) certName zoneIdentityName) (\<lambda>ok.
              if ok then Inr () else Inl (ManagementTool_Error msg)))
      in and_then (on_db t (findZone L E (t_db t) (Zone_new zoneName cacheTtl))) (\<lambda>t (zone, found).
           if found then (t, Inl (ManagementTool_Error ''is already present in the NDNS db''))
           else if \<not> isRoot \<and> parentZoneName = zoneName
           then (t, Inl (ManagementTool_Error ''Parent zone name can not be the zone itself''))
           else if \<not> isRoot \<and> \<not> prefix parentZoneName zoneName
           then (t, Inl (ManagementTool_Error ''is not a prefix''))
           else and_then (lift_err t
                  (if dskCertName \<noteq> DEFAULT_CERT then verify dskCertName ''Cannot verify DSK certificate''
                   else if kskCertName \<noteq> DEFAULT_CERT then verify kskCertName ''Cannot verify KSK certificate''
                   else Inr ()))
                (\<lambda>t _. if dkeyCertName = DEFAULT_CERT \<and> isRoot
                       then (t, Inl (ManagementTool_Error ''Cannot generate dkey for root zone''))
                       else (t, Inr zone))))"

definition dkeyIdentity :: "name \<Rightarrow> name \<Rightarrow> name \<Rightarrow> error + name" where
  "dkeyIdentity zoneName parentZoneName dkeyCertName =
     (if dkeyCertName = DEFAULT_CERT
      then Inr (parentZoneName @ [NDNS_ITERATIVE_QUERY] @ drop (length parentZoneName) zoneName)
      else getIdentityNameFromCert dkeyCertName)"

text \<open>The three keys, each made or taken from the key chain; the DSK becomes the default key of the zone.\<close>

definition zone_key_chain ::
  "ndn \<Rightarrow> 'k keychain \<Rightarrow> (nat \<Rightarrow> nat) \<Rightarrow> (nat \<Rightarrow> int) \<Rightarrow> 'k tool \<Rightarrow> name \<Rightarrow> name \<Rightarrow> int \<Rightarrow> int \<Rightarrow> name \<Rightarrow> name \<Rightarrow> name \<Rightarrow>
   ('k tool, certificate \<times> certificate \<times> certificate) res" where
  "zone_key_chain L K now sys t zoneId dkeyId cacheTtl certValidity kskCertName dskCertName dkeyCertName =
     (let t = t\<lparr>t_keyChain := kc_createIdentity K (kc_createIdentity K (t_keyChain t) zoneId) dkeyId\<rparr> in
      and_then (if dkeyCertName = DEFAULT_CERT then make_key L K (now 0) (sys 0) t dkeyId None cacheTtl certValidity
                else lift_err t (given_key K (t_keyChain t) dkeyId dkeyCertName)) (\<lambda>t (dkey, dkeyCert).
        and_then (if kskCertName = DEFAULT_CERT then make_key L K (now 1) (sys 1) t zoneId (Some dkey) cacheTtl certValidity
                  else lift_err t (given_key K (t_keyChain t) zoneId kskCertName)) (\<lambda>t (ksk, kskCert).
          and_then (if dskCertName = DEFAULT_CERT then make_key L K (now 2) (sys 2) t zoneId (Some ksk) cacheTtl certValidity
                    else lift_err t (given_key K (t_keyChain t) zoneId dskCertName)) (\<lambda>t (dsk, dskCert).
            and_then (on_keyChain t (kc_setDefaultKey K (t_keyChain t) zoneId dsk)) (\<lambda>t _.
              and_then (if dskCertName = DEFAULT_CERT then (t, Inr ())
                        else on_keyChain t (kc_setDefaultCertificate K (t_keyChain t) dsk dskCert)) (\<lambda>t _.
                (t, Inr (dkeyCert, kskCert, dskCert))))))))"

text \<open>The database part: the zone, its two certificates, its info and the DoE chain. The object \<open>zone\<close> is at \<open>addr\<close>.\<close>

definition publish_zone ::
  "ndn \<Rightarrow> sqlite \<Rightarrow> 'k keychain \<Rightarrow> 'k \<Rightarrow> string \<Rightarrow> nat \<Rightarrow> nat \<Rightarrow> nat \<Rightarrow> dbmgr \<Rightarrow> zone \<Rightarrow> int \<Rightarrow>
   certificate \<Rightarrow> certificate \<Rightarrow> certificate \<Rightarrow> (dbmgr, zone) res" where
  "publish_zone L E K k dflt now fa addr d zone cacheTtl dkeyCert kskCert dskCert =
     and_then (addZone L E d zone) (\<lambda>d zone.
       and_then (addIdCert L E d (addr, zone) kskCert cacheTtl) (\<lambda>d p.
         and_then (addIdCert L E d p dskCert cacheTtl) (\<lambda>d p.
           and_then (setZoneInfo L E d (snd p) ''ksk'' (dataBlock L kskCert)) (\<lambda>d _.
             and_then (setZoneInfo L E d (snd p) ''dsk'' (dataBlock L dskCert)) (\<lambda>d _.
               and_then (setZoneInfo L E d (snd p) ''dkey'' (dataBlock L dkeyCert)) (\<lambda>d _.
                 generateDoe L E K k dflt now fa d p))))))"

definition createZone ::
  "ndn \<Rightarrow> sqlite \<Rightarrow> 'k keychain \<Rightarrow> string \<Rightarrow> (nat \<Rightarrow> nat) \<Rightarrow> (nat \<Rightarrow> int) \<Rightarrow> nat \<Rightarrow> nat \<Rightarrow> 'k tool \<Rightarrow> name \<Rightarrow> name \<Rightarrow>
   int \<Rightarrow> int \<Rightarrow> name \<Rightarrow> name \<Rightarrow> name \<Rightarrow> ('k tool, zone) res" where
  "createZone L E K dflt now sys fa addr t zoneName parentZoneName cacheTtl certValidity kskCertName dskCertName dkeyCertName =
     and_then (check_new_zone L E K t zoneName parentZoneName cacheTtl kskCertName dskCertName dkeyCertName) (\<lambda>t zone.
       and_then (lift_err t (dkeyIdentity zoneName parentZoneName dkeyCertName)) (\<lambda>t dkeyId.
         and_then (zone_key_chain L K now sys t (zoneName @ [NDNS_ITERATIVE_QUERY]) dkeyId cacheTtl certValidity
                     kskCertName dskCertName dkeyCertName) (\<lambda>t (dkeyCert, kskCert, dskCert).
           on_db t (publish_zone L E K (t_keyChain t) dflt (now 3) fa addr (t_db t) zone cacheTtl dkeyCert kskCert dskCert))))"

section \<open>Certificates and records in files\<close>

text \<open>\<open>exportCertificate\<close> up to the output of the certificate. \<open>R\<close> is the regular expression \<open>(<>*)<NDNS>(<>+)<CERT><>\<close> of ndn-cxx: what its two
  groups match, if it matches.\<close>

definition exportCertificate ::
  "ndn \<Rightarrow> sqlite \<Rightarrow> (name \<Rightarrow> (name \<times> name) option) \<Rightarrow> nat \<Rightarrow> dbmgr \<Rightarrow> name \<Rightarrow> (dbmgr, certificate) res" where
  "exportCertificate L E R addr d certName =
     (case R certName of
        None \<Rightarrow> (d, Inl (ManagementTool_Error ''Certificate name is illegal''))
      | Some (zoneName, label) \<Rightarrow>
          and_then (findRrset L E d ((Rrset_new (Some (addr, Zone_of zoneName)))\<lparr>rrset_label := label, rrset_type := CERT_RR_TYPE\<rparr>))
            (\<lambda>d (rrset, found).
              if found then (d, or_throw Tlv_Error (blockData L (rrset_data rrset)))
              else (d, Inl (ManagementTool_Error ''Cannot find the cert''))))"

text \<open>The file system: which paths name a file (and no directory), and the packet that \<open>io::load\<close> reads, the standard input under \<open>DEFAULT_IO\<close>.\<close>

record files =
  is_file :: "string \<Rightarrow> bool"
  load_data :: "string \<Rightarrow> data option"

definition file_data :: "files \<Rightarrow> string \<Rightarrow> error + data" where
  "file_data F inFile =
     (if inFile \<noteq> DEFAULT_IO \<and> \<not> is_file F inFile then Inl (ManagementTool_Error ''Data does not exist'')
      else or_throw (ManagementTool_Error ''input does not contain a valid Data packet'') (load_data F inFile))"

definition file_signer :: "'k keychain \<Rightarrow> 'k \<Rightarrow> name \<Rightarrow> name \<Rightarrow> error + name" where
  "file_signer K k zoneIdentityName inputDskCertName =
     (if inputDskCertName = DEFAULT_CERT
      then bind_err (getDefaultKeyNameOfIdentity K k zoneIdentityName) (\<lambda>_. getDefaultCertificateNameOfIdentity K k zoneIdentityName)
      else bind_err (matchCertificate_tool K k inputDskCertName zoneIdentityName) (\<lambda>ok.
             if ok then Inr inputDskCertName else Inl (ManagementTool_Error ''Cannot verify certificate'')))"

text \<open>The result of \<open>Response::fromData\<close> is not looked at: a packet of another kind of name leaves the response as constructed.\<close>

definition addRrsetFromFile ::
  "ndn \<Rightarrow> sqlite \<Rightarrow> 'k keychain \<Rightarrow> 'k \<Rightarrow> string \<Rightarrow> files \<Rightarrow> nat \<Rightarrow> int \<Rightarrow> nat \<Rightarrow> nat \<Rightarrow> dbmgr \<Rightarrow> name \<Rightarrow> string \<Rightarrow> int \<Rightarrow> name \<Rightarrow> bool \<Rightarrow>
   (dbmgr, rrset) res" where
  "addRrsetFromFile L E K k dflt F now sys fa addr d zoneName inFile ttl inputDskCertName needResign =
     and_then (findZone L E d (Zone_of zoneName)) (\<lambda>d (zone, found).
       if \<not> found then (d, Inl (ManagementTool_Error ''is not present in the NDNS db''))
       else and_then (lift_err d (file_signer K k (zoneName @ [NDNS_ITERATIVE_QUERY]) inputDskCertName)) (\<lambda>d dskCertName.
         and_then (lift_err d (file_data F inFile)) (\<lambda>d data.
           and_then (lift_err d
               (if needResign
                then or_throw Pib_Error (signData L (SigningByCertificateWith dskCertName sys (sys + DEFAULT_CERT_TTL)) data)
                else Inr data)) (\<lambda>d data.
             and_then (lift_err d (case fromData L Response_default zoneName data of (re, Inl e) \<Rightarrow> Inl e | (re, Inr _) \<Rightarrow> Inr re)) (\<lambda>d re.
               store_rrset L E K k dflt now fa d
                 ((Rrset_new (Some (addr, zone)))\<lparr>rrset_label := s_rrLabel re, rrset_type := s_rrType re,
                    rrset_ttl := (if ttl = DEFAULT_RR_TTL then zone_ttl zone else ttl),
                    rrset_version := s_version re, rrset_data := dataBlock L data\<rparr>))))))"

end
