(* ===== verification/ZoneSetupProps.thy ===== *)
theory ZoneSetupProps
  imports ZoneSetup ManagementProps
begin

text \<open>
  What the creation of a zone leaves behind: three keys in the key chain, the certificates of two of them and a DoE chain
  in the database, the third in the info of the zone. The laws of the key chain are those documented for the PIB of ndn-cxx.
\<close>

section \<open>The key chain\<close>

definition has_key :: "'k keychain \<Rightarrow> 'k \<Rightarrow> name \<Rightarrow> name \<Rightarrow> bool" where
  "has_key K k i n \<longleftrightarrow> (\<exists>ks. kc_keys K k i = Some ks \<and> n \<in> fst ` set ks)"

definition has_cert :: "'k keychain \<Rightarrow> 'k \<Rightarrow> name \<Rightarrow> name \<Rightarrow> certificate \<Rightarrow> bool" where
  "has_cert K k i n c \<longleftrightarrow> (\<exists>ks cs. kc_keys K k i = Some ks \<and> (n, cs) \<in> set ks \<and> c \<in> set cs)"

definition keeps_keys :: "'k keychain \<Rightarrow> 'k \<Rightarrow> 'k \<Rightarrow> bool" where
  "keeps_keys K k k' \<longleftrightarrow>
     (\<forall>i. kc_keys K k i \<noteq> None \<longrightarrow> kc_keys K k' i \<noteq> None) \<and> (\<forall>i n. has_key K k i n \<longrightarrow> has_key K k' i n)"

text \<open>A created identity exists; a created key is new, named after its identity, and has one certificate, its default; deleting that certificate leaves
  none; a certificate that names a key and holds its public key can be added to the key (any other is refused by the library with
  \<open>std::invalid_argument\<close>, and nothing is assumed of it), is stored and becomes the default if there is none; the default key can be set to any key of the identity.\<close>

definition stores_certificates :: "'k keychain \<Rightarrow> bool" where
  "stores_certificates K \<longleftrightarrow>
     (\<forall>k i keyId c x y. has_key K k i (i @ [keyComp, keyId]) \<longrightarrow> d_name c = i @ [keyComp, keyId, x, y] \<longrightarrow>
        d_content c = Block tlv_Content (kc_publicKey K k (i @ [keyComp, keyId])) \<longrightarrow>
        (\<exists>k'. kc_addCertificate K k (i @ [keyComp, keyId]) c = Some k' \<and> keeps_keys K k k' \<and>
              has_cert K k' i (i @ [keyComp, keyId]) c \<and>
              (kc_defaultCertificate K k (i @ [keyComp, keyId]) = None \<longrightarrow>
               kc_defaultCertificate K k' (i @ [keyComp, keyId]) = Some c)))"

definition keychain_ok :: "'k keychain \<Rightarrow> bool" where
  "keychain_ok K \<longleftrightarrow>
     (\<forall>k i. kc_keys K (kc_createIdentity K k i) i \<noteq> None \<and> keeps_keys K k (kc_createIdentity K k i)) \<and>
     (\<forall>k i k' n. kc_keys K k i \<noteq> None \<longrightarrow> kc_createKey K k i = (k', n) \<longrightarrow>
        (\<exists>keyId. n = i @ [keyComp, keyId]) \<and> \<not> has_key K k i n \<and> has_key K k' i n \<and> keeps_keys K k k' \<and>
        (\<exists>c. kc_defaultCertificate K k' n = Some c \<and>
             kc_defaultCertificate K (kc_deleteCertificate K k' n (d_name c)) n = None)) \<and>
     (\<forall>k n c. keeps_keys K k (kc_deleteCertificate K k n c)) \<and>
     stores_certificates K \<and>
     (\<forall>k i n. has_key K k i n \<longrightarrow>
        (\<exists>k'. kc_setDefaultKey K k i n = Some k' \<and> kc_defaultKey K k' i = Some n \<and>
              kc_keys K k' = kc_keys K k \<and> kc_defaultCertificate K k' = kc_defaultCertificate K k))"

lemma keychain_ok_identity:
  "keychain_ok K \<Longrightarrow> kc_keys K (kc_createIdentity K k i) i \<noteq> None \<and> keeps_keys K k (kc_createIdentity K k i)"
  unfolding keychain_ok_def by blast

lemma keychain_ok_create:
  assumes "keychain_ok K" "kc_keys K k i \<noteq> None" "kc_createKey K k i = (k', n)"
  obtains keyId c where "n = i @ [keyComp, keyId]" "\<not> has_key K k i n" "has_key K k' i n" "keeps_keys K k k'"
    "kc_defaultCertificate K k' n = Some c" "kc_defaultCertificate K (kc_deleteCertificate K k' n (d_name c)) n = None"
  using assms unfolding keychain_ok_def by blast

lemma keychain_ok_delete: "keychain_ok K \<Longrightarrow> keeps_keys K k (kc_deleteCertificate K k n c)"
  unfolding keychain_ok_def by blast

lemma keychain_ok_add:
  assumes "keychain_ok K" "has_key K k i (i @ [keyComp, keyId])" "d_name c = i @ [keyComp, keyId, x, y]"
    "d_content c = Block tlv_Content (kc_publicKey K k (i @ [keyComp, keyId]))"
  obtains k' where "kc_addCertificate K k (i @ [keyComp, keyId]) c = Some k'" "keeps_keys K k k'"
    "has_cert K k' i (i @ [keyComp, keyId]) c"
    "kc_defaultCertificate K k (i @ [keyComp, keyId]) = None \<Longrightarrow> kc_defaultCertificate K k' (i @ [keyComp, keyId]) = Some c"
proof -
  have "stores_certificates K" using assms(1) unfolding keychain_ok_def by (elim conjE)
  then obtain k' where k': "kc_addCertificate K k (i @ [keyComp, keyId]) c = Some k'" "keeps_keys K k k'"
    "has_cert K k' i (i @ [keyComp, keyId]) c"
    "kc_defaultCertificate K k (i @ [keyComp, keyId]) = None \<longrightarrow> kc_defaultCertificate K k' (i @ [keyComp, keyId]) = Some c"
    unfolding stores_certificates_def using assms(2-4) by blast
  show thesis by (rule that [OF k'(1-3)]) (use k'(4) in blast)
qed

lemma keychain_ok_default:
  assumes "keychain_ok K" "has_key K k i n"
  obtains k' where "kc_setDefaultKey K k i n = Some k'" "kc_defaultKey K k' i = Some n"
    "kc_keys K k' = kc_keys K k" "kc_defaultCertificate K k' = kc_defaultCertificate K k"
  using assms unfolding keychain_ok_def by blast

lemma keeps_keys_trans: "keeps_keys K k k' \<Longrightarrow> keeps_keys K k' k'' \<Longrightarrow> keeps_keys K k k''"
  by (simp add: keeps_keys_def)

lemma keeps_keysD:
  "keeps_keys K k k' \<Longrightarrow> kc_keys K k i \<noteq> None \<Longrightarrow> kc_keys K k' i \<noteq> None"
  "keeps_keys K k k' \<Longrightarrow> has_key K k i n \<Longrightarrow> has_key K k' i n"
  unfolding keeps_keys_def by blast+

text \<open>All keys can sign.\<close>

definition signs :: "ndn \<Rightarrow> bool" where
  "signs L \<longleftrightarrow> (\<forall>s x. signData L s x \<noteq> None)"

lemma createCertificate_signs:
  assumes "signs L"
  obtains cert where "createCertificate L K k now sys key s issuer validity = Inr cert"
proof -
  have "signData L a x \<noteq> None" for a x using assms by (simp add: signs_def)
  then show thesis
    using that unfolding createCertificate_def Let_def or_throw_def by (metis (no_types, lifting) option.case_eq_if)
qed

text \<open>A packet signed by the key \<open>n\<close>, and a certificate made by it: its freshness period was changed after the signature, which covers the one
  hour that \<open>createCertificate\<close> sets.\<close>

definition key_signed :: "ndn \<Rightarrow> name \<Rightarrow> data \<Rightarrow> bool" where
  "key_signed L n c \<longleftrightarrow> (\<exists>notBefore notAfter x. signData L (SigningByKeyWith n notBefore notAfter) x = Some c)"

definition issued_by :: "ndn \<Rightarrow> name \<Rightarrow> int \<Rightarrow> certificate \<Rightarrow> bool" where
  "issued_by L n cacheTtl c \<longleftrightarrow> key_signed L n (c\<lparr>d_freshness := 3600 * 1000\<rparr>) \<and> d_freshness c = cacheTtl * 1000"

lemma createCertificate_issued:
  assumes "sign_ok L" "createCertificate L K k now sys key skey issuer v = Inr cert"
  shows "issued_by L skey cacheTtl (cert\<lparr>d_freshness := cacheTtl * 1000\<rparr>)"
proof -
  obtain x a b where x: "signData L (SigningByKeyWith skey a b) x = Some cert" "d_freshness x = 3600 * 1000"
    using assms(2) by (auto simp: createCertificate_def Let_def or_throw_Inr)
  have "cert\<lparr>d_freshness := 3600 * 1000\<rparr> = cert" using sign_okD [OF assms(1) x(1)] x(2) by simp
  then show ?thesis using x(1) by (auto simp: issued_by_def key_signed_def)
qed

lemma createCertificate_content:
  assumes "sign_ok L" "createCertificate L K k now sys key skey issuer v = Inr cert"
  shows "d_content cert = Block tlv_Content (kc_publicKey K k key)"
  using assms(2) sign_okD(4) [OF assms(1)] by (auto simp: createCertificate_def Let_def or_throw_Inr)

lemma issued_by_default: "issued_by L n DEFAULT_CACHE_TTL c \<Longrightarrow> key_signed L n c"
  by (cases c) (simp add: issued_by_def DEFAULT_CACHE_TTL_def)

lemma make_key_ok:
  assumes L: "sign_ok L" "signs L" and K: "keychain_ok K" and i: "kc_keys K k i \<noteq> None" and pos: "0 \<le> cacheTtl"
  obtains k' keyId cert where
    "make_key L K now sys (t\<lparr>t_keyChain := k\<rparr>) i signer cacheTtl certValidity = (t\<lparr>t_keyChain := k'\<rparr>, Inr (i @ [keyComp, keyId], cert))"
    "d_name cert = i @ [keyComp, keyId, generic ''CERT'', fromVersion L now]" "keeps_keys K k k'"
    "\<not> has_key K k i (i @ [keyComp, keyId])" "has_key K k' i (i @ [keyComp, keyId])"
    "has_cert K k' i (i @ [keyComp, keyId]) cert" "kc_defaultCertificate K k' (i @ [keyComp, keyId]) = Some cert"
    "issued_by L (case signer of None \<Rightarrow> i @ [keyComp, keyId] | Some s \<Rightarrow> s) cacheTtl cert"
proof -
  obtain k1 n where c: "kc_createKey K k i = (k1, n)" by fastforce
  obtain keyId sc where n: "n = i @ [keyComp, keyId]" "\<not> has_key K k i n" "has_key K k1 i n" "keeps_keys K k k1"
    "kc_defaultCertificate K k1 n = Some sc" "kc_defaultCertificate K (kc_deleteCertificate K k1 n (d_name sc)) n = None"
    by (rule keychain_ok_create [OF K i c])
  let ?k2 = "kc_deleteCertificate K k1 n (d_name sc)" and ?s = "case signer of None \<Rightarrow> n | Some s \<Rightarrow> s"
  obtain cert where cert: "createCertificate L K ?k2 now sys n ?s ''CERT'' certValidity = Inr cert"
    by (rule createCertificate_signs [OF L(2)])
  let ?c = "cert\<lparr>d_freshness := cacheTtl * 1000\<rparr>"
  have name: "d_name ?c = i @ [keyComp, keyId, generic ''CERT'', fromVersion L now]"
    using createCertificate_name(1) [OF L(1) cert] n(1) by simp
  have k2: "keeps_keys K k1 ?k2" by (rule keychain_ok_delete [OF K])
  have n2: "has_key K ?k2 i n" by (rule keeps_keysD(2) [OF k2 n(3)])
  obtain k3 where k3: "kc_addCertificate K ?k2 (i @ [keyComp, keyId]) ?c = Some k3" "keeps_keys K ?k2 k3"
    "has_cert K k3 i (i @ [keyComp, keyId]) ?c" "kc_defaultCertificate K k3 (i @ [keyComp, keyId]) = Some ?c"
    using keychain_ok_add [OF K n2 [unfolded n(1)], of "?c"] name n(1,6) createCertificate_content [OF L(1) cert] by auto
  show thesis
  proof (rule that [of k3 keyId ?c])
    show "make_key L K now sys (t\<lparr>t_keyChain := k\<rparr>) i signer cacheTtl certValidity = (t\<lparr>t_keyChain := k3\<rparr>, Inr (i @ [keyComp, keyId], ?c))"
      using c n(5) cert k3(1) pos unfolding n(1) [symmetric] by (simp add: make_key_def Let_def)
    show "keeps_keys K k k3" by (rule keeps_keys_trans [OF keeps_keys_trans [OF n(4) k2] k3(2)])
    show "has_key K k3 i (i @ [keyComp, keyId])" using keeps_keysD(2) [OF k3(2) n2] n(1) by simp
    show "issued_by L (case signer of None \<Rightarrow> i @ [keyComp, keyId] | Some s \<Rightarrow> s) cacheTtl ?c"
      using createCertificate_issued [OF L(1) cert, of cacheTtl] unfolding n(1) .
  qed (use name n(1,2) k3 in simp_all)
qed

text \<open>With a negative TTL the key is made and left without a certificate.\<close>

lemma make_key_negative:
  assumes L: "signs L" and K: "keychain_ok K" and i: "kc_keys K k i \<noteq> None" and neg: "cacheTtl < 0"
  obtains k' keyId where
    "make_key L K now sys (t\<lparr>t_keyChain := k\<rparr>) i signer cacheTtl certValidity = (t\<lparr>t_keyChain := k'\<rparr>, Inl Invalid_Argument)"
    "keeps_keys K k k'" "\<not> has_key K k i (i @ [keyComp, keyId])" "has_key K k' i (i @ [keyComp, keyId])"
    "kc_defaultCertificate K k' (i @ [keyComp, keyId]) = None"
proof -
  obtain k1 n where c: "kc_createKey K k i = (k1, n)" by fastforce
  obtain keyId sc where n: "n = i @ [keyComp, keyId]" "\<not> has_key K k i n" "has_key K k1 i n" "keeps_keys K k k1"
    "kc_defaultCertificate K k1 n = Some sc" "kc_defaultCertificate K (kc_deleteCertificate K k1 n (d_name sc)) n = None"
    by (rule keychain_ok_create [OF K i c])
  let ?k2 = "kc_deleteCertificate K k1 n (d_name sc)" and ?s = "case signer of None \<Rightarrow> n | Some s \<Rightarrow> s"
  obtain cert where cert: "createCertificate L K ?k2 now sys n ?s ''CERT'' certValidity = Inr cert"
    by (rule createCertificate_signs [OF L])
  have k2: "keeps_keys K k1 ?k2" by (rule keychain_ok_delete [OF K])
  show thesis
  proof (rule that [of ?k2 keyId])
    show "make_key L K now sys (t\<lparr>t_keyChain := k\<rparr>) i signer cacheTtl certValidity = (t\<lparr>t_keyChain := ?k2\<rparr>, Inl Invalid_Argument)"
      using c n(5) cert neg by (simp add: make_key_def Let_def)
    show "keeps_keys K k ?k2" by (rule keeps_keys_trans [OF n(4) k2])
    show "has_key K ?k2 i (i @ [keyComp, keyId])" using keeps_keysD(2) [OF k2 n(3)] n(1) by simp
  qed (use n(1,2,6) in simp_all)
qed

lemma zone_key_chain_ok:
  assumes L: "sign_ok L" "signs L" and K: "keychain_ok K" and pos: "0 \<le> cacheTtl"
  obtains k' dkeyId kskId dskId dkeyCert kskCert dskCert where
    "zone_key_chain L K now sys t zi di cacheTtl certValidity DEFAULT_CERT DEFAULT_CERT DEFAULT_CERT =
       (t\<lparr>t_keyChain := k'\<rparr>, Inr (dkeyCert, kskCert, dskCert))"
    "d_name dkeyCert = di @ [keyComp, dkeyId, generic ''CERT'', fromVersion L (now 0)]"
    "d_name kskCert = zi @ [keyComp, kskId, generic ''CERT'', fromVersion L (now 1)]"
    "d_name dskCert = zi @ [keyComp, dskId, generic ''CERT'', fromVersion L (now 2)]" "kskId \<noteq> dskId"
    "kc_defaultKey K k' zi = Some (zi @ [keyComp, dskId])" "kc_defaultCertificate K k' (zi @ [keyComp, dskId]) = Some dskCert"
    "has_cert K k' zi (zi @ [keyComp, dskId]) dskCert"
    "issued_by L (di @ [keyComp, dkeyId]) cacheTtl dkeyCert" "issued_by L (di @ [keyComp, dkeyId]) cacheTtl kskCert"
    "issued_by L (zi @ [keyComp, kskId]) cacheTtl dskCert"
proof -
  let ?k0 = "kc_createIdentity K (kc_createIdentity K (t_keyChain t) zi) di"
  have k0: "kc_keys K ?k0 di \<noteq> None" "kc_keys K ?k0 zi \<noteq> None"
    using keychain_ok_identity [OF K] keeps_keysD(1) by metis+
  obtain k1 dkeyId dkeyCert where k1: "make_key L K (now 0) (sys 0) (t\<lparr>t_keyChain := ?k0\<rparr>) di None cacheTtl certValidity =
      (t\<lparr>t_keyChain := k1\<rparr>, Inr (di @ [keyComp, dkeyId], dkeyCert))"
    "d_name dkeyCert = di @ [keyComp, dkeyId, generic ''CERT'', fromVersion L (now 0)]" "keeps_keys K ?k0 k1"
    "issued_by L (di @ [keyComp, dkeyId]) cacheTtl dkeyCert"
    by (rule make_key_ok [OF L K k0(1) pos, of "now 0" "sys 0" t None certValidity, unfolded option.case]) blast
  have z1: "kc_keys K k1 zi \<noteq> None" by (rule keeps_keysD(1) [OF k1(3) k0(2)])
  obtain k2 kskId kskCert where k2: "make_key L K (now 1) (sys 1) (t\<lparr>t_keyChain := k1\<rparr>) zi (Some (di @ [keyComp, dkeyId])) cacheTtl certValidity =
      (t\<lparr>t_keyChain := k2\<rparr>, Inr (zi @ [keyComp, kskId], kskCert))"
    "d_name kskCert = zi @ [keyComp, kskId, generic ''CERT'', fromVersion L (now 1)]" "keeps_keys K k1 k2"
    "has_key K k2 zi (zi @ [keyComp, kskId])" "issued_by L (di @ [keyComp, dkeyId]) cacheTtl kskCert"
    by (rule make_key_ok [OF L K z1 pos, of "now 1" "sys 1" t "Some (di @ [keyComp, dkeyId])" certValidity, unfolded option.case]) blast
  have z2: "kc_keys K k2 zi \<noteq> None" by (rule keeps_keysD(1) [OF k2(3) z1])
  obtain k3 dskId dskCert where k3: "make_key L K (now 2) (sys 2) (t\<lparr>t_keyChain := k2\<rparr>) zi (Some (zi @ [keyComp, kskId])) cacheTtl certValidity =
      (t\<lparr>t_keyChain := k3\<rparr>, Inr (zi @ [keyComp, dskId], dskCert))"
    "d_name dskCert = zi @ [keyComp, dskId, generic ''CERT'', fromVersion L (now 2)]"
    "\<not> has_key K k2 zi (zi @ [keyComp, dskId])" "has_key K k3 zi (zi @ [keyComp, dskId])"
    "has_cert K k3 zi (zi @ [keyComp, dskId]) dskCert" "kc_defaultCertificate K k3 (zi @ [keyComp, dskId]) = Some dskCert"
    "issued_by L (zi @ [keyComp, kskId]) cacheTtl dskCert"
    by (rule make_key_ok [OF L K z2 pos, of "now 2" "sys 2" t "Some (zi @ [keyComp, kskId])" certValidity, unfolded option.case]) blast
  obtain k4 where k4: "kc_setDefaultKey K k3 zi (zi @ [keyComp, dskId]) = Some k4" "kc_defaultKey K k4 zi = Some (zi @ [keyComp, dskId])"
    "kc_keys K k4 = kc_keys K k3" "kc_defaultCertificate K k4 = kc_defaultCertificate K k3"
    by (rule keychain_ok_default [OF K k3(4)])
  show thesis
  proof (rule that [of k4 dkeyCert kskCert dskCert dkeyId kskId dskId])
    show "zone_key_chain L K now sys t zi di cacheTtl certValidity DEFAULT_CERT DEFAULT_CERT DEFAULT_CERT =
        (t\<lparr>t_keyChain := k4\<rparr>, Inr (dkeyCert, kskCert, dskCert))"
      using k1(1) k2(1) k3(1) k4(1) by (simp add: zone_key_chain_def Let_def)
    show "kskId \<noteq> dskId" using k2(4) k3(3) by blast
  qed (use k1(2,4) k2(2,5) k3(2,5-7) k4(2-4) in \<open>simp_all add: has_cert_def\<close>)
qed

lemma has_cert_zone_keys:
  assumes s: "signs L" and k: "kc_defaultKey K k (zoneName @ [NDNS_ITERATIVE_QUERY]) = Some n" "kc_defaultCertificate K k n = Some c"
    "has_cert K k (zoneName @ [NDNS_ITERATIVE_QUERY]) n c"
  shows "zone_keys L K k zoneName"
proof -
  let ?i = "zoneName @ [NDNS_ITERATIVE_QUERY]"
  obtain ks cs where ks: "kc_keys K k ?i = Some ks" "(n, cs) \<in> set ks" "c \<in> set cs" using k(3) by (auto simp: has_cert_def)
  then have "c \<in> set (concat (map snd ks))" by force
  then have "find (\<lambda>x. d_name x = d_name c) (concat (map snd ks)) \<noteq> None" unfolding find_None_iff by blast
  then obtain c' where "find (\<lambda>x. d_name x = d_name c) (concat (map snd ks)) = Some c'" by blast
  then show ?thesis
    using ks(1) k(1,2) s
    by (simp add: zone_keys_def getDefaultKeyNameOfIdentity_def getDefaultCertificateNameOfIdentity_def getCertificate_def
        getIdentity_def signs_def)
qed

section \<open>The database\<close>

text \<open>Every record belongs to a zone of the table of zones.\<close>

definition no_orphans :: "dbmgr \<Rightarrow> bool" where
  "no_orphans d \<longleftrightarrow> (\<forall>row \<in> set (rrsets (m_tables d)). r_zone row \<in> set (map z_id (zones (m_tables d))))"

lemma findZone_absent:
  assumes g: "db_good L E d" and n: "nameWire L zoneName \<notin> z_name ` set (zones (m_tables d))"
  shows "findZone L E d (Zone_new zoneName ttl) = (d, Inr (Zone_new zoneName ttl, False))"
proof -
  note D = db_goodD [OF g]
  have "map_of (map (\<lambda>r. (z_name r, r)) (zones (m_tables d))) (nameWire L zoneName) = None"
    using n by (simp add: map_of_key_None)
  then show ?thesis using findZone_found [OF D(3) D(8,9,6), of "Zone_new zoneName ttl"] by (simp add: Zone_new_def)
qed

lemma findZone_present:
  assumes g: "db_good L E d" and n: "nameWire L zoneName \<in> z_name ` set (zones (m_tables d))"
  shows "\<exists>z. findZone L E d (Zone_new zoneName ttl) = (d, Inr (z, True))"
proof -
  note D = db_goodD [OF g]
  obtain r where "map_of (map (\<lambda>r. (z_name r, r)) (zones (m_tables d))) (nameWire L zoneName) = Some r"
    using n map_of_key_None [of z_name "zones (m_tables d)" "nameWire L zoneName"]
    by (cases "map_of (map (\<lambda>r. (z_name r, r)) (zones (m_tables d))) (nameWire L zoneName)") auto
  then show ?thesis using findZone_found [OF D(3) D(8,9,6), of "Zone_new zoneName ttl"] by (simp add: Zone_new_def)
qed

lemma addZone_ok:
  assumes g: "db_good L E d" and room: "sqlite_roomy E" "length (zones (m_tables d)) < 2 ^ 62" and o: "no_orphans d"
    and new: "nameWire L zoneName \<notin> z_name ` set (zones (m_tables d))"
  obtains rid d' where "newRowid E (map z_id (zones (m_tables d))) = Some rid"
    "addZone L E d (Zone_new zoneName ttl) = (d', Inr ((Zone_new zoneName ttl)\<lparr>zone_id := nat rid\<rparr>))"
    "store_inv L E (addr, (Zone_new zoneName ttl)\<lparr>zone_id := nat rid\<rparr>) d'"
    "db_get L E (addr, (Zone_new zoneName ttl)\<lparr>zone_id := nat rid\<rparr>) d' = Map.empty"
    "zone_known L (addr, (Zone_new zoneName ttl)\<lparr>zone_id := nat rid\<rparr>) d'"
    "rrsets (m_tables d') = rrsets (m_tables d)" "m_dbFile d' = m_dbFile d" "0 < rid"
    "rid \<in> set (map z_id (zones (m_tables d')))"
proof -
  note D = db_goodD [OF g]
  let ?z = "Zone_new zoneName ttl"
  obtain rid where rid: "newRowid E (map z_id (zones (m_tables d))) = Some rid"
    using room unfolding sqlite_roomy_def by (metis length_map option.exhaust)
  note fresh = sqlite_soundD(7) [OF D(3) rid]
  let ?row = "\<lparr>z_id = rid, z_name = nameWire L zoneName, z_ttl = to_int32 ttl\<rparr>"
  let ?d = "set_zones (zones (m_tables d) @ [?row]) d" and ?p = "(addr, ?z\<lparr>zone_id := nat rid\<rparr>)"
  have f: "findZone L E d ?z = (d, Inr (?z, False))" by (rule findZone_absent [OF g new])
  have ins: "insertZone L E d ?z = (?d, Inr (?z\<lparr>zone_id := nat rid\<rparr>))"
    using D(8,9) new rid fresh by (auto simp: insertZone_def Let_def saveName_def Zone_new_def)
  have "db_inv L ?d" using insertZone_inv [OF D(3,6), of ?z] ins by simp
  then have g': "db_good L E ?d" using g by (simp add: db_good_def one_version_def)
  have col: "col_of_id (nat rid) = rid" using fresh by (simp add: nat_less_iff)
  have i: "store_inv L E ?p ?d" using g' fresh col by (simp add: store_inv_def)
  have "rr_at ?d (key_of L (snd ?p) l ty) = None" for l ty
    using o fresh col by (auto simp: rr_at_None key_of_def rr_key_def no_orphans_def)
  then have get: "db_get L E ?p ?d = Map.empty" by (simp add: fun_eq_iff db_get_at [OF i])
  show thesis
  proof (rule that [OF rid _ i get])
    show "addZone L E d ?z = (?d, Inr (?z\<lparr>zone_id := nat rid\<rparr>))" using f ins by (simp add: addZone_def)
  qed (use fresh in \<open>simp_all add: zone_known_def Zone_new_def\<close>)
qed

lemma addIdCert_label:
  assumes "d_name cert = zone @ [marker, k, keyId, issuer, version]" "length (d_name cert) < 2 ^ 64"
  shows "take (size_minus (size_minus (length (d_name cert)) (length zone)) 3) (drop (length zone + 1) (d_name cert)) = [k, keyId]"
    "last (d_name cert) = version"
  using assms by simp_all

lemma addIdCert_ok:
  assumes i: "store_inv L E p d" and none: "db_get L E p d ([keyComp, keyId], CERT_RR_TYPE) = None" and room: "roomy E d (Suc n)"
    and name: "d_name cert = zone_name (snd p) @ [NDNS_ITERATIVE_QUERY, keyComp, keyId, issuer, version]" "length (d_name cert) < 2 ^ 64"
  obtains d' where "addIdCert L E d p cert ttl = (d', Inr p)" "store_inv L E p d'" "roomy E d' n"
    "db_get L E p d' = (db_get L E p d)(([keyComp, keyId], CERT_RR_TYPE) \<mapsto> (version, ttl, dataBlock L cert))"
    "zones (m_tables d') = zones (m_tables d)" "m_dbFile d' = m_dbFile d" "zone_info (m_tables d') = zone_info (m_tables d)"
    "length (rrsets (m_tables d')) = Suc (length (rrsets (m_tables d)))"
proof -
  let ?k = "([keyComp, keyId], CERT_RR_TYPE)" and ?v = "(version, ttl, dataBlock L cert)"
  let ?r = "rr_fill ?v (rr_object p ?k)"
  have r: "(Rrset_new (Some p))\<lparr>rrset_label := [keyComp, keyId], rrset_type := CERT_RR_TYPE, rrset_ttl := ttl,
      rrset_version := version, rrset_data := dataBlock L cert\<rparr> = ?r"
    by (simp add: rr_fill_def rr_object_def Rrset_new_def)
  have at: "rr_at d (obj_key L p ?k) = None" using none by (simp add: db_get_at [OF i])
  obtain rid where rid: "newRowid E (map r_id (rrsets (m_tables d))) = Some rid"
    using room unfolding roomy_def sqlite_roomy_def by (metis add_lessD1 length_map option.exhaust)
  note I = db_ins_None [OF i none rid refl, of ?v]
  have g: "db_good L E d" "zone_id (snd p) \<noteq> 0" "foreignKeys E \<longrightarrow> col_of_id (zone_id (snd p)) \<in> set (map z_id (zones (m_tables d)))"
    using i by (simp_all add: store_inv_def)
  have ins: "insertRrset L E d ?r = (set_rrsets (rrsets (m_tables d) @ [row_of L rid (snd p) ?r]) d, Inr (?r\<lparr>rrset_id := nat rid\<rparr>))"
    using insertRrset_new [OF g(1) _ _ g(2) _ rid g(3), of ?r "fst p"] at by simp
  show thesis
  proof (rule that [OF _ I(2) _ I(3)])
    show "addIdCert L E d p cert ttl = (set_rrsets (rrsets (m_tables d) @ [row_of L rid (snd p) ?r]) d, Inr p)"
      unfolding addIdCert_def Let_def addIdCert_label [OF name] r findRrset_filled [OF i] at
      by (simp add: ins)
  qed (use room in \<open>simp_all add: roomy_def\<close>)
qed

lemma setZoneInfo_ok:
  assumes i: "store_inv L E p d" and key: "length key \<le> 10"
    and z: "zone_id (snd p) < 2 ^ 31" "int (zone_id (snd p)) \<in> set (map z_id (zones (m_tables d)))"
  obtains d' where "setZoneInfo L E d (snd p) key val = (d', Inr ())" "store_inv L E p d'" "db_get L E p d' = db_get L E p d"
    "zones (m_tables d') = zones (m_tables d)" "rrsets (m_tables d') = rrsets (m_tables d)" "m_dbFile d' = m_dbFile d"
    "info_of L (int (zone_id (snd p))) (zone_info (m_tables d')) =
       (info_of L (int (zone_id (snd p))) (zone_info (m_tables d)))(key \<mapsto> val)"
proof -
  have g: "db_good L E d" "zone_id (snd p) \<noteq> 0" using i by (simp_all add: store_inv_def)
  note D = db_goodD [OF g(1)]
  have "int (zone_id (snd p)) < 2 ^ 31" using z(1) by simp
  then have id: "to_int32 (int (zone_id (snd p))) = int (zone_id (snd p))" by simp
  let ?zid = "int (zone_id (snd p))"
  let ?row = "\<lparr>f_zone = ?zid, f_key = key, f_value = blockWire L val\<rparr>"
  let ?d = "set_info (filter (\<lambda>r. \<not> (f_zone r = ?zid \<and> f_key r = key)) (zone_info (m_tables d)) @ [?row]) d"
  have s: "setZoneInfo L E d (snd p) key val = (?d, Inr ())"
    using key g(2) D(8,9) z(2) by (simp add: setZoneInfo_def Let_def id)
  have "db_inv L ?d" using setZoneInfo_inv [OF D(6), of E "snd p" key val] s by simp
  then have i': "store_inv L E p ?d" using i by (simp add: store_inv_def db_good_def one_version_def)
  have "rr_at ?d x = rr_at d x" for x by (simp add: rr_at_def)
  then have "db_get L E p ?d = db_get L E p d" by (intro ext) (simp only: db_get_at [OF i] db_get_at [OF i'])
  moreover have "info_blk L ?row = val" using D(2) by (simp add: info_blk_def block_codecD)
  ultimately show thesis using that [OF s i'] by (simp add: info_of_set)
qed

text \<open>The info of the zones is not touched by writes of records.\<close>

definition info_rows :: "dbmgr \<Rightarrow> info_row list" where
  "info_rows d = zone_info (m_tables d)"

lemma info_rows_set [simp]: "info_rows (set_rrsets rs d) = info_rows d" "info_rows (set_zones zs d) = info_rows d"
  by (simp_all add: info_rows_def)

lemma info_and_then:
  assumes "info_rows (fst r) = v" and "\<And>s x. r = (s, Inr x) \<Longrightarrow> info_rows s = v \<Longrightarrow> info_rows (fst (k s x)) = v"
  shows "info_rows (fst (and_then r k)) = v"
  using assms by (rule and_then_state)

lemma insertZone_info: "info_rows (fst (insertZone L E d z)) = info_rows d"
  by (simp add: insertZone_def Let_def split: option.splits)

lemma insertRrset_info: "info_rows (fst (insertRrset L E d r)) = info_rows d"
proof -
  have row: "info_rows (fst (insert_row L E d' a z r)) = info_rows d'" for d' a z
    by (simp add: insert_row_def Let_def split: option.splits)
  have "info_rows (fst (and_then (if zone_id z = 0 then insertZone L E d z else (d, Inr z)) (\<lambda>d z. insert_row L E d a z r))) = info_rows d" for a z
    by (rule and_then_state) (simp_all add: insertZone_info row)
  then show ?thesis by (auto simp: insertRrset_def split: option.splits)
qed

lemma insert_doe_info: "info_rows (fst (insert_doe L E now f d label lower upper)) = info_rows d"
  unfolding insert_doe_def by (intro info_and_then) (simp_all add: insertRrset_info)

lemma insert_chain_info: "info_rows (fst (insert_chain L E now f d rs)) = info_rows d"
proof (induction rs arbitrary: d rule: induct_list012)
  case (3 r1 r2 rs)
  show ?case by (simp, rule info_and_then) (simp_all add: insert_doe_info "3.IH"(2))
qed simp_all

lemma removeRrsetsOfZoneByType_info: "info_rows (fst (removeRrsetsOfZoneByType L E d z ty)) = info_rows d"
  unfolding removeRrsetsOfZoneByType_def by (rule info_and_then) (simp_all add: Let_def)

lemma generateDoe_info: "info_rows (fst (generateDoe L E K k dflt now fa d p)) = info_rows d"
proof -
  have chain: "info_rows (fst (and_then (insert_chain L E now f d' rs) (\<lambda>d _.
      and_then (insert_doe L E now f d l1 l2 l3) (\<lambda>d _. and_then (insert_doe L E now f d [] l4 l5) (\<lambda>d _. (d, Inr (z :: zone))))))) = v"
    if "info_rows d' = v" for f d' rs z v l1 l2 l3 l4 l5
    using that by (intro info_and_then) (simp_all add: insert_chain_info insert_doe_info)
  show ?thesis
    unfolding generateDoe_def Let_def
    by (intro info_and_then)
       (auto simp: removeRrsetsOfZoneByType_info intro!: info_and_then chain split: prod.splits sum.splits)
qed

section \<open>Creating a zone\<close>

text \<open>The three certificates are kept in the info of the zone.\<close>

lemma zone_info_stored:
  assumes i: "store_inv L E p d" and z: "zone_id (snd p) < 2 ^ 31" "zone_known L p d"
  obtains d' where
    "and_then (setZoneInfo L E d (snd p) ''ksk'' kb) (\<lambda>d _. and_then (setZoneInfo L E d (snd p) ''dsk'' sb) (\<lambda>d _.
       and_then (setZoneInfo L E d (snd p) ''dkey'' db) (\<lambda>d _. f d))) = f d'"
    "store_inv L E p d'" "db_get L E p d' = db_get L E p d" "zones (m_tables d') = zones (m_tables d)" "rrsets (m_tables d') = rrsets (m_tables d)"
    "m_dbFile d' = m_dbFile d" "info_of L (int (zone_id (snd p))) (info_rows d') =
       (info_of L (int (zone_id (snd p))) (info_rows d))(''ksk'' \<mapsto> kb, ''dsk'' \<mapsto> sb, ''dkey'' \<mapsto> db)"
proof -
  have mem: "int (zone_id (snd p)) \<in> set (map z_id (zones (m_tables d)))" using z(2) by (force simp: zone_known_def)
  obtain d1 where d1: "setZoneInfo L E d (snd p) ''ksk'' kb = (d1, Inr ())" "store_inv L E p d1" "db_get L E p d1 = db_get L E p d"
    "zones (m_tables d1) = zones (m_tables d)" "rrsets (m_tables d1) = rrsets (m_tables d)" "m_dbFile d1 = m_dbFile d"
    "info_of L (int (zone_id (snd p))) (zone_info (m_tables d1)) = (info_of L (int (zone_id (snd p))) (zone_info (m_tables d)))(''ksk'' \<mapsto> kb)"
    by (rule setZoneInfo_ok [OF i _ z(1) mem, of "''ksk''" kb]) simp
  obtain d2 where d2: "setZoneInfo L E d1 (snd p) ''dsk'' sb = (d2, Inr ())" "store_inv L E p d2" "db_get L E p d2 = db_get L E p d1"
    "zones (m_tables d2) = zones (m_tables d1)" "rrsets (m_tables d2) = rrsets (m_tables d1)" "m_dbFile d2 = m_dbFile d1"
    "info_of L (int (zone_id (snd p))) (zone_info (m_tables d2)) = (info_of L (int (zone_id (snd p))) (zone_info (m_tables d1)))(''dsk'' \<mapsto> sb)"
    by (rule setZoneInfo_ok [OF d1(2) _ z(1) mem [folded d1(4)], of "''dsk''" sb]) simp
  obtain d3 where d3: "setZoneInfo L E d2 (snd p) ''dkey'' db = (d3, Inr ())" "store_inv L E p d3" "db_get L E p d3 = db_get L E p d2"
    "zones (m_tables d3) = zones (m_tables d2)" "rrsets (m_tables d3) = rrsets (m_tables d2)" "m_dbFile d3 = m_dbFile d2"
    "info_of L (int (zone_id (snd p))) (zone_info (m_tables d3)) = (info_of L (int (zone_id (snd p))) (zone_info (m_tables d2)))(''dkey'' \<mapsto> db)"
    by (rule setZoneInfo_ok [OF d2(2) _ z(1) mem [folded d1(4), folded d2(4)], of "''dkey''" db]) simp
  show thesis by (rule that [of d3]) (simp_all add: d1 d2 d3 info_rows_def)
qed

text \<open>What a new zone needs of the database: room, a name that is not taken and a 32-bit id.\<close>

definition room_for_zone :: "ndn \<Rightarrow> sqlite \<Rightarrow> string \<Rightarrow> dbmgr \<Rightarrow> name \<Rightarrow> bool" where
  "room_for_zone L E dflt d zoneName \<longleftrightarrow>
     db_good L E d \<and> no_orphans d \<and> sqlite_roomy E \<and> length (zones (m_tables d)) < 2 ^ 62 \<and> length (rrsets (m_tables d)) < 2 ^ 59 \<and>
     openOk E (if m_dbFile d = [] then dflt else m_dbFile d) \<and> length zoneName + 5 < 2 ^ 64 \<and>
     nameWire L zoneName \<notin> z_name ` set (zones (m_tables d)) \<and>
     (\<forall>rid. newRowid E (map z_id (zones (m_tables d))) = Some rid \<longrightarrow> rid < 2 ^ 31)"

lemma new_zone_certs:
  assumes r: "room_for_zone L E dflt d zoneName"
    and ksk: "d_name kskCert = zoneName @ [NDNS_ITERATIVE_QUERY, keyComp, kskId, ki, kv]"
    and dsk: "d_name dskCert = zoneName @ [NDNS_ITERATIVE_QUERY, keyComp, dskId, si, sv]" and ne: "kskId \<noteq> dskId"
  obtains p d1 d2 d3 where "addZone L E d (Zone_new zoneName ttl) = (d1, Inr (snd p))" "fst p = addr"
    "zone_name (snd p) = zoneName" "zone_id (snd p) < 2 ^ 31" "zone_known L p d3" "m_dbFile d3 = m_dbFile d" "store_inv L E p d3"
    "addIdCert L E d1 p kskCert ttl = (d2, Inr p)" "addIdCert L E d2 p dskCert ttl = (d3, Inr p)"
    "db_get L E p d3 = [([keyComp, kskId], CERT_RR_TYPE) \<mapsto> (kv, ttl, dataBlock L kskCert),
                        ([keyComp, dskId], CERT_RR_TYPE) \<mapsto> (sv, ttl, dataBlock L dskCert)]"
    "length (rrsets (m_tables d3)) < 2 ^ 60"
proof -
  have R: "db_good L E d" "sqlite_roomy E" "length (zones (m_tables d)) < 2 ^ 62" "no_orphans d"
    "nameWire L zoneName \<notin> z_name ` set (zones (m_tables d))" and len: "length (rrsets (m_tables d)) < 2 ^ 59"
    and sz: "length (d_name kskCert) < 2 ^ 64" "length (d_name dskCert) < 2 ^ 64"
    using r by (simp_all add: room_for_zone_def ksk dsk)
  obtain rid d1 where z: "newRowid E (map z_id (zones (m_tables d))) = Some rid" and
    d1: "addZone L E d (Zone_new zoneName ttl) = (d1, Inr ((Zone_new zoneName ttl)\<lparr>zone_id := nat rid\<rparr>))"
    "store_inv L E (addr, (Zone_new zoneName ttl)\<lparr>zone_id := nat rid\<rparr>) d1"
    "db_get L E (addr, (Zone_new zoneName ttl)\<lparr>zone_id := nat rid\<rparr>) d1 = Map.empty"
    "zone_known L (addr, (Zone_new zoneName ttl)\<lparr>zone_id := nat rid\<rparr>) d1"
    "rrsets (m_tables d1) = rrsets (m_tables d)" "m_dbFile d1 = m_dbFile d" "0 < rid"
    by (rule addZone_ok [OF R(1-5), of ttl addr]) blast
  define p where "p = (addr, (Zone_new zoneName ttl)\<lparr>zone_id := nat rid\<rparr>)"
  have p: "fst p = addr" "snd p = (Zone_new zoneName ttl)\<lparr>zone_id := nat rid\<rparr>" "zone_name (snd p) = zoneName"
    by (simp_all add: p_def Zone_new_def)
  note d1 = d1 [folded p_def]
  have small: "zone_id (snd p) < 2 ^ 31" using r z d1(7) by (simp add: p(2) room_for_zone_def nat_less_iff)
  have room: "roomy E d1 (Suc (Suc 0))" using R(2) len d1(5) by (simp add: roomy_def)
  obtain d2 where d2: "addIdCert L E d1 p kskCert ttl = (d2, Inr p)" "store_inv L E p d2" "roomy E d2 (Suc 0)"
    "db_get L E p d2 = (db_get L E p d1)(([keyComp, kskId], CERT_RR_TYPE) \<mapsto> (kv, ttl, dataBlock L kskCert))"
    "zones (m_tables d2) = zones (m_tables d1)" "m_dbFile d2 = m_dbFile d1" "length (rrsets (m_tables d2)) = Suc (length (rrsets (m_tables d1)))"
    by (rule addIdCert_ok [OF d1(2) _ room ksk [folded p(3)] sz(1), of ttl]) (use d1(3) in auto)
  have new: "db_get L E p d2 ([keyComp, dskId], CERT_RR_TYPE) = None" using d2(4) d1(3) ne by simp
  obtain d3 where d3: "addIdCert L E d2 p dskCert ttl = (d3, Inr p)" "store_inv L E p d3"
    "db_get L E p d3 = (db_get L E p d2)(([keyComp, dskId], CERT_RR_TYPE) \<mapsto> (sv, ttl, dataBlock L dskCert))"
    "zones (m_tables d3) = zones (m_tables d2)" "m_dbFile d3 = m_dbFile d2" "length (rrsets (m_tables d3)) = Suc (length (rrsets (m_tables d2)))"
    by (rule addIdCert_ok [OF d2(2) new d2(3) dsk [folded p(3)] sz(2), of ttl]) blast
  show thesis
    by (rule that [OF _ p(1,3) small _ _ d3(2) d2(1) d3(1)])
       (use d1 d2(4-7) d3(3-6) len p(2) in \<open>simp_all add: zone_known_def\<close>)
qed

lemma publish_zone_ok:
  assumes L: "ndn_ok L" and r: "room_for_zone L E dflt d zoneName" and k: "zone_keys L K k zoneName"
    and ksk: "d_name kskCert = zoneName @ [NDNS_ITERATIVE_QUERY, keyComp, kskId, ki, kv]"
    and dsk: "d_name dskCert = zoneName @ [NDNS_ITERATIVE_QUERY, keyComp, dskId, si, sv]" and ne: "kskId \<noteq> dskId"
  obtains d' zone where "publish_zone L E K k dflt now fa addr d (Zone_new zoneName ttl) ttl dkeyCert kskCert dskCert = (d', Inr zone)"
    "zone_name zone = zoneName" "zone_ready L E K k dflt (addr, zone) d'"
    "changed_to L E (addr, zone) [([keyComp, kskId], CERT_RR_TYPE) \<mapsto> (kv, ttl, dataBlock L kskCert),
       ([keyComp, dskId], CERT_RR_TYPE) \<mapsto> (sv, ttl, dataBlock L dskCert)] d'"
    "getZoneDkey L E d' zone = (d', Inr dkeyCert)"
proof -
  obtain p d1 d2 d3 where z: "addZone L E d (Zone_new zoneName ttl) = (d1, Inr (snd p))" "fst p = addr"
    "zone_name (snd p) = zoneName" "zone_id (snd p) < 2 ^ 31" "zone_known L p d3" "m_dbFile d3 = m_dbFile d" "store_inv L E p d3"
    "addIdCert L E d1 p kskCert ttl = (d2, Inr p)" "addIdCert L E d2 p dskCert ttl = (d3, Inr p)"
    "db_get L E p d3 = [([keyComp, kskId], CERT_RR_TYPE) \<mapsto> (kv, ttl, dataBlock L kskCert),
                        ([keyComp, dskId], CERT_RR_TYPE) \<mapsto> (sv, ttl, dataBlock L dskCert)]"
    "length (rrsets (m_tables d3)) < 2 ^ 60" by (rule new_zone_certs [OF r ksk dsk ne])
  let ?f = "\<lambda>d. generateDoe L E K k dflt now fa d p"
  obtain d4 where d4: "and_then (setZoneInfo L E d3 (snd p) ''ksk'' (dataBlock L kskCert)) (\<lambda>d _.
       and_then (setZoneInfo L E d (snd p) ''dsk'' (dataBlock L dskCert)) (\<lambda>d _.
       and_then (setZoneInfo L E d (snd p) ''dkey'' (dataBlock L dkeyCert)) (\<lambda>d _. ?f d))) = ?f d4"
    "store_inv L E p d4" "db_get L E p d4 = db_get L E p d3" "zones (m_tables d4) = zones (m_tables d3)"
    "rrsets (m_tables d4) = rrsets (m_tables d3)" "m_dbFile d4 = m_dbFile d3"
    "info_of L (int (zone_id (snd p))) (info_rows d4) = (info_of L (int (zone_id (snd p))) (info_rows d3))
       (''ksk'' \<mapsto> dataBlock L kskCert, ''dsk'' \<mapsto> dataBlock L dskCert, ''dkey'' \<mapsto> dataBlock L dkeyCert)"
    by (rule zone_info_stored [OF z(7,4,5), of "dataBlock L kskCert" "dataBlock L dskCert" "dataBlock L dkeyCert" ?f])
  have pub: "publish_zone L E K k dflt now fa addr d (Zone_new zoneName ttl) ttl dkeyCert kskCert dskCert = ?f d4"
    using d4(1) z(1,2,8,9) by (simp add: publish_zone_def flip: z(2))
  have "openOk E (if m_dbFile d = [] then dflt else m_dbFile d)" using r by (simp only: room_for_zone_def)
  then have ready: "zone_ready L E K k dflt p d4"
    using d4(2,4,6) z(3,5,6) k by (simp only: zone_ready_def zone_known_def)
  have key: "snd ([keyComp, kskId], CERT_RR_TYPE) \<noteq> DOE_RR_TYPE" "db_get L E p d4 ([keyComp, kskId], CERT_RR_TYPE) \<noteq> None"
    using d4(3) z(10) ne by (simp_all add: label_defs)
  have room: "sqlite_roomy E" using r by (simp add: room_for_zone_def)
  have "zone_types L E p d4 \<noteq> {}" unfolding zone_types_def using key by blast
  then obtain d5 ttl' ks where d5: "?f d4 = (d5, Inr ((snd p)\<lparr>zone_ttl := ttl'\<rparr>))" "zone_ready L E K k dflt p d5"
    "\<And>key. snd key \<noteq> DOE_RR_TYPE \<Longrightarrow> db_get L E p d5 key = db_get L E p d4 key" "chained L E p d5 ks"
    "\<And>l v. db_get L E p d5 (l, DOE_RR_TYPE) = Some v \<Longrightarrow> named_value L (zone_name (snd p)) (l, DOE_RR_TYPE) v"
    by (rule generateDoe_ok [OF L ready room z(11) [folded d4(5)]]) blast
  let ?q = "(addr, (snd p)\<lparr>zone_ttl := ttl'\<rparr>)"
  have same: "same_zone p ?q" by (simp add: same_zone_def)
  have i5: "store_inv L E p d5" using d5(2) by (simp add: zone_ready_def)
  then have g: "db_good L E d5" "zone_id (snd p) \<noteq> 0" by (simp_all add: store_inv_def)
  note D = db_goodD [OF g(1)]
  have "int (zone_id (snd p)) < 2 ^ 31" using z(4) by simp
  then have "to_int32 (int (zone_id (snd p))) = int (zone_id (snd p))" by simp
  moreover have "info_rows d5 = info_rows d4" using generateDoe_info [of L E K k dflt now fa d4 p] d5(1) by simp
  ultimately have dkey: "getZoneDkey L E d5 (snd ?q) = (d5, Inr dkeyCert)"
    using getZoneInfo_ok [OF D(3-6,2), of "snd ?q"] g(2) d4(7) data_codecD(1) [OF ndn_okD(4) [OF L]]
    by (simp add: getZoneDkey_def info_rows_def)
  have "changed_to L E p (db_get L E p d3) d5" using i5 d5(3-5) d4(3) by (auto simp: changed_to_def)
  then show thesis
    using that [of d5 "snd ?q"] pub d5(1,2) z(3,10) dkey by (simp add: changed_to_ptr [OF same] zone_ready_ptr [OF same])
qed

lemma getKeyName_of: "d_name c = i @ [a, b, x, v] \<Longrightarrow> getKeyName c = i @ [a, b]"
  by (simp add: getKeyName_def)

lemma check_new_zone_ok:
  assumes r: "room_for_zone L E dflt (t_db t) zoneName" and parent: "strict_prefix parentZoneName zoneName"
  shows "check_new_zone L E K t zoneName parentZoneName cacheTtl DEFAULT_CERT DEFAULT_CERT DEFAULT_CERT = (t, Inr (Zone_new zoneName cacheTtl))"
proof -
  have "findZone L E (t_db t) (Zone_new zoneName cacheTtl) = (t_db t, Inr (Zone_new zoneName cacheTtl, False))"
    by (rule findZone_absent) (use r in \<open>simp_all add: room_for_zone_def\<close>)
  with parent show ?thesis by (auto simp: check_new_zone_def ROOT_ZONE_def strict_prefix_def)
qed

lemma createZone_effect:
  assumes L: "ndn_ok L" "signs L" and K: "keychain_ok K" and r: "room_for_zone L E dflt (t_db t) zoneName"
    and parent: "strict_prefix parentZoneName zoneName" and pos: "0 \<le> cacheTtl"
  shows "\<exists>t' zone dkeyId kskId dskId dkeyCert kskCert dskCert.
     createZone L E K dflt now sys fa addr t zoneName parentZoneName cacheTtl certValidity DEFAULT_CERT DEFAULT_CERT DEFAULT_CERT =
       (t', Inr zone) \<and> zone_name zone = zoneName \<and> kskId \<noteq> dskId \<and>
     zone_ready L E K (t_keyChain t') dflt (addr, zone) (t_db t') \<and>
     changed_to L E (addr, zone)
       [([keyComp, kskId], CERT_RR_TYPE) \<mapsto> (fromVersion L (now 1), cacheTtl, dataBlock L kskCert),
        ([keyComp, dskId], CERT_RR_TYPE) \<mapsto> (fromVersion L (now 2), cacheTtl, dataBlock L dskCert)] (t_db t') \<and>
     d_name kskCert = zoneName @ [NDNS_ITERATIVE_QUERY, keyComp, kskId, generic ''CERT'', fromVersion L (now 1)] \<and>
     d_name dskCert = zoneName @ [NDNS_ITERATIVE_QUERY, keyComp, dskId, generic ''CERT'', fromVersion L (now 2)] \<and>
     getZoneDkey L E (t_db t') zone = (t_db t', Inr dkeyCert) \<and>
     d_name dkeyCert = parentZoneName @ [NDNS_ITERATIVE_QUERY] @ drop (length parentZoneName) zoneName @
                         [keyComp, dkeyId, generic ''CERT'', fromVersion L (now 0)] \<and>
     issued_by L (getKeyName dkeyCert) cacheTtl dkeyCert \<and> issued_by L (getKeyName dkeyCert) cacheTtl kskCert \<and>
     issued_by L (getKeyName kskCert) cacheTtl dskCert"
proof -
  let ?zi = "zoneName @ [NDNS_ITERATIVE_QUERY]" and ?di = "parentZoneName @ [NDNS_ITERATIVE_QUERY] @ drop (length parentZoneName) zoneName"
  note check = check_new_zone_ok [OF r parent]
  obtain k' dkeyId kskId dskId dkeyCert kskCert dskCert where k:
    "zone_key_chain L K now sys t ?zi ?di cacheTtl certValidity DEFAULT_CERT DEFAULT_CERT DEFAULT_CERT =
       (t\<lparr>t_keyChain := k'\<rparr>, Inr (dkeyCert, kskCert, dskCert))"
    "d_name dkeyCert = ?di @ [keyComp, dkeyId, generic ''CERT'', fromVersion L (now 0)]"
    "d_name kskCert = ?zi @ [keyComp, kskId, generic ''CERT'', fromVersion L (now 1)]"
    "d_name dskCert = ?zi @ [keyComp, dskId, generic ''CERT'', fromVersion L (now 2)]" "kskId \<noteq> dskId"
    "kc_defaultKey K k' ?zi = Some (?zi @ [keyComp, dskId])" "kc_defaultCertificate K k' (?zi @ [keyComp, dskId]) = Some dskCert"
    "has_cert K k' ?zi (?zi @ [keyComp, dskId]) dskCert"
    "issued_by L (?di @ [keyComp, dkeyId]) cacheTtl dkeyCert" "issued_by L (?di @ [keyComp, dkeyId]) cacheTtl kskCert"
    "issued_by L (?zi @ [keyComp, kskId]) cacheTtl dskCert"
    by (rule zone_key_chain_ok [OF ndn_okD(5) [OF L(1)] L(2) K pos])
  have keys: "zone_keys L K k' zoneName" by (rule has_cert_zone_keys [OF L(2) k(6-8)])
  obtain d' zone where d':
    "publish_zone L E K k' dflt (now 3) fa addr (t_db t) (Zone_new zoneName cacheTtl) cacheTtl dkeyCert kskCert dskCert = (d', Inr zone)"
    "zone_name zone = zoneName" "zone_ready L E K k' dflt (addr, zone) d'"
    "changed_to L E (addr, zone) [([keyComp, kskId], CERT_RR_TYPE) \<mapsto> (fromVersion L (now 1), cacheTtl, dataBlock L kskCert),
       ([keyComp, dskId], CERT_RR_TYPE) \<mapsto> (fromVersion L (now 2), cacheTtl, dataBlock L dskCert)] d'"
    "getZoneDkey L E d' zone = (d', Inr dkeyCert)"
    by (rule publish_zone_ok [OF L(1) r keys _ _ k(5)]) (use k(3,4) in simp_all)
  have "createZone L E K dflt now sys fa addr t zoneName parentZoneName cacheTtl certValidity DEFAULT_CERT DEFAULT_CERT DEFAULT_CERT =
      (t\<lparr>t_keyChain := k', t_db := d'\<rparr>, Inr zone)"
    by (simp add: createZone_def check dkeyIdentity_def k(1) [simplified] d'(1))
  moreover have "issued_by L (getKeyName dkeyCert) cacheTtl dkeyCert" "issued_by L (getKeyName dkeyCert) cacheTtl kskCert"
    "issued_by L (getKeyName kskCert) cacheTtl dskCert"
    unfolding getKeyName_of [OF k(2)] getKeyName_of [OF k(3)] by (rule k(9), rule k(10), rule k(11))
  ultimately show ?thesis
    using d'(2-5) k(2-5)
    by (intro exI [of _ "t\<lparr>t_keyChain := k', t_db := d'\<rparr>"] exI [of _ zone] exI [of _ dkeyId] exI [of _ kskId] exI [of _ dskId]
        exI [of _ dkeyCert] exI [of _ kskCert] exI [of _ dskCert] conjI) simp_all
qed

text \<open>With a negative TTL \<open>createZone\<close> fails at the first certificate, when it has made the D-Key.\<close>

lemma createZone_negative:
  assumes L: "signs L" and K: "keychain_ok K" and r: "room_for_zone L E dflt (t_db t) zoneName"
    and parent: "strict_prefix parentZoneName zoneName" and neg: "cacheTtl < 0"
  shows "\<exists>k' keyId. createZone L E K dflt now sys fa addr t zoneName parentZoneName cacheTtl certValidity DEFAULT_CERT DEFAULT_CERT DEFAULT_CERT =
       (t\<lparr>t_keyChain := k'\<rparr>, Inl Invalid_Argument) \<and>
     (let i = parentZoneName @ [NDNS_ITERATIVE_QUERY] @ drop (length parentZoneName) zoneName; key = i @ [keyComp, keyId] in
        \<not> has_key K (t_keyChain t) i key \<and> has_key K k' i key \<and> kc_defaultCertificate K k' key = None)"
proof -
  let ?zi = "zoneName @ [NDNS_ITERATIVE_QUERY]" and ?di = "parentZoneName @ [NDNS_ITERATIVE_QUERY] @ drop (length parentZoneName) zoneName"
  let ?k0 = "kc_createIdentity K (kc_createIdentity K (t_keyChain t) ?zi) ?di"
  have k0: "kc_keys K ?k0 ?di \<noteq> None" "keeps_keys K (t_keyChain t) ?k0"
    using keychain_ok_identity [OF K] keeps_keys_trans by metis+
  obtain k' keyId where k: "make_key L K (now 0) (sys 0) (t\<lparr>t_keyChain := ?k0\<rparr>) ?di None cacheTtl certValidity = (t\<lparr>t_keyChain := k'\<rparr>, Inl Invalid_Argument)"
    "\<not> has_key K ?k0 ?di (?di @ [keyComp, keyId])" "has_key K k' ?di (?di @ [keyComp, keyId])"
    "kc_defaultCertificate K k' (?di @ [keyComp, keyId]) = None" by (rule make_key_negative [OF L K k0(1) neg])
  have "zone_key_chain L K now sys t ?zi ?di cacheTtl certValidity DEFAULT_CERT DEFAULT_CERT DEFAULT_CERT = (t\<lparr>t_keyChain := k'\<rparr>, Inl Invalid_Argument)"
    using k(1) by (simp add: zone_key_chain_def Let_def)
  then have "createZone L E K dflt now sys fa addr t zoneName parentZoneName cacheTtl certValidity DEFAULT_CERT DEFAULT_CERT DEFAULT_CERT =
      (t\<lparr>t_keyChain := k'\<rparr>, Inl Invalid_Argument)"
    by (simp add: createZone_def check_new_zone_ok [OF r parent] dkeyIdentity_def)
  with k(2-4) keeps_keysD(2) [OF k0(2)] show ?thesis unfolding Let_def by blast
qed

text \<open>
  C20: \<open>createZone\<close> for a new zone below its parent, with no certificate given. With a negative TTL the library refuses the freshness period
  of the first certificate: the exception is passed on, the database is as it was, and the key chain keeps a new D-Key without a certificate.
  With any other TTL it makes three keys and succeeds. Afterwards the zone is ready to be signed and served: its records are exactly the certificates of its KSK and its DSK, under their key names, together with the DoE chain over them; the
  default key of the zone can sign; and \<open>getZoneDkey\<close> returns the certificate of the D-Key, whose identity lies in the parent zone.
\<close>

theorem createZone_spec:
  assumes L: "ndn_ok L" "signs L" and K: "keychain_ok K" and r: "room_for_zone L E dflt (t_db t) zoneName"
    and parent: "strict_prefix parentZoneName zoneName"
  shows "if cacheTtl < 0
     then \<exists>k' keyId. createZone L E K dflt now sys fa addr t zoneName parentZoneName cacheTtl certValidity DEFAULT_CERT DEFAULT_CERT DEFAULT_CERT =
              (t\<lparr>t_keyChain := k'\<rparr>, Inl Invalid_Argument) \<and>
            (let i = parentZoneName @ [NDNS_ITERATIVE_QUERY] @ drop (length parentZoneName) zoneName; key = i @ [keyComp, keyId] in
               \<not> has_key K (t_keyChain t) i key \<and> has_key K k' i key \<and> kc_defaultCertificate K k' key = None)
     else \<exists>t' zone dkeyId kskId dskId dkeyCert kskCert dskCert.
     createZone L E K dflt now sys fa addr t zoneName parentZoneName cacheTtl certValidity DEFAULT_CERT DEFAULT_CERT DEFAULT_CERT =
       (t', Inr zone) \<and> zone_name zone = zoneName \<and> kskId \<noteq> dskId \<and>
     zone_ready L E K (t_keyChain t') dflt (addr, zone) (t_db t') \<and>
     changed_to L E (addr, zone)
       [([keyComp, kskId], CERT_RR_TYPE) \<mapsto> (fromVersion L (now 1), cacheTtl, dataBlock L kskCert),
        ([keyComp, dskId], CERT_RR_TYPE) \<mapsto> (fromVersion L (now 2), cacheTtl, dataBlock L dskCert)] (t_db t') \<and>
     d_name kskCert = zoneName @ [NDNS_ITERATIVE_QUERY, keyComp, kskId, generic ''CERT'', fromVersion L (now 1)] \<and>
     d_name dskCert = zoneName @ [NDNS_ITERATIVE_QUERY, keyComp, dskId, generic ''CERT'', fromVersion L (now 2)] \<and>
     getZoneDkey L E (t_db t') zone = (t_db t', Inr dkeyCert) \<and>
     d_name dkeyCert = parentZoneName @ [NDNS_ITERATIVE_QUERY] @ drop (length parentZoneName) zoneName @
                         [keyComp, dkeyId, generic ''CERT'', fromVersion L (now 0)]"
proof (cases "cacheTtl < 0")
  case True
  then show ?thesis using createZone_negative [OF L(2) K r parent True, where now = now and sys = sys and fa = fa and addr = addr and certValidity = certValidity] by simp
next
  case False
  then have pos: "0 \<le> cacheTtl" by simp
  show ?thesis unfolding if_not_P [OF False] using createZone_effect [OF assms pos, where now = now and sys = sys and fa = fa and addr = addr and certValidity = certValidity] by blast
qed


text \<open>
  \<open>createZone\<close> refuses, without touching the database or the key chain: a zone that exists, a zone that is its own parent, a parent that is
  no prefix of the zone, a certificate that the zone's identity does not have, and a root zone without a certificate for its D-Key.
\<close>

theorem createZone_refused:
  assumes g: "db_good L E (t_db t)" and bad:
    "nameWire L zoneName \<in> z_name ` set (zones (m_tables (t_db t))) \<or>
     zoneName \<noteq> ROOT_ZONE \<and> \<not> strict_prefix parentZoneName zoneName \<or>
     dskCertName \<noteq> DEFAULT_CERT \<and> matchCertificate_tool K (t_keyChain t) dskCertName (zoneName @ [NDNS_ITERATIVE_QUERY]) \<noteq> Inr True \<or>
     dskCertName = DEFAULT_CERT \<and> kskCertName \<noteq> DEFAULT_CERT \<and>
       matchCertificate_tool K (t_keyChain t) kskCertName (zoneName @ [NDNS_ITERATIVE_QUERY]) \<noteq> Inr True \<or>
     dkeyCertName = DEFAULT_CERT \<and> zoneName = ROOT_ZONE"
  shows "\<exists>e. createZone L E K dflt now sys fa addr t zoneName parentZoneName cacheTtl certValidity kskCertName dskCertName dkeyCertName = (t, Inl e)"
proof -
  obtain z where f: "findZone L E (t_db t) (Zone_new zoneName cacheTtl) =
      (t_db t, Inr (z, nameWire L zoneName \<in> z_name ` set (zones (m_tables (t_db t)))))"
    using findZone_absent [OF g] findZone_present [OF g] by metis
  define root md mk where "root = (zoneName = ROOT_ZONE)"
    and "md = matchCertificate_tool K (t_keyChain t) dskCertName (zoneName @ [NDNS_ITERATIVE_QUERY])"
    and "mk = matchCertificate_tool K (t_keyChain t) kskCertName (zoneName @ [NDNS_ITERATIVE_QUERY])"
  note abs = this [symmetric]
  have "\<exists>e. check_new_zone L E K t zoneName parentZoneName cacheTtl kskCertName dskCertName dkeyCertName = (t, Inl e)"
    using bad unfolding check_new_zone_def Let_def f abs
    by (cases md; cases mk) (auto simp: strict_prefix_def)
  then show ?thesis by (auto simp: createZone_def)
qed

section \<open>A key chain\<close>

text \<open>A key chain that keeps its keys in a list per identity; the default certificate of a key is its first.\<close>

record pib =
  pib_keys :: "name \<Rightarrow> (name \<times> certificate list) list option"
  pib_defaultKey :: "name \<Rightarrow> name option"

definition pib_list :: "pib \<Rightarrow> name \<Rightarrow> (name \<times> certificate list) list" where
  "pib_list k i = (case pib_keys k i of None \<Rightarrow> [] | Some ks \<Rightarrow> ks)"

definition pib_identity :: "name \<Rightarrow> name" where
  "pib_identity n = take (length n - 2) n"

definition new_key_name :: "(name \<times> certificate list) list \<Rightarrow> name \<Rightarrow> name" where
  "new_key_name ks i = i @ [keyComp, generic (replicate (Suc (sum_list (map (\<lambda>x. length (comp_value (last (fst x)))) ks))) CHR ''k'')]"

definition pib_change :: "pib \<Rightarrow> name \<Rightarrow> (certificate list \<Rightarrow> certificate list) \<Rightarrow> pib" where
  "pib_change k n f =
     k\<lparr>pib_keys := (pib_keys k)(pib_identity n := map_option (map (\<lambda>(m, cs). (m, if m = n then f cs else cs))) (pib_keys k (pib_identity n)))\<rparr>"

definition pib0 :: "pib keychain" where
  "pib0 =
     \<lparr>kc_keys = pib_keys, kc_defaultKey = pib_defaultKey,
      kc_defaultCertificate = (\<lambda>k n. case map_of (pib_list k (pib_identity n)) n of Some (c # _) \<Rightarrow> Some c | _ \<Rightarrow> None),
      kc_publicKey = (\<lambda>_ _. []),
      kc_createIdentity = (\<lambda>k i. k\<lparr>pib_keys := (pib_keys k)(i \<mapsto> pib_list k i)\<rparr>),
      kc_createKey = (\<lambda>k i. let n = new_key_name (pib_list k i) i in
        (k\<lparr>pib_keys := (pib_keys k)(i \<mapsto> (n, [new_data (n @ [generic ''self''])]) # pib_list k i)\<rparr>, n)),
      kc_deleteCertificate = (\<lambda>k n c. pib_change k n (filter (\<lambda>x. d_name x \<noteq> c))),
      kc_addCertificate = (\<lambda>k n c. Some (pib_change k n (\<lambda>cs. cs @ [c]))),
      kc_setDefaultKey = (\<lambda>k i n. Some (k\<lparr>pib_defaultKey := (pib_defaultKey k)(i \<mapsto> n)\<rparr>)),
      kc_setDefaultCertificate = (\<lambda>k n c. Some (pib_change k n (\<lambda>cs. c # cs)))\<rparr>"

lemma new_key_name_fresh: "new_key_name ks i \<notin> fst ` set ks"
proof
  assume "new_key_name ks i \<in> fst ` set ks"
  then obtain x where x: "x \<in> set ks" "fst x = new_key_name ks i" by force
  have "length (comp_value (last (fst x))) \<le> sum_list (map (\<lambda>x. length (comp_value (last (fst x)))) ks)"
    by (rule member_le_sum_list) (use x(1) in auto)
  then show False by (simp add: x(2)) (simp add: new_key_name_def)
qed

lemma pib_identity_key [simp]: "pib_identity (i @ [a, b]) = i"
  by (simp add: pib_identity_def)

lemma pib_change_keeps: "keeps_keys pib0 k (pib_change k n f)"
  by (force simp: keeps_keys_def has_key_def pib0_def pib_change_def)

lemma map_of_change:
  "map_of (map (\<lambda>(m, cs). (m, if m = n then f cs else cs)) ks) n = map_option f (map_of ks n)"
  by (induction ks) auto

lemma pib0_keys [simp]: "kc_keys pib0 = pib_keys" "kc_defaultKey pib0 = pib_defaultKey" by (simp_all add: pib0_def)

lemma pib0_ok: "keychain_ok pib0"
proof -
  have identity: "kc_keys pib0 (kc_createIdentity pib0 k i) i \<noteq> None" "keeps_keys pib0 k (kc_createIdentity pib0 k i)" for k i
    by (auto simp: pib0_def keeps_keys_def has_key_def pib_list_def)
  have create: "(\<exists>keyId. n = i @ [keyComp, keyId]) \<and> \<not> has_key pib0 k i n \<and> has_key pib0 k' i n \<and> keeps_keys pib0 k k' \<and>
        (\<exists>c. kc_defaultCertificate pib0 k' n = Some c \<and>
             kc_defaultCertificate pib0 (kc_deleteCertificate pib0 k' n (d_name c)) n = None)"
    if c: "kc_createKey pib0 k i = (k', n)" for k i k' n
  proof -
    have n: "n = new_key_name (pib_list k i) i" and k': "pib_keys k' = (pib_keys k)(i \<mapsto> (n, [new_data (n @ [generic ''self''])]) # pib_list k i)"
      using c by (auto simp: pib0_def Let_def)
    have id: "pib_identity n = i" by (simp add: n new_key_name_def)
    have "\<exists>keyId. n = i @ [keyComp, keyId]" by (simp add: n new_key_name_def)
    moreover have "\<not> has_key pib0 k i n" using new_key_name_fresh [of "pib_list k i" i] by (force simp: has_key_def n pib_list_def)
    moreover have "has_key pib0 k' i n" "keeps_keys pib0 k k'" by (auto simp: has_key_def keeps_keys_def k' pib_list_def)
    moreover have "kc_defaultCertificate pib0 k' n = Some (new_data (n @ [generic ''self'']))"
      by (simp add: pib0_def id pib_list_def k')
    moreover have "kc_defaultCertificate pib0 (kc_deleteCertificate pib0 k' n (d_name (new_data (n @ [generic ''self''])))) n = None"
      by (simp add: pib0_def pib_change_def id pib_list_def k')
    ultimately show ?thesis by blast
  qed
  have delete: "keeps_keys pib0 k (kc_deleteCertificate pib0 k n c)" for k n c
    using pib_change_keeps by (simp add: pib0_def)
  have "stores_certificates pib0"
    unfolding stores_certificates_def
  proof (intro allI impI)
    fix k i keyId and c :: certificate and x y assume h: "has_key pib0 k i (i @ [keyComp, keyId])"
    let ?n = "i @ [keyComp, keyId]" and ?k' = "pib_change k (i @ [keyComp, keyId]) (\<lambda>cs. cs @ [c])"
    have "kc_addCertificate pib0 k ?n c = Some ?k'" by (simp add: pib0_def)
    moreover have "has_cert pib0 ?k' i ?n c" using h by (force simp: has_key_def has_cert_def pib_change_def)
    moreover have "kc_defaultCertificate pib0 ?k' ?n = Some c" if "kc_defaultCertificate pib0 k ?n = None"
    proof -
      obtain ks where ks: "pib_keys k i = Some ks" "?n \<in> fst ` set ks" using h by (auto simp: has_key_def)
      then obtain cs where cs: "map_of ks ?n = Some cs" by (metis map_of_eq_None_iff option.exhaust)
      then have "cs = []" using that ks(1) by (cases cs) (simp_all add: pib0_def pib_list_def)
      then show ?thesis using ks(1) cs by (simp add: pib0_def pib_list_def pib_change_def map_of_change)
    qed
    ultimately show "\<exists>k'. kc_addCertificate pib0 k ?n c = Some k' \<and> keeps_keys pib0 k k' \<and> has_cert pib0 k' i ?n c \<and>
        (kc_defaultCertificate pib0 k ?n = None \<longrightarrow> kc_defaultCertificate pib0 k' ?n = Some c)"
      by (intro exI [of _ ?k']) (simp add: pib_change_keeps)
  qed
  moreover have "\<exists>k'. kc_setDefaultKey pib0 k i n = Some k' \<and> kc_defaultKey pib0 k' i = Some n \<and>
      kc_keys pib0 k' = kc_keys pib0 k \<and> kc_defaultCertificate pib0 k' = kc_defaultCertificate pib0 k" for k i n
    by (simp add: pib0_def pib_list_def)
  ultimately show ?thesis unfolding keychain_ok_def using identity create delete by blast
qed

section \<open>Sample zones\<close>

definition tool_sample :: "pib tool" where
  "tool_sample = \<lparr>t_db = db_sample, t_keyChain = \<lparr>pib_keys = Map.empty, pib_defaultKey = Map.empty\<rparr>\<rparr>"

lemma ndn0_signs: "signs ndn0"
  by (simp add: signs_def ndn0_def)

lemma room_sample: "room_for_zone ndn0 sqlite0 ''db'' (t_db tool_sample) [generic ''net'', generic ''ndnsim'']"
proof -
  have "nameWire ndn0 [generic ''net'', generic ''ndnsim''] \<noteq> nameWire ndn0 [generic ''net'']"
    by (simp add: ndn0_name_codec del: nameWire_simps)
  moreover have "db_good ndn0 sqlite0 db_sample" using db_sample_good by (simp add: store_inv_def)
  ultimately show ?thesis
    by (simp add: room_for_zone_def tool_sample_def no_orphans_def sqlite0_roomy) (simp add: db_sample_def sqlite0_def next_id_def)
qed

theorem createZone_spec_witness:
  "\<exists>t' zone. createZone ndn0 sqlite0 pib0 ''db'' (\<lambda>i. i) (\<lambda>_. 0) 2 3 tool_sample [generic ''net'', generic ''ndnsim''] [generic ''net'']
       3600 86400 DEFAULT_CERT DEFAULT_CERT DEFAULT_CERT = (t', Inr zone) \<and>
     zone_ready ndn0 sqlite0 pib0 (t_keyChain t') ''db'' (3, zone) (t_db t')"
proof -
  have "strict_prefix [generic ''net''] [generic ''net'', generic ''ndnsim'']" by (simp add: strict_prefix_def)
  from createZone_spec [OF ndn0_ok ndn0_signs pib0_ok room_sample this, where now = "\<lambda>i. i" and sys = "\<lambda>_. 0" and fa = 2 and addr = 3
      and cacheTtl = 3600 and certValidity = 86400]
  show ?thesis by simp blast
qed


theorem createZone_refused_witness:
  "\<exists>e. createZone ndn0 sqlite0 pib0 ''db'' (\<lambda>i. i) (\<lambda>_. 0) 2 3 tool_sample [generic ''net''] [] 3600 86400 [] [] [] = (tool_sample, Inl e)"
proof -
  have "db_good ndn0 sqlite0 (t_db tool_sample)" using db_sample_good by (simp add: store_inv_def tool_sample_def)
  moreover have "nameWire ndn0 [generic ''net''] \<in> z_name ` set (zones (m_tables (t_db tool_sample)))"
    by (simp add: tool_sample_def db_sample_def)
  ultimately show ?thesis by (intro createZone_refused) blast+
qed

end
