(* ===== verification/RecordNames.thy ===== *)
theory RecordNames
  imports ZoneSetupProps NameServerProps
begin

text \<open>
  The typing discipline of a zone: the packet stored under a label and a type carries the name made of the zone, that label and type and
  the stored version. \<open>createZone\<close> establishes it, every operation of the management tool and every run of the server keeps
  it (preservation), and it is what makes an answer of the server match the Interest it is sent for.
\<close>

section \<open>Well-named zones\<close>

definition named_zone :: "ndn \<Rightarrow> sqlite \<Rightarrow> zone_ptr \<Rightarrow> dbmgr \<Rightarrow> bool" where
  "named_zone L E p d \<longleftrightarrow> (\<forall>k v. db_get L E p d k = Some v \<longrightarrow> named_value L (zone_name (snd p)) k v)"

lemma named_zoneD: "named_zone L E p d \<Longrightarrow> db_get L E p d k = Some v \<Longrightarrow> named_value L (zone_name (snd p)) k v"
  unfolding named_zone_def by blast

lemma named_zone_ptr:
  assumes "same_zone p q" "store_inv L E p d"
  shows "named_zone L E p d \<longleftrightarrow> named_zone L E q d"
  using assms db_get_ptr [of p q L E d] by (simp add: named_zone_def same_zone_def)

lemma named_value_readable: "named_value L z k v \<Longrightarrow> blockData L (snd (snd v)) \<noteq> None"
  by (auto simp: named_value_def split: option.splits)

lemma named_zone_readable:
  assumes "named_zone L E p d"
  shows "ns_readable L E p d"
  unfolding ns_readable_def
proof (intro allI impI)
  fix l assume "db_get L E p d (l, NS_RR_TYPE) \<noteq> None"
  then obtain v where v: "db_get L E p d (l, NS_RR_TYPE) = Some v" by blast
  from named_value_readable [OF named_zoneD [OF assms v]] obtain x where "blockData L (snd (snd v)) = Some x" by blast
  with v show "type_at L E p d (l, NS_RR_TYPE) \<noteq> None" by (simp add: type_at_def)
qed

text \<open>A zone that is fit to be served has, besides, the denial of existence at the empty label that is below every name.\<close>

definition zone_fit :: "ndn \<Rightarrow> sqlite \<Rightarrow> zone_ptr \<Rightarrow> dbmgr \<Rightarrow> bool" where
  "zone_fit L E p d \<longleftrightarrow> store_inv L E p d \<and> named_zone L E p d \<and> db_get L E p d ([], DOE_RR_TYPE) \<noteq> None"

lemma zone_fitD:
  assumes "zone_fit L E p d"
  shows "store_inv L E p d" "named_zone L E p d" "db_get L E p d ([], DOE_RR_TYPE) \<noteq> None"
  using assms unfolding zone_fit_def by blast+

lemma zone_fit_ptr:
  assumes "same_zone p q"
  shows "zone_fit L E p d \<longleftrightarrow> zone_fit L E q d"
proof -
  have z: "zone_id (snd p) = zone_id (snd q)" using assms by (simp add: same_zone_def)
  then show ?thesis
    using named_zone_ptr [OF assms] db_get_ptr [OF z] store_inv_ptr [OF z] unfolding zone_fit_def by metis
qed

text \<open>A change keeps the discipline if the records it is to leave obey it: the DoE records it makes do.\<close>

lemma changed_to_named:
  assumes c: "changed_to L E p m d"
    and m: "\<And>k v. snd k \<noteq> DOE_RR_TYPE \<Longrightarrow> m k = Some v \<Longrightarrow> named_value L (zone_name (snd p)) k v"
  shows "zone_fit L E p d"
proof -
  have "named_value L (zone_name (snd p)) (l, ty) v" if "db_get L E p d (l, ty) = Some v" for l ty v
  proof (cases "ty = DOE_RR_TYPE")
    case True
    then show ?thesis using c that unfolding changed_to_def by blast
  next
    case False
    then show ?thesis using c that m [of "(l, ty)" v] by (simp add: changed_to_def)
  qed
  then have "named_zone L E p d" unfolding named_zone_def by (metis prod.collapse)
  moreover have "store_inv L E p d" using c by (simp add: changed_to_def)
  moreover have "db_get L E p d ([], DOE_RR_TYPE) \<noteq> None" using c unfolding changed_to_def chained_def by blast
  ultimately show ?thesis unfolding zone_fit_def by blast
qed

lemma changed_to_put_named:
  assumes "changed_to L E p ((db_get L E p d)(key \<mapsto> v)) d'" "named_zone L E p d" "named_value L (zone_name (snd p)) key v"
  shows "zone_fit L E p d'"
  by (rule changed_to_named [OF assms(1)]) (use assms(2,3) in \<open>auto simp: named_zone_def split: if_splits\<close>)

text \<open>A write that may be refused for its version.\<close>

lemma versioned_write_fit:
  assumes w: "versioned_write L E p d key v res" and fit: "zone_fit L E p d" and n: "named_value L (zone_name (snd p)) key v"
  shows "zone_fit L E p (fst res)"
proof -
  have "fst res = d \<or> changed_to L E p ((db_get L E p d)(key \<mapsto> v)) (fst res)"
    using w by (auto simp: versioned_write_def split: option.splits if_splits)
  then show ?thesis using changed_to_put_named [OF _ zone_fitD(2) [OF fit] n] fit by metis
qed

section \<open>The operations keep them\<close>

text \<open>Whatever the result is: the record may be refused.\<close>

lemma addRrset_fit:
  assumes c: "changeable L E K k dflt p d" and fit: "zone_fit L E p d" and n: "named_value L (zone_name (snd p)) key v"
    and ty: "snd key \<noteq> DOE_RR_TYPE"
  shows "zone_fit L E p (fst (addRrset L E K k dflt now fa d (rr_fill v (rr_object p key))))"
proof (cases "type_at L E p d (fst key, NS_RR_TYPE) = Some NDNS_AUTH")
  case True
  then show ?thesis using addRrset_effect [OF c ty, of now fa v] fit by (simp add: type_at_def)
next
  case False
  have "db_get L E p d (fst key, NS_RR_TYPE) \<noteq> None \<longrightarrow> type_at L E p d (fst key, NS_RR_TYPE) \<noteq> None"
    using named_zone_readable [OF zone_fitD(2) [OF fit]] unfolding ns_readable_def by blast
  from addRrset_effect [OF c ty this, of now fa v] False
  have "versioned_write L E p d key v (addRrset L E K k dflt now fa d (rr_fill v (rr_object p key)))" by simp
  then show ?thesis using fit n by (rule versioned_write_fit)
qed

lemma auths_added_named:
  assumes "auths_added L E p d ls d'" "named_zone L E p d"
  shows "named_zone L E p d'"
  unfolding named_zone_def
proof (intro allI impI)
  fix k v assume v: "db_get L E p d' k = Some v"
  show "named_value L (zone_name (snd p)) k v"
  proof (cases "db_get L E p d k \<noteq> None \<or> k \<notin> (\<lambda>l. (l, NS_RR_TYPE)) ` set ls")
    case True
    then have "db_get L E p d k = Some v" using auths_added_keeps [OF assms(1) True] v by simp
    then show ?thesis by (rule named_zoneD [OF assms(2)])
  next
    case False
    then obtain l where l: "l \<in> set ls" "k = (l, NS_RR_TYPE)" "db_get L E p d (l, NS_RR_TYPE) = None" by blast
    from auths_added_new [OF assms(1) l(1,3)] show ?thesis using v unfolding auth_at_def l(2) by blast
  qed
qed

lemma auths_added_fit:
  assumes a: "auths_added L E p d ls d'" and fit: "zone_fit L E p d"
  shows "zone_fit L E p d'"
proof -
  note f = zone_fitD [OF fit]
  have "db_get L E p d' ([], DOE_RR_TYPE) = db_get L E p d ([], DOE_RR_TYPE)" by (rule auths_added_keeps [OF a disjI1 [OF f(3)]])
  then show ?thesis using a f(3) auths_added_named [OF a f(2)] by (simp add: zone_fit_def auths_added_def)
qed

lemma addMultiLevelLabelRrset_fit:
  assumes c: "changeable L E K k dflt p d" and f: "factory_ready L p f"
    and fit: "zone_fit L E p d" and n: "named_value L (zone_name (snd p)) (l, ty) v"
    and l: "l \<noteq> []" "length (rrsets (m_tables d)) + length l < 2 ^ 59" and ty: "ty \<noteq> DOE_RR_TYPE"
  shows "zone_fit L E p (fst (addMultiLevelLabelRrset L E K k dflt now fa d (rr_fill v (rr_object p (l, ty))) f authTtl))"
proof -
  define r where "r = addMultiLevelLabelRrset L E K k dflt now fa d (rr_fill v (rr_object p (l, ty))) f authTtl"
  have "fst r = d \<or> (\<exists>d1. auths_added L E p d (map (\<lambda>i. take i l) [1..<length l]) d1 \<and> versioned_write L E p d1 (l, ty) v r)"
    using addMultiLevelLabelRrset_effect [OF c f named_zone_readable [OF zone_fitD(2) [OF fit]] l ty, of now fa v authTtl, folded r_def]
    by (auto split: if_splits)
  then have "zone_fit L E p (fst r)" using versioned_write_fit [OF _ auths_added_fit [OF _ fit] n] fit by metis
  then show ?thesis by (simp only: r_def)
qed

text \<open>Any record may be removed but the last that is not a denial of existence.\<close>

lemma removeRrSet_fit:
  assumes c: "changeable L E K k dflt p d" and fit: "zone_fit L E p d" and other: "zone_types L E p d - {key} \<noteq> {}"
  shows "zone_fit L E p (fst (removeRrSet L E K k dflt now fa addr d (zone_name (snd p)) (fst key) (snd key)))"
proof (cases "db_get L E p d key = None")
  case True
  then show ?thesis using removeRrSet_outcome [OF c, of key now fa addr] fit by simp
next
  case False
  then obtain d' where d': "removeRrSet L E K k dflt now fa addr d (zone_name (snd p)) (fst key) (snd key) = (d', Inr ())"
    "changed_to L E p ((db_get L E p d)(key := None)) d'"
    using removeRrSet_outcome [OF c, of key now fa addr, unfolded if_not_P [OF False] if_not_P [OF other]] by blast
  have "zone_fit L E p d'"
    by (rule changed_to_named [OF d'(2)]) (use zone_fitD(2) [OF fit] in \<open>auto simp: named_zone_def split: if_splits\<close>)
  then show ?thesis by (simp add: d'(1))
qed

text \<open>The server: whatever an accepted update writes is a packet of the right name.\<close>

lemma server_step_named:
  assumes st: "server_step L E V s s'" and s: "server_ok L E s" and L: "data_codec L"
    and V: "\<And>d. V d \<Longrightarrow> length (d_name d) < 2 ^ 64" and n: "named_zone L E (srv_ptr s) (srv_db s)"
  shows "named_zone L E (srv_ptr s') (srv_db s')"
proof -
  note e = server_step_effect [OF st s]
  show ?thesis
  proof (cases "srv_db s' = srv_db s")
    case True
    then show ?thesis using e n by simp
  next
    case False
    then obtain d re where d: "V d" "matchName_data (d_name d) (zone_name (ns_zone (srv_ns s))) = Inr (Some re)"
      "srv_db s' = fst (db.put_newer L E (srv_ptr s) (srv_db s) (match_key re) (update_value L E s re d))" using e by blast
    let ?v = "update_value L E s re d" and ?i = "server_okD [OF s]"
    have v: "named_value L (zone_name (ns_zone (srv_ns s))) (match_key re) ?v"
      using matchName_data_Some [OF d(2) V [OF d(1)]] L
      by (simp add: named_value_def update_value_def data_codecD match_key_def)
    have "named_value L (zone_name (ns_zone (srv_ns s))) k w" if w: "srv_get L E s' k = Some w" for k w
    proof -
      obtain b ok where p: "db.put_newer L E (srv_ptr s) (srv_db s) (match_key re) ?v = (b, ok)" by fastforce
      then have "db_get L E (srv_ptr s) b k = Some w" using w d(3) e by simp
      then have "(k = match_key re \<and> w = ?v) \<or> srv_get L E s k = Some w"
        using db.put_newer_done [OF server_okD [OF s], of "match_key re" ?v b]
          db.put_newer_refused [OF server_okD [OF s], of "match_key re" ?v b] p
        by (cases ok) (auto split: if_splits)
      then show ?thesis using v named_zoneD [OF n, of k w] by auto
    qed
    then show ?thesis using e by (auto simp: named_zone_def)
  qed
qed

text \<open>It removes no record.\<close>

lemma server_step_keeps:
  assumes st: "server_step L E V s s'" and s: "server_ok L E s" and k: "srv_get L E s k \<noteq> None"
  shows "srv_get L E s' k \<noteq> None"
proof -
  obtain w where w: "srv_get L E s k = Some w" using k by blast
  have "db_get L E (srv_ptr s) (fst (db.put_newer L E (srv_ptr s) (srv_db s) k1 v)) k \<noteq> None" for k1 v
    using db.put_newer_grows [OF server_okD [OF s] w, of k1 v] by auto
  then show ?thesis using server_step_effect [OF st s] k by metis
qed

lemma server_run_keeps: "server_run L E V s s' \<Longrightarrow> server_ok L E s \<Longrightarrow> srv_get L E s k \<noteq> None \<Longrightarrow> srv_get L E s' k \<noteq> None"
proof (induction rule: server_run.induct)
  case (run_step s t u)
  then show ?case using server_step_keeps [of L E V t u] server_run_ok [OF run_step.hyps(1)] by blast
qed

lemma server_run_named:
  assumes "server_run L E V s s'" "server_ok L E s" "data_codec L" "\<And>d. V d \<Longrightarrow> length (d_name d) < 2 ^ 64"
    "named_zone L E (srv_ptr s) (srv_db s)"
  shows "named_zone L E (srv_ptr s') (srv_db s')"
  using assms
proof (induction rule: server_run.induct)
  case (run_step s t u)
  then show ?case using server_step_named [of L E V t u] server_run_ok [OF run_step.hyps(1)] by blast
qed

lemma server_run_fit:
  assumes "server_run L E V s s'" "data_codec L" "\<And>d. V d \<Longrightarrow> length (d_name d) < 2 ^ 64" "zone_fit L E (srv_ptr s) (srv_db s)"
  shows "zone_fit L E (srv_ptr s') (srv_db s') \<and> srv_ns s' = srv_ns s"
proof -
  note f = zone_fitD [OF assms(4)]
  have ok: "server_ok L E s" using f(1) by (simp add: server_ok_def)
  show ?thesis
    using server_run_named [OF assms(1) ok assms(2,3) f(2)] server_run_keeps [OF assms(1) ok f(3)] server_run_ok [OF assms(1) ok]
    unfolding zone_fit_def server_ok_def by blast
qed

end
