(* ===== verification/ToolFiles.thy ===== *)
theory ToolFiles
  imports ZoneSetupProps
begin

text \<open>
  Certificates that leave the database (\<open>exportCertificate\<close>) and records that come from files (\<open>addRrsetFromFile\<close>).
\<close>

section \<open>Exporting a certificate\<close>

text \<open>What the regular expression of \<open>exportCertificate\<close> matches: the zone before the only marker NDNS and the label between it and the only CERT.\<close>

definition cert_regex :: "(name \<Rightarrow> (name \<times> name) option) \<Rightarrow> bool" where
  "cert_regex R \<longleftrightarrow>
     (\<forall>z l v. NDNS_ITERATIVE_QUERY \<notin> set z \<union> set l \<union> {v} \<and> CERT_RR_TYPE \<notin> set l \<union> {v} \<and> l \<noteq> [] \<longrightarrow>
        R (z @ [NDNS_ITERATIVE_QUERY] @ l @ [CERT_RR_TYPE, v]) = Some (z, l))"

lemma addIdCert_stores:
  assumes i: "store_inv L E p d"
    and n: "d_name cert = zone_name (snd p) @ [NDNS_ITERATIVE_QUERY, keyComp, keyId, issuer, version]" "length (d_name cert) < 2 ^ 64"
    and a: "addIdCert L E d p cert ttl = (d', Inr q)"
  shows "store_inv L E p d'" "zones (m_tables d') = zones (m_tables d)"
    "db_get L E p d' = (db_get L E p d)(([keyComp, keyId], CERT_RR_TYPE) \<mapsto> (version, ttl, dataBlock L cert))"
    "db_get L E p d ([keyComp, keyId], CERT_RR_TYPE) = None"
proof -
  let ?k = "([keyComp, keyId], CERT_RR_TYPE)" and ?v = "(version, ttl, dataBlock L cert)"
  let ?r = "rr_fill ?v (rr_object p ?k)"
  have r: "(Rrset_new (Some p))\<lparr>rrset_label := [keyComp, keyId], rrset_type := CERT_RR_TYPE, rrset_ttl := ttl,
      rrset_version := version, rrset_data := dataBlock L cert\<rparr> = ?r"
    by (simp add: rr_fill_def rr_object_def Rrset_new_def)
  have none: "db_get L E p d ?k = None" and ins: "\<exists>r. insertRrset L E d ?r = (d', Inr r)"
    using a unfolding addIdCert_def Let_def addIdCert_label [OF n] r
    by (auto simp: findRrset_filled [OF i] db_get_at [OF i] and_then_Inr split: option.splits)
  then obtain rid where rid: "newRowid E (map r_id (rrsets (m_tables d))) = Some rid"
    using insertRrset_full [OF i, of ?v ?k] by fastforce
  note I = db_ins_None [OF i none rid refl, of ?v]
  have "d' = set_rrsets (rrsets (m_tables d) @ [row_of L rid (snd p) ?r]) d" using I(1) ins by (auto simp: db_ins_def)
  then show "store_inv L E p d'" "zones (m_tables d') = zones (m_tables d)" "db_get L E p d' = (db_get L E p d)(?k \<mapsto> ?v)"
    using I(2,3) by simp_all
  show "db_get L E p d ?k = None" by (rule none)
qed

text \<open>
  C29: A certificate that \<open>addIdCert\<close> has stored in a zone is what \<open>exportCertificate\<close> returns for its name.
\<close>

theorem exportCertificate_published:
  assumes i: "store_inv L E p d" "zone_known L p d" and L: "data_codec L" and R: "cert_regex R"
    and n: "d_name cert = zone_name (snd p) @ [NDNS_ITERATIVE_QUERY, keyComp, keyId, CERT_RR_TYPE, version]" "length (d_name cert) < 2 ^ 64"
    and marker: "NDNS_ITERATIVE_QUERY \<notin> set (zone_name (snd p)) \<union> {keyId, version}" "CERT_RR_TYPE \<notin> {keyId, version}"
    and a: "addIdCert L E d p cert ttl = (d', Inr q)"
  shows "exportCertificate L E R addr d' (d_name cert) = (d', Inr cert)"
proof -
  note A = addIdCert_stores [OF i(1) n a]
  let ?k = "([keyComp, keyId], CERT_RR_TYPE)"
  have "NDNS_ITERATIVE_QUERY \<noteq> keyComp" "CERT_RR_TYPE \<noteq> keyComp" by (simp_all add: keyComp_def label_defs)
  then have "R (zone_name (snd p) @ [NDNS_ITERATIVE_QUERY] @ [keyComp, keyId] @ [CERT_RR_TYPE, version]) = Some (zone_name (snd p), [keyComp, keyId])"
    using R [unfolded cert_regex_def, rule_format, of "zone_name (snd p)" "[keyComp, keyId]" version] marker by auto
  then have R': "R (d_name cert) = Some (zone_name (snd p), [keyComp, keyId])" by (simp add: n(1))
  have "zone_known L p d'" using i(2) A(2) by (simp add: zone_known_def)
  then obtain x where x: "same_zone x p" "fst x = addr" "findRrset L E d' ((Rrset_new (Some (addr, Zone_of (zone_name (snd p)))))
        \<lparr>rrset_label := fst ?k, rrset_type := snd ?k\<rparr>) = findRrset L E d' (rr_object x ?k)"
    by (rule findRrset_by_name [OF A(1), of addr ?k])
  have zx: "zone_id (snd x) = zone_id (snd p)" using x(1) by (simp add: same_zone_def)
  have ix: "store_inv L E x d'" using store_inv_ptr [OF zx, of L E d'] A(1) by blast
  have "db_get L E x d' ?k = Some (version, ttl, dataBlock L cert)" using db_get_ptr [OF zx ix] A(3) by simp
  then obtain r where "findRrset L E d' (rr_object x ?k) = (d', Inr (r, True))" "rrset_data r = dataBlock L cert"
    by (rule findRrset_present [OF ix]) auto
  then show ?thesis using x(3) R' by (simp add: exportCertificate_def data_codecD(1) [OF L])
qed

text \<open>A function that matches as the regular expression does, and the key 1 of the zone net in the sample database.\<close>

definition split_cert :: "name \<Rightarrow> (name \<times> name) option" where
  "split_cert n =
     (case dropWhile (\<lambda>c. c \<noteq> NDNS_ITERATIVE_QUERY) n of
        [] \<Rightarrow> None
      | _ # m \<Rightarrow>
          (let l = takeWhile (\<lambda>c. c \<noteq> CERT_RR_TYPE) m
           in if l = [] \<or> length m < length l + 2 then None else Some (takeWhile (\<lambda>c. c \<noteq> NDNS_ITERATIVE_QUERY) n, l)))"

lemma split_cert_regex: "cert_regex split_cert"
proof -
  have "takeWhile (\<lambda>c. c \<noteq> a) (z @ a # r) = z \<and> dropWhile (\<lambda>c. c \<noteq> a) (z @ a # r) = a # r" if "a \<notin> set z"
    for a :: component and z r using that by (induction z) auto
  then show ?thesis by (auto simp: cert_regex_def split_cert_def Let_def)
qed

definition cert_sample :: data where
  "cert_sample = new_data [generic ''net'', NDNS_ITERATIVE_QUERY, keyComp, generic ''1'', CERT_RR_TYPE, Component 54 (unary 3)]"

lemma cert_sample_name:
  "d_name cert_sample = zone_name (snd zone_sample) @ [NDNS_ITERATIVE_QUERY, keyComp, generic ''1'', CERT_RR_TYPE, Component 54 (unary 3)]"
  "length (d_name cert_sample) < 2 ^ 64"
  by (simp_all add: cert_sample_def zone_sample_def)

lemma cert_sample_added:
  obtains d' where "addIdCert ndn0 sqlite0 db_sample zone_sample cert_sample 3600 = (d', Inr zone_sample)"
proof -
  have "roomy sqlite0 db_sample (Suc 0)" by (simp add: roomy_def sqlite0_roomy db_sample_def)
  then show thesis by (rule addIdCert_ok [OF db_sample_good db_sample_get _ cert_sample_name, of _ 3600]) (rule that)
qed

theorem exportCertificate_published_witness:
  "\<exists>d'. addIdCert ndn0 sqlite0 db_sample zone_sample cert_sample 3600 = (d', Inr zone_sample) \<and>
     exportCertificate ndn0 sqlite0 split_cert 5 d' (d_name cert_sample) = (d', Inr cert_sample)"
proof -
  obtain d' where a: "addIdCert ndn0 sqlite0 db_sample zone_sample cert_sample 3600 = (d', Inr zone_sample)"
    by (rule cert_sample_added)
  have kn: "zone_known ndn0 zone_sample db_sample" by (simp add: zone_known_def db_sample_def zone_sample_def)
  have m: "NDNS_ITERATIVE_QUERY \<notin> set (zone_name (snd zone_sample)) \<union> {generic ''1'', Component 54 (unary 3)}"
    "CERT_RR_TYPE \<notin> {generic ''1'', Component 54 (unary 3)}"
    by (simp_all add: zone_sample_def label_defs)
  show ?thesis
    using exportCertificate_published [OF db_sample_good kn ndn0_data_codec split_cert_regex cert_sample_name m a, of 5] a by blast
qed

section \<open>Records from files\<close>

lemma versioned_write_ptr:
  assumes "same_zone p q" "store_inv L E p d"
  shows "versioned_write L E p d key v res \<longleftrightarrow> versioned_write L E q d key v res"
proof -
  have "db_get L E p d = db_get L E q d" using assms by (intro db_get_ptr) (simp_all add: same_zone_def)
  then show ?thesis by (simp add: versioned_write_def changed_to_ptr [OF assms(1)] cong: option.case_cong if_cong)
qed

text \<open>The packet that is stored: the one in the file, signed again if asked for.\<close>

definition file_packet :: "ndn \<Rightarrow> int \<Rightarrow> name \<Rightarrow> bool \<Rightarrow> data \<Rightarrow> data option" where
  "file_packet L sys dskCertName needResign data =
     (if needResign then signData L (SigningByCertificateWith dskCertName sys (sys + DEFAULT_CERT_TTL)) data else Some data)"

lemma file_packet_same:
  assumes "file_packet L sys c b data = Some data'" "sign_ok L"
  shows "d_name data' = d_name data" "d_contentType data' = d_contentType data" "d_content data' = d_content data"
  using assms sign_okD [OF assms(2)] by (auto simp: file_packet_def split: if_splits)

lemma addRrsetFromFile_stores:
  assumes c: "changeable L E K k dflt p d" and ty: "type \<noteq> DOE_RR_TYPE"
    and key: "file_signer K k (zone_name (snd p) @ [NDNS_ITERATIVE_QUERY]) inputDskCertName = Inr dskCertName"
    and inp: "inFile = DEFAULT_IO \<or> is_file F inFile" "load_data F inFile = Some data"
    and signed: "file_packet L sys dskCertName needResign data = Some data'"
    and re: "fromData L Response_default (zone_name (snd p)) data' = (re, Inr True)" "s_rrLabel re = label" "s_rrType re = type" "s_version re = version"
  shows "\<exists>zoneTtl. (ttl = DEFAULT_RR_TTL \<longrightarrow> (\<exists>row \<in> set (zones (m_tables d)). z_id row = int (zone_id (snd p)) \<and> zoneTtl = to_int32 (z_ttl row))) \<and>
     versioned_write L E p d (label, type) (version, if ttl = DEFAULT_RR_TTL then zoneTtl else ttl, dataBlock L data')
       (addRrsetFromFile L E K k dflt F now sys fa addr d (zone_name (snd p)) inFile ttl inputDskCertName needResign)"
proof -
  have L: "ndn_ok L" and ready: "zone_ready L E K k dflt p d" and i: "store_inv L E p d" and kn: "zone_known L p d"
    using c by (auto simp: changeable_def zone_ready_def)
  have g: "db_good L E d" using i by (simp add: store_inv_def)
  note D = db_goodD [OF g]
  let ?zn = "zone_name (snd p)"
  obtain row where row: "row \<in> set (zones (m_tables d))" "z_name row = nameWire L ?zn" "z_id row = int (zone_id (snd p))"
    using kn by (auto simp: zone_known_def)
  have "distinct (map z_name (zones (m_tables d)))" using D(6) by (simp add: db_inv_def zone_rows_ok_def)
  from map_of_key_unique [OF this row(1)] have m: "map_of (map (\<lambda>r. (z_name r, r)) (zones (m_tables d))) (nameWire L ?zn) = Some row"
    by (simp add: row(2))
  have ttl32: "z_ttl row = to_int32 (z_ttl row)" using D(6) row(1) unfolding db_inv_def zone_rows_ok_def by blast
  define z where "z = (Zone_of ?zn)\<lparr>zone_id := zone_id (snd p), zone_ttl := z_ttl row\<rparr>"
  have f: "findZone L E d (Zone_of ?zn) = (d, Inr (z, True))"
    using findZone_found [OF D(3) D(8,9,6), of "Zone_of ?zn"] m row(3) by (simp add: Zone_new_def z_def)
  have same: "same_zone p (addr, z)" by (simp add: same_zone_def z_def Zone_new_def)
  let ?ttl = "if ttl = DEFAULT_RR_TTL then z_ttl row else ttl"
  let ?v = "(version, ?ttl, dataBlock L data')"
  have obj: "(Rrset_new (Some (addr, z)))\<lparr>rrset_label := label, rrset_type := type, rrset_ttl := ?ttl, rrset_version := version,
      rrset_data := dataBlock L data'\<rparr> = rr_fill ?v (rr_object (addr, z) (label, type))"
    by (simp add: rr_fill_def rr_object_def Rrset_new_def)
  have fd: "file_data F inFile = Inr data" using inp by (auto simp: file_data_def)
  have "(if needResign then or_throw Pib_Error (signData L (SigningByCertificateWith dskCertName sys (sys + DEFAULT_CERT_TTL)) data) else Inr data) = Inr data'"
    using signed by (simp add: file_packet_def split: if_splits)
  then have "addRrsetFromFile L E K k dflt F now sys fa addr d ?zn inFile ttl inputDskCertName needResign =
      store_rrset L E K k dflt now fa d (rr_fill ?v (rr_object (addr, z) (label, type)))"
    using f key fd re by (simp add: addRrsetFromFile_def obj [symmetric]) (simp add: z_def)
  moreover have "changeable L E K k dflt (addr, z) d" using c unfolding changeable_def zone_ready_ptr [OF same] .
  ultimately have "versioned_write L E (addr, z) d (label, type) ?v
      (addRrsetFromFile L E K k dflt F now sys fa addr d ?zn inFile ttl inputDskCertName needResign)"
    using store_rrset_spec [of L E K k dflt "(addr, z)" d "(label, type)" ?v now fa] ty by simp
  then have "versioned_write L E p d (label, type) ?v (addRrsetFromFile L E K k dflt F now sys fa addr d ?zn inFile ttl inputDskCertName needResign)"
    by (simp only: versioned_write_ptr [OF same i])
  then show ?thesis using row ttl32 by (intro exI [of _ "z_ttl row"]) auto
qed

text \<open>
  C30: A packet in a file whose name has the form of a record of the zone is stored by \<open>addRrsetFromFile\<close> under the label, type and version in its name, unless
  the zone holds the same or a newer version; the DoE chain is rebuilt. The zone's default TTL is used for the TTL 0.
  Existing AUTH records are not looked for, unlike in \<open>addRrset\<close>.
\<close>

theorem addRrsetFromFile_spec:
  assumes c: "changeable L E K k dflt p d" and ty: "type \<noteq> DOE_RR_TYPE"
    and key: "file_signer K k (zone_name (snd p) @ [NDNS_ITERATIVE_QUERY]) inputDskCertName = Inr dskCertName"
    and inp: "inFile = DEFAULT_IO \<or> is_file F inFile" "load_data F inFile = Some data"
    and signed: "file_packet L sys dskCertName needResign data = Some data'"
    and n: "d_name data = zone_name (snd p) @ [NDNS_ITERATIVE_QUERY] @ label @ [type, version]" "length (d_name data) < 2 ^ 64"
    and readable: "to_content_type (d_contentType data) \<in> {NDNS_BLOB, NDNS_KEY} \<or> blockElements L (d_content data) \<noteq> None"
  shows "\<exists>zoneTtl. (ttl = DEFAULT_RR_TTL \<longrightarrow> (\<exists>row \<in> set (zones (m_tables d)). z_id row = int (zone_id (snd p)) \<and> zoneTtl = to_int32 (z_ttl row))) \<and>
     versioned_write L E p d (label, type) (version, if ttl = DEFAULT_RR_TTL then zoneTtl else ttl, dataBlock L data')
       (addRrsetFromFile L E K k dflt F now sys fa addr d (zone_name (snd p)) inFile ttl inputDskCertName needResign)"
proof -
  have "sign_ok L" using c by (simp add: changeable_def ndn_ok_def)
  note sig = file_packet_same [OF signed this]
  obtain re where re: "fromData L Response_default (zone_name (snd p)) data' = (re, Inr True)" "s_rrLabel re = label" "s_rrType re = type" "s_version re = version"
    by (rule fromData_readable [of data' "zone_name (snd p)" label type version L Response_default]) (use n readable sig in auto)
  show ?thesis by (rule addRrsetFromFile_stores [OF c ty key inp signed re])
qed

text \<open>Every outcome, for a file that holds no packet or one named for the zone: nothing is changed, or the packet is written.\<close>

lemma fromData_named:
  assumes "d_name data = zoneName @ [NDNS_ITERATIVE_QUERY] @ label @ [type, version]" "length (d_name data) < 2 ^ 64"
  shows "(\<exists>re. fromData L r zoneName data = (re, Inr True) \<and> s_rrLabel re = label \<and> s_rrType re = type \<and> s_version re = version) \<or>
         (\<exists>re e. fromData L r zoneName data = (re, Inl e))"
proof -
  have "matchName_data (d_name data) zoneName = Inr (Some \<lparr>m_rrLabel = label, m_rrType = type, m_version = version\<rparr>)"
    using matchName_data_response [of zoneName label type version] assms by (simp add: rr_name_def)
  then show ?thesis
    by (cases "blockElements L (d_content data)") (auto simp: fromData_def wireDecode_response_def raw_content_def)
qed

lemma addRrsetFromFile_outcome:
  assumes c: "changeable L E K k dflt p d"
    and named: "\<And>x. load_data F inFile = Some x \<Longrightarrow> \<exists>label type version. type \<noteq> DOE_RR_TYPE \<and>
      d_name x = zone_name (snd p) @ [NDNS_ITERATIVE_QUERY] @ label @ [type, version] \<and> length (d_name x) < 2 ^ 64"
    and res: "res = addRrsetFromFile L E K k dflt F now sys fa addr d (zone_name (snd p)) inFile ttl inputDskCertName needResign"
  obtains "fst res = d"
  | label type version t x where "d_name x = zone_name (snd p) @ [NDNS_ITERATIVE_QUERY] @ label @ [type, version]"
      "versioned_write L E p d (label, type) (version, t, dataBlock L x) res"
proof (cases "fst res = d")
  case False
  let ?zn = "zone_name (snd p)"
  have L: "sign_ok L" and i: "store_inv L E p d" and kn: "zone_known L p d" using c by (auto simp: changeable_def zone_ready_def ndn_ok_def)
  have g: "db_good L E d" using i by (simp add: store_inv_def)
  have "zone_name (Zone_of ?zn) = ?zn" by (simp add: Zone_new_def)
  then obtain z where f: "findZone L E d (Zone_of ?zn) = (d, Inr (z, True))" by (rule zone_known_find [OF db_goodD(3-6) [OF g] kn]) blast
  obtain dsk where dsk: "file_signer K k (?zn @ [NDNS_ITERATIVE_QUERY]) inputDskCertName = Inr dsk"
    using False f by (cases "file_signer K k (?zn @ [NDNS_ITERATIVE_QUERY]) inputDskCertName") (auto simp: res addRrsetFromFile_def)
  obtain x where x: "file_data F inFile = Inr x"
    using False f dsk by (cases "file_data F inFile") (auto simp: res addRrsetFromFile_def)
  then have inp: "inFile = DEFAULT_IO \<or> is_file F inFile" "load_data F inFile = Some x"
    by (auto simp: file_data_def or_throw_Inr split: if_splits)
  obtain x' where x': "file_packet L sys dsk needResign x = Some x'"
    using False f dsk x by (cases "file_packet L sys dsk needResign x") (auto simp: res addRrsetFromFile_def file_packet_def split: if_splits)
  obtain label type version where n: "type \<noteq> DOE_RR_TYPE" "d_name x = ?zn @ [NDNS_ITERATIVE_QUERY] @ label @ [type, version]"
    "length (d_name x) < 2 ^ 64" using named [OF inp(2)] by blast
  note sig = file_packet_same [OF x' L]
  have signed: "(if needResign then or_throw Pib_Error (signData L (SigningByCertificateWith dsk sys (sys + DEFAULT_CERT_TTL)) x) else Inr x) = Inr x'"
    using x' by (simp add: file_packet_def split: if_splits)
  have ok: "\<not> (\<exists>re e. fromData L Response_default ?zn x' = (re, Inl e))"
    using False f dsk x signed by (auto simp: res addRrsetFromFile_def)
  have n': "d_name x' = ?zn @ [NDNS_ITERATIVE_QUERY] @ label @ [type, version]" "length (d_name x') < 2 ^ 64"
    using n sig(1) by simp_all
  obtain re where re: "fromData L Response_default ?zn x' = (re, Inr True)" "s_rrLabel re = label" "s_rrType re = type" "s_version re = version"
    using fromData_named [OF n', of L Response_default] ok by blast
  show thesis using that(2) [OF n'(1)] addRrsetFromFile_stores [OF c n(1) dsk inp x' re, of ttl now fa addr] unfolding res by blast
qed (rule that(1))

definition packet_sample :: data where
  "packet_sample = new_data [generic ''net'', NDNS_ITERATIVE_QUERY, generic ''c'', TXT_RR_TYPE, Component 54 (unary 3)]"

theorem addRrsetFromFile_spec_witness:
  "\<exists>d d' r'. db_get ndn0 sqlite0 zone_sample d ([generic ''c''], TXT_RR_TYPE) = None \<and>
     addRrsetFromFile ndn0 sqlite0 keychain_sample () ''db'' \<lparr>is_file = (\<lambda>_. True), load_data = (\<lambda>_. Some packet_sample)\<rparr> 9 0 2 3 d
       [generic ''net''] ''f'' 60 DEFAULT_CERT False = (d', Inr r') \<and>
     changed_to ndn0 sqlite0 zone_sample
       ((db_get ndn0 sqlite0 zone_sample d)(([generic ''c''], TXT_RR_TYPE) \<mapsto> (Component 54 (unary 3), 60, dataBlock ndn0 packet_sample))) d'"
proof -
  let ?k1 = "([generic ''a''], TXT_RR_TYPE)" and ?k2 = "([generic ''b''], TXT_RR_TYPE)" and ?k = "([generic ''c''], TXT_RR_TYPE)"
  let ?F = "\<lparr>is_file = (\<lambda>_. True), load_data = (\<lambda>_. Some packet_sample)\<rparr>"
  have ne: "?k1 \<noteq> ?k2" and ty: "TXT_RR_TYPE \<noteq> DOE_RR_TYPE" by (simp_all add: label_defs)
  obtain d where d: "zone_ready ndn0 sqlite0 keychain_sample () ''db'' zone_sample d"
    "db_get ndn0 sqlite0 zone_sample d = [?k1 \<mapsto> value_sample, ?k2 \<mapsto> value_sample]" "length (rrsets (m_tables d)) = 2"
    by (rule two_records [OF ne])
  have c: "changeable ndn0 sqlite0 keychain_sample () ''db'' zone_sample d" using changeable_sample d(1,3) by simp
  have none: "db_get ndn0 sqlite0 zone_sample d ?k = None" by (simp add: d(2))
  have zn: "zone_name (snd zone_sample) = [generic ''net'']" by (simp add: zone_sample_def)
  obtain cn where key: "file_signer keychain_sample () (zone_name (snd zone_sample) @ [NDNS_ITERATIVE_QUERY]) DEFAULT_CERT = Inr cn"
    by (simp add: file_signer_def keychain_sample_def getDefaultKeyNameOfIdentity_def getDefaultCertificateNameOfIdentity_def getIdentity_def)
  have n: "d_name packet_sample = zone_name (snd zone_sample) @ [NDNS_ITERATIVE_QUERY] @ [generic ''c''] @ [TXT_RR_TYPE, Component 54 (unary 3)]"
    "length (d_name packet_sample) < 2 ^ 64" "to_content_type (d_contentType packet_sample) \<in> {NDNS_BLOB, NDNS_KEY} \<or> blockElements ndn0 (d_content packet_sample) \<noteq> None"
    by (simp_all add: packet_sample_def zone_sample_def)
  have F: "''f'' = DEFAULT_IO \<or> is_file ?F ''f''" "load_data ?F ''f'' = Some packet_sample"
    "file_packet ndn0 0 cn False packet_sample = Some packet_sample" by (simp_all add: file_packet_def)
  have "versioned_write ndn0 sqlite0 zone_sample d ?k (Component 54 (unary 3), 60, dataBlock ndn0 packet_sample)
      (addRrsetFromFile ndn0 sqlite0 keychain_sample () ''db'' ?F 9 0 2 3 d [generic ''net''] ''f'' 60 DEFAULT_CERT False)"
    using addRrsetFromFile_spec [OF c ty key F n, of 60 9 2 3] by (simp add: zn DEFAULT_RR_TTL_def)
  then show ?thesis unfolding versioned_write_def none option.case using none by blast
qed

end
