(* ===== verification/ZoneLife.thy ===== *)
theory ZoneLife
  imports RecordNames DenialProps ToolFiles
begin

text \<open>
  The life of a zone: it is created by the management tool, changed by it, and served and updated by the name server, in any order. Every
  database it comes to by the steps listed below is well named, and so whatever the server answers to an Interest matches it.
\<close>

section \<open>The databases of a zone\<close>

text \<open>
  \<open>zone_life \<dots> V p d\<close>: the zone at \<open>p\<close> has come to the database \<open>d\<close> by the steps of its life, where
  \<open>V\<close> are the packets the validator accepts. An operation counts with whatever result it has: a record that is refused, an update that
  fails and a file that cannot be read are steps too. The conditions of a step are what its caller provides: a default key of the zone that signs,
  room in the tables, a connection that works (\<open>changeable\<close>), and for a record that is added a packet of its name, as the
  record factory makes it, or the packet in the file. Left out are the steps after which the claims below fail or that cannot complete:

    \<^item> the removal of the last record of the zone, where the rebuild of the denials fails and leaves none (\<open>removeRrSet_spec\<close>);
    \<^item> the states between the commits of a rebuild, seen by a daemon that runs beside the tool (\<open>rebuild_race\<close>);
    \<^item> the packet in a file whose name is not that of a record of the zone, which \<open>addRrsetFromFile\<close> stores under the empty label and type;
    \<^item> records of the type DOE that are added by hand, and given certificates that are not named as those of the zone;
    \<^item> a database that fails in the middle of an operation.
\<close>

definition given_named :: "name \<Rightarrow> name \<Rightarrow> bool" where
  "given_named zoneName certName \<longleftrightarrow>
     certName = DEFAULT_CERT \<or> (\<exists>keyId v. certName = zoneName @ [NDNS_ITERATIVE_QUERY, keyComp, keyId, CERT_RR_TYPE, v])"

definition file_named :: "name \<Rightarrow> data option \<Rightarrow> bool" where
  "file_named zoneName packet \<longleftrightarrow>
     (\<forall>x. packet = Some x \<longrightarrow> (\<exists>label type version. type \<noteq> DOE_RR_TYPE \<and>
        d_name x = zoneName @ [NDNS_ITERATIVE_QUERY] @ label @ [type, version] \<and> length (d_name x) < 2 ^ 64))"

inductive zone_life ::
  "ndn \<Rightarrow> sqlite \<Rightarrow> 'k keychain \<Rightarrow> string \<Rightarrow> (data \<Rightarrow> bool) \<Rightarrow> zone_ptr \<Rightarrow> dbmgr \<Rightarrow> bool"
  for L E K dflt V where
  life_created:
    "room_for_zone L E dflt (t_db t) zoneName \<Longrightarrow> given_named zoneName kskCertName \<Longrightarrow> given_named zoneName dskCertName \<Longrightarrow>
     createZone L E K dflt now sys fa addr t zoneName parentZoneName cacheTtl certValidity kskCertName dskCertName dkeyCertName = (t', Inr zone) \<Longrightarrow>
     zone_keys L K (t_keyChain t') zoneName \<Longrightarrow>
     zone_life L E K dflt V (addr, zone) (t_db t')"
| life_added:
    "zone_life L E K dflt V p d \<Longrightarrow> changeable L E K k dflt p d \<Longrightarrow> snd key \<noteq> DOE_RR_TYPE \<Longrightarrow>
     named_value L (zone_name (snd p)) key v \<Longrightarrow>
     zone_life L E K dflt V p (fst (addRrset L E K k dflt time fa d (rr_fill v (rr_object p key))))"
| life_added_below:
    "zone_life L E K dflt V p d \<Longrightarrow> changeable L E K k dflt p d \<Longrightarrow> factory_ready L p f \<Longrightarrow>
     l \<noteq> [] \<Longrightarrow> length (rrsets (m_tables d)) + length l < 2 ^ 59 \<Longrightarrow> ty \<noteq> DOE_RR_TYPE \<Longrightarrow>
     named_value L (zone_name (snd p)) (l, ty) v \<Longrightarrow>
     zone_life L E K dflt V p (fst (addMultiLevelLabelRrset L E K k dflt time fa d (rr_fill v (rr_object p (l, ty))) f authTtl))"
| life_added_from_file:
    "zone_life L E K dflt V p d \<Longrightarrow> changeable L E K k dflt p d \<Longrightarrow> file_named (zone_name (snd p)) (load_data F inFile) \<Longrightarrow>
     zone_life L E K dflt V p
       (fst (addRrsetFromFile L E K k dflt F time sys fa addr d (zone_name (snd p)) inFile ttl inputDskCertName needResign))"
| life_removed:
    "zone_life L E K dflt V p d \<Longrightarrow> changeable L E K k dflt p d \<Longrightarrow> zone_types L E p d - {key} \<noteq> {} \<Longrightarrow>
     zone_life L E K dflt V p (fst (removeRrSet L E K k dflt time fa addr d (zone_name (snd p)) (fst key) (snd key)))"
| life_served:
    "zone_life L E K dflt V p (srv_db s) \<Longrightarrow> same_zone (srv_ptr s) p \<Longrightarrow> server_run L E V s s' \<Longrightarrow>
     zone_life L E K dflt V p (srv_db s')"
| life_elsewhere:
    "zone_life L E K dflt V p d \<Longrightarrow> store_inv L E p d' \<Longrightarrow> db_get L E p d' = db_get L E p d \<Longrightarrow>
     zone_life L E K dflt V p d'"
| life_pointer:
    "zone_life L E K dflt V p d \<Longrightarrow> same_zone p q \<Longrightarrow> zone_life L E K dflt V q d"

text \<open>\<open>life_elsewhere\<close> is the environment: whoever writes to other zones of the database, its own zone untouched. \<open>life_pointer\<close>
  is another object of the same zone.\<close>

section \<open>Creation\<close>

text \<open>Each of the three keys, made or given: identities stay, the database is not touched, the certificate has a name of the zone.\<close>

lemma zone_key_step:
  assumes L: "sign_ok L" "signs L" and K: "keychain_ok K" and i: "kc_keys K (t_keyChain t) i \<noteq> None"
    and s: "(if c = DEFAULT_CERT then make_key L K now sys t i signer cacheTtl certValidity
             else lift_err t (given_key K (t_keyChain t) i c)) = (t', Inr (key, cert))"
  shows "t_db t' = t_db t" "keeps_keys K (t_keyChain t) (t_keyChain t')"
    "i = zoneName @ [NDNS_ITERATIVE_QUERY] \<Longrightarrow> given_named zoneName c \<Longrightarrow>
     \<exists>keyId v. d_name cert = zoneName @ [NDNS_ITERATIVE_QUERY, keyComp, keyId, CERT_RR_TYPE, v]"
proof -
  have "t_db t' = t_db t \<and> keeps_keys K (t_keyChain t) (t_keyChain t') \<and>
    (i = zoneName @ [NDNS_ITERATIVE_QUERY] \<longrightarrow> given_named zoneName c \<longrightarrow>
     (\<exists>keyId v. d_name cert = zoneName @ [NDNS_ITERATIVE_QUERY, keyComp, keyId, CERT_RR_TYPE, v]))"
  proof (cases "c = DEFAULT_CERT")
    case True
    then have m: "make_key L K now sys (t\<lparr>t_keyChain := t_keyChain t\<rparr>) i signer cacheTtl certValidity = (t', Inr (key, cert))" using s by simp
    have pos: "0 \<le> cacheTtl"
    proof (rule ccontr)
      assume "\<not> 0 \<le> cacheTtl"
      then have "cacheTtl < 0" by simp
      from make_key_negative [OF L(2) K i this, of now sys t signer certValidity] show False using m by auto
    qed
    from make_key_ok [OF L K i pos, of now sys t signer certValidity, unfolded m] show ?thesis
      by (fastforce simp: CERT_RR_TYPE_def)
  next
    case False
    then have g: "given_key K (t_keyChain t) i c = Inr (key, cert)" and t: "t' = t" using s by auto
    have "d_name cert = c"
      using g by (auto simp: given_key_def bind_err_Inr getCertificate_def find_Some_iff split: option.splits if_splits)
    then show ?thesis using t False by (auto simp: keeps_keys_def given_named_def)
  qed
  then show "t_db t' = t_db t" "keeps_keys K (t_keyChain t) (t_keyChain t')"
    "i = zoneName @ [NDNS_ITERATIVE_QUERY] \<Longrightarrow> given_named zoneName c \<Longrightarrow>
     \<exists>keyId v. d_name cert = zoneName @ [NDNS_ITERATIVE_QUERY, keyComp, keyId, CERT_RR_TYPE, v]" by blast+
qed

lemma and_then_pairE:
  assumes "and_then r (\<lambda>t (a, b). f t a b) = (t', Inr y)"
  obtains t a b where "r = (t, Inr (a, b))" "f t a b = (t', Inr y)"
  using assms by (auto simp: and_then_Inr)

lemma on_keyChain_db: "on_keyChain t r = (t', x) \<Longrightarrow> t_db t' = t_db t"
  by (auto simp: on_keyChain_def split: option.splits)

lemma zone_key_chain_named:
  assumes L: "sign_ok L" "signs L" and K: "keychain_ok K"
    and given: "given_named zoneName kskCertName" "given_named zoneName dskCertName"
    and s: "zone_key_chain L K now sys t (zoneName @ [NDNS_ITERATIVE_QUERY]) di cacheTtl certValidity kskCertName dskCertName dkeyCertName =
       (t', Inr (dkeyCert, kskCert, dskCert))"
  obtains kskId kv dskId dv where "t_db t' = t_db t"
    "d_name kskCert = zoneName @ [NDNS_ITERATIVE_QUERY, keyComp, kskId, CERT_RR_TYPE, kv]"
    "d_name dskCert = zoneName @ [NDNS_ITERATIVE_QUERY, keyComp, dskId, CERT_RR_TYPE, dv]"
proof -
  let ?zi = "zoneName @ [NDNS_ITERATIVE_QUERY]"
  let ?t0 = "t\<lparr>t_keyChain := kc_createIdentity K (kc_createIdentity K (t_keyChain t) ?zi) di\<rparr>"
  note I1 = keychain_ok_identity [OF K, of "t_keyChain t" ?zi] and I2 = keychain_ok_identity [OF K, of "kc_createIdentity K (t_keyChain t) ?zi" di]
  have k0: "kc_keys K (t_keyChain ?t0) di \<noteq> None" "kc_keys K (t_keyChain ?t0) ?zi \<noteq> None"
    using I2 keeps_keysD(1) [OF conjunct2 [OF I2] conjunct1 [OF I1]] by simp_all
  obtain t1 dkey c1 where s1: "(if dkeyCertName = DEFAULT_CERT then make_key L K (now 0) (sys 0) ?t0 di None cacheTtl certValidity
      else lift_err ?t0 (given_key K (t_keyChain ?t0) di dkeyCertName)) = (t1, Inr (dkey, c1))"
    and r1: "and_then (if kskCertName = DEFAULT_CERT then make_key L K (now 1) (sys 1) t1 ?zi (Some dkey) cacheTtl certValidity
                  else lift_err t1 (given_key K (t_keyChain t1) ?zi kskCertName)) (\<lambda>t (ksk, kskCert).
          and_then (if dskCertName = DEFAULT_CERT then make_key L K (now 2) (sys 2) t ?zi (Some ksk) cacheTtl certValidity
                    else lift_err t (given_key K (t_keyChain t) ?zi dskCertName)) (\<lambda>t (dsk, dskCert).
            and_then (on_keyChain t (kc_setDefaultKey K (t_keyChain t) ?zi dsk)) (\<lambda>t _.
              and_then (if dskCertName = DEFAULT_CERT then (t, Inr ())
                        else on_keyChain t (kc_setDefaultCertificate K (t_keyChain t) dsk dskCert)) (\<lambda>t _.
                (t, Inr (c1, kskCert, dskCert)))))) = (t', Inr (dkeyCert, kskCert, dskCert))"
    by (rule and_then_pairE [OF s [unfolded zone_key_chain_def Let_def]])
  note K1 = zone_key_step [OF L K k0(1) s1]
  have z1: "kc_keys K (t_keyChain t1) ?zi \<noteq> None" by (rule keeps_keysD(1) [OF K1(2) k0(2)])
  obtain t2 ksk c2 where s2: "(if kskCertName = DEFAULT_CERT then make_key L K (now 1) (sys 1) t1 ?zi (Some dkey) cacheTtl certValidity
      else lift_err t1 (given_key K (t_keyChain t1) ?zi kskCertName)) = (t2, Inr (ksk, c2))"
    and r2: "and_then (if dskCertName = DEFAULT_CERT then make_key L K (now 2) (sys 2) t2 ?zi (Some ksk) cacheTtl certValidity
                    else lift_err t2 (given_key K (t_keyChain t2) ?zi dskCertName)) (\<lambda>t (dsk, dskCert).
            and_then (on_keyChain t (kc_setDefaultKey K (t_keyChain t) ?zi dsk)) (\<lambda>t _.
              and_then (if dskCertName = DEFAULT_CERT then (t, Inr ())
                        else on_keyChain t (kc_setDefaultCertificate K (t_keyChain t) dsk dskCert)) (\<lambda>t _.
                (t, Inr (c1, c2, dskCert))))) = (t', Inr (dkeyCert, kskCert, dskCert))"
    by (rule and_then_pairE [OF r1])
  note K2 = zone_key_step [OF L K z1 s2]
  have z2: "kc_keys K (t_keyChain t2) ?zi \<noteq> None" by (rule keeps_keysD(1) [OF K2(2) z1])
  obtain t3 dsk c3 where s3: "(if dskCertName = DEFAULT_CERT then make_key L K (now 2) (sys 2) t2 ?zi (Some ksk) cacheTtl certValidity
      else lift_err t2 (given_key K (t_keyChain t2) ?zi dskCertName)) = (t3, Inr (dsk, c3))"
    and r3: "and_then (on_keyChain t3 (kc_setDefaultKey K (t_keyChain t3) ?zi dsk)) (\<lambda>t _.
              and_then (if dskCertName = DEFAULT_CERT then (t, Inr ())
                        else on_keyChain t (kc_setDefaultCertificate K (t_keyChain t) dsk c3)) (\<lambda>t _.
                (t, Inr (c1, c2, c3)))) = (t', Inr (dkeyCert, kskCert, dskCert))"
    by (rule and_then_pairE [OF r2])
  note K3 = zone_key_step [OF L K z2 s3]
  have "t_db t' = t_db t3" "kskCert = c2" "dskCert = c3"
    using r3 by (auto simp: and_then_Inr split: if_splits dest!: on_keyChain_db)
  then show thesis
    using that K1(1) K2(1) K3(1) K2(3) [OF refl given(1)] K3(3) [OF refl given(2)] by auto
qed

text \<open>A second certificate for the same key is refused, so the two keys of a published zone differ.\<close>

lemma publish_zone_distinct:
  assumes r: "room_for_zone L E dflt d zoneName"
    and ksk: "d_name kskCert = zoneName @ [NDNS_ITERATIVE_QUERY, keyComp, kskId, ki, kv]"
    and dsk: "d_name dskCert = zoneName @ [NDNS_ITERATIVE_QUERY, keyComp, dskId, si, sv]"
    and s: "publish_zone L E K k dflt now fa addr d (Zone_new zoneName ttl) ttl dkeyCert kskCert dskCert = (d', Inr zone)"
  shows "kskId \<noteq> dskId"
proof
  assume same: "kskId = dskId"
  have R: "db_good L E d" "sqlite_roomy E" "length (zones (m_tables d)) < 2 ^ 62" "no_orphans d"
    "nameWire L zoneName \<notin> z_name ` set (zones (m_tables d))" and len: "length (rrsets (m_tables d)) < 2 ^ 59"
    and sz: "length (d_name kskCert) < 2 ^ 64" "length (d_name dskCert) < 2 ^ 64"
    using r by (simp_all add: room_for_zone_def ksk dsk)
  obtain z d1 where d1: "addZone L E d (Zone_new zoneName ttl) = (d1, Inr z)" "zone_name z = zoneName" "store_inv L E (addr, z) d1"
    "db_get L E (addr, z) d1 = Map.empty" "rrsets (m_tables d1) = rrsets (m_tables d)"
    by (rule addZone_ok [OF R(1-5), of ttl addr]) (simp add: Zone_new_def)
  have room: "roomy E d1 (Suc 0)" using R(2) len d1(5) by (simp add: roomy_def)
  obtain d2 where d2: "addIdCert L E d1 (addr, z) kskCert ttl = (d2, Inr (addr, z))" "store_inv L E (addr, z) d2"
    "db_get L E (addr, z) d2 = (db_get L E (addr, z) d1)(([keyComp, kskId], CERT_RR_TYPE) \<mapsto> (kv, ttl, dataBlock L kskCert))"
    by (rule addIdCert_ok [OF d1(3) _ room _ sz(1), of kskId ki kv ttl]) (use d1(2,4) ksk in simp_all)
  obtain d3 q where "addIdCert L E d2 (addr, z) dskCert ttl = (d3, Inr q)"
    using s d1(1) d2(1) by (auto simp: publish_zone_def and_then_Inr)
  then have "db_get L E (addr, z) d2 ([keyComp, dskId], CERT_RR_TYPE) = None"
    using addIdCert_stores(4) [OF d2(2) _ sz(2)] dsk d1(2) by simp
  then show False using d2(3) same by simp
qed

lemma createZone_fit:
  assumes L: "ndn_ok L" "signs L" and K: "keychain_ok K" and r: "room_for_zone L E dflt (t_db t) zoneName"
    and given: "given_named zoneName kskCertName" "given_named zoneName dskCertName"
    and c: "createZone L E K dflt now sys fa addr t zoneName parentZoneName cacheTtl certValidity kskCertName dskCertName dkeyCertName = (t', Inr zone)"
    and k: "zone_keys L K (t_keyChain t') zoneName"
  shows "zone_fit L E (addr, zone) (t_db t')"
proof -
  have f: "findZone L E (t_db t) (Zone_new zoneName cacheTtl) = (t_db t, Inr (Zone_new zoneName cacheTtl, False))"
    by (rule findZone_absent) (use r in \<open>simp_all add: room_for_zone_def\<close>)
  have check: "check_new_zone L E K t zoneName parentZoneName cacheTtl kskCertName dskCertName dkeyCertName = (t0, Inr z0) \<Longrightarrow>
      t0 = t \<and> z0 = Zone_new zoneName cacheTtl" for t0 z0
    by (auto simp: check_new_zone_def f Let_def and_then_Inr split: if_splits)
  obtain di t1 dkeyCert kskCert dskCert where
    s: "zone_key_chain L K now sys t (zoneName @ [NDNS_ITERATIVE_QUERY]) di cacheTtl certValidity kskCertName dskCertName dkeyCertName =
       (t1, Inr (dkeyCert, kskCert, dskCert))" and
    p: "on_db t1 (publish_zone L E K (t_keyChain t1) dflt (now 3) fa addr (t_db t1) (Zone_new zoneName cacheTtl) cacheTtl dkeyCert kskCert dskCert) =
       (t', Inr zone)"
    using c unfolding createZone_def and_then_Inr by (auto dest!: check)
  obtain kskId kv dskId dv where n: "t_db t1 = t_db t"
    "d_name kskCert = zoneName @ [NDNS_ITERATIVE_QUERY, keyComp, kskId, CERT_RR_TYPE, kv]"
    "d_name dskCert = zoneName @ [NDNS_ITERATIVE_QUERY, keyComp, dskId, CERT_RR_TYPE, dv]"
    by (rule zone_key_chain_named [OF ndn_okD(5) [OF L(1)] L(2) K given s])
  obtain d' where d': "publish_zone L E K (t_keyChain t1) dflt (now 3) fa addr (t_db t) (Zone_new zoneName cacheTtl) cacheTtl dkeyCert kskCert dskCert =
      (d', Inr zone)" "t_db t' = d'" "t_keyChain t' = t_keyChain t1"
    using p n(1) by (auto simp: on_db_def prod_eq_iff)
  have ne: "kskId \<noteq> dskId" by (rule publish_zone_distinct [OF r n(2,3) d'(1)])
  obtain zone' where z: "zone = zone'" "zone_name zone' = zoneName"
    "changed_to L E (addr, zone') [([keyComp, kskId], CERT_RR_TYPE) \<mapsto> (kv, cacheTtl, dataBlock L kskCert),
       ([keyComp, dskId], CERT_RR_TYPE) \<mapsto> (dv, cacheTtl, dataBlock L dskCert)] d'"
    by (rule publish_zone_ok [OF L(1) r k [unfolded d'(3)] n(2,3) ne, of "now 3" fa addr cacheTtl dkeyCert]) (use d'(1) in auto)
  have "named_value L (zone_name (snd (addr, zone'))) ([keyComp, i], CERT_RR_TYPE) (v, cacheTtl, dataBlock L x)"
    if "d_name x = zoneName @ [NDNS_ITERATIVE_QUERY, keyComp, i, CERT_RR_TYPE, v]" for i v x
    using that z(2) ndn_okD(4) [OF L(1)] by (simp add: named_value_def data_codecD rr_name_def)
  note C = this [OF n(2)] this [OF n(3)]
  show ?thesis unfolding z(1) d'(2)
    by (rule changed_to_named [OF z(3)]) (use C in \<open>auto split: if_splits\<close>)
qed

section \<open>Every step keeps the zone fit\<close>

lemma addRrsetFromFile_fit:
  assumes c: "changeable L E K k dflt p d" and fit: "zone_fit L E p d" and n: "file_named (zone_name (snd p)) (load_data F inFile)"
  shows "zone_fit L E p (fst (addRrsetFromFile L E K k dflt F now sys fa addr d (zone_name (snd p)) inFile ttl inputDskCertName needResign))"
proof (rule addRrsetFromFile_outcome [OF c _ refl, where F = F and now = now and sys = sys and fa = fa and addr = addr and inFile = inFile
      and ttl = ttl and inputDskCertName = inputDskCertName and needResign = needResign])
  fix x assume "load_data F inFile = Some x"
  then show "\<exists>label type version. type \<noteq> DOE_RR_TYPE \<and>
      d_name x = zone_name (snd p) @ [NDNS_ITERATIVE_QUERY] @ label @ [type, version] \<and> length (d_name x) < 2 ^ 64"
    using n by (simp add: file_named_def)
next
  assume "fst (addRrsetFromFile L E K k dflt F now sys fa addr d (zone_name (snd p)) inFile ttl inputDskCertName needResign) = d"
  with fit show ?thesis by simp
next
  fix label type version t x
  assume x: "d_name x = zone_name (snd p) @ [NDNS_ITERATIVE_QUERY] @ label @ [type, version]"
    and w: "versioned_write L E p d (label, type) (version, t, dataBlock L x)
      (addRrsetFromFile L E K k dflt F now sys fa addr d (zone_name (snd p)) inFile ttl inputDskCertName needResign)"
  have "ndn_ok L" using c by (simp add: changeable_def)
  with x have "named_value L (zone_name (snd p)) (label, type) (version, t, dataBlock L x)"
    by (simp add: named_value_def data_codecD [OF ndn_okD(4)] rr_name_def)
  from versioned_write_fit [OF w fit this] show ?thesis .
qed

lemma zone_life_fit:
  assumes "zone_life L E K dflt V p d" and L: "ndn_ok L" "signs L" and K: "keychain_ok K"
    and V: "\<And>x. V x \<Longrightarrow> length (d_name x) < 2 ^ 64"
  shows "zone_fit L E p d"
  using assms(1)
proof (induction rule: zone_life.induct)
  case life_created
  then show ?case by (rule createZone_fit [OF L K])
next
  case life_added
  then show ?case by (intro addRrset_fit)
next
  case life_added_below
  then show ?case by (intro addMultiLevelLabelRrset_fit)
next
  case life_added_from_file
  then show ?case by (intro addRrsetFromFile_fit)
next
  case life_removed
  then show ?case by (intro removeRrSet_fit)
next
  case (life_served p s s')
  from life_served.IH have "zone_fit L E (srv_ptr s) (srv_db s)" using zone_fit_ptr [OF life_served.hyps(2)] by blast
  from server_run_fit [OF life_served.hyps(3) ndn_okD(4) [OF L(1)] V this]
  have "zone_fit L E (srv_ptr s') (srv_db s')" "srv_ns s' = srv_ns s" by blast+
  moreover have "same_zone (srv_ptr s') p" using life_served.hyps(2) calculation(2) by simp
  ultimately show ?case using zone_fit_ptr by blast
next
  case (life_elsewhere p d d')
  then show ?case by (simp add: zone_fit_def named_zone_def)
next
  case (life_pointer p d q)
  then show ?case using zone_fit_ptr by blast
qed

text \<open>
  C8: A zone that is created by \<open>createZone\<close>, with made certificates or given ones that are named for the zone, and then goes through any sequence of
  additions of records by the management tool (of a record made under its name, below a longer label, or of a packet in a file named for the zone), of removals of any record but the last one
  that is no denial, each of them successful or refused, of runs of its name server with dynamic updates, and of writes to other zones, keeps the store's invariant and
  stays well named: under every label and type, the denials of existence and the AUTH records made on the way included, lies a packet that decodes and whose name is
  zone, NDNS, label, type and the stored version.
\<close>

theorem zone_life_well_named:
  assumes "zone_life L E K dflt V p d" and "ndn_ok L" "signs L" and "keychain_ok K"
    and "\<And>x. V x \<Longrightarrow> length (d_name x) < 2 ^ 64"
  shows "store_inv L E p d \<and>
         (\<forall>label ty version ttl b. db_get L E p d (label, ty) = Some (version, ttl, b) \<longrightarrow>
            (\<exists>packet. blockData L b = Some packet \<and>
               d_name packet = zone_name (snd p) @ [NDNS_ITERATIVE_QUERY] @ label @ [ty, version]))"
proof -
  note n = zone_fitD [OF zone_life_fit [OF assms]]
  have "\<exists>packet. blockData L b = Some packet \<and> d_name packet = zone_name (snd p) @ [NDNS_ITERATIVE_QUERY] @ label @ [ty, version]"
    if "db_get L E p d (label, ty) = Some (version, ttl, b)" for label ty version ttl b
    using named_valueD [OF named_zoneD [OF n(2) that]] by (simp add: rr_name_def) blast
  with n(1) show ?thesis by blast
qed

text \<open>A zone just created.\<close>

lemma created_sample:
  obtains t' zone where "createZone ndn0 sqlite0 pib0 ''db'' (\<lambda>i. i) (\<lambda>_. 0) 2 3 tool_sample [generic ''net'', generic ''ndnsim''] [generic ''net'']
       3600 86400 DEFAULT_CERT DEFAULT_CERT DEFAULT_CERT = (t', Inr zone)"
    "zone_life ndn0 sqlite0 pib0 ''db'' V (3, zone) (t_db t')" "zone_name zone = [generic ''net'', generic ''ndnsim'']"
proof -
  have p: "strict_prefix [generic ''net''] [generic ''net'', generic ''ndnsim'']" by (simp add: strict_prefix_def)
  from createZone_effect [OF ndn0_ok ndn0_signs pib0_ok room_sample p, of 3600 "\<lambda>i. i" "\<lambda>_. 0" 2 3 86400]
  obtain t' zone where c: "createZone ndn0 sqlite0 pib0 ''db'' (\<lambda>i. i) (\<lambda>_. 0) 2 3 tool_sample
      [generic ''net'', generic ''ndnsim''] [generic ''net''] 3600 86400 DEFAULT_CERT DEFAULT_CERT DEFAULT_CERT = (t', Inr zone)"
    "zone_name zone = [generic ''net'', generic ''ndnsim'']" "zone_ready ndn0 sqlite0 pib0 (t_keyChain t') ''db'' (3, zone) (t_db t')" by auto
  have g: "given_named [generic ''net'', generic ''ndnsim''] DEFAULT_CERT" by (simp add: given_named_def)
  have k: "zone_keys ndn0 pib0 (t_keyChain t') [generic ''net'', generic ''ndnsim'']" using c(2,3) by (simp add: zone_ready_def)
  show thesis by (rule that [OF c(1) life_created [OF room_sample g g c(1) k] c(2)])
qed

theorem zone_life_well_named_witness:
  "\<exists>t' zone. createZone ndn0 sqlite0 pib0 ''db'' (\<lambda>i. i) (\<lambda>_. 0) 2 3 tool_sample [generic ''net'', generic ''ndnsim''] [generic ''net'']
       3600 86400 DEFAULT_CERT DEFAULT_CERT DEFAULT_CERT = (t', Inr zone) \<and>
     (\<forall>label ty version ttl b. db_get ndn0 sqlite0 (3, zone) (t_db t') (label, ty) = Some (version, ttl, b) \<longrightarrow>
        (\<exists>packet. blockData ndn0 b = Some packet \<and>
           d_name packet = zone_name zone @ [NDNS_ITERATIVE_QUERY] @ label @ [ty, version]))"
proof -
  obtain t' zone where z: "createZone ndn0 sqlite0 pib0 ''db'' (\<lambda>i. i) (\<lambda>_. 0) 2 3 tool_sample
      [generic ''net'', generic ''ndnsim''] [generic ''net''] 3600 86400 DEFAULT_CERT DEFAULT_CERT DEFAULT_CERT = (t', Inr zone)"
    "zone_life ndn0 sqlite0 pib0 ''db'' (\<lambda>_. False) (3, zone) (t_db t')"
    "zone_name zone = [generic ''net'', generic ''ndnsim'']" by (rule created_sample)
  from zone_life_well_named [OF z(2) ndn0_ok ndn0_signs pib0_ok] z(1) show ?thesis
    by (intro exI [of _ t'] exI [of _ zone] conjI) simp_all
qed

section \<open>Answers\<close>

lemma matchName_interest_query_parts:
  assumes n: "n = zone @ NDNS_ITERATIVE_QUERY # rest" "rest \<noteq> []" "NDNS_UPDATE_LABEL \<notin> set rest" and len: "length n < 2 ^ 64"
  obtains re where "matchName_interest L n zone = Inr (Some re)" "m_rrType re \<noteq> NDNS_UPDATE_LABEL"
proof -
  have marker: "NDNS_ITERATIVE_QUERY \<noteq> NDNS_UPDATE_LABEL" by (simp add: label_defs)
  have "\<exists>re. matchName_interest L n zone = Inr (Some re) \<and> m_rrType re \<noteq> NDNS_UPDATE_LABEL"
  proof (cases rule: rest_cases [of rest])
    case 1
    with n(2) show ?thesis by simp
  next
    case (2 c)
    with n len marker show ?thesis by (auto simp: matchName_interest_def Let_def nth_append)
  next
    case (3 xs c d)
    with n len show ?thesis by (auto simp: matchName_interest_def Let_def nth_append)
  qed
  with that show thesis by blast
qed

text \<open>What the name of an Interest says about the record it asks for: its name extends that of the Interest.\<close>

lemma matchName_interest_prefix:
  assumes m: "matchName_interest L n zone = Inr (Some re)" and len: "length n < 2 ^ 64" and L: "version_ok L"
    and v: "comp_empty (m_version re) \<or> m_version re = v"
  shows "prefix n (rr_name zone (m_rrLabel re) (m_rrType re) @ [v])"
proof -
  obtain k where "calculateSkip n zone = Inr k" using m by (auto simp: matchName_interest_def bind_err_Inr)
  then obtain rest where n: "n = zone @ NDNS_ITERATIVE_QUERY # rest" by (auto simp: calculateSkip_Inr)
  have e: "isVersion L c \<Longrightarrow> \<not> comp_empty c" for c using version_okD(5) [OF L] by (simp add: comp_empty_def)
  show ?thesis
  proof (cases rule: rest_cases [of rest])
    case 1
    with m len show ?thesis by (simp add: n matchName_interest_def)
  next
    case (2 c)
    with m len v e [of c] show ?thesis by (auto simp: n matchName_interest_def Let_def nth_append rr_name_def split: if_splits)
  next
    case (3 xs c d)
    with m len v e [of d] show ?thesis
      by (auto simp: n matchName_interest_def Let_def nth_append rr_name_def split: if_splits)
  qed
qed

lemma answer_nack_some:
  assumes fit: "zone_fit L E (srv_ptr s) (srv_db s)" and L: "sign_ok L" "signs L"
  obtains ans where "answer_nack L E now s i re = (put ans s, Inr ())" "d_name ans = i_name i @ [fromVersion L now]"
proof -
  have s: "server_ok L E s" using zone_fitD(1) [OF fit] by (simp add: server_ok_def)
  then have g: "db_good L E (srv_db s)" "zone_id (ns_zone (srv_ns s)) \<noteq> 0" by (simp_all add: server_ok_def store_inv_def)
  let ?n = "m_rrLabel re @ [m_rrType re]"
  have "\<exists>row. lower_row L (ns_zone (srv_ns s)) (srv_db s) ?n DOE_RR_TYPE row"
    by (rule guard_covering [OF s zone_fitD(3) [OF fit]]) simp
  then obtain row where row: "findLowerBound L E (srv_db s) (rr_object (srv_ptr s) (?n, DOE_RR_TYPE)) =
      (srv_db s, Inr (filled L row (rr_object (srv_ptr s) (?n, DOE_RR_TYPE)), True))"
    using findLowerBound_covering [OF g, of ?n] by auto
  let ?a = "(setContent L (blk_of L row) (new_data (appendVersion L now (i_name i))))
      \<lparr>d_freshness := int (ns_contentFreshness (srv_ns s)), d_contentType := content_type_code NDNS_NACK\<rparr>"
  obtain ans where ans: "signData L SigningDefault ?a = Some ans" using L(2) unfolding signs_def by blast
  have "answer_nack L E now s i re = (put ans s, Inr ())"
    using ans by (simp add: answer_nack_def rr_object_fold row Let_def)
  with sign_okD [OF L(1) ans] show thesis using that by (simp add: appendVersion_def)
qed

lemma onInterest_answered:
  assumes fit: "zone_fit L E (srv_ptr s) (srv_db s)" and L: "ndn_ok L" "signs L"
    and n: "i_name i = zone_name (ns_zone (srv_ns s)) @ NDNS_ITERATIVE_QUERY # rest" "rest \<noteq> []" "NDNS_UPDATE_LABEL \<notin> set rest"
    and len: "length (i_name i) < 2 ^ 64"
  obtains ans where "onInterest L E now s i = (put ans s, Inr ())" "prefix (i_name i) (d_name ans)"
proof -
  have s: "server_ok L E s" using zone_fitD(1) [OF fit] by (simp add: server_ok_def)
  obtain re where m: "matchName_interest L (i_name i) (zone_name (ns_zone (srv_ns s))) = Inr (Some re)" "m_rrType re \<noteq> NDNS_UPDATE_LABEL"
    by (rule matchName_interest_query_parts [OF n len])
  have o: "onInterest L E now s i = handleQuery L E now s i re" using m by (simp add: onInterest_def)
  show thesis
  proof (cases "\<exists>v ttl b. srv_get L E s (match_key re) = Some (v, ttl, b) \<and> (comp_empty (m_version re) \<or> m_version re = v)")
    case True
    then obtain v ttl b where g: "srv_get L E s (match_key re) = Some (v, ttl, b)" "comp_empty (m_version re) \<or> m_version re = v"
      by blast
    obtain d where d: "blockData L b = Some d" "d_name d = rr_name (zone_name (ns_zone (srv_ns s))) (m_rrLabel re) (m_rrType re) @ [v]"
      using named_valueD [OF named_zoneD [OF zone_fitD(2) [OF fit] g(1)]] by (auto simp: match_key_def)
    have "onInterest L E now s i = (put d s, Inr ())" using handleQuery_found [OF s g, of now i] o d(1) by simp
    then show thesis using matchName_interest_prefix [OF m(1) len ndn_okD(2) [OF L(1)] g(2)] d(2) that by simp
  next
    case False
    then have "case srv_get L E s (match_key re) of None \<Rightarrow> True
            | Some (v, _, _) \<Rightarrow> \<not> comp_empty (m_version re) \<and> m_version re \<noteq> v"
      by (auto split: option.splits)
    from handleQuery_missing [OF s this] o have "onInterest L E now s i = answer_nack L E now s i re" by simp
    then show thesis
      using that by (metis answer_nack_some [OF fit ndn_okD(5) [OF L(1)] L(2)] prefixI)
  qed
qed

text \<open>
  C6: In every database that a zone comes to from its creation by additions, removals, dynamic updates and writes to other zones, successful or refused (the steps of \<open>zone_life\<close>, whose text says which are
  left out: the removal of the last record, the states in the middle of a rebuild or of a failing write, and packets from files that are not named for the zone), the server of the zone answers every Interest for a record (a name below the zone and the marker
  NDNS that is no update): no exception ends the daemon, the database stays as it is, and exactly one packet is handed to the face, whose own limits (the size of a packet) are not modelled. Its name extends that of the
  Interest, so that the network delivers it, whether it is the stored record, with or without the version the Interest asks for, or a denial of
  existence.
\<close>

theorem every_query_answered:
  assumes "zone_life L E K dflt V p (srv_db s)" and "same_zone (srv_ptr s) p" and "ndn_ok L" "signs L" and "keychain_ok K"
    and "\<And>x. V x \<Longrightarrow> length (d_name x) < 2 ^ 64"
    and "i_name i = zone_name (ns_zone (srv_ns s)) @ NDNS_ITERATIVE_QUERY # rest" "rest \<noteq> []" "NDNS_UPDATE_LABEL \<notin> set rest"
    and "length (i_name i) < 2 ^ 64"
  shows "\<exists>ans. onInterest L E now s i = (put ans s, Inr ()) \<and> prefix (i_name i) (d_name ans)"
proof -
  have "zone_fit L E (srv_ptr s) (srv_db s)"
    using zone_life_fit [OF assms(1,3-6)] zone_fit_ptr [OF assms(2)] by blast
  from onInterest_answered [OF this assms(3,4,7-10)] show ?thesis by metis
qed

theorem every_query_answered_witness:
  "\<exists>s ans. srv_out s = [] \<and>
     onInterest ndn0 sqlite0 9 s (toInterest ((Query_new [generic ''net'', generic ''ndnsim''] NDNS_ITERATIVE_QUERY)
       \<lparr>q_rrLabel := [generic ''www''], q_rrType := TXT_RR_TYPE\<rparr>)) = (put ans s, Inr ()) \<and>
     prefix [generic ''net'', generic ''ndnsim'', NDNS_ITERATIVE_QUERY, generic ''www'', TXT_RR_TYPE] (d_name ans)"
proof -
  let ?i = "toInterest ((Query_new [generic ''net'', generic ''ndnsim''] NDNS_ITERATIVE_QUERY)\<lparr>q_rrLabel := [generic ''www''], q_rrType := TXT_RR_TYPE\<rparr>)"
  obtain t' zone where "createZone ndn0 sqlite0 pib0 ''db'' (\<lambda>i. i) (\<lambda>_. 0) 2 3 tool_sample [generic ''net'', generic ''ndnsim'']
      [generic ''net''] 3600 86400 DEFAULT_CERT DEFAULT_CERT DEFAULT_CERT = (t', Inr zone)"
    and z: "zone_life ndn0 sqlite0 pib0 ''db'' (\<lambda>_. False) (3, zone) (t_db t')"
    "zone_name zone = [generic ''net'', generic ''ndnsim'']" by (rule created_sample)
  define s where "s = \<lparr>srv_ns = \<lparr>ns_addr = 3, ns_zone = zone, ns_ndnsPrefix = [], ns_certName = [], ns_contentFreshness = 4000\<rparr>,
      srv_db = t_db t', srv_pending = [], srv_out = []\<rparr>"
  have s: "same_zone (srv_ptr s) (3, zone)" "srv_out s = []" "zone_name (ns_zone (srv_ns s)) = [generic ''net'', generic ''ndnsim'']"
    using z(2) by (simp_all add: s_def same_zone_def)
  have l: "zone_life ndn0 sqlite0 pib0 ''db'' (\<lambda>_. False) (3, zone) (srv_db s)"
    using z(1) by (simp add: s_def)
  have n: "i_name ?i = zone_name (ns_zone (srv_ns s)) @ NDNS_ITERATIVE_QUERY # [generic ''www'', TXT_RR_TYPE]"
    by (simp add: s(3) toInterest_def Query_new_def)
  have u: "NDNS_UPDATE_LABEL \<notin> set [generic ''www'', TXT_RR_TYPE]" by (simp add: label_defs)
  have len: "length (i_name ?i) < 2 ^ 64" by (simp add: toInterest_def Query_new_def)
  obtain ans where "onInterest ndn0 sqlite0 9 s ?i = (put ans s, Inr ())" "prefix (i_name ?i) (d_name ans)"
    using every_query_answered [OF l s(1) ndn0_ok ndn0_signs pib0_ok _ n _ u len, of 9] by blast
  then show ?thesis using s n by (intro exI [of _ s] exI [of _ ans]) simp
qed

end
