(* ===== verification/ValidatorBuilder.thy ===== *)
theory ValidatorBuilder
  imports CertFetcher
begin

text \<open>
  \<open>NdnsValidatorBuilder\<close> (\<open>src/validator/validator.cpp\<close>): the validator of ndn-cxx with the certificate fetcher of NDNS and the policy of a file.
  \<open>newCache\<close> makes the storage for delegations of the given size and \<open>load\<close> loads a policy file, \<open>Some e\<close> for an exception.
\<close>

record 'c ndns_validator =
  val_fetcher :: "'c cert_fetcher"
  val_policyFile :: string

definition NdnsValidatorBuilder_create ::
  "(nat \<Rightarrow> 'c) \<Rightarrow> (string \<Rightarrow> error option) \<Rightarrow> nat \<Rightarrow> nat \<Rightarrow> string \<Rightarrow> error + 'c ndns_validator" where
  "NdnsValidatorBuilder_create newCache load nsCacheSize startComponentIndex confFile =
     (let fetcher = CertificateFetcherNdnsCert_new (newCache nsCacheSize) startComponentIndex in
      case load confFile of
        Some e \<Rightarrow> Inl e
      | None \<Rightarrow> Inr \<lparr>val_fetcher = fetcher, val_policyFile = confFile\<rparr>)"

definition VALIDATOR_CONF_FILE :: "string \<Rightarrow> string" where
  "VALIDATOR_CONF_FILE confDir = confDir @ ''/validator.conf''"

text \<open>
  The fetcher for certificates of applications (\<open>src/validator/certificate-fetcher-ndns-appcert\<close>) owns such a validator and shares the storage
  for delegations with the fetcher of that validator, through a pointer.
\<close>

record 'c app_fetcher =
  af_validator :: "'c ndns_validator"
  af_startComponentIndex :: nat

definition CertificateFetcherAppCert_new ::
  "(nat \<Rightarrow> 'c) \<Rightarrow> (string \<Rightarrow> error option) \<Rightarrow> string \<Rightarrow> nat \<Rightarrow> nat \<Rightarrow> error + 'c app_fetcher" where
  "CertificateFetcherAppCert_new newCache load confDir nsCacheSize startComponentIndex =
     bind_err (NdnsValidatorBuilder_create newCache load nsCacheSize startComponentIndex (VALIDATOR_CONF_FILE confDir)) (\<lambda>v.
       Inr \<lparr>af_validator = v, af_startComponentIndex = startComponentIndex\<rparr>)"

text \<open>A request to it, as the handlers of the request see it; \<open>nRetriesLeft\<close> is a member of the request.\<close>

definition app_request :: "'c app_fetcher \<Rightarrow> interest \<Rightarrow> int \<Rightarrow> 'c fetching" where
  "app_request f i nRetriesLeft =
     \<lparr>fx_fetcher = \<lparr>cf_nsCache = cf_nsCache (val_fetcher (af_validator f)), cf_startComponentIndex = af_startComponentIndex f\<rparr>,
      fx_interest = i, fx_nRetriesLeft = nRetriesLeft, fx_tag = None, fx_out = []\<rparr>"

end
