(* ===== verification/ConfigFile.thy ===== *)
theory ConfigFile
  imports RrsetFactory NameServer ValidatorBuilder
begin

text \<open>
  The configuration file (\<open>src/daemon/config-file.cpp\<close>, \<open>.hpp\<close>) and the set-up of the daemon from it (\<open>tools/ndns-daemon.cpp\<close>).
  A property tree of Boost is a value with named subtrees in the order of the file; \<open>read_info\<close>, the parser of Boost, and the reading of files are arguments.
  A handler works on the state \<open>'s\<close> of the object it is bound to.
\<close>

section \<open>Sections and handlers\<close>

datatype ptree = PTree (pt_value: string) (pt_children: "(string \<times> ptree) list")

type_synonym 's section_handler = "ptree \<Rightarrow> bool \<Rightarrow> string \<Rightarrow> 's \<Rightarrow> ('s, unit) res"

type_synonym 's unknown_handler = "string \<Rightarrow> string \<Rightarrow> ptree \<Rightarrow> bool \<Rightarrow> 's \<Rightarrow> ('s, unit) res"

record 's config_file =
  cfg_unknownSectionCallback :: "'s unknown_handler"
  cfg_subscriptions :: "string \<Rightarrow> 's section_handler option"
  cfg_global :: ptree

definition throwErrorOnUnknownSection :: "'s unknown_handler" where
  "throwErrorOnUnknownSection filename sectionName sect isDryRun s =
     (s, Inl (ConfigFile_Error ''no module subscribed for section''))"

definition ignoreUnknownSection :: "'s unknown_handler" where
  "ignoreUnknownSection filename sectionName sect isDryRun s = (s, Inr ())"

definition ConfigFile_new :: "'s unknown_handler \<Rightarrow> 's config_file" where
  "ConfigFile_new unknownSectionCallback =
     \<lparr>cfg_unknownSectionCallback = unknownSectionCallback, cfg_subscriptions = Map.empty, cfg_global = PTree [] []\<rparr>"

definition parseYesNo :: "ptree \<Rightarrow> error + bool" where
  "parseYesNo node =
     (if pt_value node = ''yes'' then Inr True
      else if pt_value node = ''no'' then Inr False
      else Inl (ConfigFile_Error ''Invalid value for option''))"

text \<open>\<open>parseNumber<T>\<close>; \<open>toNumber\<close> is the conversion of \<open>get_value_optional<T>\<close>.\<close>

definition parseNumber :: "(string \<Rightarrow> 'n option) \<Rightarrow> ptree \<Rightarrow> error + 'n" where
  "parseNumber toNumber node = or_throw (ConfigFile_Error ''Invalid value for option'') (toNumber (pt_value node))"

definition addSectionHandler :: "'s config_file \<Rightarrow> string \<Rightarrow> 's section_handler \<Rightarrow> 's config_file" where
  "addSectionHandler c sectionName subscriber = c\<lparr>cfg_subscriptions := (cfg_subscriptions c)(sectionName \<mapsto> subscriber)\<rparr>"

text \<open>The handler of a section is called inside the \<open>try\<close> block that is meant for the lookup of the handler.\<close>

fun process_sections ::
  "'s config_file \<Rightarrow> bool \<Rightarrow> string \<Rightarrow> (string \<times> ptree) list \<Rightarrow> 's \<Rightarrow> ('s, unit) res" where
  "process_sections c isDryRun filename [] s = (s, Inr ())"
| "process_sections c isDryRun filename ((sectionName, sect) # is) s =
     and_then
       (case cfg_subscriptions c sectionName of
          None \<Rightarrow> cfg_unknownSectionCallback c filename sectionName sect isDryRun s
        | Some subscriber \<Rightarrow>
            (case subscriber sect isDryRun filename s of
               (s, Inl Out_Of_Range) \<Rightarrow> cfg_unknownSectionCallback c filename sectionName sect isDryRun s
             | r \<Rightarrow> r))
       (\<lambda>s _. process_sections c isDryRun filename is s)"

definition process :: "'s config_file \<Rightarrow> bool \<Rightarrow> string \<Rightarrow> 's \<Rightarrow> ('s, unit) res" where
  "process c isDryRun filename s =
     (if filename = [] then (s, Inl AssertFailed)
      else process_sections c isDryRun filename (pt_children (cfg_global c)) s)"

definition parse_section :: "'s config_file \<Rightarrow> ptree \<Rightarrow> bool \<Rightarrow> string \<Rightarrow> 's \<Rightarrow> ('s, unit) res" where
  "parse_section c config isDryRun filename s = process (c\<lparr>cfg_global := config\<rparr>) isDryRun filename s"

definition parse_stream ::
  "(string \<Rightarrow> ptree option) \<Rightarrow> 's config_file \<Rightarrow> string \<Rightarrow> bool \<Rightarrow> string \<Rightarrow> 's \<Rightarrow> ('s, unit) res" where
  "parse_stream read_info c input isDryRun filename s =
     (case read_info input of
        None \<Rightarrow> (s, Inl (ConfigFile_Error ''Failed to parse configuration file''))
      | Some tree \<Rightarrow> process (c\<lparr>cfg_global := tree\<rparr>) isDryRun filename s)"

definition parse_file ::
  "(string \<Rightarrow> ptree option) \<Rightarrow> (string \<Rightarrow> string option) \<Rightarrow> 's config_file \<Rightarrow> string \<Rightarrow> bool \<Rightarrow> 's \<Rightarrow> ('s, unit) res" where
  "parse_file read_info readFile c filename isDryRun s =
     (case readFile filename of
        None \<Rightarrow> (s, Inl (ConfigFile_Error ''Failed to read configuration file''))
      | Some input \<Rightarrow> parse_stream read_info c input isDryRun filename s)"

section \<open>The daemon\<close>

text \<open>What the daemon is built on: the key chain, the database files, the policy files of the validator and the conversion of strings to names.\<close>

record 'k environment =
  env_keychain :: "'k keychain"
  env_keys :: 'k
  env_dbFile :: string
  env_disk :: "string \<Rightarrow> tables"
  env_validatorConf :: string
  env_loadPolicy :: "string \<Rightarrow> error option"
  env_parseName :: "string \<Rightarrow> name option"

text \<open>Nothing depends on the delegations that the validator keeps: their storage is the unit.\<close>

record daemon =
  dm_dbMgr :: "dbmgr option"
  dm_validator :: "unit ndns_validator option"
  dm_servers :: "nameserver list"

definition child :: "ptree \<Rightarrow> string \<Rightarrow> ptree option" where
  "child t key = map_of (pt_children t) key"

definition child_value :: "ptree \<Rightarrow> string \<Rightarrow> string \<Rightarrow> string" where
  "child_value t key dflt = (case child t key of None \<Rightarrow> dflt | Some u \<Rightarrow> pt_value u)"

definition child_name :: "'k environment \<Rightarrow> ptree \<Rightarrow> string \<Rightarrow> name option" where
  "child_name W t key = Option.bind (child t key) (\<lambda>u. env_parseName W (pt_value u))"

text \<open>The certificate of a zone entry. A certificate that is given is looked up under the identity named like the zone, the default
  certificate under the identity with the marker.\<close>

definition zone_certificate :: "'k environment \<Rightarrow> name \<Rightarrow> name \<Rightarrow> error + name" where
  "zone_certificate W name cert =
     (if cert = [] then
        (case getDefaultCertificateNameOfIdentity (env_keychain W) (env_keys W) (name @ [NDNS_ITERATIVE_QUERY]) of
           Inr c \<Rightarrow> Inr c
         | Inl _ \<Rightarrow> Inl (Daemon_Error ''identity does not have default certificate''))
      else
        (case getCertificate (env_keychain W) (env_keys W) name cert of
           Inr _ \<Rightarrow> Inr cert
         | Inl _ \<Rightarrow> Inl (Daemon_Error ''Certificate does not exist in the KeyChain'')))"

text \<open>One server per zone entry; the address of its zone is its number.\<close>

fun start_servers ::
  "ndn \<Rightarrow> sqlite \<Rightarrow> 'k environment \<Rightarrow> (string \<times> ptree) list \<Rightarrow> dbmgr \<times> nameserver list \<Rightarrow> (dbmgr \<times> nameserver list, unit) res" where
  "start_servers L E W [] s = (s, Inr ())"
| "start_servers L E W ((key, t) # ts) (d, servers) =
     (if key \<noteq> ''zone'' then start_servers L E W ts (d, servers)
      else case child_name W t ''name'' of
        None \<Rightarrow> ((d, servers), Inl (Daemon_Error ''Required name attribute missing in zone section''))
      | Some name \<Rightarrow>
          let cert = (case child_name W t ''cert'' of None \<Rightarrow> [] | Some c \<Rightarrow> c) in
          and_then (lift_err (d, servers) (zone_certificate W name cert)) (\<lambda>(d, servers) cert.
            case NameServer_new L E d (length servers) name cert of
              (d, Inl e) \<Rightarrow> ((d, servers), Inl e)
            | (d, Inr ns) \<Rightarrow> start_servers L E W ts (d, servers @ [ns])))"

definition processZonesSection :: "ndn \<Rightarrow> sqlite \<Rightarrow> 'k environment \<Rightarrow> daemon section_handler" where
  "processZonesSection L E W sect isDryRun filename s =
     (if pt_children sect = [] then (s, Inl (Daemon_Error ''zones section is empty''))
      else case DbMgr_new E (env_dbFile W) (env_disk W) (child_value sect ''dbFile'' (env_dbFile W)) of
        (d, Inl e) \<Rightarrow> (s, Inl e)
      | (d, Inr _) \<Rightarrow>
          let s = s\<lparr>dm_dbMgr := Some d\<rparr>; conf = child_value sect ''validatorConfigFile'' (env_validatorConf W) in
          (case NdnsValidatorBuilder_create (\<lambda>_. ()) (env_loadPolicy W) 500 0 conf of
             Inl e \<Rightarrow> (s, Inl e)
           | Inr validator \<Rightarrow>
               let s = s\<lparr>dm_validator := Some validator\<rparr> in
               (case start_servers L E W (pt_children sect) (d, dm_servers s) of
                  ((d, servers), r) \<Rightarrow> (s\<lparr>dm_dbMgr := Some d, dm_servers := servers\<rparr>, r))))"

definition NdnsDaemon_new ::
  "ndn \<Rightarrow> sqlite \<Rightarrow> 'k environment \<Rightarrow> (string \<Rightarrow> ptree option) \<Rightarrow> (string \<Rightarrow> string option) \<Rightarrow> string \<Rightarrow> (daemon, unit) res" where
  "NdnsDaemon_new L E W read_info readFile configFile =
     parse_file read_info readFile
       (addSectionHandler (ConfigFile_new throwErrorOnUnknownSection) ''zones'' (processZonesSection L E W))
       configFile False \<lparr>dm_dbMgr = None, dm_validator = None, dm_servers = []\<rparr>"

text \<open>\<open>main\<close>: the exit code, or the daemon that goes on to process events.\<close>

definition daemon_main ::
  "ndn \<Rightarrow> sqlite \<Rightarrow> 'k environment \<Rightarrow> (string \<Rightarrow> ptree option) \<Rightarrow> (string \<Rightarrow> string option) \<Rightarrow> string \<Rightarrow> error + (int + daemon)" where
  "daemon_main L E W read_info readFile configFile =
     (case NdnsDaemon_new L E W read_info readFile configFile of
        (s, Inr _) \<Rightarrow> Inr (Inr s)
      | (s, Inl e) \<Rightarrow> if std_exception e then Inr (Inl 1) else Inl e)"

end
