(* ===== verification/Daemon.thy ===== *)
theory Daemon
  imports ConfigFile
begin

text \<open>
  The daemon at work (\<open>tools/ndns-daemon.cpp\<close>): after the constructor, \<open>processEvents\<close> runs the handlers of all the servers, one at
  a time in one thread and in any order, over the one database and the one face they share. (With two sections \<open>zones\<close> the
  second would replace the database manager under the servers of the first, which hold a reference to it; this state is not modelled.)
\<close>

record running =
  run_db :: dbmgr
  run_servers :: "nameserver list"
  run_pending :: "(interest \<times> data) list list"
  run_out :: "data list"

definition daemon_running :: "daemon \<Rightarrow> running option" where
  "daemon_running s =
     map_option (\<lambda>d. \<lparr>run_db = d, run_servers = dm_servers s, run_pending = map (\<lambda>_. []) (dm_servers s), run_out = []\<rparr>) (dm_dbMgr s)"

text \<open>The server \<open>j\<close> as it sees the world, and the world after it has run a handler.\<close>

definition server_view :: "running \<Rightarrow> nat \<Rightarrow> server" where
  "server_view R j =
     \<lparr>srv_ns = run_servers R ! j, srv_db = run_db R, srv_pending = run_pending R ! j, srv_out = run_out R\<rparr>"

definition with_server :: "running \<Rightarrow> nat \<Rightarrow> server \<Rightarrow> running" where
  "with_server R j s =
     R\<lparr>run_db := srv_db s, run_servers := (run_servers R)[j := srv_ns s], run_pending := (run_pending R)[j := srv_pending s],
       run_out := srv_out s\<rparr>"

text \<open>One event: an Interest that the face hands to a server, or a verdict of the validator for one.\<close>

inductive daemon_step :: "ndn \<Rightarrow> sqlite \<Rightarrow> (data \<Rightarrow> bool) \<Rightarrow> running \<Rightarrow> running \<Rightarrow> bool" for L E V where
  event: "j < length (run_servers R) \<Longrightarrow> server_step L E V (server_view R j) s' \<Longrightarrow> daemon_step L E V R (with_server R j s')"

text \<open>
  An exception in a handler leaves \<open>processEvents\<close> and is caught in \<open>main\<close>, which returns 1; a failed assertion
  is no exception and ends the process.
\<close>

inductive daemon_ends :: "ndn \<Rightarrow> sqlite \<Rightarrow> (data \<Rightarrow> bool) \<Rightarrow> running \<Rightarrow> error + int \<Rightarrow> bool" for L E V where
  interest_fails: "j < length (run_servers R) \<Longrightarrow> onInterest L E now (server_view R j) i = (s', Inl e) \<Longrightarrow>
     daemon_ends L E V R (if std_exception e then Inr 1 else Inl e)"
| update_fails: "j < length (run_servers R) \<Longrightarrow> run_pending R ! j = us @ (i, d) # vs \<Longrightarrow> V d \<Longrightarrow>
     doUpdate L E now ((server_view R j)\<lparr>srv_pending := us @ vs\<rparr>) i d = (s', Inl e) \<Longrightarrow>
     daemon_ends L E V R (if std_exception e then Inr 1 else Inl e)"

end
