(* ===== verification/Isolation.thy ===== *)
theory Isolation
  imports NameServerProps
begin

text \<open>
  Zones in one database: what is written for one zone leaves the records of every other as they are. The
  specification of the server of one zone is a map that only accepts newer, validated packets of the zone.
\<close>

section \<open>A write stays in its zone\<close>

text \<open>The object of a zone agrees with its row.\<close>

definition zone_row_of :: "ndn \<Rightarrow> dbmgr \<Rightarrow> zone \<Rightarrow> bool" where
  "zone_row_of L d z \<longleftrightarrow>
     (\<exists>row \<in> set (zones (m_tables d)). z_name row = nameWire L (zone_name z) \<and> z_id row = int (zone_id z) \<and> z_ttl row = zone_ttl z)"

lemma zone_row_of_id:
  assumes "db_good L E d" "zone_row_of L d z"
  shows "zone_id z < 2 ^ 63"
proof -
  obtain row where row: "row \<in> set (zones (m_tables d))" "z_id row = int (zone_id z)" using assms(2) unfolding zone_row_of_def by blast
  then have "int (zone_id z) < 2 ^ 63" using db_goodD(6) [OF assms(1)] by (auto simp: db_inv_def zone_rows_ok_def)
  then show ?thesis by simp
qed

text \<open>Two objects with one id stand for one zone.\<close>

lemma zone_row_of_unique:
  assumes g: "db_good L E d" and z: "zone_row_of L d z" "zone_row_of L d z'" and id: "zone_id z = zone_id z'"
  shows "zone_name z = zone_name z' \<and> zone_ttl z = zone_ttl z'"
proof -
  note D = db_goodD [OF g]
  obtain row where row: "row \<in> set (zones (m_tables d))" "z_name row = nameWire L (zone_name z)" "z_id row = int (zone_id z)"
    "z_ttl row = zone_ttl z" using z(1) unfolding zone_row_of_def by blast
  obtain row' where row': "row' \<in> set (zones (m_tables d))" "z_name row' = nameWire L (zone_name z')" "z_id row' = int (zone_id z')"
    "z_ttl row' = zone_ttl z'" using z(2) unfolding zone_row_of_def by blast
  have "distinct (map z_id (zones (m_tables d)))" using D(6) by (simp add: db_inv_def zone_rows_ok_def)
  then have "row = row'" using distinct_map_inj [of z_id "zones (m_tables d)" row row'] row(1,3) row'(1,3) id by simp
  moreover have "nameWire L (zone_name z) = nameWire L (zone_name z') \<Longrightarrow> zone_name z = zone_name z'"
    using restoreName_nameWire [OF D(1)] by (metis sum.inject(2))
  ultimately show ?thesis using row row' by simp
qed

lemma obj_key_other:
  assumes "zone_id (snd p) < 2 ^ 63" "zone_id (snd q) < 2 ^ 63" "zone_id (snd p) \<noteq> zone_id (snd q)"
  shows "obj_key L q k' \<noteq> obj_key L p k"
  using assms by (simp add: key_of_def)

text \<open>At the level of rows: the write changes at most the row of its key, and no zone.\<close>

lemma put_newer_row:
  fixes k :: "name \<times> component" and v :: rr_value
  assumes i: "store_inv L E p d"
  defines "d' \<equiv> fst (db.put_newer L E p d k v)"
  shows "zones (m_tables d') = zones (m_tables d) \<and> db_good L E d' \<and> (\<forall>x. x \<noteq> obj_key L p k \<longrightarrow> rr_at d' x = rr_at d x)"
proof -
  have g: "db_good L E d" using i by (simp add: store_inv_def)
  show ?thesis
  proof (cases "rr_at d (obj_key L p k)")
    case None
    then have n: "db_get L E p d k = None" by (simp add: db_get_at [OF i])
    then have d': "d' = fst (db_ins L E p d k v)" by (simp add: d'_def db.put_newer_def)
    show ?thesis
    proof (cases "newRowid E (map r_id (rrsets (m_tables d)))")
      case None
      then show ?thesis using insertRrset_full [OF i None, of v k] g by (simp add: d' db_ins_def)
    next
      case (Some rid)
      have new: "rr_at d (key_of L (snd p) (rrset_label (rr_fill v (rr_object p k))) (rrset_type (rr_fill v (rr_object p k)))) = None"
        using None by simp
      show ?thesis
        using db_ins_None(1) [OF i n Some refl, of v] insertRrset_good [OF g new Some] by (simp add: d')
    qed
  next
    case (Some row)
    then have u: "db_get L E p d k = Some (row_value L row)" by (simp add: db_get_at [OF i])
    have mem: "row \<in> set (rrsets (m_tables d))" "rr_key row = obj_key L p k" using rr_at_Some [OF Some] by blast+
    let ?q = "rr_fill v (filled L row (rr_object p k))"
    have upd: "db_upd L E p d k v = fst (updateRrset L E d ?q)" by (simp add: db_upd_def findRrset_object [OF i] Some)
    note U = updateRrset_found [OF g mem(1), of ?q, simplified]
    show ?thesis using U mem(2) g by (simp add: d'_def db.put_newer_def u upd)
  qed
qed

lemma put_newer_isolated:
  assumes i: "store_inv L E p d" "store_inv L E q d" and id: "zone_id (snd p) < 2 ^ 63" "zone_id (snd q) < 2 ^ 63"
    "zone_id (snd p) \<noteq> zone_id (snd q)"
  shows "store_inv L E q (fst (db.put_newer L E p d k v))"
    and "db_get L E q (fst (db.put_newer L E p d k v)) = db_get L E q d"
proof -
  note R = put_newer_row [OF i(1), of k v]
  then show i': "store_inv L E q (fst (db.put_newer L E p d k v))" using i(2) by (simp add: store_inv_def)
  show "db_get L E q (fst (db.put_newer L E p d k v)) = db_get L E q d"
  proof
    fix x
    have "rr_at (fst (db.put_newer L E p d k v)) (obj_key L q x) = rr_at d (obj_key L q x)"
      using R obj_key_other [OF id, of L x k] by blast
    then show "db_get L E q (fst (db.put_newer L E p d k v)) x = db_get L E q d x"
      by (simp add: db_get_at [OF i'] db_get_at [OF i(2)])
  qed
qed

section \<open>What one zone promises\<close>

text \<open>
  The records of a zone as a map. It changes only by the acceptance of a validated Data packet named after the
  record, when the record is new, with the TTL of the zone, or older, with the TTL it had.
\<close>

type_synonym records = "name \<times> component \<Rightarrow> rr_value option"

inductive zone_write :: "ndn \<Rightarrow> (data \<Rightarrow> bool) \<Rightarrow> zone \<Rightarrow> records \<Rightarrow> records \<Rightarrow> bool" for L V z where
  accept: "V d \<Longrightarrow> matchName_data (d_name d) (zone_name z) = Inr (Some re) \<Longrightarrow>
     (case m (match_key re) of None \<Rightarrow> ttl = zone_ttl z | Some (v, t, b) \<Rightarrow> compLess L v (m_version re) \<and> ttl = t) \<Longrightarrow>
     zone_write L V z m (m(match_key re \<mapsto> (m_version re, ttl, dataBlock L d)))"

lemma zone_write_cong:
  assumes "zone_name z = zone_name z'" "zone_ttl z = zone_ttl z'" "zone_write L V z m m'"
  shows "zone_write L V z' m m'"
  using assms(3)
proof cases
  case (accept d re ttl)
  show ?thesis unfolding accept(1) by (rule zone_write.accept) (use accept assms(1,2) in \<open>simp_all cong: option.case_cong\<close>)
qed

lemma server_step_writes:
  assumes st: "server_step L E V s s'" and s: "server_ok L E s"
  shows "srv_get L E s' = srv_get L E s \<or> zone_write L V (ns_zone (srv_ns s)) (srv_get L E s) (srv_get L E s')"
proof -
  note e = server_step_effect [OF st s] and i = server_okD [OF s]
  show ?thesis
  proof (cases "srv_db s' = srv_db s")
    case True
    then show ?thesis using e by simp
  next
    case False
    then obtain d re where d: "V d" "matchName_data (d_name d) (zone_name (ns_zone (srv_ns s))) = Inr (Some re)"
      "srv_db s' = fst (db.put_newer L E (srv_ptr s) (srv_db s) (match_key re) (update_value L E s re d))" using e by blast
    let ?v = "update_value L E s re d"
    obtain b ok where p: "db.put_newer L E (srv_ptr s) (srv_db s) (match_key re) ?v = (b, ok)" by fastforce
    show ?thesis
    proof (cases ok)
      case False
      then show ?thesis using db.put_newer_refused [OF i, of "match_key re" ?v b] p d(3) e by simp
    next
      case True
      then have get: "srv_get L E s' = (srv_get L E s)(match_key re \<mapsto> ?v)"
        using db.put_newer_done [OF i, of "match_key re" ?v b] p d(3) e by simp
      have "case srv_get L E s (match_key re) of None \<Rightarrow> fst (snd ?v) = zone_ttl (ns_zone (srv_ns s))
          | Some (v, t, b) \<Rightarrow> compLess L v (m_version re) \<and> fst (snd ?v) = t"
        using p True server_ok_codec(1) [OF s]
        by (auto simp: update_value_def db.put_newer_def older_rr_def name_codecD split: option.splits if_splits)
      from accept [where V = V and m = "srv_get L E s" and ttl = "fst (snd ?v)", OF d(1,2) this] have "zone_write L V (ns_zone (srv_ns s)) (srv_get L E s)
          ((srv_get L E s)(match_key re \<mapsto> (m_version re, fst (snd ?v), dataBlock L d)))" .
      moreover have "(m_version re, fst (snd ?v), dataBlock L d) = ?v" by (simp add: update_value_def)
      ultimately show ?thesis using get by simp
    qed
  qed
qed

text \<open>The promise: records stay or get newer, and what is new was validated.\<close>

lemma zone_writes_newer:
  assumes L: "name_codec L" and w: "(zone_write L V z)\<^sup>*\<^sup>* m m'"
  shows "m k = Some (v, t, b) \<Longrightarrow> \<exists>v' b'. m' k = Some (v', t, b') \<and> ((v', b') = (v, b) \<or> compLess L v v')"
  using w
proof (induction rule: rtranclp_induct)
  case (step m1 m2)
  then obtain v1 b1 where m1: "m1 k = Some (v1, t, b1)" "(v1, b1) = (v, b) \<or> compLess L v v1" by blast
  from step.hyps(2) show ?case
  proof cases
    case (accept d re ttl)
    have tr: "compLess L v v1 \<Longrightarrow> compLess L v1 x \<Longrightarrow> compLess L v x" for x using L by (simp add: name_codecD)
    show ?thesis
    proof (cases "k = match_key re")
      case True
      then show ?thesis using accept m1 tr by auto
    next
      case False
      then show ?thesis using accept(1) m1 by simp
    qed
  qed
qed blast

lemma zone_writes_validated:
  assumes w: "(zone_write L V z)\<^sup>*\<^sup>* m m'"
  shows "m' k = m k \<or> (\<exists>d re ttl. V d \<and> matchName_data (d_name d) (zone_name z) = Inr (Some re) \<and> match_key re = k \<and>
           m' k = Some (m_version re, ttl, dataBlock L d))"
  using w
proof (induction rule: rtranclp_induct)
  case (step m1 m2)
  from step.hyps(2) show ?case
  proof cases
    case (accept d re ttl)
    then show ?thesis using step.IH by (cases "k = match_key re") auto
  qed
qed blast

end
