(* ===== verification/ConfigFileProps.thy ===== *)
theory ConfigFileProps
  imports ConfigFile NameServerProps DoeChain Isolation
begin

text \<open>
  The dispatch of the sections of a configuration file, and the servers the daemon starts for the zones it names.
\<close>

section \<open>Dispatch\<close>

lemma process_sections_append:
  "process_sections c isDryRun filename (xs @ ys) s =
     and_then (process_sections c isDryRun filename xs s) (\<lambda>s _. process_sections c isDryRun filename ys s)"
  by (induction xs arbitrary: s) (auto simp: and_then_assoc)

lemma process_sections_global [simp]:
  "process_sections (c\<lparr>cfg_global := t\<rparr>) isDryRun filename xs s = process_sections c isDryRun filename xs s"
proof (induction xs arbitrary: s)
  case (Cons x xs)
  then show ?case by (cases x) (simp cong: option.case_cong)
qed simp

text \<open>
  The sections of a file are handled in their order; the effects of those before an error stay and none after it is handled. With the default
  callback two different errors end the processing as ``no module subscribed'': a section without a handler, and a handler that throws \<open>std::out_of_range\<close>.
\<close>

theorem unknown_section_report:
  assumes f: "filename \<noteq> []" and c: "cfg_unknownSectionCallback c = throwErrorOnUnknownSection"
    and t: "pt_children tree = pre @ (sectionName, sect) # post"
    and pre: "process_sections c isDryRun filename pre s = (s', Inr ())"
    and unhandled: "cfg_subscriptions c sectionName = None \<and> s'' = s' \<or>
       (\<exists>subscriber. cfg_subscriptions c sectionName = Some subscriber \<and> subscriber sect isDryRun filename s' = (s'', Inl Out_Of_Range))"
  shows "parse_section c tree isDryRun filename s = (s'', Inl (ConfigFile_Error ''no module subscribed for section''))"
  using unhandled f c t pre
  by (auto simp: parse_section_def process_def process_sections_append throwErrorOnUnknownSection_def)

theorem unknown_section_report_witness:
  "parse_section (addSectionHandler (ConfigFile_new throwErrorOnUnknownSection) ''a'' (\<lambda>t _ _ n. (n + 1 :: nat, Inr ())))
     (PTree [] [(''a'', PTree [] []), (''b'', PTree [] []), (''a'', PTree [] [])]) False ''f'' 0 =
   (1, Inl (ConfigFile_Error ''no module subscribed for section''))"
  by (rule unknown_section_report [where pre = "[(''a'', PTree [] [])]" and sectionName = "''b''" and sect = "PTree [] []"
        and post = "[(''a'', PTree [] [])]" and s' = 1])
     (simp_all add: addSectionHandler_def ConfigFile_new_def)

section \<open>The servers of the daemon\<close>

text \<open>A zone entry the daemon can serve: a name, a zone of the database with this name, and a certificate.\<close>

definition servable :: "ndn \<Rightarrow> 'k environment \<Rightarrow> dbmgr \<Rightarrow> ptree \<Rightarrow> bool" where
  "servable L W d t \<longleftrightarrow>
     (\<exists>name cert. child_name W t ''name'' = Some name \<and> nameWire L name \<in> z_name ` set (zones (m_tables d)) \<and>
        zone_certificate W name (case child_name W t ''cert'' of None \<Rightarrow> [] | Some c \<Rightarrow> c) = Inr cert)"

text \<open>The server of a zone entry, ready to answer.\<close>

definition serves :: "ndn \<Rightarrow> sqlite \<Rightarrow> 'k environment \<Rightarrow> dbmgr \<Rightarrow> ptree \<Rightarrow> nameserver \<Rightarrow> bool" where
  "serves L E W d t ns \<longleftrightarrow>
     child_name W t ''name'' = Some (zone_name (ns_zone ns)) \<and> ns_ndnsPrefix ns = zone_name (ns_zone ns) @ [NDNS_ITERATIVE_QUERY] \<and>
     zone_certificate W (zone_name (ns_zone ns)) (case child_name W t ''cert'' of None \<Rightarrow> [] | Some c \<Rightarrow> c) = Inr (ns_certName ns) \<and>
     server_ok L E \<lparr>srv_ns = ns, srv_db = d, srv_pending = [], srv_out = []\<rparr> \<and> zone_row_of L d (ns_zone ns)"

lemma NameServer_new_ok:
  assumes g: "db_good L E d" and n: "nameWire L zoneName \<in> z_name ` set (zones (m_tables d))"
  obtains z where "NameServer_new L E d addr zoneName cert =
      (d, Inr \<lparr>ns_addr = addr, ns_zone = z, ns_ndnsPrefix = zoneName @ [NDNS_ITERATIVE_QUERY], ns_certName = cert,
               ns_contentFreshness = NAME_SERVER_DEFAULT_CONTENT_FRESHNESS\<rparr>)"
    "zone_name z = zoneName" "store_inv L E (addr, z) d" "\<exists>row \<in> set (zones (m_tables d)). z_name row = nameWire L zoneName \<and> z_id row = int (zone_id z)"
    "zone_row_of L d z"
proof -
  note D = db_goodD [OF g]
  obtain row where m: "map_of (map (\<lambda>r. (z_name r, r)) (zones (m_tables d))) (nameWire L zoneName) = Some row"
    using n map_of_key_None [of z_name "zones (m_tables d)" "nameWire L zoneName"]
    by (cases "map_of (map (\<lambda>r. (z_name r, r)) (zones (m_tables d))) (nameWire L zoneName)") auto
  from map_of_key_Some [OF m] have row: "row \<in> set (zones (m_tables d))" "z_name row = nameWire L zoneName" by auto
  have id: "0 < z_id row" "z_id row < 2 ^ 63" using D(6) row(1) by (auto simp: db_inv_def zone_rows_ok_def)
  let ?z = "(Zone_of zoneName)\<lparr>zone_id := nat (z_id row), zone_ttl := z_ttl row\<rparr>"
  have f: "findZone L E d (Zone_of zoneName) = (d, Inr (?z, True))"
    using findZone_found [OF D(3) D(8,9,6), of "Zone_of zoneName"] m by (simp add: Zone_new_def)
  show thesis
  proof (rule that [of ?z])
    show "store_inv L E (addr, ?z) d" using g id row(1) by (auto simp: store_inv_def nat_less_iff)
  qed (use f id row in \<open>auto simp: NameServer_new_def Zone_new_def zone_row_of_def\<close>)
qed

lemma start_servers_all:
  assumes g: "db_good L E d"
  shows "\<forall>t. (''zone'', t) \<in> set ts \<longrightarrow> servable L W d t \<Longrightarrow>
     \<exists>new. start_servers L E W ts (d, servers) = ((d, servers @ new), Inr ()) \<and>
       list_all2 (serves L E W d) (map snd (filter (\<lambda>x. fst x = ''zone'') ts)) new \<and>
       map ns_addr new = [length servers..<length servers + length new]"
proof (induction ts arbitrary: servers)
  case (Cons x ts)
  obtain key t where x: "x = (key, t)" by fastforce
  show ?case
  proof (cases "key = ''zone''")
    case False
    then show ?thesis using Cons x by simp
  next
    case True
    then obtain name cert where s: "child_name W t ''name'' = Some name" "nameWire L name \<in> z_name ` set (zones (m_tables d))"
      "zone_certificate W name (case child_name W t ''cert'' of None \<Rightarrow> [] | Some c \<Rightarrow> c) = Inr cert"
      using Cons.prems x unfolding servable_def by fastforce
    obtain z where z: "NameServer_new L E d (length servers) name cert =
        (d, Inr \<lparr>ns_addr = length servers, ns_zone = z, ns_ndnsPrefix = name @ [NDNS_ITERATIVE_QUERY], ns_certName = cert,
                 ns_contentFreshness = NAME_SERVER_DEFAULT_CONTENT_FRESHNESS\<rparr>)"
      "zone_name z = name" "store_inv L E (length servers, z) d" "zone_row_of L d z" by (rule NameServer_new_ok [OF g s(2)]) blast
    let ?ns = "\<lparr>ns_addr = length servers, ns_zone = z, ns_ndnsPrefix = name @ [NDNS_ITERATIVE_QUERY], ns_certName = cert,
                ns_contentFreshness = NAME_SERVER_DEFAULT_CONTENT_FRESHNESS\<rparr>"
    have ns: "serves L E W d t ?ns" using s z by (simp add: serves_def server_ok_def)
    obtain new where new: "start_servers L E W ts (d, servers @ [?ns]) = ((d, (servers @ [?ns]) @ new), Inr ())"
      "list_all2 (serves L E W d) (map snd (filter (\<lambda>x. fst x = ''zone'') ts)) new"
      "map ns_addr new = [length (servers @ [?ns])..<length (servers @ [?ns]) + length new]"
      using Cons.IH [of "servers @ [?ns]"] Cons.prems by auto
    have "map ns_addr (?ns # new) = [length servers..<length servers + length (?ns # new)]"
      using new(3) by (simp add: upt_conv_Cons [of "length servers"] del: upt_Suc)
    then show ?thesis using s z(1) new(1,2) True ns x by (intro exI [of _ "?ns # new"]) (simp del: upt_Suc)
  qed
qed simp

lemma daemon_serves:
  assumes f: "configFile \<noteq> []" "readFile configFile = Some text" "read_info text = Some (PTree v [(''zones'', sect)])" "pt_children sect \<noteq> []"
    and d: "DbMgr_new E (env_dbFile W) (env_disk W) (child_value sect ''dbFile'' (env_dbFile W)) = (d, Inr ())" "db_good L E d"
    and p: "env_loadPolicy W (child_value sect ''validatorConfigFile'' (env_validatorConf W)) = None"
    and z: "\<forall>t. (''zone'', t) \<in> set (pt_children sect) \<longrightarrow> servable L W d t"
  shows "\<exists>servers. NdnsDaemon_new L E W read_info readFile configFile =
       (\<lparr>dm_dbMgr = Some d, dm_validator = Some \<lparr>val_fetcher = CertificateFetcherNdnsCert_new () 0,
           val_policyFile = child_value sect ''validatorConfigFile'' (env_validatorConf W)\<rparr>, dm_servers = servers\<rparr>, Inr ()) \<and>
     list_all2 (serves L E W d) (map snd (filter (\<lambda>x. fst x = ''zone'') (pt_children sect))) servers \<and>
     map ns_addr servers = [0..<length servers]"
proof -
  obtain new where new: "start_servers L E W (pt_children sect) (d, []) = ((d, new), Inr ())"
    "list_all2 (serves L E W d) (map snd (filter (\<lambda>x. fst x = ''zone'') (pt_children sect))) new" "map ns_addr new = [0..<length new]"
    using start_servers_all [OF d(2) z, of "[]"] by auto
  then show ?thesis using f d p
    by (simp add: NdnsDaemon_new_def parse_file_def parse_stream_def process_def addSectionHandler_def ConfigFile_new_def
        processZonesSection_def NdnsValidatorBuilder_create_def Let_def)
qed

text \<open>
  C24: When every zone named in the configuration is in the database and has a certificate, the daemon comes up with exactly one server per zone entry, in the
  order of the file, each at its own address, with the certificate of its zone and ready to answer, and with a validator for the policy file of the configuration.
\<close>

theorem daemon_serves_zones:
  assumes f: "configFile \<noteq> []" "readFile configFile = Some text" "read_info text = Some (PTree v [(''zones'', sect)])" "pt_children sect \<noteq> []"
    and d: "DbMgr_new E (env_dbFile W) (env_disk W) (child_value sect ''dbFile'' (env_dbFile W)) = (d, Inr ())" "db_good L E d"
    and p: "env_loadPolicy W (child_value sect ''validatorConfigFile'' (env_validatorConf W)) = None"
    and z: "\<forall>t. (''zone'', t) \<in> set (pt_children sect) \<longrightarrow> servable L W d t"
  shows "\<exists>servers. NdnsDaemon_new L E W read_info readFile configFile =
       (\<lparr>dm_dbMgr = Some d, dm_validator = Some \<lparr>val_fetcher = CertificateFetcherNdnsCert_new () 0,
           val_policyFile = child_value sect ''validatorConfigFile'' (env_validatorConf W)\<rparr>, dm_servers = servers\<rparr>, Inr ()) \<and>
     list_all2 (serves L E W d) (map snd (filter (\<lambda>x. fst x = ''zone'') (pt_children sect))) servers \<and>
     map ns_addr servers = [0..<length servers]"
  by (rule daemon_serves [of configFile readFile "text" read_info v sect E W d L, OF assms])

text \<open>A configuration with the zone net, over the sample database.\<close>

definition env_sample :: "unit environment" where
  "env_sample = \<lparr>env_keychain = keychain_sample, env_keys = (), env_dbFile = ''db'', env_disk = (\<lambda>_. m_tables db_sample),
     env_validatorConf = ''validator.conf'', env_loadPolicy = (\<lambda>_. None), env_parseName = (\<lambda>s. Some [generic s])\<rparr>"

definition zones_sample :: ptree where
  "zones_sample = PTree [] [(''zone'', PTree [] [(''name'', PTree ''net'' [])])]"

lemma env_sample_start:
  "child_value zones_sample ''dbFile'' (env_dbFile env_sample) = ''db''"
  "child_value zones_sample ''validatorConfigFile'' (env_validatorConf env_sample) = ''validator.conf''"
  "pt_children zones_sample \<noteq> []" "env_loadPolicy env_sample ''validator.conf'' = None"
  "DbMgr_new sqlite0 (env_dbFile env_sample) (env_disk env_sample) ''db'' = (db_sample, Inr ())"
  "db_good ndn0 sqlite0 db_sample"
  "\<forall>t. (''zone'', t) \<in> set (pt_children zones_sample) \<longrightarrow> servable ndn0 env_sample db_sample t"
proof -
  show "db_good ndn0 sqlite0 db_sample" using db_sample_good by (simp add: store_inv_def)
  show "\<forall>t. (''zone'', t) \<in> set (pt_children zones_sample) \<longrightarrow> servable ndn0 env_sample db_sample t"
    using zone_keys_sample [of "[generic ''net'']"]
    by (auto simp: servable_def zones_sample_def child_name_def child_def env_sample_def db_sample_def zone_certificate_def zone_keys_def)
qed (simp_all add: child_value_def child_def zones_sample_def env_sample_def DbMgr_new_def open_db_def sqlite0_def db_sample_def)

theorem daemon_serves_zones_witness:
  "\<exists>ns. NdnsDaemon_new ndn0 sqlite0 env_sample (\<lambda>_. Some (PTree [] [(''zones'', zones_sample)])) (\<lambda>_. Some ''t'') ''ndns.conf'' =
       (\<lparr>dm_dbMgr = Some db_sample, dm_validator = Some \<lparr>val_fetcher = CertificateFetcherNdnsCert_new () 0, val_policyFile = ''validator.conf''\<rparr>, dm_servers = [ns]\<rparr>, Inr ()) \<and>
     zone_name (ns_zone ns) = [generic ''net''] \<and> ns_addr ns = 0"
proof -
  obtain servers where s: "NdnsDaemon_new ndn0 sqlite0 env_sample (\<lambda>_. Some (PTree [] [(''zones'', zones_sample)])) (\<lambda>_. Some ''t'') ''ndns.conf'' =
      (\<lparr>dm_dbMgr = Some db_sample, dm_validator = Some \<lparr>val_fetcher = CertificateFetcherNdnsCert_new () 0, val_policyFile = ''validator.conf''\<rparr>, dm_servers = servers\<rparr>, Inr ())"
    "list_all2 (serves ndn0 sqlite0 env_sample db_sample) (map snd (filter (\<lambda>x. fst x = ''zone'') (pt_children zones_sample))) servers"
    "map ns_addr servers = [0..<length servers]"
    using daemon_serves_zones [of "''ndns.conf''" "\<lambda>_. Some ''t''" "''t''" "\<lambda>_. Some (PTree [] [(''zones'', zones_sample)])" "[]" zones_sample
      sqlite0 env_sample db_sample ndn0] env_sample_start by auto
  then show ?thesis
    by (auto simp: zones_sample_def list_all2_Cons1 serves_def child_name_def child_def env_sample_def)
qed

text \<open>
  C34: A certificate given for a zone in the configuration is looked up under the identity named like the zone, not under the identity of the zone's keys, which
  ends with the marker NDNS: with only the latter in the key chain, the daemon refuses the certificate and does not start.
\<close>

theorem daemon_given_certificate:
  assumes k: "kc_keys (env_keychain W) (env_keys W) name = None"
    and t: "child_name W t ''name'' = Some name" "child_name W t ''cert'' = Some cert" "cert \<noteq> []"
  shows "start_servers L E W ((''zone'', t) # ts) (d, servers) =
     ((d, servers), Inl (Daemon_Error ''Certificate does not exist in the KeyChain''))"
  using assms by (simp add: zone_certificate_def getCertificate_def getIdentity_def)

theorem daemon_given_certificate_witness:
  "start_servers ndn0 sqlite0 (env_sample\<lparr>env_keychain := keychain_sample\<lparr>kc_keys := \<lambda>k n. if last n = NDNS_ITERATIVE_QUERY
        then kc_keys keychain_sample k n else None\<rparr>\<rparr>)
     [(''zone'', PTree [] [(''name'', PTree ''net'' []), (''cert'', PTree ''c'' [])])] (db_sample, []) =
   ((db_sample, []), Inl (Daemon_Error ''Certificate does not exist in the KeyChain''))"
  by (rule daemon_given_certificate [where name = "[generic ''net'']" and cert = "[generic ''c'']"])
     (simp_all add: env_sample_def child_name_def child_def label_defs)

end
