(* ===== verification/DaemonProps.thy ===== *)
theory DaemonProps
  imports Daemon ConfigFileProps UpdateToolProps
begin

text \<open>
  However the events of the servers of one daemon interleave, each zone evolves as its specification allows: the daemon refines the
  independent maps of its zones.
\<close>

text \<open>The zone of a server is in the database.\<close>

definition in_database :: "ndn \<Rightarrow> sqlite \<Rightarrow> dbmgr \<Rightarrow> nameserver \<Rightarrow> bool" where
  "in_database L E d ns \<longleftrightarrow> store_inv L E (ns_addr ns, ns_zone ns) d \<and> zone_row_of L d (ns_zone ns)"

definition daemon_ok :: "ndn \<Rightarrow> sqlite \<Rightarrow> running \<Rightarrow> bool" where
  "daemon_ok L E R \<longleftrightarrow> (\<forall>ns \<in> set (run_servers R). in_database L E (run_db R) ns)"

text \<open>The records of the zone of server \<open>j\<close>.\<close>

abbreviation run_get :: "ndn \<Rightarrow> sqlite \<Rightarrow> running \<Rightarrow> nat \<Rightarrow> records" where
  "run_get L E R j \<equiv> srv_get L E (server_view R j)"

lemma server_view_simps [simp]:
  "srv_ns (server_view R j) = run_servers R ! j" "srv_db (server_view R j) = run_db R"
  by (simp_all add: server_view_def)

lemma daemon_okD:
  assumes "daemon_ok L E R" "j < length (run_servers R)"
  shows "server_ok L E (server_view R j)" "store_inv L E (srv_ptr (server_view R j)) (run_db R)"
    "zone_row_of L (run_db R) (ns_zone (run_servers R ! j))" "zone_id (ns_zone (run_servers R ! j)) < 2 ^ 63"
proof -
  have j: "run_servers R ! j \<in> set (run_servers R)" using assms(2) by simp
  show i: "store_inv L E (srv_ptr (server_view R j)) (run_db R)" and r: "zone_row_of L (run_db R) (ns_zone (run_servers R ! j))"
    using assms(1) j unfolding daemon_ok_def in_database_def by auto
  then show "server_ok L E (server_view R j)" by (simp add: server_ok_def)
  have "db_good L E (run_db R)" using i by (simp add: store_inv_def)
  from zone_row_of_id [OF this r] show "zone_id (ns_zone (run_servers R ! j)) < 2 ^ 63" .
qed

text \<open>One event is one step, or none, of the specification of each zone.\<close>

lemma daemon_step_refines:
  assumes st: "daemon_step L E V R R'" and ok: "daemon_ok L E R"
  shows "run_servers R' = run_servers R" and "daemon_ok L E R'"
    and "j < length (run_servers R) \<Longrightarrow>
           run_get L E R' j = run_get L E R j \<or> zone_write L V (ns_zone (run_servers R ! j)) (run_get L E R j) (run_get L E R' j)"
proof -
  from st obtain i s' where i: "i < length (run_servers R)" and s': "server_step L E V (server_view R i) s'" and R': "R' = with_server R i s'"
    by (cases rule: daemon_step.cases)
  note oki = daemon_okD [OF ok i] and e = server_step_effect [OF s' daemon_okD(1) [OF ok i]]
  have ns: "srv_ns s' = run_servers R ! i" using e by simp
  then show same: "run_servers R' = run_servers R" by (simp add: R' with_server_def)
  have db: "run_db R' = srv_db s'" by (simp add: R' with_server_def)
  let ?p = "srv_ptr (server_view R i)"
  obtain k v where w: "srv_db s' = run_db R \<or> srv_db s' = fst (db.put_newer L E ?p (run_db R) k v)"
    using e unfolding server_view_simps by blast
  have zones: "zones (m_tables (srv_db s')) = zones (m_tables (run_db R))" and good: "db_good L E (srv_db s')"
    using w put_newer_row [OF oki(2), of k v] oki(2) by (auto simp: store_inv_def)
  have "in_database L E (run_db R') n" if "n \<in> set (run_servers R')" for n
  proof -
    have "in_database L E (run_db R) n" using ok that same by (simp add: daemon_ok_def)
    then show ?thesis using good zones by (simp add: in_database_def store_inv_def zone_row_of_def db)
  qed
  then show "daemon_ok L E R'" unfolding daemon_ok_def by blast
  assume j: "j < length (run_servers R)"
  let ?q = "srv_ptr (server_view R j)"
  note okj = daemon_okD [OF ok j]
  have get': "run_get L E R' j = db_get L E ?q (srv_db s')" using same by (simp add: db)
  show "run_get L E R' j = run_get L E R j \<or> zone_write L V (ns_zone (run_servers R ! j)) (run_get L E R j) (run_get L E R' j)"
  proof (cases "zone_id (snd ?p) = zone_id (snd ?q)")
    case False
    then have "db_get L E ?q (srv_db s') = db_get L E ?q (run_db R)"
      using w put_newer_isolated(2) [OF oki(2) okj(2), of k v] oki(4) okj(4) by auto
    then show ?thesis using get' by simp
  next
    case True
    have g: "db_good L E (run_db R)" using okj(2) by (simp add: store_inv_def)
    have z: "zone_name (ns_zone (run_servers R ! i)) = zone_name (ns_zone (run_servers R ! j))"
      "zone_ttl (ns_zone (run_servers R ! i)) = zone_ttl (ns_zone (run_servers R ! j))"
      using zone_row_of_unique [OF g oki(3) okj(3)] True by simp_all
    have eq: "run_get L E R i = run_get L E R j" using db_get_ptr [OF True] oki(2) by simp
    have "store_inv L E ?p (srv_db s')" using server_step_ok [OF s' oki(1)] ns by (simp add: server_ok_def)
    from db_get_ptr [OF True this] have eq': "srv_get L E s' = run_get L E R' j" using get' ns by simp
    from server_step_writes [OF s' oki(1)] show ?thesis using zone_write_cong [OF z] eq eq' by auto
  qed
qed

lemma daemon_run_refines:
  assumes "(daemon_step L E V)\<^sup>*\<^sup>* R R'" and "daemon_ok L E R"
  shows "run_servers R' = run_servers R \<and> daemon_ok L E R' \<and>
         (\<forall>j < length (run_servers R). (zone_write L V (ns_zone (run_servers R ! j)))\<^sup>*\<^sup>* (run_get L E R j) (run_get L E R' j))"
  using assms(1)
proof (induction rule: rtranclp_induct)
  case base
  then show ?case using assms(2) by simp
next
  case (step R1 R2)
  note S = daemon_step_refines [OF step.hyps(2)]
  have ok: "daemon_ok L E R1" and ns: "run_servers R1 = run_servers R" using step.IH by simp_all
  have "(zone_write L V (ns_zone (run_servers R ! j)))\<^sup>*\<^sup>* (run_get L E R j) (run_get L E R2 j)" if j: "j < length (run_servers R)" for j
  proof -
    have 1: "(zone_write L V (ns_zone (run_servers R ! j)))\<^sup>*\<^sup>* (run_get L E R j) (run_get L E R1 j)" using step.IH j by blast
    from S(3) [OF ok] j have "run_get L E R2 j = run_get L E R1 j \<or> zone_write L V (ns_zone (run_servers R ! j)) (run_get L E R1 j) (run_get L E R2 j)"
      unfolding ns [symmetric] by blast
    then show ?thesis using 1 by (elim disjE) (simp_all only: rtranclp.rtrancl_into_rtrancl)
  qed
  then show ?case using S(1,2) [OF ok] ns by simp
qed

section \<open>The daemon as it starts\<close>

lemma NameServer_new_success:
  assumes g: "db_good L E d" and new: "NameServer_new L E d addr zoneName cert = (d', Inr ns)"
  shows "d' = d \<and> in_database L E d ns"
proof (cases "nameWire L zoneName \<in> z_name ` set (zones (m_tables d))")
  case True
  obtain z where "NameServer_new L E d addr zoneName cert =
      (d, Inr \<lparr>ns_addr = addr, ns_zone = z, ns_ndnsPrefix = zoneName @ [NDNS_ITERATIVE_QUERY], ns_certName = cert,
               ns_contentFreshness = NAME_SERVER_DEFAULT_CONTENT_FRESHNESS\<rparr>)"
    "store_inv L E (addr, z) d" "zone_row_of L d z" by (rule NameServer_new_ok [OF g True])
  then show ?thesis using new by (auto simp: in_database_def)
next
  case False
  note D = db_goodD [OF g]
  have "map_of (map (\<lambda>r. (z_name r, r)) (zones (m_tables d))) (nameWire L zoneName) = None" using False by (simp add: map_of_key_None)
  then have "findZone L E d (Zone_of zoneName) = (d, Inr ((Zone_of zoneName)\<lparr>zone_id := 0\<rparr>, False))"
    using findZone_found [OF D(3) D(8,9,6), of "Zone_of zoneName"] by (simp add: Zone_new_def)
  then show ?thesis using new by (simp add: NameServer_new_def)
qed

lemma NameServer_new_state: "NameServer_new L E d addr zoneName cert = (d', x) \<Longrightarrow> d' = d"
  by (auto simp: NameServer_new_def and_then_def dest!: findZone_stateD split: prod.splits sum.splits if_splits)

lemma start_servers_zone:
  "start_servers L E W ((''zone'', t) # ts) (d, servers) = ((d', new), Inr ()) \<longleftrightarrow>
     (\<exists>name cert ns. child_name W t ''name'' = Some name \<and>
        zone_certificate W name (case child_name W t ''cert'' of None \<Rightarrow> [] | Some c \<Rightarrow> c) = Inr cert \<and>
        NameServer_new L E d (length servers) name cert = (d, Inr ns) \<and>
        start_servers L E W ts (d, servers @ [ns]) = ((d', new), Inr ()))"
proof (cases "child_name W t ''name''")
  case (Some name)
  show ?thesis
  proof (cases "zone_certificate W name (case child_name W t ''cert'' of None \<Rightarrow> [] | Some c \<Rightarrow> c)")
    case (Inr cert)
    obtain d1 r where n: "NameServer_new L E d (length servers) name cert = (d1, r)" by fastforce
    with NameServer_new_state have "d1 = d" by blast
    with Some Inr n show ?thesis by (cases r) simp_all
  qed (use Some in simp)
qed simp

lemma start_servers_state: "start_servers L E W ts (d, servers) = ((d', new), Inr ()) \<Longrightarrow> d' = d"
proof (induction ts arbitrary: servers)
  case (Cons x ts)
  obtain key t where x: "x = (key, t)" by fastforce
  show ?case
  proof (cases "key = ''zone''")
    case True
    from Cons.prems show ?thesis unfolding x True start_servers_zone using Cons.IH by blast
  next
    case False
    then show ?thesis using Cons x by simp
  qed
qed simp

lemma start_servers_ok:
  assumes g: "db_good L E d"
  shows "start_servers L E W ts (d, servers) = ((d', new), Inr ()) \<Longrightarrow> \<forall>ns \<in> set servers. in_database L E d ns \<Longrightarrow>
     \<forall>ns \<in> set new. in_database L E d ns"
proof (induction ts arbitrary: servers)
  case (Cons x ts)
  obtain key t where x: "x = (key, t)" by fastforce
  show ?case
  proof (cases "key = ''zone''")
    case False
    then have "start_servers L E W ts (d, servers) = ((d', new), Inr ())" using Cons.prems(1) by (simp add: x)
    then show ?thesis using Cons.prems(2) by (rule Cons.IH)
  next
    case True
    from Cons.prems(1) obtain name cert ns where ns: "NameServer_new L E d (length servers) name cert = (d, Inr ns)"
      "start_servers L E W ts (d, servers @ [ns]) = ((d', new), Inr ())"
      unfolding x True start_servers_zone by blast
    have "\<forall>n \<in> set (servers @ [ns]). in_database L E d n"
      using NameServer_new_success [OF g ns(1)] Cons.prems(2) by simp
    then show ?thesis by (rule Cons.IH [OF ns(2)])
  qed
qed simp

text \<open>A daemon that came up is in order: every server has its zone in the database.\<close>

lemma daemon_start_ok:
  assumes f: "readFile configFile = Some text" "read_info text = Some (PTree v [(''zones'', sect)])"
    and n: "NdnsDaemon_new L E W read_info readFile configFile = (s, Inr ())" and r: "daemon_running s = Some R" and g: "db_good L E (run_db R)"
  shows "daemon_ok L E R"
proof -
  let ?s0 = "\<lparr>dm_dbMgr = None, dm_validator = None, dm_servers = []\<rparr>"
  obtain s1 x where p: "processZonesSection L E W sect False configFile ?s0 = (s1, x)" by fastforce
  have "processZonesSection L E W sect False configFile ?s0 = (s, Inr ())"
    using n f p
    by (cases x) (auto simp: NdnsDaemon_new_def parse_file_def parse_stream_def process_def addSectionHandler_def ConfigFile_new_def
        throwErrorOnUnknownSection_def split: if_splits error.splits)
  then obtain d servers d0 where d: "start_servers L E W (pt_children sect) (d0, []) = ((d, servers), Inr ())"
    and s: "dm_dbMgr s = Some d" "dm_servers s = servers"
    by (auto simp: processZonesSection_def Let_def split: if_splits prod.splits sum.splits)
  have R: "run_db R = d" "run_servers R = servers" using r s by (auto simp: daemon_running_def)
  have "d0 = d" using start_servers_state [OF d] by simp
  with g R d have "db_good L E d" "start_servers L E W (pt_children sect) (d, []) = ((d, servers), Inr ())" by simp_all
  from start_servers_ok [OF this] show ?thesis using R by (simp add: daemon_ok_def)
qed

text \<open>
  C5: A daemon that came up over one section \<open>zones\<close> refines the independent maps of its zones: whatever Interests and verdicts of the validator
  reach its servers, in whatever order, the records of each zone change only as the specification of that zone allows, as if its server were alone
  with a database of its own. The servers share the database, and a zone may even be named twice.
\<close>

theorem daemon_refines_zones:
  assumes f: "readFile configFile = Some text" "read_info text = Some (PTree v [(''zones'', sect)])"
    and n: "NdnsDaemon_new L E W read_info readFile configFile = (s, Inr ())" and r: "daemon_running s = Some R" and g: "db_good L E (run_db R)"
    and run: "(daemon_step L E V)\<^sup>*\<^sup>* R R'" and j: "j < length (run_servers R)"
  shows "run_servers R' = run_servers R \<and>
         (zone_write L V (ns_zone (run_servers R ! j)))\<^sup>*\<^sup>* (run_get L E R j) (run_get L E R' j)"
  using daemon_run_refines [OF run daemon_start_ok [of readFile configFile "text" read_info v sect, OF f n r g]] j by blast

text \<open>
  C7: In every run of the daemon, whatever happens to the other zones meanwhile, each record of a zone stays with its TTL and data or is replaced by a
  strictly newer version with the same TTL, and each record that is new or replaced is a Data packet that the validator accepted
  and whose name is that of the record in this very zone.
\<close>

theorem daemon_records_safe:
  assumes f: "readFile configFile = Some text" "read_info text = Some (PTree v [(''zones'', sect)])"
    and n: "NdnsDaemon_new L E W read_info readFile configFile = (s, Inr ())" and r: "daemon_running s = Some R" and g: "db_good L E (run_db R)"
    and run: "(daemon_step L E V)\<^sup>*\<^sup>* R R'" and j: "j < length (run_servers R)"
  shows "(case run_get L E R j k of
            None \<Rightarrow> True
          | Some (v, t, b) \<Rightarrow> \<exists>v' b'. run_get L E R' j k = Some (v', t, b') \<and> ((v', b') = (v, b) \<or> compLess L v v')) \<and>
         (run_get L E R' j k = run_get L E R j k \<or>
          (\<exists>d re ttl. V d \<and> matchName_data (d_name d) (zone_name (ns_zone (run_servers R ! j))) = Inr (Some re) \<and> match_key re = k \<and>
             run_get L E R' j k = Some (m_version re, ttl, dataBlock L d)))"
proof -
  have w: "(zone_write L V (ns_zone (run_servers R ! j)))\<^sup>*\<^sup>* (run_get L E R j) (run_get L E R' j)"
    using daemon_run_refines [OF run daemon_start_ok [of readFile configFile "text" read_info v sect, OF f n r g]] j by blast
  have L: "name_codec L" using g by (simp add: db_good_def)
  show ?thesis using zone_writes_newer [OF L w] zone_writes_validated [OF w, of k] by (intro conjI) (auto split: option.split)
qed

text \<open>A daemon for the zone net that receives one update and applies it when the validator has accepted it.\<close>

lemma daemon_sample_run:
  obtains s R R' where "NdnsDaemon_new ndn0 sqlite0 env_sample (\<lambda>_. Some (PTree [] [(''zones'', zones_sample)])) (\<lambda>_. Some ''t'') ''ndns.conf'' = (s, Inr ())"
    "daemon_running s = Some R" "run_db R = db_sample" "0 < length (run_servers R)" "(daemon_step ndn0 sqlite0 (\<lambda>_. True))\<^sup>*\<^sup>* R R'"
    "run_get ndn0 sqlite0 R 0 ([generic ''www''], TXT_RR_TYPE) = None"
    "run_get ndn0 sqlite0 R' 0 ([generic ''www''], TXT_RR_TYPE) \<noteq> None"
proof -
  obtain servers where s: "NdnsDaemon_new ndn0 sqlite0 env_sample (\<lambda>_. Some (PTree [] [(''zones'', zones_sample)])) (\<lambda>_. Some ''t'') ''ndns.conf'' =
      (\<lparr>dm_dbMgr = Some db_sample, dm_validator = Some \<lparr>val_fetcher = CertificateFetcherNdnsCert_new () 0, val_policyFile = ''validator.conf''\<rparr>, dm_servers = servers\<rparr>, Inr ())"
    "list_all2 (serves ndn0 sqlite0 env_sample db_sample) (map snd (filter (\<lambda>x. fst x = ''zone'') (pt_children zones_sample))) servers"
    using daemon_serves [of "''ndns.conf''" "\<lambda>_. Some ''t''" "''t''" "\<lambda>_. Some (PTree [] [(''zones'', zones_sample)])" "[]" zones_sample
      sqlite0 env_sample db_sample ndn0] env_sample_start by auto
  then obtain ns where ns: "servers = [ns]" "server_ok ndn0 sqlite0 \<lparr>srv_ns = ns, srv_db = db_sample, srv_pending = [], srv_out = []\<rparr>"
    "zone_name (ns_zone ns) = [generic ''net'']"
    by (auto simp: zones_sample_def list_all2_Cons1 serves_def child_name_def child_def env_sample_def)
  let ?R = "\<lparr>run_db = db_sample, run_servers = [ns], run_pending = [[]], run_out = []\<rparr>"
  let ?s = "server_view ?R 0" and ?u = "updater_sample" and ?i = "makeUpdateInterest ndn0 updater_sample"
  have ok: "server_ok ndn0 sqlite0 ?s" using ns(2) by (simp add: server_view_def)
  have z: "up_zone ?u = zone_name (ns_zone (srv_ns ?s))" "length (up_zone ?u) + 3 < 2 ^ 64" "up_update ?u = data_sample"
    using ns(3) by (simp_all add: updater_sample_def NdnsUpdate_new_def)
  note U = update_received [where E = sqlite0 and now = 9, OF ndn_okD(2-4) [OF ndn0_ok] z(1,2), unfolded z(3)]
  define s1 where "s1 = ?s\<lparr>srv_pending := srv_pending ?s @ [(?i, data_sample)]\<rparr>"
  have st1: "daemon_step ndn0 sqlite0 (\<lambda>_. True) ?R (with_server ?R 0 s1)"
    by (rule event) (use interest [OF U] in \<open>simp_all add: s1_def\<close>)
  let ?R1 = "with_server ?R 0 s1"
  have v1: "(server_view ?R1 0)\<lparr>srv_pending := [] @ []\<rparr> = ?s" "srv_pending (server_view ?R1 0) = [] @ (?i, data_sample) # []"
    by (simp_all add: with_server_def server_view_def s1_def)
  have m: "matchName_data (d_name data_sample) (zone_name (ns_zone (srv_ns ?s))) = Inr (Some match_sample)"
    using match_sample_data ns(3) by (simp add: server_sample_def zone_sample_def)
  have none: "srv_get ndn0 sqlite0 ?s k = None" for k
    using server_okD [OF ok] by (simp add: db_get_at rr_at_None) (simp add: db_sample_def)
  have acc: "accepts ndn0 sqlite0 ?s match_sample"
    unfolding accepts_def none option.case by (simp add: server_view_def) (simp add: db_sample_def)
  obtain s2 where s2: "doUpdate ndn0 sqlite0 9 ?s ?i data_sample = (s2, Inr ())" "srv_get ndn0 sqlite0 s2 (match_key match_sample) \<noteq> None"
    "srv_ns s2 = ns"
  proof -
    obtain s3 code where a: "apply_update ndn0 sqlite0 ?s match_sample data_sample = (s3, code)" by fastforce
    note A = apply_update_spec [OF ok a]
    have "\<exists>ans. signData ndn0 (SigningByCertificate (ns_certName (srv_ns ?s))) (update_answer ndn0 9 ?s ?i code) = Some ans" by simp
    then obtain ans where "doUpdate ndn0 sqlite0 9 ?s ?i data_sample = (put ans s3, Inr ())"
      using doUpdate_run [OF ok m a] by blast
    then show thesis using that [of "put ans s3"] A(2,4) acc by (simp add: put_def update_value_def)
  qed
  have "server_step ndn0 sqlite0 (\<lambda>_. True) (server_view ?R1 0) s2"
    by (rule validated [OF v1(2), of _ _ _ 9]) (simp_all only: v1(1) s2(1))
  then have st2: "daemon_step ndn0 sqlite0 (\<lambda>_. True) ?R1 (with_server ?R1 0 s2)" by (intro event) (simp_all add: with_server_def)
  show thesis
  proof (rule that [OF s(1), of ?R "with_server ?R1 0 s2"])
    show "(daemon_step ndn0 sqlite0 (\<lambda>_. True))\<^sup>*\<^sup>* ?R (with_server ?R1 0 s2)" using st1 st2 by simp
    show "run_get ndn0 sqlite0 ?R 0 ([generic ''www''], TXT_RR_TYPE) = None" by (rule none)
    have "run_get ndn0 sqlite0 (with_server ?R1 0 s2) 0 = srv_get ndn0 sqlite0 s2"
      using s2(3) by (simp add: with_server_def server_view_def)
    moreover have "match_key match_sample = ([generic ''www''], TXT_RR_TYPE)" by (simp add: match_key_def match_sample_def)
    ultimately show "run_get ndn0 sqlite0 (with_server ?R1 0 s2) 0 ([generic ''www''], TXT_RR_TYPE) \<noteq> None" using s2(2) by simp
  qed (simp_all add: daemon_running_def ns(1))
qed

theorem daemon_refines_zones_witness:
  "\<exists>R R'. run_get ndn0 sqlite0 R 0 \<noteq> run_get ndn0 sqlite0 R' 0 \<and> run_servers R' = run_servers R \<and>
     (zone_write ndn0 (\<lambda>_. True) (ns_zone (run_servers R ! 0)))\<^sup>*\<^sup>* (run_get ndn0 sqlite0 R 0) (run_get ndn0 sqlite0 R' 0)"
proof -
  obtain s R R' where R: "NdnsDaemon_new ndn0 sqlite0 env_sample (\<lambda>_. Some (PTree [] [(''zones'', zones_sample)])) (\<lambda>_. Some ''t'') ''ndns.conf'' = (s, Inr ())"
    "daemon_running s = Some R" "run_db R = db_sample" "0 < length (run_servers R)" "(daemon_step ndn0 sqlite0 (\<lambda>_. True))\<^sup>*\<^sup>* R R'"
    "run_get ndn0 sqlite0 R 0 ([generic ''www''], TXT_RR_TYPE) = None"
    "run_get ndn0 sqlite0 R' 0 ([generic ''www''], TXT_RR_TYPE) \<noteq> None" by (rule daemon_sample_run)
  have g: "db_good ndn0 sqlite0 (run_db R)" using env_sample_start(6) R(3) by simp
  from daemon_refines_zones [OF refl refl R(1,2) g R(5,4)] R(6,7) show ?thesis
    by (intro exI [of _ R] exI [of _ R'] conjI) auto
qed

theorem daemon_records_safe_witness:
  "\<exists>R R' d re ttl. (daemon_step ndn0 sqlite0 (\<lambda>_. True))\<^sup>*\<^sup>* R R' \<and>
     matchName_data (d_name d) (zone_name (ns_zone (run_servers R ! 0))) = Inr (Some re) \<and>
     run_get ndn0 sqlite0 R' 0 ([generic ''www''], TXT_RR_TYPE) = Some (m_version re, ttl, dataBlock ndn0 d)"
proof -
  obtain s R R' where R: "NdnsDaemon_new ndn0 sqlite0 env_sample (\<lambda>_. Some (PTree [] [(''zones'', zones_sample)])) (\<lambda>_. Some ''t'') ''ndns.conf'' = (s, Inr ())"
    "daemon_running s = Some R" "run_db R = db_sample" "0 < length (run_servers R)" "(daemon_step ndn0 sqlite0 (\<lambda>_. True))\<^sup>*\<^sup>* R R'"
    "run_get ndn0 sqlite0 R 0 ([generic ''www''], TXT_RR_TYPE) = None"
    "run_get ndn0 sqlite0 R' 0 ([generic ''www''], TXT_RR_TYPE) \<noteq> None" by (rule daemon_sample_run)
  have g: "db_good ndn0 sqlite0 (run_db R)" using env_sample_start(6) R(3) by simp
  have "run_get ndn0 sqlite0 R' 0 ([generic ''www''], TXT_RR_TYPE) \<noteq> run_get ndn0 sqlite0 R 0 ([generic ''www''], TXT_RR_TYPE)"
    using R(6,7) by metis
  with daemon_records_safe [OF refl refl R(1,2) g R(5,4), of "([generic ''www''], TXT_RR_TYPE)", THEN conjunct2]
  obtain d re ttl where "matchName_data (d_name d) (zone_name (ns_zone (run_servers R ! 0))) = Inr (Some re)"
    "run_get ndn0 sqlite0 R' 0 ([generic ''www''], TXT_RR_TYPE) = Some (m_version re, ttl, dataBlock ndn0 d)" by blast
  with R(5) show ?thesis by blast
qed

end
