(* ===== verification/Tools.thy ===== *)
theory Tools
  imports ZoneSetup
begin

text \<open>
  The command line tools that work on the database file (\<open>tools/ndns-add-rr.cpp\<close>, \<open>ndns-create-zone.cpp\<close>, \<open>ndns-delete-zone.cpp\<close>, \<open>ndns-remove-rr.cpp\<close>,
  \<open>ndns-get-rr.cpp\<close>, \<open>ndns-export-certificate.cpp\<close>): from the options to the exit code. The options are records, \<open>None\<close> for an option that is not given;
  \<open>Programs\<close> says how they come from the command line. \<open>parseName\<close> is the constructor of \<open>Name\<close> from a URI, which may throw. \<open>disk\<close> is the content of the
  database files before the tool runs; the state of the results is the content of the file used.
\<close>

section \<open>Common parts\<close>

text \<open>\<open>main\<close> catches every \<open>std::exception\<close> and ends with 1; \<open>out\<close> is what the tool has written then.\<close>

definition exit_with :: "'o \<Rightarrow> ('s, 'o \<times> int) res \<Rightarrow> ('s, 'o \<times> int) res" where
  "exit_with out r = (case r of (s, Inl e) \<Rightarrow> if std_exception e then (s, Inr (out, 1)) else (s, Inl e) | (s, Inr x) \<Rightarrow> (s, Inr x))"

text \<open>The tool opens the database and works on it.\<close>

definition with_tool ::
  "sqlite \<Rightarrow> string \<Rightarrow> (string \<Rightarrow> tables) \<Rightarrow> string \<Rightarrow> (dbmgr \<Rightarrow> (dbmgr, 'a) res) \<Rightarrow> (tables, 'a) res" where
  "with_tool E dflt disk db f =
     (case and_then (DbMgr_new E dflt disk db) (\<lambda>d _. f d) of (d, r) \<Rightarrow> (m_tables d, r))"

definition db_content :: "string \<Rightarrow> (string \<Rightarrow> tables) \<Rightarrow> string \<Rightarrow> tables" where
  "db_content dflt disk db = disk (if db = [] then dflt else db)"

definition arg_name :: "(string \<Rightarrow> name option) \<Rightarrow> string option \<Rightarrow> error + name" where
  "arg_name parseName arg = (case arg of None \<Rightarrow> Inr [] | Some s \<Rightarrow> or_throw Tlv_Error (parseName s))"

section \<open>ndns-add-rr\<close>

record add_options =
  ar_db :: string
  ar_zone :: "string option"
  ar_label :: "string option"
  ar_type :: "string option"
  ar_dsk :: name
  ar_content :: "string list"
  ar_ttl :: "int option"
  ar_version :: "int option"
  ar_file :: "string option"
  ar_encoding :: string
  ar_resign :: "bool option"

text \<open>The options \<open>ttl\<close> and \<open>version\<close> are both stored in \<open>ttlInt\<close>, in the order of their names; \<open>versionInt\<close> keeps its initial value.\<close>

definition ttlInt :: "add_options \<Rightarrow> int" where
  "ttlInt opt = (case ar_version opt of Some v \<Rightarrow> v | None \<Rightarrow> (case ar_ttl opt of Some t \<Rightarrow> t | None \<Rightarrow> -1))"

definition versionInt :: int where "versionInt = -1"

text \<open>The value given to \<open>resign\<close> is overwritten.\<close>

definition needResign :: "add_options \<Rightarrow> bool" where
  "needResign opt = (case ar_resign opt of None \<Rightarrow> True | Some given \<Rightarrow> (if ar_file opt \<noteq> None then True else given))"

text \<open>Other types leave the Rrset as constructed, without a zone.\<close>

definition make_rrset ::
  "ndn \<Rightarrow> (string \<Rightarrow> name option) \<Rightarrow> nat \<Rightarrow> factory \<Rightarrow> name \<Rightarrow> component \<Rightarrow> nat \<Rightarrow> int \<Rightarrow> string list \<Rightarrow> error + rrset" where
  "make_rrset L parseName now f label type version ttl content =
     (if type = NS_RR_TYPE then
        bind_err (or_throw Tlv_Error (those (map parseName content))) (\<lambda>delegations. generateNsRrset L now f label version ttl delegations)
      else if type = TXT_RR_TYPE then generateTxtRrset L now f label version ttl content
      else Inr (Rrset_new None))"

definition add_record ::
  "ndn \<Rightarrow> sqlite \<Rightarrow> 'k keychain \<Rightarrow> 'k \<Rightarrow> string \<Rightarrow> (string \<Rightarrow> tables) \<Rightarrow> (string \<Rightarrow> name option) \<Rightarrow> nat \<Rightarrow> nat \<Rightarrow> nat \<Rightarrow> string \<Rightarrow>
   name \<Rightarrow> name \<Rightarrow> component \<Rightarrow> name \<Rightarrow> nat \<Rightarrow> int \<Rightarrow> string list \<Rightarrow> (tables, unit \<times> int) res" where
  "add_record L E K k dflt disk parseName now fa ra db zoneName label type dsk version ttl content =
     (let s = db_content dflt disk db in
      and_then (lift_err s (RrsetFactory_new K k ra db zoneName dsk)) (\<lambda>s f.
        case checkZoneKey L E K k dflt disk f of
          (f, Inl e) \<Rightarrow> (s, Inl e)
        | (f, Inr _) \<Rightarrow>
            and_then (lift_err s (make_rrset L parseName now f label type version ttl content)) (\<lambda>s rrset.
              with_tool E dflt disk db (\<lambda>d.
                and_then (if length label > 1 then addMultiLevelLabelRrset L E K k dflt now fa d rrset f ttl
                          else addRrset L E K k dflt now fa d rrset)
                  (\<lambda>d _. (d, Inr ((), 0)))))))"

text \<open>\<open>F\<close> reads a file in the given encoding.\<close>

definition add_rr_main ::
  "ndn \<Rightarrow> sqlite \<Rightarrow> 'k keychain \<Rightarrow> 'k \<Rightarrow> string \<Rightarrow> (string \<Rightarrow> tables) \<Rightarrow> (string \<Rightarrow> name option) \<Rightarrow> (string \<Rightarrow> files) \<Rightarrow>
   nat \<Rightarrow> int \<Rightarrow> nat \<Rightarrow> nat \<Rightarrow> add_options \<Rightarrow> (tables, unit \<times> int) res" where
  "add_rr_main L E K k dflt disk parseName F now sys fa ra opt =
     (let s = db_content dflt disk (ar_db opt) in
      if ar_zone opt = None then (s, Inr ((), 1))
      else if ar_file opt = None \<and> (ar_label opt = None \<or> ar_type opt = None) then (s, Inr ((), 1))
      else exit_with ()
        (and_then (lift_err s (arg_name parseName (ar_zone opt))) (\<lambda>s zoneName.
          and_then (lift_err s (arg_name parseName (ar_label opt))) (\<lambda>s label.
            let type = generic (case ar_type opt of None \<Rightarrow> [] | Some t \<Rightarrow> t);
                ttl = (if ttlInt opt = -1 then DEFAULT_CACHE_TTL else ttlInt opt);
                version = nat (versionInt mod 2 ^ 64)
            in case ar_file opt of
                 Some inFile \<Rightarrow>
                   if ar_encoding opt \<notin> {''raw'', ''hex'', ''base64''} then (s, Inr ((), 1))
                   else with_tool E dflt disk (ar_db opt) (\<lambda>d.
                     and_then (addRrsetFromFile L E K k dflt (F (ar_encoding opt)) now sys fa ra d zoneName inFile ttl (ar_dsk opt) (needResign opt))
                       (\<lambda>d _. (d, Inr ((), 0))))
               | None \<Rightarrow>
                   add_record L E K k dflt disk parseName now fa ra (ar_db opt) zoneName label type (ar_dsk opt) version ttl (ar_content opt)))))"

section \<open>ndns-create-zone\<close>

record create_options =
  co_db :: string
  co_zone :: "string option"
  co_parent :: string
  co_cacheTtl :: int
  co_certTtl :: int
  co_ksk :: string
  co_dsk :: string
  co_dkey :: string

definition parent_zone :: "name \<Rightarrow> string \<Rightarrow> name \<Rightarrow> name" where
  "parent_zone zone parentStr parent = (if zone \<noteq> [] \<and> parentStr = [] then butlast zone else parent)"

text \<open>The state is the content of the database and the key chain; the result is the certificate of the D-Key that is written to the standard output and the exit code.\<close>

definition create_zone_main ::
  "ndn \<Rightarrow> sqlite \<Rightarrow> 'k keychain \<Rightarrow> 'k \<Rightarrow> string \<Rightarrow> (string \<Rightarrow> tables) \<Rightarrow> (string \<Rightarrow> name option) \<Rightarrow>
   (nat \<Rightarrow> nat) \<Rightarrow> (nat \<Rightarrow> int) \<Rightarrow> nat \<Rightarrow> nat \<Rightarrow> create_options \<Rightarrow> (tables \<times> 'k, certificate option \<times> int) res" where
  "create_zone_main L E K k dflt disk parseName now sys fa addr opt =
     (let s = (db_content dflt disk (co_db opt), k) in
      case co_zone opt of
        None \<Rightarrow> (s, Inr (None, 1))
      | Some zoneStr \<Rightarrow>
          exit_with None (and_then (and_then (lift_err s (or_throw Tlv_Error (parseName zoneStr))) (\<lambda>s zone.
             and_then (lift_err s (or_throw Tlv_Error (those (map parseName [co_parent opt, co_ksk opt, co_dsk opt, co_dkey opt])))) (\<lambda>s names.
               let parent = parent_zone zone (co_parent opt) (names ! 0);
                   cacheTtl = (if co_cacheTtl opt = -1 then DEFAULT_CACHE_TTL else co_cacheTtl opt);
                   certTtl = (if co_certTtl opt = -1 then DEFAULT_CERT_TTL else co_certTtl opt)
               in case and_then (ManagementTool_new E dflt disk (co_db opt) k) (\<lambda>t _.
                         and_then (createZone L E K dflt now sys fa addr t zone parent cacheTtl certTtl (names ! 1) (names ! 2) (names ! 3)) (\<lambda>t createdZone.
                           on_db t (getZoneDkey L E (t_db t) createdZone))) of
                    (t, r) \<Rightarrow> ((m_tables (t_db t), t_keyChain t), r))))
             (\<lambda>s dkeyCert. (s, Inr (Some dkeyCert, 0)))))"

section \<open>The other tools\<close>

record rr_options =
  ro_db :: string
  ro_zone :: "string option"
  ro_label :: "string option"
  ro_type :: "string option"

definition with_rr_args ::
  "string \<Rightarrow> (string \<Rightarrow> tables) \<Rightarrow> (string \<Rightarrow> name option) \<Rightarrow> rr_options \<Rightarrow> 'o \<Rightarrow> (name \<Rightarrow> name \<Rightarrow> component \<Rightarrow> (tables, 'o \<times> int) res) \<Rightarrow>
   (tables, 'o \<times> int) res" where
  "with_rr_args dflt disk parseName opt out f =
     (let s = db_content dflt disk (ro_db opt) in
      case (ro_zone opt, ro_label opt, ro_type opt) of
        (Some z, Some l, Some t) \<Rightarrow>
          exit_with out
            (and_then (lift_err s (or_throw Tlv_Error (parseName z))) (\<lambda>s zoneName.
              and_then (lift_err s (or_throw Tlv_Error (parseName l))) (\<lambda>s label. f zoneName label (generic t))))
      | _ \<Rightarrow> (s, Inr (out, 1)))"

definition remove_rr_main ::
  "ndn \<Rightarrow> sqlite \<Rightarrow> 'k keychain \<Rightarrow> 'k \<Rightarrow> string \<Rightarrow> (string \<Rightarrow> tables) \<Rightarrow> (string \<Rightarrow> name option) \<Rightarrow> nat \<Rightarrow> nat \<Rightarrow> nat \<Rightarrow> rr_options \<Rightarrow> (tables, unit \<times> int) res" where
  "remove_rr_main L E K k dflt disk parseName now fa addr opt =
     with_rr_args dflt disk parseName opt () (\<lambda>zoneName label type.
       with_tool E dflt disk (ro_db opt) (\<lambda>d. and_then (removeRrSet L E K k dflt now fa addr d zoneName label type) (\<lambda>d _. (d, Inr ((), 0)))))"

definition delete_zone_main ::
  "ndn \<Rightarrow> sqlite \<Rightarrow> string \<Rightarrow> (string \<Rightarrow> tables) \<Rightarrow> (string \<Rightarrow> name option) \<Rightarrow> nat \<Rightarrow> string \<Rightarrow> string option \<Rightarrow> (tables, unit \<times> int) res" where
  "delete_zone_main L E dflt disk parseName addr db zoneStr =
     (let s = db_content dflt disk db in
      if zoneStr = None then (s, Inr ((), 1))
      else exit_with ()
        (and_then (lift_err s (arg_name parseName zoneStr)) (\<lambda>s zone.
          with_tool E dflt disk db (\<lambda>d. and_then (deleteZone L E addr d zone) (\<lambda>d _. (d, Inr ((), 0)))))))"

definition get_rr_main ::
  "ndn \<Rightarrow> sqlite \<Rightarrow> string \<Rightarrow> (string \<Rightarrow> tables) \<Rightarrow> (string \<Rightarrow> name option) \<Rightarrow> nat \<Rightarrow> rr_options \<Rightarrow> (tables, block option \<times> int) res" where
  "get_rr_main L E dflt disk parseName addr opt =
     with_rr_args dflt disk parseName opt None (\<lambda>zoneName label type.
       with_tool E dflt disk (ro_db opt) (\<lambda>d. and_then (getRrSet L E addr d zoneName label type) (\<lambda>d out. (d, Inr (out, 0)))))"

text \<open>The certificate goes to the standard output or to the file \<open>output\<close>.\<close>

definition export_certificate_main ::
  "ndn \<Rightarrow> sqlite \<Rightarrow> (name \<Rightarrow> (name \<times> name) option) \<Rightarrow> string \<Rightarrow> (string \<Rightarrow> tables) \<Rightarrow> (string \<Rightarrow> name option) \<Rightarrow> nat \<Rightarrow> string \<Rightarrow> string option \<Rightarrow> string \<Rightarrow>
   (tables, (string \<times> certificate) option \<times> int) res" where
  "export_certificate_main L E R dflt disk parseName addr db certStr output =
     (let s = db_content dflt disk db in
      if certStr = None then (s, Inr (None, 1))
      else exit_with None
        (and_then (lift_err s (arg_name parseName certStr)) (\<lambda>s certName.
          with_tool E dflt disk db (\<lambda>d. and_then (exportCertificate L E R addr d certName) (\<lambda>d cert. (d, Inr (Some (output, cert), 0)))))))"

end
