(* ===== verification/Listing.thy ===== *)
theory Listing
  imports Tools
begin

text \<open>
  The output of packets (\<open>output\<close> in \<open>src/util/util.cpp\<close>), the listings of the management tool (\<open>ManagementTool::listZone\<close>, \<open>listAllZones\<close> in \<open>src/mgmt/management-tool.cpp\<close>) and the programs \<open>ndns-list-zone\<close>,
  \<open>ndns-list-all-zones\<close>. The stream is the text written so far; it is the state of the results, so that what was written before an
  exception is seen. The printers of names, components, numbers, certificates and base64 are parameters.
\<close>

record printer =
  p_uri :: "name \<Rightarrow> string"
  p_curi :: "component \<Rightarrow> string"
  p_num :: "int \<Rightarrow> string"
  p_base64 :: "blob \<Rightarrow> string"
  p_cert :: "certificate \<Rightarrow> string"

definition endl :: string where "endl = [CHR 0x0A]"

text \<open>A string written with \<open>os.width(w)\<close>, left adjusted.\<close>

definition pad :: "nat \<Rightarrow> string \<Rightarrow> string" where
  "pad w s = s @ replicate (w - length s) CHR '' ''"

definition write_text :: "string \<Rightarrow> error + string \<Rightarrow> (string, unit) res" where
  "write_text os r = (case r of Inl e \<Rightarrow> (os, Inl e) | Inr s \<Rightarrow> (os @ s, Inr ()))"

text \<open>The free function \<open>output\<close>, with which packets are written to streams.\<close>

definition output_text :: "ndn \<Rightarrow> printer \<Rightarrow> data \<Rightarrow> bool \<Rightarrow> string" where
  "output_text L P data isPretty =
     (let encoded = p_base64 P (blockWire L (dataBlock L data)) in
      if \<not> isPretty then encoded
      else ''Name: '' @ p_uri P (d_name data) @ endl @
           (case d_keyLocator data of None \<Rightarrow> [] | Some kl \<Rightarrow> ''KeyLocator: '' @ p_uri P kl @ endl) @ encoded @ endl)"

section \<open>One zone\<close>

text \<open>\<open>Data data(rrset.getData()); re.fromData(zoneName, data)\<close>: that the name does not match is not noticed.\<close>

definition read_rrset :: "ndn \<Rightarrow> name \<Rightarrow> rrset \<Rightarrow> error + data \<times> response" where
  "read_rrset L zoneName rrset =
     bind_err (or_throw Tlv_Error (blockData L (rrset_data rrset))) (\<lambda>data.
       case fromData L Response_default zoneName data of (_, Inl e) \<Rightarrow> Inl e | (re, Inr _) \<Rightarrow> Inr (data, re))"

text \<open>The widths of the columns for label, TTL and type.\<close>

definition widen :: "printer \<Rightarrow> rrset \<Rightarrow> nat \<times> nat \<times> nat \<Rightarrow> nat \<times> nat \<times> nat" where
  "widen P rrset w = (case w of (labelWidth, ttlWidth, typeWidth) \<Rightarrow>
     (max labelWidth (length (p_uri P (rrset_label rrset))), max ttlWidth (length (p_num P (rrset_ttl rrset))),
      max typeWidth (length (p_curi P (rrset_type rrset)))))"

fun column_widths :: "ndn \<Rightarrow> printer \<Rightarrow> name \<Rightarrow> nat \<times> nat \<times> nat \<Rightarrow> rrset list \<Rightarrow> error + nat \<times> nat \<times> nat" where
  "column_widths L P zoneName w [] = Inr w"
| "column_widths L P zoneName w (rrset # rs) =
     bind_err (read_rrset L zoneName rrset) (\<lambda>_. column_widths L P zoneName (widen P rrset w) rs)"

definition iterations :: "response \<Rightarrow> nat" where
  "iterations re =
     (if s_contentType re = NDNS_BLOB \<or> s_contentType re = NDNS_KEY \<or> s_contentType re = NDNS_AUTH then 1 else length (s_rrs re))"

text \<open>A packet without a key locator: the missing value is dereferenced.\<close>

definition signed_by :: "printer \<Rightarrow> data \<Rightarrow> error + string" where
  "signed_by P data = (case d_keyLocator data of None \<Rightarrow> Inl Undefined | Some n \<Rightarrow> Inr ('' signed-by='' @ p_uri P n))"

definition rrset_heading :: "printer \<Rightarrow> rrset \<Rightarrow> data \<Rightarrow> error + string" where
  "rrset_heading P rrset data =
     bind_err (signed_by P data) (\<lambda>signer.
       Inr (''; rrset='' @ p_uri P (rrset_label rrset) @ '' type='' @ p_curi P (rrset_type rrset) @
            '' version='' @ p_curi P (rrset_version rrset) @ signer @ endl))"

definition columns :: "printer \<Rightarrow> nat \<times> nat \<times> nat \<Rightarrow> rrset \<Rightarrow> string" where
  "columns P w rrset = (case w of (labelWidth, ttlWidth, typeWidth) \<Rightarrow>
     pad (labelWidth + 2) (p_uri P (rrset_label rrset)) @ pad (ttlWidth + 2) (p_num P (rrset_ttl rrset)) @
     pad (typeWidth + 2) (p_curi P (rrset_type rrset)))"

text \<open>\<open>rrs[i]\<close> beyond the end of the vector is undefined.\<close>

definition rr_text :: "ndn \<Rightarrow> printer \<Rightarrow> response \<Rightarrow> rrset \<Rightarrow> nat \<Rightarrow> error + string" where
  "rr_text L P re rrset i =
     (if s_contentType re = NDNS_BLOB \<or> s_contentType re = NDNS_KEY then Inr []
      else if rrset_type rrset = TXT_RR_TYPE then
        (if i < length (s_rrs re) then Inr (block_value (s_rrs re ! i) @ endl) else Inl Undefined)
      else if rrset_type rrset = NS_RR_TYPE then
        (if iterations re \<noteq> 1 then Inl AssertFailed
         else if s_contentType re = NDNS_AUTH then Inr (''NDNS-Auth'' @ endl)
         else bind_err (or_throw Tlv_Error (linkDelegations L (rrset_data rrset))) (\<lambda>delegations.
                Inr (concat (map (\<lambda>delegation. p_uri P delegation @ '';'') delegations) @ endl)))
      else if i < length (s_rrs re) then Inr (p_base64 P (blockWire L (s_rrs re ! i))) else Inl Undefined)"

fun list_rrs :: "ndn \<Rightarrow> printer \<Rightarrow> nat \<times> nat \<times> nat \<Rightarrow> response \<Rightarrow> rrset \<Rightarrow> string \<Rightarrow> nat list \<Rightarrow> (string, unit) res" where
  "list_rrs L P w re rrset os [] = (os, Inr ())"
| "list_rrs L P w re rrset os (i # is) =
     and_then (write_text (os @ columns P w rrset) (rr_text L P re rrset i)) (\<lambda>os _. list_rrs L P w re rrset os is)"

text \<open>The packets that are not sets of records: certificates and blobs.\<close>

definition raw_text :: "ndn \<Rightarrow> printer \<Rightarrow> bool \<Rightarrow> response \<Rightarrow> rrset \<Rightarrow> error + string" where
  "raw_text L P printRaw re rrset =
     (if printRaw then
        if s_rrType re = CERT_RR_TYPE then bind_err (or_throw Tlv_Error (blockData L (rrset_data rrset))) (\<lambda>cert. Inr (p_cert P cert))
        else Inr (p_base64 P (blockWire L (s_appContent re)))
      else Inr [])"

definition blob_trailer :: "printer \<Rightarrow> response \<Rightarrow> rrset \<Rightarrow> data \<Rightarrow> error + string" where
  "blob_trailer P re rrset data =
     bind_err (signed_by P data) (\<lambda>signer.
       Inr (''; content-type='' @ show_content_type (s_contentType re) @ '' version='' @ p_curi P (rrset_version rrset) @ signer @ endl))"

definition list_rrset :: "ndn \<Rightarrow> printer \<Rightarrow> bool \<Rightarrow> name \<Rightarrow> nat \<times> nat \<times> nat \<Rightarrow> string \<Rightarrow> rrset \<Rightarrow> (string, unit) res" where
  "list_rrset L P printRaw zoneName w os rrset =
     (case read_rrset L zoneName rrset of
        Inl e \<Rightarrow> (os, Inl e)
      | Inr (data, re) \<Rightarrow>
          let blob = (s_contentType re = NDNS_BLOB \<or> s_contentType re = NDNS_KEY) in
          and_then (write_text os (if blob then Inr [] else rrset_heading P rrset data)) (\<lambda>os _.
            and_then (list_rrs L P w re rrset os [0..<iterations re]) (\<lambda>os _.
              if blob then and_then (write_text os (blob_trailer P re rrset data)) (\<lambda>os _.
                  and_then (write_text os (raw_text L P printRaw re rrset)) (\<lambda>os _. (os @ endl, Inr ())))
              else (os @ endl, Inr ()))))"

fun list_rrsets :: "ndn \<Rightarrow> printer \<Rightarrow> bool \<Rightarrow> name \<Rightarrow> nat \<times> nat \<times> nat \<Rightarrow> string \<Rightarrow> rrset list \<Rightarrow> (string, unit) res" where
  "list_rrsets L P printRaw zoneName w os [] = (os, Inr ())"
| "list_rrsets L P printRaw zoneName w os (rrset # rs) =
     and_then (list_rrset L P printRaw zoneName w os rrset) (\<lambda>os _. list_rrsets L P printRaw zoneName w os rs)"

text \<open>The state is the database with the stream.\<close>

definition listZone ::
  "ndn \<Rightarrow> sqlite \<Rightarrow> printer \<Rightarrow> nat \<Rightarrow> dbmgr \<Rightarrow> string \<Rightarrow> name \<Rightarrow> bool \<Rightarrow> (dbmgr \<times> string, unit) res" where
  "listZone L E P addr d os zoneName printRaw =
     (case findZone L E d (Zone_of zoneName) of
        (d, Inl e) \<Rightarrow> ((d, os), Inl e)
      | (d, Inr (zone, False)) \<Rightarrow> ((d, os), Inl (ManagementTool_Error ''is not found in the database''))
      | (d, Inr (zone, True)) \<Rightarrow>
          let os = os @ ''; Zone '' @ p_uri P zoneName @ endl @ endl in
          (case findRrsets L E d (addr, zone) of
             (d, Inl e) \<Rightarrow> ((d, os), Inl e)
           | (d, Inr (zone, rs)) \<Rightarrow>
               (case column_widths L P zoneName (0, 0, 0) rs of
                  Inl e \<Rightarrow> ((d, os), Inl e)
                | Inr w \<Rightarrow> (case list_rrsets L P printRaw zoneName w os rs of (os, r) \<Rightarrow> ((d, os), r)))))"

section \<open>All zones\<close>

definition list_one_zone :: "'k keychain \<Rightarrow> 'k \<Rightarrow> printer \<Rightarrow> nat \<Rightarrow> string \<Rightarrow> zone \<Rightarrow> (string, unit) res" where
  "list_one_zone K k P nameWidth os zone =
     (let zoneIdentity = zone_name zone @ [NDNS_ITERATIVE_QUERY];
          os = os @ pad (nameWidth + 2) (p_uri P (zone_name zone)) @ ''; default-ttl='' @ p_num P (zone_ttl zone) @ '' default-key=''
      in and_then (write_text os (bind_err (getDefaultKeyNameOfIdentity K k zoneIdentity) (\<lambda>key. Inr (p_uri P key)))) (\<lambda>os _.
           write_text (os @ '' default-certificate='')
             (bind_err (getDefaultCertificateNameOfIdentity K k zoneIdentity) (\<lambda>cert. Inr (p_uri P cert @ endl)))))"

fun list_zones :: "'k keychain \<Rightarrow> 'k \<Rightarrow> printer \<Rightarrow> nat \<Rightarrow> string \<Rightarrow> zone list \<Rightarrow> (string, unit) res" where
  "list_zones K k P nameWidth os [] = (os, Inr ())"
| "list_zones K k P nameWidth os (zone # zs) =
     and_then (list_one_zone K k P nameWidth os zone) (\<lambda>os _. list_zones K k P nameWidth os zs)"

definition listAllZones ::
  "ndn \<Rightarrow> sqlite \<Rightarrow> 'k keychain \<Rightarrow> printer \<Rightarrow> 'k tool \<Rightarrow> string \<Rightarrow> ('k tool \<times> string, unit) res" where
  "listAllZones L E K P t os =
     (case listZones L E (t_db t) of
        (d, Inl e) \<Rightarrow> ((t\<lparr>t_db := d\<rparr>, os), Inl e)
      | (d, Inr zs) \<Rightarrow>
          (case list_zones K (t_keyChain t) P (fold (\<lambda>zone. max (length (p_uri P (zone_name zone)))) zs 0) os zs of
             (os, r) \<Rightarrow> ((t\<lparr>t_db := d\<rparr>, os), r)))"

section \<open>The programs\<close>

text \<open>The text on the standard output and the exit code.\<close>

definition list_exit :: "((dbmgr \<times> string), unit) res \<Rightarrow> (dbmgr, string \<times> int) res" where
  "list_exit r = (case r of ((d, os), Inr _) \<Rightarrow> (d, Inr (os, 0)) | ((d, os), Inl e) \<Rightarrow> exit_with os (d, Inl e))"

definition list_zone_main ::
  "ndn \<Rightarrow> sqlite \<Rightarrow> printer \<Rightarrow> string \<Rightarrow> (string \<Rightarrow> tables) \<Rightarrow> (string \<Rightarrow> name option) \<Rightarrow> nat \<Rightarrow> string \<Rightarrow> string option \<Rightarrow> bool \<Rightarrow>
   (tables, string \<times> int) res" where
  "list_zone_main L E P dflt disk parseName addr db zoneStr printRaw =
     (let s = db_content dflt disk db in
      if zoneStr = None then (s, Inr ([], 1))
      else exit_with []
        (and_then (lift_err s (arg_name parseName zoneStr)) (\<lambda>s zoneName.
          with_tool E dflt disk db (\<lambda>d. list_exit (listZone L E P addr d [] zoneName printRaw)))))"

definition list_all_zones_main ::
  "ndn \<Rightarrow> sqlite \<Rightarrow> 'k keychain \<Rightarrow> 'k \<Rightarrow> printer \<Rightarrow> string \<Rightarrow> (string \<Rightarrow> tables) \<Rightarrow> string \<Rightarrow> (tables, string \<times> int) res" where
  "list_all_zones_main L E K k P dflt disk db =
     exit_with []
       (with_tool E dflt disk db (\<lambda>d.
          case listAllZones L E K P \<lparr>t_db = d, t_keyChain = k\<rparr> [] of ((t, os), r) \<Rightarrow> list_exit ((t_db t, os), r)))"

end
