(* ===== verification/ToolsProps.thy ===== *)
theory ToolsProps
  imports Tools ToolFiles
begin

text \<open>
  The command line tools do what their operations do, on the database file they are given: what \<open>ndns-add-rr\<close> stores and \<open>ndns-create-zone\<close> leaves.
\<close>

section \<open>The database file\<close>

text \<open>The database as the tool has it after opening the file.\<close>

definition opened :: "string \<Rightarrow> tables \<Rightarrow> dbmgr" where
  "opened db content = \<lparr>m_dbFile = db, m_conn = True, m_tables = content\<rparr>"

lemma DbMgr_new_opened: "db \<noteq> [] \<Longrightarrow> openOk E db \<Longrightarrow> DbMgr_new E dflt disk db = (opened db (disk db), Inr ())"
  by (simp add: DbMgr_new_def open_db_def opened_def)

lemma with_tool_opened:
  "db \<noteq> [] \<Longrightarrow> openOk E db \<Longrightarrow> with_tool E dflt disk db f = (case f (opened db (disk db)) of (d, r) \<Rightarrow> (m_tables d, r))"
  by (simp add: with_tool_def DbMgr_new_opened)

text \<open>What is known of a database is known of it after the file is opened again.\<close>

lemma opened_store_inv: "store_inv L E p d \<Longrightarrow> store_inv L E p (opened db (m_tables d))"
  by (simp add: store_inv_def db_good_def opened_def db_inv_def one_version_def)

lemma opened_ready:
  assumes "zone_ready L E K k dflt p d" "db \<noteq> []" "openOk E db"
  shows "zone_ready L E K k dflt p (opened db (m_tables d))"
  using assms by (simp add: zone_ready_def opened_store_inv) (simp add: zone_known_def opened_def)

lemma opened_get:
  assumes "store_inv L E p d"
  shows "db_get L E p (opened db (m_tables d)) = db_get L E p d"
  by (intro ext) (simp add: db_get_at assms opened_store_inv, simp add: rr_at_def opened_def)

lemma checkZoneKey_disk:
  "rf_dbFile f = db \<Longrightarrow> db \<noteq> [] \<Longrightarrow> checkZoneKey L E K k dflt disk f = checkZoneKey L E K k dflt (\<lambda>_. disk db) f"
  by (simp add: checkZoneKey_def onlyCheckZone_def DbMgr_new_def Let_def)

lemma factory_zone:
  assumes "RrsetFactory_new K k fa db zoneName dsk = Inr f" "checkZoneKey L E K k dflt disk f = (f', Inr ())"
  shows "rf_dbFile f = db" "rf_addr f' = fa" "zone_name (rf_zone f') = zoneName"
proof -
  have f: "rf_dbFile f = db" "rf_addr f = fa" "zone_name (rf_zone f) = zoneName"
    using assms(1) by (auto simp: RrsetFactory_new_def bind_err_Inr Let_def Zone_new_def split: if_splits)
  show "rf_dbFile f = db" "rf_addr f' = fa" "zone_name (rf_zone f') = zoneName"
    using assms(2) f
    by (auto simp: checkZoneKey_def onlyCheckZone_def findZone_def Let_def and_then_Inr
        split: if_splits sum.splits prod.splits list.splits)
qed

section \<open>Adding a record\<close>

lemma versioned_write_newer:
  assumes L: "name_codec L" and w: "versioned_write L E p d key v res"
    and old: "\<And>u. db_get L E p d key = Some u \<Longrightarrow> compLess L (fst u) (fst v)"
  shows "\<exists>d' r. res = (d', Inr r) \<and> changed_to L E p ((db_get L E p d)(key \<mapsto> v)) d'"
proof (cases "db_get L E p d key")
  case None
  then show ?thesis using w by (simp add: versioned_write_def)
next
  case (Some u)
  then have "fst u \<noteq> fst v" "\<not> compLess L (fst v) (fst u)"
    using old compLess_irrefl [OF L] compLess_asym [OF L] by metis+
  then show ?thesis using w Some by (simp add: versioned_write_def)
qed

text \<open>The factory of the tool, and what is done with the record it makes.\<close>

lemma add_record_start:
  assumes db: "db \<noteq> []" and c: "changeable L E K k dflt p (opened db (disk db))"
  shows "\<exists>f. factory_ready L p f \<and> rf_addr f = ra \<and>
    (\<forall>label type version ttl content rrset. make_rrset L parseName now f label type version ttl content = Inr rrset \<longrightarrow>
       add_record L E K k dflt disk parseName now fa ra db (zone_name (snd p)) label type DEFAULT_CERT version ttl content =
         (case if length label > 1 then addMultiLevelLabelRrset L E K k dflt now fa (opened db (disk db)) rrset f ttl
               else addRrset L E K k dflt now fa (opened db (disk db)) rrset of
            (d, r) \<Rightarrow> (m_tables d, map_sum id (\<lambda>_. ((), 0)) r))) \<and>
    (\<forall>label type version ttl content e. make_rrset L parseName now f label type version ttl content = Inl e \<longrightarrow>
       add_record L E K k dflt disk parseName now fa ra db (zone_name (snd p)) label type DEFAULT_CERT version ttl content = (disk db, Inl e))"
proof -
  let ?d = "opened db (disk db)"
  have zr: "zone_ready L E K k dflt p ?d" using c by (simp add: changeable_def)
  have m: "m_dbFile ?d = db" "m_tables ?d = disk db" by (simp_all add: opened_def)
  have op: "openOk E db" using zr db by (simp add: zone_ready_def m)
  obtain f f' where f: "RrsetFactory_new K k ra db (zone_name (snd p)) DEFAULT_CERT = Inr f"
    "checkZoneKey L E K k dflt (\<lambda>_. disk db) f = (f', Inr ())" "factory_ready L p f'"
    using zone_factory [OF zr, of ra] unfolding m by blast
  note F = factory_zone [OF f(1,2)]
  have chk: "checkZoneKey L E K k dflt disk f = (f', Inr ())" using f(2) by (subst checkZoneKey_disk [OF F(1) db])
  have fin: "and_then x (\<lambda>d _. (d, Inr ((), 0))) = (fst x, map_sum id (\<lambda>_. ((), 0)) (snd x))" for x :: "(dbmgr, rrset) res"
    by (cases x; cases "snd x") auto
  show ?thesis
    by (intro exI [of _ f'] conjI allI impI f(3) F(2))
       (simp_all add: add_record_def f(1) chk with_tool_opened [OF db op] fin split_beta db_content_def db)
qed

text \<open>The record that \<open>ndns-add-rr\<close> makes for the type TXT, and what happens to it.\<close>

lemma add_record_txt:
  assumes db: "db \<noteq> []" and c: "changeable L E K k dflt p (opened db (disk db))" and label: "length label \<le> 1" and pos: "0 < ttl"
  obtains z ttl' packet where "zone_name z = zone_name (snd p)" "zone_id z = zone_id (snd p)" "ttl' = ttl"
    "d_name packet = rr_name (zone_name (snd p)) label TXT_RR_TYPE @ [fromVersion L now]"
    "to_content_type (d_contentType packet) = NDNS_RESP" "wireDecodeTxt L (d_content packet) = Inr content"
    "add_record L E K k dflt disk parseName now fa ra db (zone_name (snd p)) label TXT_RR_TYPE DEFAULT_CERT VERSION_USE_UNIX_TIMESTAMP ttl content =
       (case addRrset L E K k dflt now fa (opened db (disk db))
               (rr_fill (fromVersion L now, ttl', dataBlock L packet) (rr_object (ra, z) (label, TXT_RR_TYPE))) of
          (d, r) \<Rightarrow> (m_tables d, map_sum id (\<lambda>_. ((), 0)) r))"
proof -
  have L: "ndn_ok L" using c by (simp add: changeable_def)
  obtain f where f: "factory_ready L p f" "rf_addr f = ra"
    "\<forall>label type version ttl content rrset. make_rrset L parseName now f label type version ttl content = Inr rrset \<longrightarrow>
       add_record L E K k dflt disk parseName now fa ra db (zone_name (snd p)) label type DEFAULT_CERT version ttl content =
         (case if length label > 1 then addMultiLevelLabelRrset L E K k dflt now fa (opened db (disk db)) rrset f ttl
               else addRrset L E K k dflt now fa (opened db (disk db)) rrset of
            (d, r) \<Rightarrow> (m_tables d, map_sum id (\<lambda>_. ((), 0)) r))"
    using add_record_start [where disk = disk and db = db and ra = ra and parseName = parseName and now = now and fa = fa, OF db c] by blast
  obtain r packet where r: "generateTxtRrset L now f label VERSION_USE_UNIX_TIMESTAMP ttl content = Inr r"
    "rrset_id r = 0" "rrset_zone r = Some (rf_addr f, rf_zone f)" "rrset_label r = label" "rrset_type r = TXT_RR_TYPE"
    "rrset_version r = version_used L now VERSION_USE_UNIX_TIMESTAMP" "rrset_ttl r = ttl_used f ttl" "rrset_data r = dataBlock L packet"
    "d_name packet = rr_name (zone_name (rf_zone f)) label TXT_RR_TYPE @ [version_used L now VERSION_USE_UNIX_TIMESTAMP]"
    "d_contentType packet = content_type_code NDNS_RESP" "wireDecodeTxt L (d_content packet) = Inr content"
    using f(1) pos by (rule_tac generateTxtRrset_spec [OF L, of f ttl now label VERSION_USE_UNIX_TIMESTAMP content])
      (auto simp: factory_ready_def ttl_used_def DEFAULT_RR_TTL_def)
  have v: "version_used L now VERSION_USE_UNIX_TIMESTAMP = fromVersion L now" by (simp add: version_used_def)
  have ttl: "ttl_used f ttl = ttl" using pos by (simp add: ttl_used_def DEFAULT_RR_TTL_def)
  have eq: "r = rr_fill (fromVersion L now, ttl_used f ttl, dataBlock L packet) (rr_object (ra, rf_zone f) (label, TXT_RR_TYPE))"
    using r(2-8) f(2) by (simp add: rr_fill_def rr_object_def Rrset_new_def v)
  have "TXT_RR_TYPE \<noteq> NS_RR_TYPE" by (simp add: label_defs)
  then have "make_rrset L parseName now f label TXT_RR_TYPE VERSION_USE_UNIX_TIMESTAMP ttl content = Inr r"
    by (simp add: make_rrset_def r(1))
  from f(3) [rule_format, OF this] show thesis
    using that [of "rf_zone f" "ttl_used f ttl" packet] label f(1) r(9,10,11) ttl
    by (simp add: eq factory_ready_def v)
qed

lemma add_rr_main_txt:
  assumes db: "ar_db opt \<noteq> []" and c: "changeable L E K k dflt p (opened (ar_db opt) (disk (ar_db opt)))"
    and args: "ar_zone opt = Some z" "parseName z = Some (zone_name (snd p))" "ar_label opt = Some l" "parseName l = Some label" "length label \<le> 1"
      "ar_type opt = Some ''TXT''" "ar_dsk opt = DEFAULT_CERT" "ar_file opt = None"
    and ttl: "ttl = (case ar_version opt of Some v \<Rightarrow> v | None \<Rightarrow> (case ar_ttl opt of Some t \<Rightarrow> t | None \<Rightarrow> 3600))" "0 < ttl"
    and free: "db_get L E p (opened (ar_db opt) (disk (ar_db opt))) (label, NS_RR_TYPE) = None"
    and old: "\<forall>u. db_get L E p (opened (ar_db opt) (disk (ar_db opt))) (label, TXT_RR_TYPE) = Some u \<longrightarrow> compLess L (fst u) (fromVersion L now)"
  shows "\<exists>d' packet. add_rr_main L E K k dflt disk parseName F now sys fa ra opt = (m_tables d', Inr ((), 0)) \<and>
           changed_to L E p ((db_get L E p (opened (ar_db opt) (disk (ar_db opt))))
             ((label, TXT_RR_TYPE) \<mapsto> (fromVersion L now, ttl, dataBlock L packet))) d' \<and>
           d_name packet = zone_name (snd p) @ [NDNS_ITERATIVE_QUERY] @ label @ [TXT_RR_TYPE, fromVersion L now] \<and>
           to_content_type (d_contentType packet) = NDNS_RESP \<and> wireDecodeTxt L (d_content packet) = Inr (ar_content opt)"
proof -
  let ?db = "ar_db opt" and ?d = "opened (ar_db opt) (disk (ar_db opt))"
  have i: "store_inv L E p ?d" and L: "ndn_ok L" using c by (simp_all add: changeable_def zone_ready_def)
  have ty: "generic ''TXT'' = TXT_RR_TYPE" "TXT_RR_TYPE \<noteq> DOE_RR_TYPE" by (simp_all add: label_defs)
  have ver: "nat (versionInt mod 18446744073709551616) = VERSION_USE_UNIX_TIMESTAMP"
    by (simp add: versionInt_def VERSION_USE_UNIX_TIMESTAMP_def)
  have t: "(if ttlInt opt = -1 then DEFAULT_CACHE_TTL else ttlInt opt) = ttl"
    using ttl by (simp add: ttlInt_def DEFAULT_CACHE_TTL_def split: option.splits if_splits)
  obtain zn ttl' packet where a: "zone_name zn = zone_name (snd p)" "zone_id zn = zone_id (snd p)" "ttl' = ttl"
    "d_name packet = rr_name (zone_name (snd p)) label TXT_RR_TYPE @ [fromVersion L now]"
    "to_content_type (d_contentType packet) = NDNS_RESP" "wireDecodeTxt L (d_content packet) = Inr (ar_content opt)"
    "add_record L E K k dflt disk parseName now fa ra ?db (zone_name (snd p)) label TXT_RR_TYPE DEFAULT_CERT VERSION_USE_UNIX_TIMESTAMP ttl (ar_content opt) =
       (case addRrset L E K k dflt now fa ?d
               (rr_fill (fromVersion L now, ttl', dataBlock L packet) (rr_object (ra, zn) (label, TXT_RR_TYPE))) of
          (d, r) \<Rightarrow> (m_tables d, map_sum id (\<lambda>_. ((), 0)) r))"
    by (rule add_record_txt [where disk = disk and db = ?db, OF db c args(5) ttl(2)])
  let ?v = "(fromVersion L now, ttl, dataBlock L packet)" and ?key = "(label, TXT_RR_TYPE)"
  note ttl' = a(3)
  have same: "same_zone p (ra, zn)" using a(1,2) by (simp add: same_zone_def)
  have get: "db_get L E (ra, zn) ?d = db_get L E p ?d" using i same by (intro db_get_ptr [symmetric]) (simp_all add: same_zone_def)
  have "changeable L E K k dflt (ra, zn) ?d" using c unfolding changeable_def zone_ready_ptr [OF same] .
  from addRrset_effect [OF this, of ?key now fa ?v] free ty(2)
  have "versioned_write L E (ra, zn) ?d ?key ?v (addRrset L E K k dflt now fa ?d (rr_fill ?v (rr_object (ra, zn) ?key)))"
    by (simp add: get type_at_def)
  then have w: "versioned_write L E p ?d ?key ?v (addRrset L E K k dflt now fa ?d (rr_fill ?v (rr_object (ra, zn) ?key)))"
    by (simp only: versioned_write_ptr [OF same i])
  have "compLess L (fst u) (fst ?v)" if "db_get L E p ?d ?key = Some u" for u
    using old that by simp
  from versioned_write_newer [OF ndn_okD(1) [OF L] w this]
  obtain d' r where d': "addRrset L E K k dflt now fa ?d (rr_fill ?v (rr_object (ra, zn) ?key)) = (d', Inr r)"
    "changed_to L E p ((db_get L E p ?d)(?key \<mapsto> ?v)) d'" by blast
  have "add_rr_main L E K k dflt disk parseName F now sys fa ra opt = (m_tables d', Inr ((), 0))"
    using args d'(1) by (simp add: add_rr_main_def arg_name_def ver t ty(1) a(7) ttl' exit_with_def Let_def)
  with d'(2) a(4-6) show ?thesis by (intro exI [of _ d'] exI [of _ packet]) (simp add: rr_name_def)
qed

text \<open>A negative TTL: the freshness period of the packet is refused, and the tool exits with 1 before it opens the database to write.\<close>

lemma add_rr_main_negative:
  assumes db: "ar_db opt \<noteq> []" and c: "changeable L E K k dflt p (opened (ar_db opt) (disk (ar_db opt)))"
    and args: "ar_zone opt = Some z" "parseName z = Some (zone_name (snd p))" "ar_label opt = Some l" "parseName l = Some label"
      "ar_type opt = Some ''TXT'' \<or> ar_type opt = Some ''NS'' \<and> those (map parseName (ar_content opt)) \<noteq> None"
      "ar_dsk opt = DEFAULT_CERT" "ar_file opt = None"
    and neg: "ttlInt opt < -1"
  shows "add_rr_main L E K k dflt disk parseName F now sys fa ra opt = (disk (ar_db opt), Inr ((), 1))"
proof -
  let ?db = "ar_db opt"
  have L: "block_codec L" using c by (simp add: changeable_def ndn_ok_def)
  have ty: "generic ''NS'' = NS_RR_TYPE" "generic ''TXT'' = TXT_RR_TYPE" "TXT_RR_TYPE \<noteq> NS_RR_TYPE" by (simp_all add: label_defs)
  define type where "type = generic (case ar_type opt of None \<Rightarrow> [] | Some t \<Rightarrow> t)"
  obtain f where f: "factory_ready L p f"
    "\<forall>label type version ttl content e. make_rrset L parseName now f label type version ttl content = Inl e \<longrightarrow>
       add_record L E K k dflt disk parseName now fa ra ?db (zone_name (snd p)) label type DEFAULT_CERT version ttl content = (disk ?db, Inl e)"
    using add_record_start [where disk = disk and db = ?db and ra = ra and parseName = parseName and now = now and fa = fa, OF db c] by blast
  have F: "rf_checked f" "ttl_used f (ttlInt opt) < 0" using f(1) neg by (simp_all add: factory_ready_def ttl_used_def DEFAULT_RR_TTL_def)
  have "make_rrset L parseName now f label type version (ttlInt opt) (ar_content opt) = Inl Invalid_Argument" for version
    using args(5) by (auto simp: make_rrset_def type_def ty generateTxtRrset_negative [OF L F] generateNsRrset_negative [OF F])
  note R = f(2) [rule_format, OF this]
  have "std_exception Invalid_Argument" by (simp add: std_exception_def)
  then show ?thesis
    using args R neg by (auto simp: add_rr_main_def arg_name_def exit_with_def Let_def type_def [symmetric] db_content_def db)
qed

definition uri_sample :: "string \<Rightarrow> name option" where
  "uri_sample s = (if s = [] then Some [] else if hd s = CHR ''/'' then Some [generic (tl s)] else None)"

definition files_sample :: "string \<Rightarrow> files" where
  "files_sample enc = \<lparr>is_file = (\<lambda>_. False), load_data = (\<lambda>_. None)\<rparr>"

text \<open>A zone with two records in the file \<open>db\<close>.\<close>

lemma add_sample_file:
  obtains t where "changeable ndn0 sqlite0 keychain_sample () ''db'' zone_sample (opened ''db'' t)"
    "db_get ndn0 sqlite0 zone_sample (opened ''db'' t) = [([generic ''a''], TXT_RR_TYPE) \<mapsto> value_sample, ([generic ''b''], TXT_RR_TYPE) \<mapsto> value_sample]"
proof -
  let ?k1 = "([generic ''a''], TXT_RR_TYPE)" and ?k2 = "([generic ''b''], TXT_RR_TYPE)"
  have ne: "?k1 \<noteq> ?k2" by simp
  obtain d where d: "zone_ready ndn0 sqlite0 keychain_sample () ''db'' zone_sample d"
    "db_get ndn0 sqlite0 zone_sample d = [?k1 \<mapsto> value_sample, ?k2 \<mapsto> value_sample]" "length (rrsets (m_tables d)) = 2"
    by (rule two_records [OF ne])
  let ?d = "opened ''db'' (m_tables d)"
  have "db_get ndn0 sqlite0 zone_sample ?d = db_get ndn0 sqlite0 zone_sample d"
    using d(1) by (intro opened_get) (simp add: zone_ready_def)
  moreover have "zone_ready ndn0 sqlite0 keychain_sample () ''db'' zone_sample ?d"
    by (rule opened_ready [OF d(1)]) (use d(1) in \<open>simp_all add: sqlite0_def\<close>)
  then have "changeable ndn0 sqlite0 keychain_sample () ''db'' zone_sample ?d"
    by (rule changeable_sample) (simp add: opened_def d(3))
  ultimately show thesis using that d(2) by metis
qed

section \<open>Creating a zone\<close>

text \<open>
  \<open>ndns-create-zone\<close> with only the name of a new zone, of at least one component: the parent is the zone with the last component removed, the tool exits with 0, and what it writes is the certificate of
  the D-Key of the new zone, an identity in the parent zone; the records of the new zone are the certificates of its KSK and its DSK with the default TTL, and its default key can sign.
\<close>

theorem create_zone_default:
  assumes L: "ndn_ok L" "signs L" and K: "keychain_ok K"
    and opt: "co_zone opt = Some zoneStr" "parseName zoneStr = Some (parent @ [c])" "co_parent opt = []" "co_ksk opt = []" "co_dsk opt = []"
      "co_dkey opt = []" "parseName [] = Some []" "co_cacheTtl opt = -1" "co_db opt \<noteq> []" "openOk E (co_db opt)"
    and r: "room_for_zone L E dflt (opened (co_db opt) (disk (co_db opt))) (parent @ [c])"
  shows "\<exists>d' k' zone dkeyId dkeyCert kskId kskCert dskId dskCert.
     create_zone_main L E K k dflt disk parseName now sys fa addr opt = ((m_tables d', k'), Inr (Some dkeyCert, 0)) \<and>
     d_name dkeyCert = parent @ [NDNS_ITERATIVE_QUERY, c, keyComp, dkeyId, generic ''CERT'', fromVersion L (now 0)] \<and>
     zone_name zone = parent @ [c] \<and> zone_ready L E K k' dflt (addr, zone) d' \<and>
     changed_to L E (addr, zone)
       [([keyComp, kskId], CERT_RR_TYPE) \<mapsto> (fromVersion L (now 1), 3600, dataBlock L kskCert),
        ([keyComp, dskId], CERT_RR_TYPE) \<mapsto> (fromVersion L (now 2), 3600, dataBlock L dskCert)] d'"
proof -
  let ?t = "\<lparr>t_db = opened (co_db opt) (disk (co_db opt)), t_keyChain = k\<rparr>" and ?zn = "parent @ [c]"
  let ?validity = "if co_certTtl opt = -1 then DEFAULT_CERT_TTL else co_certTtl opt"
  have r': "room_for_zone L E dflt (t_db ?t) ?zn" and sp: "strict_prefix parent ?zn" using r by (simp_all add: strict_prefix_def)
  obtain t' zone dkeyId kskId dskId dkeyCert kskCert dskCert where z:
    "createZone L E K dflt now sys fa addr ?t ?zn parent DEFAULT_CACHE_TTL ?validity DEFAULT_CERT DEFAULT_CERT DEFAULT_CERT = (t', Inr zone)"
    "zone_name zone = ?zn" "zone_ready L E K (t_keyChain t') dflt (addr, zone) (t_db t')"
    "changed_to L E (addr, zone)
       [([keyComp, kskId], CERT_RR_TYPE) \<mapsto> (fromVersion L (now 1), DEFAULT_CACHE_TTL, dataBlock L kskCert),
        ([keyComp, dskId], CERT_RR_TYPE) \<mapsto> (fromVersion L (now 2), DEFAULT_CACHE_TTL, dataBlock L dskCert)] (t_db t')"
    "getZoneDkey L E (t_db t') zone = (t_db t', Inr dkeyCert)"
    "d_name dkeyCert = parent @ [NDNS_ITERATIVE_QUERY] @ drop (length parent) ?zn @
                         [keyComp, dkeyId, generic ''CERT'', fromVersion L (now 0)]"
    using createZone_effect [OF L K r' sp, of DEFAULT_CACHE_TTL now sys fa addr ?validity] by (auto simp: DEFAULT_CACHE_TTL_def)
  have new: "ManagementTool_new E dflt disk (co_db opt) k = (?t, Inr ())"
    by (simp add: ManagementTool_new_def DbMgr_new_opened [OF opt(9,10)])
  have "create_zone_main L E K k dflt disk parseName now sys fa addr opt = ((m_tables (t_db t'), t_keyChain t'), Inr (Some dkeyCert, 0))"
    using opt z(1,5) by (simp add: create_zone_main_def parent_zone_def new exit_with_def DEFAULT_CERT_def Let_def)
  moreover have "DEFAULT_CACHE_TTL = 3600" by (simp add: DEFAULT_CACHE_TTL_def)
  ultimately show ?thesis using z(2,3,4,6) by (intro exI [of _ "t_db t'"] exI [of _ "t_keyChain t'"] exI [of _ zone]) auto
qed

definition create_sample :: create_options where
  "create_sample = \<lparr>co_db = ''db'', co_zone = Some ''zone'', co_parent = [], co_cacheTtl = -1, co_certTtl = -1, co_ksk = [], co_dsk = [], co_dkey = []\<rparr>"

theorem create_zone_default_witness:
  "\<exists>s' dkeyCert dkeyId. create_zone_main ndn0 sqlite0 pib0 (t_keyChain tool_sample) ''db'' (\<lambda>_. m_tables db_sample)
       (\<lambda>s. if s = [] then Some [] else Some [generic ''net'', generic ''ndnsim'']) (\<lambda>i. i) (\<lambda>_. 0) 2 3 create_sample =
       (s', Inr (Some dkeyCert, 0)) \<and>
     d_name dkeyCert = [generic ''net'', NDNS_ITERATIVE_QUERY, generic ''ndnsim'', keyComp, dkeyId, generic ''CERT'', fromVersion ndn0 0]"
proof -
  let ?parse = "\<lambda>s :: string. if s = [] then Some [] else Some [generic ''net'', generic ''ndnsim'']"
  have args: "co_zone create_sample = Some ''zone''" "?parse ''zone'' = Some ([generic ''net''] @ [generic ''ndnsim''])" "co_parent create_sample = []"
    "co_ksk create_sample = []" "co_dsk create_sample = []" "co_dkey create_sample = []" "?parse [] = Some []" "co_cacheTtl create_sample = -1"
    "co_db create_sample \<noteq> []" "openOk sqlite0 (co_db create_sample)"
    by (simp_all add: create_sample_def sqlite0_def)
  have "opened (co_db create_sample) (m_tables db_sample) = t_db tool_sample"
    by (simp add: opened_def create_sample_def tool_sample_def db_sample_def)
  then have r: "room_for_zone ndn0 sqlite0 ''db'' (opened (co_db create_sample) ((\<lambda>_. m_tables db_sample) (co_db create_sample)))
      ([generic ''net''] @ [generic ''ndnsim''])"
    using room_sample by simp
  from create_zone_default [where parseName = ?parse and disk = "\<lambda>_. m_tables db_sample" and k = "t_keyChain tool_sample" and now = "\<lambda>i. i" and
      sys = "\<lambda>_. 0" and fa = 2 and addr = 3, OF ndn0_ok ndn0_signs pib0_ok args r]
  show ?thesis by (elim exE conjE) auto
qed

end
