(* ===== verification/ListingProps.thy ===== *)
theory ListingProps
  imports Listing ToolsProps
begin

text \<open>
  What the listings of the management tool print, as a function of the records of the zone, and the records at which they stop.
\<close>

section \<open>One record\<close>

definition blob_content :: "response \<Rightarrow> bool" where
  "blob_content re \<longleftrightarrow> s_contentType re = NDNS_BLOB \<or> s_contentType re = NDNS_KEY"

text \<open>The records that can be listed: signed, with a name of the zone or not; a record of the type NS holds one element or is an AUTH record.\<close>

definition listable :: "ndn \<Rightarrow> name \<Rightarrow> rrset \<Rightarrow> bool" where
  "listable L zoneName rrset \<longleftrightarrow>
     (\<exists>data re. read_rrset L zoneName rrset = Inr (data, re) \<and> d_keyLocator data \<noteq> None \<and>
        (blob_content re \<or>
         (if rrset_type rrset = NS_RR_TYPE
          then s_contentType re = NDNS_AUTH \<or> length (s_rrs re) = 1 \<and> linkDelegations L (rrset_data rrset) \<noteq> None
          else s_contentType re \<noteq> NDNS_AUTH)))"

text \<open>A record of the type NS that is neither an AUTH record nor raw and holds several elements.\<close>

definition several_elements :: "ndn \<Rightarrow> name \<Rightarrow> rrset \<Rightarrow> bool" where
  "several_elements L zoneName rrset \<longleftrightarrow>
     (\<exists>data re. read_rrset L zoneName rrset = Inr (data, re) \<and> d_keyLocator data \<noteq> None \<and> \<not> blob_content re \<and>
        s_contentType re \<noteq> NDNS_AUTH \<and> rrset_type rrset = NS_RR_TYPE \<and> 2 \<le> length (s_rrs re))"

text \<open>The values of a record, one per line.\<close>

definition values_of :: "ndn \<Rightarrow> printer \<Rightarrow> response \<Rightarrow> rrset \<Rightarrow> string list" where
  "values_of L P re rrset =
     (if rrset_type rrset = TXT_RR_TYPE then map (\<lambda>b. block_value b @ endl) (s_rrs re)
      else if rrset_type rrset = NS_RR_TYPE then
        [if s_contentType re = NDNS_AUTH then ''NDNS-Auth'' @ endl
         else concat (map (\<lambda>n. p_uri P n @ '';'') (the (linkDelegations L (rrset_data rrset)))) @ endl]
      else map (\<lambda>b. p_base64 P (blockWire L b)) (s_rrs re))"

definition entry :: "ndn \<Rightarrow> printer \<Rightarrow> bool \<Rightarrow> name \<Rightarrow> nat \<times> nat \<times> nat \<Rightarrow> rrset \<Rightarrow> string" where
  "entry L P printRaw zoneName w rrset =
     (case read_rrset L zoneName rrset of
        Inl e \<Rightarrow> []
      | Inr (data, re) \<Rightarrow>
          let signer = '' signed-by='' @ p_uri P (the (d_keyLocator data)) @ endl in
          if blob_content re then
            columns P w rrset @ ''; content-type='' @ show_content_type (s_contentType re) @ '' version='' @ p_curi P (rrset_version rrset) @ signer @
            (if \<not> printRaw then [] else if s_rrType re = CERT_RR_TYPE then p_cert P data else p_base64 P (blockWire L (s_appContent re))) @ endl
          else
            ''; rrset='' @ p_uri P (rrset_label rrset) @ '' type='' @ p_curi P (rrset_type rrset) @ '' version='' @ p_curi P (rrset_version rrset) @ signer @
            concat (map (\<lambda>v. columns P w rrset @ v) (values_of L P re rrset)) @ endl)"

lemma write_text_Inr [simp]: "write_text os (Inr s) = (os @ s, Inr ())" by (simp add: write_text_def)
lemma write_text_Inl [simp]: "write_text os (Inl e) = (os, Inl e)" by (simp add: write_text_def)

lemma list_rrs_values:
  assumes "\<And>i. i < length vs \<Longrightarrow> rr_text L P re rrset i = Inr (vs ! i)"
  shows "list_rrs L P w re rrset os [0..<length vs] = (os @ concat (map (\<lambda>v. columns P w rrset @ v) vs), Inr ())"
proof -
  have "list_rrs L P w re rrset os is = (os @ concat (map (\<lambda>i. columns P w rrset @ vs ! i) is), Inr ())"
    if "set is \<subseteq> {..<length vs}" for "is" os
    using that assms by (induction "is" arbitrary: os) simp_all
  moreover have "map (\<lambda>i. columns P w rrset @ vs ! i) [0..<length vs] = map (\<lambda>v. columns P w rrset @ v) vs"
    by (rule nth_equalityI) simp_all
  ultimately show ?thesis by (simp add: atLeast_upt subset_iff)
qed

lemma read_rrset_data: "read_rrset L zoneName rrset = Inr (data, re) \<Longrightarrow> blockData L (rrset_data rrset) = Some data"
  by (cases "blockData L (rrset_data rrset)"; cases "fromData L Response_default zoneName (the (blockData L (rrset_data rrset)))")
     (auto simp: read_rrset_def split: sum.splits)

lemma list_rrset_entry:
  assumes "listable L zoneName rrset"
  shows "list_rrset L P printRaw zoneName w os rrset = (os @ entry L P printRaw zoneName w rrset, Inr ())"
proof -
  obtain data re n where r: "read_rrset L zoneName rrset = Inr (data, re)" "d_keyLocator data = Some n"
    and c: "blob_content re \<or>
         (if rrset_type rrset = NS_RR_TYPE
          then s_contentType re = NDNS_AUTH \<or> length (s_rrs re) = 1 \<and> linkDelegations L (rrset_data rrset) \<noteq> None
          else s_contentType re \<noteq> NDNS_AUTH)"
    using assms by (auto simp: listable_def)
  show ?thesis
  proof (cases "blob_content re")
    case True
    then have it: "iterations re = 1" "rr_text L P re rrset i = Inr []" for i
      by (auto simp: blob_content_def iterations_def rr_text_def)
    show ?thesis using True read_rrset_data [OF r(1)]
      by (simp add: list_rrset_def entry_def r it(1) it(2) blob_trailer_def signed_by_def raw_text_def Let_def flip: blob_content_def)
  next
    case False
    have rr: "rr_text L P re rrset i = Inr (values_of L P re rrset ! i)" if "i < iterations re" for i
      using that c False
      by (auto simp: rr_text_def iterations_def values_of_def blob_content_def label_defs split: if_splits)
    have len: "iterations re = length (values_of L P re rrset)"
      using c False by (auto simp: iterations_def values_of_def blob_content_def label_defs split: if_splits)
    note list_rrs_values [OF rr [unfolded len], folded len]
    then show ?thesis using False
      by (simp add: list_rrset_def entry_def r rrset_heading_def signed_by_def Let_def flip: blob_content_def)
  qed
qed

text \<open>The stream at a record of the type NS with several elements: the assertion on the number of lines fails.\<close>

lemma list_rrset_several:
  assumes "several_elements L zoneName rrset"
  shows "\<exists>os'. list_rrset L P printRaw zoneName w os rrset = (os', Inl AssertFailed)"
proof -
  obtain data re n where r: "read_rrset L zoneName rrset = Inr (data, re)" "d_keyLocator data = Some n" and c: "\<not> blob_content re"
    "s_contentType re \<noteq> NDNS_AUTH" "rrset_type rrset = NS_RR_TYPE" "2 \<le> length (s_rrs re)"
    using assms by (auto simp: several_elements_def)
  have it: "iterations re = length (s_rrs re)" using c by (simp add: iterations_def blob_content_def)
  then have rr: "rr_text L P re rrset 0 = Inl AssertFailed" using c by (simp add: rr_text_def blob_content_def label_defs)
  have "0 < iterations re" using c(4) it by linarith
  then have "[0..<iterations re] = 0 # [1..<iterations re]" by (simp add: upt_conv_Cons)
  then show ?thesis using rr c(1) by (simp add: list_rrset_def r rrset_heading_def signed_by_def flip: blob_content_def)
qed

section \<open>The records of a zone\<close>

lemma readable_if: "listable L zoneName r \<or> several_elements L zoneName r \<Longrightarrow> \<exists>x. read_rrset L zoneName r = Inr x"
  by (auto simp: listable_def several_elements_def)

lemma column_widths_fold:
  "\<forall>r \<in> set rs. listable L zoneName r \<or> several_elements L zoneName r \<Longrightarrow>
   column_widths L P zoneName w rs = Inr (fold (widen P) rs w)"
  by (induction rs arbitrary: w) (auto dest!: readable_if)

lemma list_rrsets_entries:
  "\<forall>r \<in> set rs. listable L zoneName r \<Longrightarrow>
   list_rrsets L P printRaw zoneName w os rs = (os @ concat (map (entry L P printRaw zoneName w) rs), Inr ())"
  by (induction rs arbitrary: os) (simp_all add: list_rrset_entry)

lemma list_rrsets_several:
  "\<forall>r \<in> set rs. listable L zoneName r \<or> several_elements L zoneName r \<Longrightarrow> \<exists>r \<in> set rs. several_elements L zoneName r \<Longrightarrow>
   \<exists>os'. list_rrsets L P printRaw zoneName w os rs = (os', Inl AssertFailed)"
proof (induction rs arbitrary: os)
  case (Cons r rs)
  show ?case
  proof (cases "several_elements L zoneName r")
    case True
    then show ?thesis using list_rrset_several [of L zoneName r P printRaw w os] by auto
  next
    case False
    then show ?thesis using Cons by (auto simp: list_rrset_entry)
  qed
qed simp

text \<open>The columns are wide enough for every record.\<close>

definition fits :: "printer \<Rightarrow> nat \<times> nat \<times> nat \<Rightarrow> rrset \<Rightarrow> bool" where
  "fits P w r \<longleftrightarrow> length (p_uri P (rrset_label r)) \<le> fst w \<and> length (p_num P (rrset_ttl r)) \<le> fst (snd w) \<and>
     length (p_curi P (rrset_type r)) \<le> snd (snd w)"

lemma widen_fits: "fits P (widen P r w) r" "fits P w r' \<Longrightarrow> fits P (widen P r w) r'"
  by (auto simp: fits_def widen_def split: prod.splits)

lemma fold_widen_fits: "fits P w r \<or> r \<in> set rs \<Longrightarrow> fits P (fold (widen P) rs w) r"
proof (induction rs arbitrary: w)
  case (Cons a rs)
  show ?case using Cons.IH [of "widen P a w"] Cons.prems widen_fits(1) [of P a w] widen_fits(2) [of P w r a] by auto
qed simp

lemma columns_length: "fits P w r \<Longrightarrow> length (columns P w r) = fst w + fst (snd w) + snd (snd w) + 6"
  by (auto simp: fits_def columns_def pad_def split: prod.splits)

text \<open>Only the fields of the map matter.\<close>

definition map_rrset :: "zone_ptr \<Rightarrow> (name \<times> component \<Rightarrow> rr_value option) \<Rightarrow> name \<times> component \<Rightarrow> rrset" where
  "map_rrset p m k = rr_fill (the (m k)) (rr_object p k)"

lemma map_rrset_same:
  assumes "m (rrset_label r, rrset_type r) = Some (rrset_version r, rrset_ttl r, rrset_data r)"
  shows "entry L P printRaw zoneName w (map_rrset p m (rrset_label r, rrset_type r)) = entry L P printRaw zoneName w r"
    "listable L zoneName (map_rrset p m (rrset_label r, rrset_type r)) = listable L zoneName r"
    "several_elements L zoneName (map_rrset p m (rrset_label r, rrset_type r)) = several_elements L zoneName r"
    "columns P w (map_rrset p m (rrset_label r, rrset_type r)) = columns P w r"
proof -
  let ?r = "map_rrset p m (rrset_label r, rrset_type r)"
  have f: "rrset_label ?r = rrset_label r" "rrset_type ?r = rrset_type r" "rrset_version ?r = rrset_version r" "rrset_ttl ?r = rrset_ttl r"
    "rrset_data ?r = rrset_data r"
    by (simp_all add: assms map_rrset_def rr_fill_def rr_object_def)
  note defs = entry_def listable_def several_elements_def read_rrset_def columns_def values_of_def f
  show "entry L P printRaw zoneName w ?r = entry L P printRaw zoneName w r" "listable L zoneName ?r = listable L zoneName r"
    "several_elements L zoneName ?r = several_elements L zoneName r" "columns P w ?r = columns P w r"
    unfolding defs by (rule refl)+
qed

definition list_found ::
  "ndn \<Rightarrow> printer \<Rightarrow> dbmgr \<Rightarrow> string \<Rightarrow> name \<Rightarrow> bool \<Rightarrow> rrset list \<Rightarrow> (dbmgr \<times> string, unit) res" where
  "list_found L P d os zoneName printRaw rs =
     (let os = os @ ''; Zone '' @ p_uri P zoneName @ endl @ endl in
      case column_widths L P zoneName (0, 0, 0) rs of
        Inl e \<Rightarrow> ((d, os), Inl e)
      | Inr w \<Rightarrow> (case list_rrsets L P printRaw zoneName w os rs of (os, r) \<Rightarrow> ((d, os), r)))"

lemma list_found_entries:
  assumes "\<forall>r \<in> set rs. listable L zoneName r"
  shows "list_found L P d os zoneName printRaw rs =
           ((d, os @ ''; Zone '' @ p_uri P zoneName @ endl @ endl @ concat (map (entry L P printRaw zoneName (fold (widen P) rs (0, 0, 0))) rs)), Inr ())"
  using assms by (simp add: list_found_def column_widths_fold list_rrsets_entries)

lemma list_found_several:
  assumes "\<forall>r \<in> set rs. listable L zoneName r \<or> several_elements L zoneName r" "\<exists>r \<in> set rs. several_elements L zoneName r"
  shows "\<exists>os'. list_found L P d os zoneName printRaw rs = ((d, os'), Inl AssertFailed)"
proof -
  let ?os = "os @ ''; Zone '' @ p_uri P zoneName @ endl @ endl"
  obtain os' where "list_rrsets L P printRaw zoneName (fold (widen P) rs (0, 0, 0)) ?os rs = (os', Inl AssertFailed)"
    using list_rrsets_several [OF assms, of P printRaw "fold (widen P) rs (0, 0, 0)" ?os] by (elim exE)
  then show ?thesis using column_widths_fold [OF assms(1), of P "(0, 0, 0)"] by (simp add: list_found_def)
qed

lemma listZone_start:
  assumes i: "store_inv L E p d" and kn: "zone_known L p d"
  obtains rs where
    "listZone L E P addr d os (zone_name (snd p)) printRaw = list_found L P d os (zone_name (snd p)) printRaw rs"
    "distinct (map (\<lambda>r. (rrset_label r, rrset_type r)) rs)"
    "{k. db_get L E p d k \<noteq> None} = (\<lambda>r. (rrset_label r, rrset_type r)) ` set rs"
    "\<forall>r \<in> set rs. db_get L E p d (rrset_label r, rrset_type r) = Some (rrset_version r, rrset_ttl r, rrset_data r)"
    "sorted_wrt (\<lambda>a b. \<not> nameLess L (rrset_label b) (rrset_label a)) rs"
proof -
  have g: "db_good L E d" using i by (simp add: store_inv_def)
  note D = db_goodD [OF g]
  obtain ttl where f: "findZone L E d (Zone_of (zone_name (snd p))) =
      (d, Inr ((Zone_of (zone_name (snd p)))\<lparr>zone_id := zone_id (snd p), zone_ttl := ttl\<rparr>, True))"
    using zone_known_find [OF D(3,4,5,6) kn, of "Zone_of (zone_name (snd p))"] by (auto simp: Zone_new_def)
  define q where "q = (addr, (Zone_of (zone_name (snd p)))\<lparr>zone_id := zone_id (snd p), zone_ttl := ttl\<rparr>)"
  have same: "same_zone q p" by (simp add: same_zone_def q_def Zone_new_def)
  have get: "db_get L E q d = db_get L E p d" using db_get_ptr [of p q] same i by (simp add: same_zone_def)
  have iq: "store_inv L E q d" using i same by (simp add: store_inv_def same_zone_def)
  obtain rs where rs: "findRrsets L E d q = (d, Inr (snd q, rs))" "distinct (map (\<lambda>r. (rrset_label r, rrset_type r)) rs)"
    "\<And>k. db_get L E q d k \<noteq> None \<longleftrightarrow> k \<in> (\<lambda>r. (rrset_label r, rrset_type r)) ` set rs"
    "\<And>r. r \<in> set rs \<Longrightarrow> db_get L E q d (rrset_label r, rrset_type r) = Some (rrset_version r, rrset_ttl r, rrset_data r)"
    "sorted_wrt (\<lambda>a b. \<not> nameLess L (rrset_label b) (rrset_label a)) rs"
    by (rule findRrsets_map [OF iq]) blast
  have found: "findZone L E d (Zone_of (zone_name (snd p))) = (d, Inr (snd q, True))" "fst q = addr" using f by (simp_all add: q_def)
  then have "findRrsets L E d (addr, snd q) = (d, Inr (snd q, rs))" using rs(1) by (cases q) simp
  then have "listZone L E P addr d os (zone_name (snd p)) printRaw = list_found L P d os (zone_name (snd p)) printRaw rs"
    by (simp add: listZone_def list_found_def found(1))
  moreover have "{k. db_get L E p d k \<noteq> None} = (\<lambda>r. (rrset_label r, rrset_type r)) ` set rs" using rs(3) unfolding get by blast
  ultimately show thesis using rs(2,4,5) that unfolding get by simp
qed

text \<open>
  C31: \<open>ndns-list-zone\<close> prints the content of the zone: when every record can be listed, the text is a heading and one entry per record, none twice and none
  left out, in the order of the labels. An entry depends on the fields of the record only; its lines have
  the columns label, TTL and type, which are as wide for every record, and then the value.
\<close>

theorem listZone_records:
  assumes i: "store_inv L E p d" and kn: "zone_known L p d"
    and rec: "\<And>k. db_get L E p d k \<noteq> None \<Longrightarrow> listable L (zone_name (snd p)) (map_rrset p (db_get L E p d) k)"
  shows "\<exists>ks w c. distinct ks \<and> set ks = {k. db_get L E p d k \<noteq> None} \<and> sorted_wrt (\<lambda>a b. \<not> nameLess L (fst b) (fst a)) ks \<and>
     listZone L E P addr d os (zone_name (snd p)) printRaw =
       ((d, os @ ''; Zone '' @ p_uri P (zone_name (snd p)) @ endl @ endl @
            concat (map (\<lambda>k. entry L P printRaw (zone_name (snd p)) w (map_rrset p (db_get L E p d) k)) ks)), Inr ()) \<and>
     (\<forall>k \<in> set ks. length (columns P w (map_rrset p (db_get L E p d) k)) = c)"
proof -
  obtain rs where z: "listZone L E P addr d os (zone_name (snd p)) printRaw = list_found L P d os (zone_name (snd p)) printRaw rs"
    "distinct (map (\<lambda>r. (rrset_label r, rrset_type r)) rs)"
    "{k. db_get L E p d k \<noteq> None} = (\<lambda>r. (rrset_label r, rrset_type r)) ` set rs"
    "\<forall>r \<in> set rs. db_get L E p d (rrset_label r, rrset_type r) = Some (rrset_version r, rrset_ttl r, rrset_data r)"
    "sorted_wrt (\<lambda>a b. \<not> nameLess L (rrset_label b) (rrset_label a)) rs"
    by (rule listZone_start [OF i kn, of P addr os printRaw])
  note same = map_rrset_same [where m = "db_get L E p d", OF z(4) [rule_format]]
  let ?w = "fold (widen P) rs (0, 0, 0)"
  have ok: "\<forall>r \<in> set rs. listable L (zone_name (snd p)) r"
  proof
    fix r assume r: "r \<in> set rs"
    show "listable L (zone_name (snd p)) r" using rec [of "(rrset_label r, rrset_type r)"] z(4) r unfolding same(2) [OF r] by simp
  qed
  have columns_ok: "\<forall>r \<in> set rs. length (columns P ?w r) = fst ?w + fst (snd ?w) + snd (snd ?w) + 6"
    using columns_length fold_widen_fits by blast
  have entries: "map (entry L P printRaw (zone_name (snd p)) ?w) rs =
      map (\<lambda>k. entry L P printRaw (zone_name (snd p)) ?w (map_rrset p (db_get L E p d) k)) (map (\<lambda>r. (rrset_label r, rrset_type r)) rs)"
    using same(1) by simp
  show ?thesis
    using z(1,2,3,5) ok entries columns_ok same(4)
    by (intro exI [of _ "map (\<lambda>r. (rrset_label r, rrset_type r)) rs"] exI [of _ ?w] exI [of _ "fst ?w + fst (snd ?w) + snd (snd ?w) + 6"])
       (simp add: list_found_entries sorted_wrt_map)
qed

text \<open>
  C32: A record of the type NS with more than one delegation ends \<open>ndns-list-zone\<close> at a failed assertion, whatever else is in the zone.
\<close>

theorem listZone_delegations:
  assumes i: "store_inv L E p d" and kn: "zone_known L p d"
    and rec: "\<And>k. db_get L E p d k \<noteq> None \<Longrightarrow> listable L (zone_name (snd p)) (map_rrset p (db_get L E p d) k) \<or>
        several_elements L (zone_name (snd p)) (map_rrset p (db_get L E p d) k)"
    and ns: "db_get L E p d k \<noteq> None" "several_elements L (zone_name (snd p)) (map_rrset p (db_get L E p d) k)"
  shows "\<exists>os'. listZone L E P addr d os (zone_name (snd p)) printRaw = ((d, os'), Inl AssertFailed)"
proof -
  obtain rs where z: "listZone L E P addr d os (zone_name (snd p)) printRaw = list_found L P d os (zone_name (snd p)) printRaw rs"
    "distinct (map (\<lambda>r. (rrset_label r, rrset_type r)) rs)"
    "{k. db_get L E p d k \<noteq> None} = (\<lambda>r. (rrset_label r, rrset_type r)) ` set rs"
    "\<forall>r \<in> set rs. db_get L E p d (rrset_label r, rrset_type r) = Some (rrset_version r, rrset_ttl r, rrset_data r)"
    "sorted_wrt (\<lambda>a b. \<not> nameLess L (rrset_label b) (rrset_label a)) rs"
    by (rule listZone_start [OF i kn, of P addr os printRaw])
  note same = map_rrset_same [where m = "db_get L E p d", OF z(4) [rule_format]]
  have ok: "\<forall>r \<in> set rs. listable L (zone_name (snd p)) r \<or> several_elements L (zone_name (snd p)) r"
  proof
    fix r assume r: "r \<in> set rs"
    show "listable L (zone_name (snd p)) r \<or> several_elements L (zone_name (snd p)) r"
      using rec [of "(rrset_label r, rrset_type r)"] z(4) r unfolding same(2,3) [OF r] by simp
  qed
  have "k \<in> (\<lambda>r. (rrset_label r, rrset_type r)) ` set rs" using ns(1) z(3) by blast
  then obtain r where r: "k = (rrset_label r, rrset_type r)" "r \<in> set rs" by (rule imageE)
  have "several_elements L (zone_name (snd p)) r" using ns(2) unfolding r(1) same(3) [OF r(2)] .
  then have "\<exists>r \<in> set rs. several_elements L (zone_name (snd p)) r" using r(2) by blast
  with ok show ?thesis unfolding z(1) by (rule list_found_several)
qed

section \<open>Sample zones\<close>

definition printer_sample :: printer where
  "printer_sample = \<lparr>p_uri = concat \<circ> map (\<lambda>c. CHR ''/'' # comp_value c), p_curi = comp_value, p_num = (\<lambda>i. ''60''), p_base64 = id,
                     p_cert = (\<lambda>_. ''cert'')\<rparr>"

definition record_packet :: "name \<times> component \<Rightarrow> NdnsContentType \<Rightarrow> block list \<Rightarrow> data" where
  "record_packet k ct bs = (new_data ([generic ''net'', NDNS_ITERATIVE_QUERY] @ fst k @ [snd k, Component 54 (unary 3)]))
     \<lparr>d_contentType := content_type_code ct, d_content := Block tlv_Content (concat (map (blockWire ndn0) bs)), d_keyLocator := Some [generic ''key'']\<rparr>"

definition record_value :: "name \<times> component \<Rightarrow> NdnsContentType \<Rightarrow> block list \<Rightarrow> rr_value" where
  "record_value k ct bs = (Component 54 (unary 3), 60, dataBlock ndn0 (record_packet k ct bs))"

lemma read_record_packet:
  assumes "m k = Some (record_value k ct bs)" "length (fst k) < 9" "to_content_type (content_type_code ct) = ct" "ct \<noteq> NDNS_BLOB" "ct \<noteq> NDNS_KEY"
  shows "\<exists>re. read_rrset ndn0 [generic ''net''] (map_rrset p m k) = Inr (record_packet k ct bs, re) \<and> s_contentType re = ct \<and> s_rrs re = bs"
proof -
  have n: "d_name (record_packet k ct bs) = rr_name [generic ''net''] (fst k) (snd k) @ [Component 54 (unary 3)]"
    by (simp add: record_packet_def new_data_def rr_name_def)
  have e: "blockElements ndn0 (d_content (record_packet k ct bs)) = Some bs"
    using block_codecD(4) [OF ndn_okD(3) [OF ndn0_ok], of tlv_Content bs] by (simp add: record_packet_def)
  have "matchName_data (d_name (record_packet k ct bs)) [generic ''net''] =
      Inr (Some \<lparr>m_rrLabel = fst k, m_rrType = snd k, m_version = Component 54 (unary 3)\<rparr>)"
    unfolding n using assms(2) by (intro matchName_data_response) (simp add: rr_name_def)
  then show ?thesis using assms e
    by (simp add: read_rrset_def map_rrset_def rr_fill_def rr_object_def record_value_def fromData_def wireDecode_response_def raw_content_def
        Response_default_def Response_new_def) (simp add: record_packet_def)
qed

lemma listable_value:
  assumes "m k = Some (record_value k ct bs)" "length (fst k) < 9" "snd k \<noteq> NS_RR_TYPE" "ct = NDNS_RESP"
  shows "listable ndn0 [generic ''net''] (map_rrset p m k)"
  using read_record_packet [of m k ct bs p, OF assms(1,2)] assms(3,4)
  by (auto simp: listable_def blob_content_def map_rrset_def rr_fill_def rr_object_def assms(1) record_packet_def)

theorem listZone_records_witness:
  "\<exists>d os w ks. set ks = {([generic ''a''], TXT_RR_TYPE), ([generic ''b''], TXT_RR_TYPE)} \<and>
     listZone ndn0 sqlite0 printer_sample 7 d [] [generic ''net''] False = ((d, os), Inr ()) \<and>
     os = ''; Zone /net'' @ endl @ endl @
       concat (map (\<lambda>k. entry ndn0 printer_sample False [generic ''net''] w (map_rrset zone_sample (db_get ndn0 sqlite0 zone_sample d) k)) ks)"
proof -
  let ?k1 = "([generic ''a''], TXT_RR_TYPE)" and ?k2 = "([generic ''b''], TXT_RR_TYPE)"
  let ?w1 = "record_value ?k1 NDNS_RESP [Block 191 ''hi'']" and ?w2 = "record_value ?k2 NDNS_RESP []"
  obtain d where d: "zone_ready ndn0 sqlite0 keychain_sample () ''db'' zone_sample d" "db_get ndn0 sqlite0 zone_sample d = [?k1 \<mapsto> ?w1, ?k2 \<mapsto> ?w2]"
    by (rule two_records [of ?k1 ?k2 ?w1 ?w2]) simp_all
  have i: "store_inv ndn0 sqlite0 zone_sample d" "zone_known ndn0 zone_sample d" using d(1) by (simp_all add: zone_ready_def)
  have zn: "zone_name (snd zone_sample) = [generic ''net'']" by (simp add: zone_sample_def)
  have "listable ndn0 [generic ''net''] (map_rrset zone_sample (db_get ndn0 sqlite0 zone_sample d) k)"
    if "db_get ndn0 sqlite0 zone_sample d k \<noteq> None" for k
    using that listable_value [of "db_get ndn0 sqlite0 zone_sample d" ?k1 NDNS_RESP "[Block 191 ''hi'']" zone_sample]
      listable_value [of "db_get ndn0 sqlite0 zone_sample d" ?k2 NDNS_RESP "[]" zone_sample]
    by (simp add: d(2) label_defs split: if_splits)
  moreover have "{k. db_get ndn0 sqlite0 zone_sample d k \<noteq> None} = {?k1, ?k2}" by (auto simp: d(2) record_value_def)
  ultimately show ?thesis
    using listZone_records [OF i, unfolded zn, of printer_sample 7 "[]" False] by (auto simp: printer_sample_def endl_def)
qed

theorem listZone_delegations_witness:
  "\<exists>d os. db_get ndn0 sqlite0 zone_sample d ([generic ''b''], NS_RR_TYPE) \<noteq> None \<and>
     listZone ndn0 sqlite0 printer_sample 7 d [] [generic ''net''] False = ((d, os), Inl AssertFailed)"
proof -
  let ?k1 = "([generic ''a''], TXT_RR_TYPE)" and ?k2 = "([generic ''b''], NS_RR_TYPE)"
  let ?bs = "map (nameBlock ndn0) [[generic ''x''], [generic ''y'']]"
  let ?w1 = "record_value ?k1 NDNS_RESP [Block 191 ''hi'']" and ?w2 = "record_value ?k2 NDNS_LINK ?bs"
  obtain d where d: "zone_ready ndn0 sqlite0 keychain_sample () ''db'' zone_sample d" "db_get ndn0 sqlite0 zone_sample d = [?k1 \<mapsto> ?w1, ?k2 \<mapsto> ?w2]"
    by (rule two_records [of ?k1 ?k2 ?w1 ?w2]) simp_all
  let ?m = "db_get ndn0 sqlite0 zone_sample d"
  have i: "store_inv ndn0 sqlite0 zone_sample d" "zone_known ndn0 zone_sample d" using d(1) by (simp_all add: zone_ready_def)
  have zn: "zone_name (snd zone_sample) = [generic ''net'']" by (simp add: zone_sample_def)
  have s: "several_elements ndn0 [generic ''net''] (map_rrset zone_sample ?m ?k2)"
    using read_record_packet [of ?m ?k2 NDNS_LINK ?bs zone_sample]
    by (auto simp: several_elements_def blob_content_def map_rrset_def rr_fill_def rr_object_def d(2) record_packet_def)
  have "listable ndn0 [generic ''net''] (map_rrset zone_sample ?m ?k1)"
    by (rule listable_value [where ct = NDNS_RESP and bs = "[Block 191 ''hi'']"]) (simp_all add: d(2) label_defs)
  with s have "listable ndn0 [generic ''net''] (map_rrset zone_sample ?m k) \<or> several_elements ndn0 [generic ''net''] (map_rrset zone_sample ?m k)"
    if "?m k \<noteq> None" for k
    using that by (cases "k = ?k1"; cases "k = ?k2") (simp_all add: d(2))
  moreover have k2: "?m ?k2 \<noteq> None" by (simp add: d(2))
  ultimately show ?thesis
    using listZone_delegations [OF i, unfolded zn, OF _ k2 s, of printer_sample 7 "[]" False] by blast
qed

section \<open>All zones\<close>

text \<open>The line of a zone whose identity has a default key with a default certificate.\<close>

definition zone_line :: "'k keychain \<Rightarrow> 'k \<Rightarrow> printer \<Rightarrow> nat \<Rightarrow> zone \<Rightarrow> string option" where
  "zone_line K k P nameWidth z =
     (case (getDefaultKeyNameOfIdentity K k (zone_name z @ [NDNS_ITERATIVE_QUERY]),
            getDefaultCertificateNameOfIdentity K k (zone_name z @ [NDNS_ITERATIVE_QUERY])) of
        (Inr key, Inr cert) \<Rightarrow>
          Some (pad (nameWidth + 2) (p_uri P (zone_name z)) @ ''; default-ttl='' @ p_num P (zone_ttl z) @ '' default-key='' @ p_uri P key @
                '' default-certificate='' @ p_uri P cert @ endl)
      | _ \<Rightarrow> None)"

lemma default_names_error:
  "getDefaultKeyNameOfIdentity K k i = Inl e \<Longrightarrow> e = Pib_Error"
  "getDefaultCertificateNameOfIdentity K k i = Inl e \<Longrightarrow> e = Pib_Error"
  by (auto simp: getDefaultKeyNameOfIdentity_def getDefaultCertificateNameOfIdentity_def getIdentity_def or_throw_def
      split: option.splits)

lemma list_one_zone_line:
  "case zone_line K k P nameWidth z of
     Some l \<Rightarrow> list_one_zone K k P nameWidth os z = (os @ l, Inr ())
   | None \<Rightarrow> \<exists>os'. list_one_zone K k P nameWidth os z = (os', Inl Pib_Error)"
  by (auto simp: zone_line_def list_one_zone_def dest!: default_names_error split: sum.splits)

lemma list_zones_lines:
  "case those (map (zone_line K k P nameWidth) zs) of
     Some ls \<Rightarrow> list_zones K k P nameWidth os zs = (os @ concat ls, Inr ())
   | None \<Rightarrow> \<exists>os'. list_zones K k P nameWidth os zs = (os', Inl Pib_Error)"
proof (induction zs arbitrary: os)
  case (Cons z zs)
  show ?case
  proof (cases "zone_line K k P nameWidth z")
    case None
    then show ?thesis using list_one_zone_line [of K k P nameWidth os z] by auto
  next
    case (Some l)
    then show ?thesis using list_one_zone_line [of K k P nameWidth os z] Cons.IH [of "os @ l"] by (auto split: option.splits)
  qed
qed simp

lemma fold_max_base: "a \<le> fold (\<lambda>x. max (f x)) xs (a :: nat)"
  by (induction xs arbitrary: a) (simp, metis fold_simps(2) max.bounded_iff)

lemma fold_max_ge: "x \<in> set xs \<Longrightarrow> f x \<le> fold (\<lambda>x. max (f x)) xs (a :: nat)"
proof (induction xs arbitrary: a)
  case (Cons y xs)
  then show ?case using fold_max_base [of "max (f y) a" f xs] by auto
qed simp

definition row_zone :: "ndn \<Rightarrow> zone_row \<Rightarrow> zone" where
  "row_zone L r = \<lparr>zone_id = nat (z_id r), zone_name = (case restoreName L (z_name r) of Inr n \<Rightarrow> n), zone_ttl = z_ttl r\<rparr>"

lemma load_zones_rows:
  assumes "name_codec L" "\<forall>r \<in> set rs. 0 < z_id r \<and> z_id r < 2 ^ 63 \<and> z_ttl r = to_int32 (z_ttl r) \<and> (\<exists>n. z_name r = nameWire L n)"
  shows "load_zones L rs = Inr (map (row_zone L) rs)"
  using assms(2)
proof (induction rs)
  case (Cons r rs)
  then obtain n where "restoreName L (z_name r) = Inr n" using restoreName_nameWire [OF assms(1)] by auto
  then show ?case using Cons by (simp add: row_zone_def id_of_col_def)
qed simp

lemma listZones_rows:
  assumes g: "db_good L E d"
  shows "listZones L E d = (d, Inr (map (row_zone L) (scanZones E (zones (m_tables d)))))"
proof -
  note D = db_goodD [OF g]
  have "mset (scanZones E (zones (m_tables d))) = mset (zones (m_tables d))" by (rule sqlite_soundD(1) [OF D(3)])
  then have "set (scanZones E (zones (m_tables d))) = set (zones (m_tables d))" by (rule mset_eq_setD)
  then have "load_zones L (scanZones E (zones (m_tables d))) = Inr (map (row_zone L) (scanZones E (zones (m_tables d))))"
    using D(6) by (intro load_zones_rows [OF D(1)]) (auto simp: db_inv_def zone_rows_ok_def)
  then show ?thesis using D(8,9) by (simp add: listZones_def)
qed

text \<open>
  \<open>ndns-list-all-zones\<close> prints one line for each zone of the database, none left out, with the names of the default key and the default certificate of
  the zone's identity; the names of the zones are padded to the same width. A zone whose identity has no default key or certificate in the key chain of the user
  ends the listing with an exception of the key chain.
\<close>

theorem listAllZones_lines:
  assumes g: "db_good L E (t_db t)"
  shows "\<exists>zs nameWidth. mset zs = image_mset (row_zone L) (mset (zones (m_tables (t_db t)))) \<and>
     (\<forall>z \<in> set zs. length (p_uri P (zone_name z)) \<le> nameWidth) \<and>
     (case those (map (zone_line K (t_keyChain t) P nameWidth) zs) of
        Some ls \<Rightarrow> listAllZones L E K P t os = ((t, os @ concat ls), Inr ())
      | None \<Rightarrow> \<exists>os'. listAllZones L E K P t os = ((t, os'), Inl Pib_Error))"
proof -
  define zs where "zs = map (row_zone L) (scanZones E (zones (m_tables (t_db t))))"
  define w where "w = fold (\<lambda>zone. max (length (p_uri P (zone_name zone)))) zs 0"
  have wide: "length (p_uri P (zone_name z)) \<le> w" if "z \<in> set zs" for z
    unfolding w_def using that by (rule fold_max_ge)
  have m: "mset zs = image_mset (row_zone L) (mset (zones (m_tables (t_db t))))"
    by (simp add: zs_def sqlite_soundD(1) [OF db_goodD(3) [OF g]])
  have "listAllZones L E K P t os = (case list_zones K (t_keyChain t) P w os zs of (os, r) \<Rightarrow> ((t, os), r))"
    by (simp add: listAllZones_def listZones_rows [OF g] w_def zs_def)
  then show ?thesis using m wide list_zones_lines [of K "t_keyChain t" P w os zs]
    by (intro exI [of _ zs] exI [of _ w]) (auto split: option.splits)
qed

theorem listAllZones_lines_witness:
  "\<exists>zs nameWidth ls. map zone_name zs = [[generic ''net'']] \<and>
     those (map (zone_line keychain_sample () printer_sample nameWidth) zs) = Some ls \<and>
     listAllZones ndn0 sqlite0 keychain_sample printer_sample \<lparr>t_db = db_sample, t_keyChain = ()\<rparr> [] =
       ((\<lparr>t_db = db_sample, t_keyChain = ()\<rparr>, concat ls), Inr ())"
proof -
  let ?t = "\<lparr>t_db = db_sample, t_keyChain = ()\<rparr>"
  have g: "db_good ndn0 sqlite0 (t_db ?t)" using db_sample_good by (simp add: store_inv_def)
  have rows: "image_mset (row_zone ndn0) (mset (zones (m_tables (t_db ?t)))) = {#\<lparr>zone_id = 1, zone_name = [generic ''net''], zone_ttl = 3600\<rparr>#}"
    using restoreName_nameWire [OF ndn0_name_codec] by (simp add: db_sample_def row_zone_def del: nameWire_simps)
  have "zone_keys ndn0 keychain_sample () [generic ''net'']"
    using zone_ready_sample [OF db_sample_good refl] by (simp add: zone_ready_def zone_sample_def)
  then have line: "zone_line keychain_sample () printer_sample w \<lparr>zone_id = 1, zone_name = [generic ''net''], zone_ttl = 3600\<rparr> \<noteq> None" for w
    by (auto simp: zone_keys_def zone_line_def)
  obtain zs w where z: "mset zs = {#\<lparr>zone_id = 1, zone_name = [generic ''net''], zone_ttl = 3600\<rparr>#}"
    and a: "case those (map (zone_line keychain_sample () printer_sample w) zs) of
        Some ls \<Rightarrow> listAllZones ndn0 sqlite0 keychain_sample printer_sample ?t [] = ((?t, [] @ concat ls), Inr ())
      | None \<Rightarrow> \<exists>os'. listAllZones ndn0 sqlite0 keychain_sample printer_sample ?t [] = ((?t, os'), Inl Pib_Error)"
    using listAllZones_lines [OF g, of printer_sample keychain_sample "[]", unfolded rows] by auto
  have "zs = [\<lparr>zone_id = 1, zone_name = [generic ''net''], zone_ttl = 3600\<rparr>]" using z by simp
  with a line [of w] show ?thesis by (intro exI [of _ zs] exI [of _ w]) (auto split: option.splits)
qed

end
