(* ===== verification/DigTool.thy ===== *)
theory DigTool
  imports IterativeQueryProps
begin

text \<open>
  The query client (\<open>tools/ndns-dig.cpp\<close>): the class \<open>NdnsDig\<close> around the iterative resolver, and \<open>main\<close>. The resolver has no cache. The network is
  \<open>net\<close>: what comes back for the Interest of the n-th exchange, \<open>None\<close> for a NACK of the network or nothing before the timeout. The validator is the predicate \<open>V\<close>.
  \<open>stop()\<close> ends the event loop, here \<open>dg_stopped\<close>; \<open>dg_output\<close> lists the packets written, the last one first, with the file they went to.
\<close>

section \<open>The client\<close>

record dig =
  dg_dstLabel :: name
  dg_rrType :: component
  dg_interestLifetime :: int
  dg_shouldValidateIntermediate :: bool
  dg_ctr :: "unit iqc"
  dg_hasError :: bool
  dg_dstFile :: string
  dg_stopped :: bool
  dg_output :: "(string \<times> data) list"

text \<open>The resolver is made here, with the lifetime that the member has now.\<close>

definition NdnsDig_new :: "name \<Rightarrow> component \<Rightarrow> bool \<Rightarrow> dig" where
  "NdnsDig_new dstLabel rrType shouldValidateIntermediate =
     \<lparr>dg_dstLabel = dstLabel, dg_rrType = rrType, dg_interestLifetime = DEFAULT_INTEREST_LIFETIME,
      dg_shouldValidateIntermediate = shouldValidateIntermediate,
      dg_ctr = IterativeQueryController_new dstLabel rrType DEFAULT_INTEREST_LIFETIME None,
      dg_hasError = False, dg_dstFile = [], dg_stopped = False, dg_output = []\<rparr>"

definition dig_validator :: "(data \<Rightarrow> bool) \<Rightarrow> dig \<Rightarrow> (data \<Rightarrow> bool) option" where
  "dig_validator V g = (if dg_shouldValidateIntermediate g then Some V else None)"

definition stop_dig :: "dig \<Rightarrow> dig" where
  "stop_dig g = g\<lparr>dg_stopped := True\<rparr>"

definition setStartZone :: "dig \<Rightarrow> name \<Rightarrow> dig" where
  "setStartZone g startZone = g\<lparr>dg_ctr := setStartComponentIndex (dg_ctr g) (length startZone)\<rparr>"

definition setInterestLifetime_dig :: "dig \<Rightarrow> int \<Rightarrow> dig" where
  "setInterestLifetime_dig g lifetime = g\<lparr>dg_interestLifetime := lifetime\<rparr>"

definition setDstFile :: "dig \<Rightarrow> string \<Rightarrow> dig" where
  "setDstFile g dstFile = g\<lparr>dg_dstFile := dstFile\<rparr>"

section \<open>Callbacks\<close>

definition onFail_dig :: "dig \<Rightarrow> dig" where
  "onFail_dig g = stop_dig (g\<lparr>dg_hasError := True\<rparr>)"

definition onDataValidated_dig :: "dig \<Rightarrow> dig" where
  "onDataValidated_dig g = stop_dig g"

definition onDataValidationFailed_dig :: "dig \<Rightarrow> dig" where
  "onDataValidationFailed_dig g = stop_dig (g\<lparr>dg_hasError := True\<rparr>)"

text \<open>The packet is written before it is validated.\<close>

definition onSucceed_dig :: "(data \<Rightarrow> bool) \<Rightarrow> data \<Rightarrow> dig \<Rightarrow> dig" where
  "onSucceed_dig V data g =
     (let g = (if dg_dstFile g = [] then g else g\<lparr>dg_output := (dg_dstFile g, data) # dg_output g\<rparr>)
      in if V data then onDataValidated_dig g else onDataValidationFailed_dig g)"

text \<open>The actions of the resolver in one call, in their order, as its callbacks see them.\<close>

fun dig_callbacks :: "(data \<Rightarrow> bool) \<Rightarrow> iq_action list \<Rightarrow> dig \<Rightarrow> dig" where
  "dig_callbacks V [] g = g"
| "dig_callbacks V (Sent i # as) g = dig_callbacks V as g"
| "dig_callbacks V (Succeeded data re # as) g = dig_callbacks V as (onSucceed_dig V data g)"
| "dig_callbacks V (Failed errCode errMsg # as) g = dig_callbacks V as (onFail_dig g)"

definition dig_after :: "(data \<Rightarrow> bool) \<Rightarrow> dig \<Rightarrow> (unit iqc, unit) res \<Rightarrow> (dig, unit) res" where
  "dig_after V g r = (dig_callbacks V (rev (iq_out (fst r))) (g\<lparr>dg_ctr := fst r\<rparr>), snd r)"

section \<open>The event loop\<close>

text \<open>One round per exchange, as long as an Interest is out; the n-th round may use what is left of the fuel.\<close>

fun dig_events ::
  "ndn \<Rightarrow> (data \<Rightarrow> bool) \<Rightarrow> (nat \<Rightarrow> interest \<Rightarrow> data option) \<Rightarrow> nat \<Rightarrow> nat \<Rightarrow> dig \<Rightarrow> (dig, unit) res" where
  "dig_events L V net n fuel g =
     (case iq_out (dg_ctr g) of
        Sent i # _ \<Rightarrow>
          (case fuel of
             0 \<Rightarrow> (g, Inl Diverges)
           | Suc fuel \<Rightarrow>
               let c = (dg_ctr g)\<lparr>iq_out := []\<rparr> in
               and_then (dig_after V g
                   (case net n i of
                      None \<Rightarrow> (onTimeout c i, Inr ())
                    | Some d \<Rightarrow> onData L no_cache (dig_validator V g) 0 c d))
                 (\<lambda>g _. if dg_stopped g then (g, Inr ()) else dig_events L V net (Suc n) fuel g))
      | _ \<Rightarrow> (g, Inr ()))"

declare dig_events.simps [simp del]

text \<open>Exceptions are reported and end the program with an error; a failed assertion is none.\<close>

definition run_dig ::
  "ndn \<Rightarrow> (data \<Rightarrow> bool) \<Rightarrow> (nat \<Rightarrow> interest \<Rightarrow> data option) \<Rightarrow> nat \<Rightarrow> dig \<Rightarrow> (dig, unit) res" where
  "run_dig L V net fuel g =
     (case and_then (dig_after V g (start L no_cache (dig_validator V g) 0 (dg_ctr g))) (\<lambda>g _. dig_events L V net 0 fuel g) of
        (g, Inr _) \<Rightarrow> (g, Inr ())
      | (g, Inl e) \<Rightarrow>
          if std_exception e then (g\<lparr>dg_hasError := True\<rparr>, Inr ()) else (g, Inl e))"

section \<open>The program\<close>

record dig_options =
  go_name :: "name option"
  go_timeout :: int
  go_rrtype :: string
  go_dstFile :: string
  go_start :: name
  go_notValidate :: bool

text \<open>The checks of the options and the construction; \<open>None\<close>: the program ends with 1.\<close>

definition prepare_dig :: "dig_options \<Rightarrow> dig option" where
  "prepare_dig opt =
     (case go_name opt of
        None \<Rightarrow> None
      | Some dstLabel \<Rightarrow>
          if \<not> prefix (go_start opt) dstLabel then None
          else if go_timeout opt < 0 then None
          else let dig = NdnsDig_new dstLabel (generic (go_rrtype opt)) (\<not> go_notValidate opt);
                   dig = setInterestLifetime_dig dig (go_timeout opt * 1000);
                   dig = setDstFile dig (go_dstFile opt)
               in Some (setStartZone dig (go_start opt)))"

text \<open>What was written and the exit code.\<close>

definition dig_main ::
  "ndn \<Rightarrow> (data \<Rightarrow> bool) \<Rightarrow> (nat \<Rightarrow> interest \<Rightarrow> data option) \<Rightarrow> nat \<Rightarrow> dig_options \<Rightarrow> error + (string \<times> data) list \<times> int" where
  "dig_main L V net fuel opt =
     (case prepare_dig opt of
        None \<Rightarrow> Inr ([], 1)
      | Some dig \<Rightarrow>
          (case run_dig L V net fuel dig of
             (dig, Inl e) \<Rightarrow> Inl e
           | (dig, Inr _) \<Rightarrow> Inr (dg_output dig, if dg_hasError dig then 1 else 0)))"

end
