(* ===== verification/DigToolProps.thy ===== *)
theory DigToolProps
  imports DigTool
begin

text \<open>
  The query client: it ends, its success means a validated packet, and its timeout option has no effect.
\<close>

section \<open>The resolver without a cache\<close>

lemma ns_transition_cache: "ns_transition L c d ct = (c', r) \<Longrightarrow> iq_nsCache c' = iq_nsCache c"
  by (auto simp: ns_transition_def Let_def split: if_splits sum.splits option.splits)

lemma answer_ns_cache: "answer_ns L c d ct = (c', Inr u) \<Longrightarrow> iq_nsCache c' = iq_nsCache c"
  by (auto simp: answer_ns_def and_then_Inr tried_all_def dest!: ns_transition_cache)

lemma onDataValidated_cache:
  assumes "onDataValidated L st c d ct = (c', Inr next)" "iq_nsCache c = None"
  shows "iq_nsCache c' = None"
proof -
  obtain c1 where c1: "(case iq_step c of
              QUERY_STEP_QUERY_NS \<Rightarrow> answer_ns L c d ct
            | QUERY_STEP_QUERY_RR \<Rightarrow> (c\<lparr>iq_step := QUERY_STEP_ANSWER_STUB\<rparr>, Inr ())
            | _ \<Rightarrow> (c\<lparr>iq_step := QUERY_STEP_ABORT\<rparr>, Inr ())) = (c1, Inr ())"
    and k: "(if \<not> hasEnded c1 then and_then (makeLatestInterest L c1) (\<lambda>c i. (c, Inr (Some i)))
             else if iq_step c1 = QUERY_STEP_ANSWER_STUB
             then and_then (lift_err c1 (parseFinalResponse L c1 d)) (\<lambda>c re. (act (Succeeded d re) c, Inr None))
             else (abort c1, Inr None)) = (c', Inr next)"
    using assms by (auto simp: onDataValidated_def Let_def and_then_Inr)
  have "iq_nsCache c1 = None" using c1 assms(2) by (auto split: QueryStep.splits dest: answer_ns_cache)
  then show ?thesis
    using k makeLatestInterest_frame [of L c1] by (auto simp: and_then_Inr abort_def act_def split: if_splits)
qed

lemma onData_next_cache:
  assumes "onData_next L st V c d = (c', Inr next)" "iq_nsCache c = None"
  shows "iq_nsCache c' = None"
proof -
  obtain c1 d1 ct where "(case V of None \<Rightarrow> onDataValidated L st c1 d1 ct
         | Some valid \<Rightarrow> if valid d1 then onDataValidated L st c1 d1 ct else (abort c1, Inr None)) = (c', Inr next)"
    "iq_nsCache c1 = None"
    using assms by (auto simp: onData_next_def and_then_Inr split: if_splits)
  then show ?thesis
    using onDataValidated_cache [of L st c1 d1 ct c' "next"] by (auto simp: abort_def act_def split: option.splits if_splits)
qed

lemma express_uncached: "iq_nsCache c = None \<Longrightarrow> express L st V fuel c i = (act (Sent i) c, Inr ())"
  by (simp add: express.simps)

text \<open>Without a cache \<open>onData\<close> ends with an Interest or a callback, and the fuel does not matter.\<close>

lemma onData_uncached:
  assumes "iq_nsCache c = None"
  shows "onData L st V fuel c d =
     and_then (onData_next L st V c d) (\<lambda>c next. case next of None \<Rightarrow> (c, Inr ()) | Some i \<Rightarrow> (act (Sent i) c, Inr ()))"
  unfolding onData_def
  by (cases "onData_next L st V c d"; cases "snd (onData_next L st V c d)")
     (auto simp: express_uncached dest: onData_next_cache [OF _ assms] split: option.splits)

lemma onData_keeps_uncached:
  "onData L st V fuel c d = (c', Inr ()) \<Longrightarrow> iq_nsCache c = None \<Longrightarrow> iq_nsCache c' = None"
  by (auto simp: onData_uncached and_then_Inr act_def split: option.splits dest!: onData_next_cache)

lemma start_uncached:
  assumes "iq_nsCache c = None"
  shows "start L st V fuel c =
     and_then (makeLatestInterest L (if length (iq_dstLabel c) = iq_nFinishedComps c then c\<lparr>iq_step := QUERY_STEP_QUERY_RR\<rparr> else c))
       (\<lambda>c i. (act (Sent i) c, Inr ()))"
proof -
  let ?c = "if length (iq_dstLabel c) = iq_nFinishedComps c then c\<lparr>iq_step := QUERY_STEP_QUERY_RR\<rparr> else c"
  have "iq_nsCache c1 = None" if "makeLatestInterest L ?c = (c1, Inr i)" for c1 i
    using makeLatestInterest_frame(1) [OF that] assms by auto
  then show ?thesis
    by (cases "makeLatestInterest L ?c"; cases "snd (makeLatestInterest L ?c)") (auto simp: start_def Let_def express_uncached)
qed

section \<open>Rounds\<close>

lemma dig_simps [simp]:
  "dg_stopped (onSucceed_dig V data g)" "dg_stopped (onFail_dig g)" "dg_hasError (onFail_dig g)"
  "dg_hasError (onSucceed_dig V data g) = (dg_hasError g \<or> \<not> V data)"
  "dg_output (onFail_dig g) = dg_output g"
  "dg_output (onSucceed_dig V data g) =
     (if dg_dstFile g = [] then dg_output g else (dg_dstFile g, data) # dg_output g)"
  by (simp_all add: onSucceed_dig_def onFail_dig_def stop_dig_def onDataValidated_dig_def onDataValidationFailed_dig_def Let_def)

definition dig_react :: "(data \<Rightarrow> bool) \<Rightarrow> iq_action \<Rightarrow> dig \<Rightarrow> dig" where
  "dig_react V a g = (case a of Sent i \<Rightarrow> g | Succeeded data re \<Rightarrow> onSucceed_dig V data g | Failed errCode errMsg \<Rightarrow> onFail_dig g)"

lemma dig_after_one: "iq_out c = [a] \<Longrightarrow> dig_after V g (c, r) = (dig_react V a (g\<lparr>dg_ctr := c\<rparr>), r)"
  by (cases a) (simp_all add: dig_after_def dig_react_def)

text \<open>One round: the resolver is called with the answer and does one thing.\<close>

definition dig_round :: "ndn \<Rightarrow> (data \<Rightarrow> bool) \<Rightarrow> data option \<Rightarrow> dig \<Rightarrow> interest \<Rightarrow> (unit iqc, unit) res" where
  "dig_round L V answer g i =
     (case answer of
        None \<Rightarrow> (onTimeout ((dg_ctr g)\<lparr>iq_out := []\<rparr>) i, Inr ())
      | Some d \<Rightarrow> onData L no_cache (dig_validator V g) 0 ((dg_ctr g)\<lparr>iq_out := []\<rparr>) d)"

lemma dig_round_out:
  assumes "dig_round L V answer g i = (c, Inr u)"
  obtains a where "iq_out c = [a]"
proof (cases answer)
  case None
  then show ?thesis using assms that by (auto simp: dig_round_def onTimeout_def)
next
  case (Some d)
  then show ?thesis using assms that onData_out [of L no_cache "dig_validator V g" 0 _ d c] by (fastforce simp: dig_round_def)
qed

lemma dig_events_Sent:
  assumes "iq_out (dg_ctr g) = Sent i # rest"
  shows "dig_events L V net n (Suc fuel) g =
     (case dig_round L V (net n i) g i of
        (c, Inl e) \<Rightarrow> dig_after V g (c, Inl e)
      | (c, Inr _) \<Rightarrow>
          let g = dig_react V (hd (iq_out c)) (g\<lparr>dg_ctr := c\<rparr>)
          in if dg_stopped g then (g, Inr ()) else dig_events L V net (Suc n) fuel g)"
proof -
  have "dig_events L V net n (Suc fuel) g = and_then (dig_after V g (dig_round L V (net n i) g i))
       (\<lambda>g _. if dg_stopped g then (g, Inr ()) else dig_events L V net (Suc n) fuel g)"
    using assms by (subst dig_events.simps) (simp add: dig_round_def Let_def)
  moreover obtain c r where c: "dig_round L V (net n i) g i = (c, r)" by fastforce
  ultimately show ?thesis
  proof (cases r)
    case (Inl e)
    then show ?thesis using c \<open>dig_events L V net n (Suc fuel) g = _\<close> by (simp add: dig_after_def)
  next
    case (Inr u)
    then obtain a where "iq_out c = [a]" using dig_round_out c by blast
    then show ?thesis using c Inr \<open>dig_events L V net n (Suc fuel) g = _\<close> by (simp add: dig_after_one Let_def)
  qed
qed

section \<open>Success means a validated packet\<close>

definition saved_to :: "string \<Rightarrow> data \<Rightarrow> (string \<times> data) list" where
  "saved_to dstFile data = (if dstFile = [] then [] else [(dstFile, data)])"

lemma dig_events_validated:
  "iq_out (dg_ctr g) = Sent i # rest \<Longrightarrow> dg_output g = [] \<Longrightarrow> \<not> dg_stopped g \<Longrightarrow> dig_events L V net n fuel g = (g', Inr ()) \<Longrightarrow>
   dg_hasError g' \<or> (\<exists>data. V data \<and> dg_output g' = saved_to (dg_dstFile g) data)"
proof (induction fuel arbitrary: n g i rest)
  case 0
  then show ?case by (simp add: dig_events.simps)
next
  case (Suc fuel)
  obtain c where c: "dig_round L V (net n i) g i = (c, Inr ())"
    and k: "(let g = dig_react V (hd (iq_out c)) (g\<lparr>dg_ctr := c\<rparr>)
             in if dg_stopped g then (g, Inr ()) else dig_events L V net (Suc n) fuel g) = (g', Inr ())"
    using Suc.prems(4)
    by (auto simp: dig_events_Sent [OF Suc.prems(1)] dig_after_def split: prod.splits sum.splits)
  obtain a where a: "iq_out c = [a]" by (rule dig_round_out [OF c])
  show ?case
  proof (cases a)
    case (Sent j)
    then show ?thesis
      using k Suc.prems(2,3) Suc.IH [of "g\<lparr>dg_ctr := c\<rparr>" j "[]" "Suc n"] a by (simp add: dig_react_def)
  next
    case (Succeeded data re)
    then show ?thesis using k a Suc.prems(2) by (auto simp: dig_react_def saved_to_def Let_def)
  next
    case (Failed errCode errMsg)
    then show ?thesis using k a by (auto simp: dig_react_def Let_def)
  qed
qed

text \<open>The client before it runs.\<close>

lemma prepare_dig_Some:
  assumes "prepare_dig opt = Some g"
  obtains dst where "go_name opt = Some dst" "prefix (go_start opt) dst" "0 \<le> go_timeout opt"
    "g = \<lparr>dg_dstLabel = dst, dg_rrType = generic (go_rrtype opt), dg_interestLifetime = go_timeout opt * 1000,
          dg_shouldValidateIntermediate = (\<not> go_notValidate opt),
          dg_ctr = (IterativeQueryController_new dst (generic (go_rrtype opt)) DEFAULT_INTEREST_LIFETIME None)
                     \<lparr>iq_nFinishedComps := length (go_start opt)\<rparr>,
          dg_hasError = False, dg_dstFile = go_dstFile opt, dg_stopped = False, dg_output = []\<rparr>"
  using assms that
  by (auto simp: prepare_dig_def NdnsDig_new_def setInterestLifetime_dig_def setDstFile_def setStartZone_def
        setStartComponentIndex_def Let_def split: option.splits if_splits)

lemma makeLatestInterest_unlinked:
  "iq_lastLink c = None \<Longrightarrow> \<not> hasEnded c \<Longrightarrow> \<exists>c' i. makeLatestInterest L c = (c', Inr i)"
  by (cases "iq_step c") (simp_all add: makeLatestInterest_def hasEnded_def Let_def)

lemma start_dig:
  assumes "prepare_dig opt = Some g" "go_name opt = Some dst"
  obtains c i where "start L no_cache W 0 (dg_ctr g) = (c, Inr ())" "iq_out c = [Sent i]" "iq_nsCache c = None"
    "waiting c" "rank c \<le> Suc (length dst)"
proof -
  define c0 where "c0 = (if length (iq_dstLabel (dg_ctr g)) = iq_nFinishedComps (dg_ctr g)
      then (dg_ctr g)\<lparr>iq_step := QUERY_STEP_QUERY_RR\<rparr> else dg_ctr g)"
  have g: "dg_ctr g = (IterativeQueryController_new dst (generic (go_rrtype opt)) DEFAULT_INTEREST_LIFETIME None)
      \<lparr>iq_nFinishedComps := length (go_start opt)\<rparr>" "length (go_start opt) \<le> length dst"
    using assms by (auto elim!: prepare_dig_Some dest: prefix_length_le)
  have c0: "iq_nsCache c0 = None" "iq_out c0 = []" "iq_lastLink c0 = None" "\<not> hasEnded c0"
    by (simp_all add: c0_def g(1) IterativeQueryController_new_def hasEnded_def)
  obtain c1 i where m: "makeLatestInterest L c0 = (c1, Inr i)" using makeLatestInterest_unlinked [OF c0(3,4)] by blast
  then obtain l where l: "c1 = c0\<lparr>iq_lastLabelType := l\<rparr>" using makeLatestInterest_frame(1) by blast
  have "iq_nsCache (dg_ctr g) = None" by (simp add: g(1) IterativeQueryController_new_def)
  then have s: "start L no_cache W fuel (dg_ctr g) = (act (Sent i) c1, Inr ())" for fuel
    by (simp add: start_uncached m flip: c0_def)
  have o: "iq_out (act (Sent i) c1) = [Sent i]" "iq_nsCache (act (Sent i) c1) = None" using c0 l by (simp_all add: act_def)
  have "iq_step (dg_ctr g) = QUERY_STEP_QUERY_NS" "iq_nTryComps (dg_ctr g) = 1" "iq_dstLabel (dg_ctr g) = dst"
    "iq_nFinishedComps (dg_ctr g) \<le> length (iq_dstLabel (dg_ctr g))"
    using g(2) by (simp_all add: g(1) IterativeQueryController_new_def)
  moreover have "\<not> reported (act (Sent i) c1)" using o by (simp add: reported_def)
  ultimately show thesis
    using that [OF s o] start_progress [OF no_cache_ok _ _ _ _ s, of "Suc (length dst)"] by simp
qed

text \<open>
  C21: The exit code 0 means a validated answer: the resolver ended with a packet that the validator accepted, and that very packet, and
  nothing else, was written when an output file was given. (Only with the exit code 1 can the file hold a packet that was not accepted.)
\<close>

theorem dig_success_validated:
  assumes "dig_main L V net fuel opt = Inr (out, 0)"
  shows "\<exists>data. V data \<and> out = (if go_dstFile opt = [] then [] else [(go_dstFile opt, data)])"
proof -
  obtain g g' where g: "prepare_dig opt = Some g" and r: "run_dig L V net fuel g = (g', Inr ())"
    and o: "out = dg_output g'" "\<not> dg_hasError g'"
    using assms by (auto simp: dig_main_def split: option.splits prod.splits sum.splits if_splits)
  obtain dst where dst: "go_name opt = Some dst" "dg_output g = []" "dg_dstFile g = go_dstFile opt" "\<not> dg_stopped g"
    by (rule prepare_dig_Some [OF g]) auto
  obtain c i where c: "start L no_cache (dig_validator V g) 0 (dg_ctr g) = (c, Inr ())" "iq_out c = [Sent i]"
    by (rule start_dig [OF g dst(1)])
  have "dig_events L V net 0 fuel (g\<lparr>dg_ctr := c\<rparr>) = (g', Inr ())"
    using r c o(2) by (auto simp: run_dig_def dig_after_one dig_react_def split: prod.splits sum.splits if_splits)
  then have "\<exists>data. V data \<and> dg_output g' = saved_to (go_dstFile opt) data"
    using dig_events_validated [of "g\<lparr>dg_ctr := c\<rparr>" i "[]" L V net 0 fuel g'] c(2) dst o(2) by simp
  then show ?thesis by (simp add: o(1) saved_to_def)
qed

section \<open>The client ends\<close>

lemma dig_round_progress:
  assumes "ns_answers net" "waiting (dg_ctr g)" "iq_nsCache (dg_ctr g) = None" "iq_out (dg_ctr g) = Sent i # rest"
    and r: "dig_round L V (net n i) g i = (c, x)"
  shows "x \<noteq> Inl Diverges \<and> (x = Inr () \<longrightarrow> iq_nsCache c = None \<and> (reported c \<or> waiting c \<and> rank c < rank (dg_ctr g)))"
proof (cases "net n i")
  case None
  then show ?thesis using r assms(3) by (auto simp: dig_round_def onTimeout_def reported_def abort_def act_def)
next
  case (Some d)
  let ?c = "(dg_ctr g)\<lparr>iq_out := []\<rparr>" and ?W = "dig_validator V g"
  have c: "iq_inv ?c" "\<not> hasEnded ?c" "rank ?c = rank (dg_ctr g)" "iq_nsCache ?c = None" "iq_step ?c = iq_step (dg_ctr g)"
    using assms(2,3) by (simp_all add: waiting_def iq_inv_def hasEnded_def rank_def)
  have o: "onData L no_cache ?W fuel ?c d = (c, x)" for fuel
    using r Some by (simp add: dig_round_def onData_uncached [OF c(4)])
  have "ns_answer d \<or> iq_step ?c = QUERY_STEP_QUERY_RR" using waiting_answer [OF assms(2,1,4) Some] c(5) by simp
  from onData_progress [OF no_cache_ok this c(1,2) _ o [of "rank ?c"]] show ?thesis
    using onData_keeps_uncached [OF _ c(4), of L no_cache ?W 0 d c] o [of 0] c(3) by auto
qed

lemma dig_events_ends:
  "ns_answers net \<Longrightarrow> waiting (dg_ctr g) \<Longrightarrow> iq_nsCache (dg_ctr g) = None \<Longrightarrow> rank (dg_ctr g) \<le> fuel \<Longrightarrow>
   ends (dig_events L V net n fuel g)"
proof (induction fuel arbitrary: n g)
  case 0
  then show ?case by (auto simp: waiting_def rank_def hasEnded_def split: if_splits)
next
  case (Suc fuel)
  obtain i rest where i: "iq_out (dg_ctr g) = Sent i # rest" using Suc.prems(2) by (auto simp: waiting_def)
  obtain c x where c: "dig_round L V (net n i) g i = (c, x)" by fastforce
  note P = dig_round_progress [OF Suc.prems(1-3) i c]
  show ?case
  proof (cases x)
    case (Inl e)
    then show ?thesis using P c by (simp add: dig_events_Sent [OF i] dig_after_def ends_def)
  next
    case (Inr u)
    then obtain a where a: "iq_out c = [a]" using dig_round_out c by blast
    have "ends (dig_events L V net (Suc n) fuel (g\<lparr>dg_ctr := c\<rparr>))" if "a = Sent j" for j
      using Suc.IH [OF Suc.prems(1), of "g\<lparr>dg_ctr := c\<rparr>" "Suc n"] P Inr a that Suc.prems(4) by (auto simp: reported_def)
    then show ?thesis
      using c Inr a by (cases a) (simp_all add: dig_events_Sent [OF i] dig_react_def Let_def)
  qed
qed

text \<open>
  C25: The client ends, whatever the network does, provided that NS queries are answered in the ways of the protocol or not at all: after at most as
  many exchanges as the name has components, plus one, it exits with 0 or 1. The only other end is the failed assertion of
  \<open>calculateSkip\<close> (or undefined behaviour) on an answer with a foreign name.
\<close>

theorem dig_terminates:
  assumes net: "\<And>n i d. net n i = Some d \<Longrightarrow> last (i_name i) = NS_RR_TYPE \<Longrightarrow> ns_answer d"
    and fuel: "\<And>dst. go_name opt = Some dst \<Longrightarrow> length dst < fuel"
  shows "(\<exists>out code. dig_main L V net fuel opt = Inr (out, code) \<and> code \<in> {0, 1}) \<or>
         (\<exists>e. dig_main L V net fuel opt = Inl e \<and> e \<in> {AssertFailed, Undefined})"
proof (cases "prepare_dig opt")
  case None
  then show ?thesis by (simp add: dig_main_def)
next
  case (Some g)
  obtain dst where dst: "go_name opt = Some dst" by (rule prepare_dig_Some [OF Some])
  obtain c i where c: "start L no_cache (dig_validator V g) 0 (dg_ctr g) = (c, Inr ())" "iq_out c = [Sent i]" "iq_nsCache c = None"
    "waiting c" "rank c \<le> Suc (length dst)"
    by (rule start_dig [OF Some dst])
  have "ns_answers net" using net by (auto simp: ns_answers_def)
  then have "ends (dig_events L V net 0 fuel (g\<lparr>dg_ctr := c\<rparr>))"
    using dig_events_ends [of net "g\<lparr>dg_ctr := c\<rparr>"] c(3,4,5) fuel [OF dst] by simp
  then show ?thesis
    using Some c by (auto simp: dig_main_def run_dig_def std_exception_def dig_after_one dig_react_def ends_def split: prod.splits sum.splits)
qed

section \<open>The timeout option\<close>

definition with_life :: "int \<Rightarrow> dig \<Rightarrow> dig" where
  "with_life t g = g\<lparr>dg_interestLifetime := t\<rparr>"

lemma with_life_simps [simp]:
  "dg_ctr (with_life t g) = dg_ctr g" "dg_hasError (with_life t g) = dg_hasError g" "dg_stopped (with_life t g) = dg_stopped g"
  "dg_output (with_life t g) = dg_output g" "dig_validator V (with_life t g) = dig_validator V g"
  "(with_life t g)\<lparr>dg_ctr := c\<rparr> = with_life t (g\<lparr>dg_ctr := c\<rparr>)"
  "(with_life t g)\<lparr>dg_hasError := True\<rparr> = with_life t (g\<lparr>dg_hasError := True\<rparr>)"
  by (simp_all add: with_life_def dig_validator_def)

lemma onSucceed_dig_life: "onSucceed_dig V data (with_life t g) = with_life t (onSucceed_dig V data g)"
  by (simp add: onSucceed_dig_def onDataValidated_dig_def onDataValidationFailed_dig_def stop_dig_def with_life_def Let_def)

lemma onFail_dig_life: "onFail_dig (with_life t g) = with_life t (onFail_dig g)"
  by (simp add: onFail_dig_def stop_dig_def with_life_def)

lemma dig_callbacks_life: "dig_callbacks V as (with_life t g) = with_life t (dig_callbacks V as g)"
  by (induction V as g rule: dig_callbacks.induct) (simp_all add: onSucceed_dig_life onFail_dig_life)

lemma dig_after_life: "dig_after V (with_life t g) r = map_prod (with_life t) (\<lambda>x. x) (dig_after V g r)"
  by (simp add: dig_after_def dig_callbacks_life)

lemma and_then_map:
  assumes "\<And>s x. k' (f s) x = map_prod f (\<lambda>x. x) (k s x)"
  shows "and_then (map_prod f (\<lambda>x. x) r) k' = map_prod f (\<lambda>x. x) (and_then r k)"
  by (cases r; cases "snd r") (auto simp: assms)

lemma dig_events_life: "dig_events L V net n fuel (with_life t g) = map_prod (with_life t) (\<lambda>x. x) (dig_events L V net n fuel g)"
proof (induction fuel arbitrary: n g)
  case 0
  then show ?case by (simp add: dig_events.simps split: list.split iq_action.split)
next
  case (Suc fuel)
  show ?case
    by (subst (1 2) dig_events.simps)
       (auto simp: dig_after_life Let_def Suc.IH id_def cong: option.case_cong intro!: and_then_map split: list.split iq_action.split)
qed

lemma run_dig_life: "run_dig L V net fuel (with_life t g) = map_prod (with_life t) (\<lambda>x. x) (run_dig L V net fuel g)"
proof -
  let ?r = "\<lambda>g. and_then (dig_after V g (start L no_cache (dig_validator V g) 0 (dg_ctr g))) (\<lambda>g _. dig_events L V net 0 fuel g)"
  have "?r (with_life t g) = map_prod (with_life t) (\<lambda>x. x) (?r g)"
    by (simp add: dig_after_life dig_events_life and_then_map)
  then show ?thesis
    by (cases "?r g"; cases "snd (?r g)") (auto simp: run_dig_def)
qed

text \<open>
  C33: The option for the timeout has no effect: the resolver is made with the default lifetime before the option is stored, so
  two runs that differ only in it behave alike on every network, which sees the lifetime in each Interest.
\<close>

theorem dig_timeout_ignored:
  assumes "0 \<le> t" "0 \<le> go_timeout opt"
  shows "dig_main L V net fuel (opt\<lparr>go_timeout := t\<rparr>) = dig_main L V net fuel opt"
proof (cases "prepare_dig opt")
  case None
  then have "prepare_dig (opt\<lparr>go_timeout := t\<rparr>) = None"
    using assms by (auto simp: prepare_dig_def Let_def split: option.splits if_splits)
  with None show ?thesis by (simp add: dig_main_def)
next
  case (Some g)
  then have "prepare_dig (opt\<lparr>go_timeout := t\<rparr>) = Some (with_life (t * 1000) g)"
    using assms
    by (auto simp: prepare_dig_def NdnsDig_new_def setInterestLifetime_dig_def setDstFile_def setStartZone_def with_life_def Let_def
        split: option.splits if_splits)
  with Some show ?thesis
    by (cases "run_dig L V net fuel g"; cases "snd (run_dig L V net fuel g)") (simp_all add: dig_main_def run_dig_life)
qed

text \<open>A query on a network that is silent.\<close>

definition dig_sample :: dig_options where
  "dig_sample = \<lparr>go_name = Some [generic ''net'', generic ''b''], go_timeout = 4, go_rrtype = ''TXT'', go_dstFile = ''out'',
     go_start = [generic ''net''], go_notValidate = False\<rparr>"

theorem dig_timeout_ignored_witness:
  "dig_main ndn0 (\<lambda>_. True) (\<lambda>_ _. None) 3 (dig_sample\<lparr>go_timeout := 60\<rparr>) = dig_main ndn0 (\<lambda>_. True) (\<lambda>_ _. None) 3 dig_sample"
  by (rule dig_timeout_ignored) (simp_all add: dig_sample_def)

theorem dig_terminates_witness:
  "(\<exists>out code. dig_main ndn0 (\<lambda>_. True) (\<lambda>_ _. None) 3 dig_sample = Inr (out, code) \<and> code \<in> {0, 1}) \<or>
   (\<exists>e. dig_main ndn0 (\<lambda>_. True) (\<lambda>_ _. None) 3 dig_sample = Inl e \<and> e \<in> {AssertFailed, Undefined})"
  by (rule dig_terminates) (simp_all add: dig_sample_def)

definition apex_sample :: data where
  "apex_sample = new_data (rr_name [generic ''net''] [] TXT_RR_TYPE @ [Component 54 (unary 3)])"

theorem dig_success_validated_witness:
  "\<exists>out data. dig_main ndn0 (\<lambda>d. d = apex_sample) (\<lambda>_ _. Some apex_sample) 1 (dig_sample\<lparr>go_name := Some [generic ''net'']\<rparr>) = Inr (out, 0) \<and>
     data = apex_sample \<and> out = [(''out'', data)]"
proof -
  let ?opt = "dig_sample\<lparr>go_name := Some [generic ''net'']\<rparr>"
  obtain re where f: "fromData ndn0 Response_default [generic ''net''] apex_sample = (re, Inr True)"
    by (rule fromData_readable [of apex_sample "[generic ''net'']" "[]" TXT_RR_TYPE "Component 54 (unary 3)"])
       (simp_all add: apex_sample_def rr_name_def)
  have t: "to_content_type (d_contentType apex_sample) = NDNS_BLOB" by (simp add: apex_sample_def)
  obtain out where o: "dig_main ndn0 (\<lambda>d. d = apex_sample) (\<lambda>_ _. Some apex_sample) 1 ?opt = Inr (out, 0)"
    using f t
    by (simp add: dig_main_def prepare_dig_def dig_sample_def Let_def NdnsDig_new_def setInterestLifetime_dig_def setDstFile_def
        setStartZone_def setStartComponentIndex_def IterativeQueryController_new_def run_dig_def start_uncached makeLatestInterest_def act_def
        dig_after_one dig_react_def dig_events.simps dig_validator_def onData_uncached onData_next_def onDataValidated_def hasEnded_def parseFinalResponse_def
        onSucceed_dig_def onDataValidated_dig_def stop_dig_def)
  then obtain data where "data = apex_sample" "out = [(''out'', data)]"
    using dig_success_validated [OF o] by (auto simp: dig_sample_def)
  with o show ?thesis by blast
qed

end
