(* ===== verification/Resolution.thy ===== *)
theory Resolution
  imports DenialProps DigToolProps
begin

text \<open>
  The query client against the name server: the client walks down the labels of the name inside the zone of the server, past AUTH
  records and denials, and ends with the stored record.
\<close>

section \<open>The resolver inside one zone\<close>

text \<open>The last delegation, if any, gives a forwarding hint.\<close>

definition hinted :: "ndn \<Rightarrow> unit iqc \<Rightarrow> bool" where
  [simp]: "hinted L c \<longleftrightarrow> (case iq_lastLink c of None \<Rightarrow> True | Some b \<Rightarrow> linkDelegations L b \<noteq> None)"

lemma hinted_hint:
  assumes "hinted L c"
  obtains hint where "lift_err c (case iq_lastLink c of None \<Rightarrow> Inr [] | Some b \<Rightarrow> or_throw Tlv_Error (linkDelegations L b)) = (c, Inr hint)"
  using assms by (cases "iq_lastLink c") auto

text \<open>The resolver, arrived at the zone \<open>Z\<close>, waits for the answer to its query for the type \<open>t\<close> at the label \<open>l\<close>.\<close>

definition asking :: "ndn \<Rightarrow> name \<Rightarrow> name \<Rightarrow> component \<Rightarrow> unit iqc \<Rightarrow> name \<Rightarrow> component \<Rightarrow> bool" where
  "asking L Z label ty c l t \<longleftrightarrow>
     iq_dstLabel c = Z @ label \<and> iq_rrType c = ty \<and> iq_nFinishedComps c = length Z \<and> hinted L c \<and>
     iq_nsCache c = None \<and> iq_lastLabelType c = l @ [t] \<and> (\<exists>i. iq_out c = [Sent i] \<and> i_name i = rr_name Z l t)"

definition asking_ns :: "ndn \<Rightarrow> name \<Rightarrow> name \<Rightarrow> component \<Rightarrow> unit iqc \<Rightarrow> nat \<Rightarrow> bool" where
  "asking_ns L Z label ty c j \<longleftrightarrow>
     asking L Z label ty c (take j label) NS_RR_TYPE \<and> iq_step c = QUERY_STEP_QUERY_NS \<and> iq_nTryComps c = j \<and> 1 \<le> j \<and> j \<le> length label"

definition asking_rr :: "ndn \<Rightarrow> name \<Rightarrow> name \<Rightarrow> component \<Rightarrow> unit iqc \<Rightarrow> bool" where
  "asking_rr L Z label ty c \<longleftrightarrow> asking L Z label ty c label ty \<and> iq_step c = QUERY_STEP_QUERY_RR"

text \<open>Before an Interest is made for it.\<close>

definition ready :: "ndn \<Rightarrow> name \<Rightarrow> name \<Rightarrow> component \<Rightarrow> unit iqc \<Rightarrow> bool" where
  "ready L Z label ty c \<longleftrightarrow>
     iq_dstLabel c = Z @ label \<and> iq_rrType c = ty \<and> iq_nFinishedComps c = length Z \<and> hinted L c \<and>
     iq_nsCache c = None \<and> iq_out c = []"

lemma ready_rr:
  assumes "ready L Z label ty c" "iq_step c = QUERY_STEP_QUERY_RR"
  obtains c' i where "makeLatestInterest L c = (c', Inr i)" "asking_rr L Z label ty (act (Sent i) c')"
proof -
  have "hinted L c" using assms(1) by (simp add: ready_def)
  then obtain hint where "lift_err c (case iq_lastLink c of None \<Rightarrow> Inr [] | Some b \<Rightarrow> or_throw Tlv_Error (linkDelegations L b)) = (c, Inr hint)"
    by (rule hinted_hint)
  with assms that show thesis
    by (simp add: ready_def asking_rr_def asking_def makeLatestInterest_def Let_def latest_query_def act_def toInterest_def rr_name_def)
qed

lemma ready_ns:
  assumes "ready L Z label ty c" "iq_step c = QUERY_STEP_QUERY_NS" "iq_nTryComps c = j" "1 \<le> j" "j \<le> length label"
  obtains c' i where "makeLatestInterest L c = (c', Inr i)" "asking_ns L Z label ty (act (Sent i) c') j"
proof -
  have "hinted L c" using assms(1) by (simp add: ready_def)
  then obtain hint where "lift_err c (case iq_lastLink c of None \<Rightarrow> Inr [] | Some b \<Rightarrow> or_throw Tlv_Error (linkDelegations L b)) = (c, Inr hint)"
    by (rule hinted_hint)
  with assms that show thesis
    by (simp add: ready_def asking_ns_def asking_def makeLatestInterest_def Let_def latest_query_def act_def toInterest_def rr_name_def)
qed

lemma asking_ready: "asking L Z label ty c l t \<Longrightarrow> ready L Z label ty (c\<lparr>iq_out := []\<rparr>)"
  by (simp add: asking_def ready_def)

text \<open>An AUTH record: one more component, or the record itself.\<close>

lemma auth_round:
  assumes c: "asking_ns L Z label ty c j" and ty: "ty \<noteq> NS_RR_TYPE"
    and a: "to_content_type (d_contentType a) = NDNS_AUTH" "case W of None \<Rightarrow> True | Some valid \<Rightarrow> valid a"
  obtains c' where "onData L no_cache W 0 (c\<lparr>iq_out := []\<rparr>) a = (c', Inr ())"
    "if j < length label then asking_ns L Z label ty c' (Suc j) else asking_rr L Z label ty c'"
proof -
  let ?c = "c\<lparr>iq_out := []\<rparr>"
  have r: "ready L Z label ty ?c" using c by (auto simp: asking_ns_def intro: asking_ready)
  then have cache: "iq_nsCache ?c = None" by (simp add: ready_def)
  define c1 where "c1 = tried_all (?c\<lparr>iq_nTryComps := Suc j\<rparr>)"
  have c1: "answer_ns L ?c a NDNS_AUTH = (c1, Inr ())"
    using c by (simp add: answer_ns_def ns_transition_def c1_def asking_ns_def)
  have ready1: "ready L Z label ty c1" "\<not> hasEnded c1"
    "if j < length label then iq_step c1 = QUERY_STEP_QUERY_NS \<and> iq_nTryComps c1 = Suc j else iq_step c1 = QUERY_STEP_QUERY_RR"
    using r c ty by (simp_all add: c1_def tried_all_def ready_def hasEnded_def asking_ns_def)
  obtain c2 i where m: "makeLatestInterest L c1 = (c2, Inr i)"
    and k: "if j < length label then asking_ns L Z label ty (act (Sent i) c2) (Suc j) else asking_rr L Z label ty (act (Sent i) c2)"
  proof (cases "j < length label")
    case True
    then show ?thesis using ready_ns [OF ready1(1), of "Suc j"] ready1(3) that by auto
  next
    case False
    then show ?thesis using ready_rr [OF ready1(1)] ready1(3) that by auto
  qed
  have "iq_step ?c = QUERY_STEP_QUERY_NS" using c by (simp add: asking_ns_def)
  then have "onDataValidated L no_cache ?c a NDNS_AUTH = (c2, Inr (Some i))"
    using c1 m ready1(2) cache by (simp add: onDataValidated_def Let_def)
  then have "onData_next L no_cache W ?c a = (c2, Inr (Some i))"
    using a by (auto simp: onData_next_def split: option.splits)
  with k show thesis using that by (simp add: onData_uncached [OF cache])
qed

text \<open>A denial: the record itself is asked for.\<close>

lemma denial_round:
  assumes c: "asking_ns L Z label ty c j"
    and a: "onData_next L no_cache W (c\<lparr>iq_out := []\<rparr>) ans =
              onDataValidated L no_cache (c\<lparr>iq_out := [], iq_doe := Some doe\<rparr>) doe NDNS_DOE"
      "isAbsentByDoe L (c\<lparr>iq_out := [], iq_doe := Some doe\<rparr>) doe = Inr True"
  obtains c' where "onData L no_cache W 0 (c\<lparr>iq_out := []\<rparr>) ans = (c', Inr ())" "asking_rr L Z label ty c'"
proof -
  let ?c = "c\<lparr>iq_out := [], iq_doe := Some doe\<rparr>"
  have r: "ready L Z label ty (?c\<lparr>iq_step := QUERY_STEP_QUERY_RR\<rparr>)" using c by (simp add: asking_ns_def asking_def ready_def)
  then have cache: "iq_nsCache ?c = None" "iq_nsCache (c\<lparr>iq_out := []\<rparr>) = None" by (simp_all add: ready_def)
  have "answer_ns L ?c doe NDNS_DOE = (?c\<lparr>iq_step := QUERY_STEP_QUERY_RR\<rparr>, Inr ())"
    using a(2) c by (simp add: answer_ns_def ns_transition_def tried_all_def asking_ns_def asking_def)
  moreover obtain c2 i where m: "makeLatestInterest L (?c\<lparr>iq_step := QUERY_STEP_QUERY_RR\<rparr>) = (c2, Inr i)"
    "asking_rr L Z label ty (act (Sent i) c2)"
    by (rule ready_rr [OF r]) simp
  moreover have "iq_step ?c = QUERY_STEP_QUERY_NS" using c by (simp add: asking_ns_def)
  ultimately have "onDataValidated L no_cache ?c doe NDNS_DOE = (c2, Inr (Some i))"
    using cache(1) by (simp add: onDataValidated_def Let_def hasEnded_def)
  with m(2) a(1) show thesis using that by (simp add: onData_uncached [OF cache(2)])
qed

text \<open>The record.\<close>

lemma record_round:
  assumes c: "asking_rr L Z label ty c" and d: "to_content_type (d_contentType d) \<noteq> NDNS_NACK"
    and v: "case W of None \<Rightarrow> True | Some valid \<Rightarrow> valid d" and re: "fromData L Response_default Z d = (re, Inr b)"
  obtains c' where "onData L no_cache W 0 (c\<lparr>iq_out := []\<rparr>) d = (c', Inr ())" "iq_out c' = [Succeeded d re]"
proof -
  let ?c = "c\<lparr>iq_out := []\<rparr>"
  have cache: "iq_nsCache ?c = None" using c by (simp add: asking_rr_def asking_def)
  have "onDataValidated L no_cache ?c d ct = (act (Succeeded d re) (?c\<lparr>iq_step := QUERY_STEP_ANSWER_STUB\<rparr>), Inr None)" for ct
    using c cache re by (simp add: onDataValidated_def Let_def hasEnded_def asking_rr_def asking_def parseFinalResponse_def)
  then have "onData_next L no_cache W ?c d = (act (Succeeded d re) (?c\<lparr>iq_step := QUERY_STEP_ANSWER_STUB\<rparr>), Inr None)"
    using d v by (simp add: onData_next_def split: option.splits)
  then show thesis using that by (simp add: onData_uncached [OF cache] act_def)
qed

section \<open>The client on the way\<close>

text \<open>An answer to an NS query that does not lead out of the zone: an AUTH record, or a denial.\<close>

definition passes :: "ndn \<Rightarrow> (data \<Rightarrow> bool) option \<Rightarrow> name \<Rightarrow> data \<Rightarrow> bool" where
  "passes L W l ans \<longleftrightarrow>
     to_content_type (d_contentType ans) = NDNS_AUTH \<and> (case W of None \<Rightarrow> True | Some valid \<Rightarrow> valid ans) \<or>
     (\<exists>doe. \<forall>c :: unit iqc.
        onData_next L no_cache W c ans = onDataValidated L no_cache (c\<lparr>iq_doe := Some doe\<rparr>) doe NDNS_DOE \<and>
        (iq_lastLabelType c = l @ [NS_RR_TYPE] \<longrightarrow> isAbsentByDoe L c doe = Inr True))"

lemma passes_round:
  assumes c: "asking_ns L Z label ty c j" and ty: "ty \<noteq> NS_RR_TYPE" and p: "passes L W (take j label) ans"
  obtains c' where "onData L no_cache W 0 (c\<lparr>iq_out := []\<rparr>) ans = (c', Inr ())"
    "asking_rr L Z label ty c' \<or> j < length label \<and> asking_ns L Z label ty c' (Suc j)"
proof (cases "to_content_type (d_contentType ans) = NDNS_AUTH \<and> (case W of None \<Rightarrow> True | Some valid \<Rightarrow> valid ans)")
  case True
  obtain c' where "onData L no_cache W 0 (c\<lparr>iq_out := []\<rparr>) ans = (c', Inr ())"
    "if j < length label then asking_ns L Z label ty c' (Suc j) else asking_rr L Z label ty c'"
    by (rule auth_round [OF c ty]) (use True in auto)
  then show ?thesis using that by (auto split: if_splits)
next
  case False
  then obtain doe where doe: "\<And>c :: unit iqc. onData_next L no_cache W c ans = onDataValidated L no_cache (c\<lparr>iq_doe := Some doe\<rparr>) doe NDNS_DOE"
    "\<And>c :: unit iqc. iq_lastLabelType c = take j label @ [NS_RR_TYPE] \<Longrightarrow> isAbsentByDoe L c doe = Inr True"
    using p by (auto simp: passes_def)
  have "isAbsentByDoe L (c\<lparr>iq_out := [], iq_doe := Some doe\<rparr>) doe = Inr True"
    by (rule doe(2)) (use c in \<open>simp add: asking_ns_def asking_def\<close>)
  moreover have "onData_next L no_cache W (c\<lparr>iq_out := []\<rparr>) ans =
      onDataValidated L no_cache (c\<lparr>iq_out := [], iq_doe := Some doe\<rparr>) doe NDNS_DOE"
    using doe(1) [of "c\<lparr>iq_out := []\<rparr>"] by simp
  ultimately obtain c' where "onData L no_cache W 0 (c\<lparr>iq_out := []\<rparr>) ans = (c', Inr ())" "asking_rr L Z label ty c'"
    using denial_round [OF c] by blast
  then show ?thesis using that by blast
qed

text \<open>What the client has done when it is through.\<close>

definition dig_done :: "(data \<Rightarrow> bool) \<Rightarrow> data \<Rightarrow> dig \<Rightarrow> (dig, unit) res \<Rightarrow> bool" where
  "dig_done V d g r \<longleftrightarrow>
     (\<exists>g'. r = (g', Inr ()) \<and> dg_hasError g' = (dg_hasError g \<or> \<not> V d) \<and>
        dg_output g' = saved_to (dg_dstFile g) d @ dg_output g)"

lemma dig_done_ctr [simp]: "dig_done V d (g\<lparr>dg_ctr := c\<rparr>) r = dig_done V d g r"
  by (simp add: dig_done_def)

lemma dig_done_rr:
  assumes c: "asking_rr L Z label ty (dg_ctr g)" and net: "\<And>n i. i_name i = rr_name Z label ty \<Longrightarrow> net n i = Some d"
    and d: "to_content_type (d_contentType d) \<noteq> NDNS_NACK" "case dig_validator V g of None \<Rightarrow> True | Some valid \<Rightarrow> valid d"
      "fromData L Response_default Z d = (re, Inr b)" and fuel: "0 < fuel"
  shows "dig_done V d g (dig_events L V net n fuel g)"
proof -
  obtain i where i: "iq_out (dg_ctr g) = Sent i # []" "i_name i = rr_name Z label ty"
    using c by (auto simp: asking_rr_def asking_def)
  obtain f where f: "fuel = Suc f" using fuel gr0_conv_Suc by blast
  obtain c' where "onData L no_cache (dig_validator V g) 0 ((dg_ctr g)\<lparr>iq_out := []\<rparr>) d = (c', Inr ())" "iq_out c' = [Succeeded d re]"
    by (rule record_round [OF c d(1,2,3)])
  then have "dig_events L V net n fuel g = (onSucceed_dig V d (g\<lparr>dg_ctr := c'\<rparr>), Inr ())"
    using net [OF i(2)] by (simp add: f dig_events_Sent [OF i(1)] dig_round_def dig_react_def)
  then show ?thesis by (simp add: dig_done_def saved_to_def)
qed

lemma dig_events_again:
  assumes "iq_out (dg_ctr g) = Sent i # []" "net n i = Some ans"
    and "onData L no_cache (dig_validator V g) 0 ((dg_ctr g)\<lparr>iq_out := []\<rparr>) ans = (c', Inr ())" "iq_out c' = [Sent k]" "\<not> dg_stopped g"
  shows "dig_events L V net n (Suc f) g = dig_events L V net (Suc n) f (g\<lparr>dg_ctr := c'\<rparr>)"
  using assms by (simp add: dig_events_Sent [OF assms(1)] dig_round_def dig_react_def)

lemma dig_done_ns:
  assumes ty: "ty \<noteq> NS_RR_TYPE" and net: "\<And>n i. i_name i = rr_name Z label ty \<Longrightarrow> net n i = Some d"
    and ns: "\<And>n i j. i_name i = rr_name Z (take j label) NS_RR_TYPE \<Longrightarrow> 1 \<le> j \<Longrightarrow> j \<le> length label \<Longrightarrow>
               \<exists>ans. net n i = Some ans \<and> passes L W (take j label) ans"
    and d: "to_content_type (d_contentType d) \<noteq> NDNS_NACK" "case W of None \<Rightarrow> True | Some valid \<Rightarrow> valid d"
      "fromData L Response_default Z d = (re, Inr b)"
  shows "asking_ns L Z label ty (dg_ctr g) j \<Longrightarrow> dig_validator V g = W \<Longrightarrow> \<not> dg_stopped g \<Longrightarrow> length label + 1 < fuel + j \<Longrightarrow>
    dig_done V d g (dig_events L V net n fuel g)"
proof (induction fuel arbitrary: n g j)
  case 0
  then show ?case by (simp add: asking_ns_def)
next
  case (Suc f)
  note c = Suc.prems(1)
  obtain i where i: "iq_out (dg_ctr g) = Sent i # []" "i_name i = rr_name Z (take j label) NS_RR_TYPE"
    and j: "1 \<le> j" "j \<le> length label"
    using c by (auto simp: asking_ns_def asking_def)
  obtain ans where ans: "net n i = Some ans" "passes L W (take j label) ans" using ns [OF i(2) j] by blast
  obtain c' where c': "onData L no_cache W 0 ((dg_ctr g)\<lparr>iq_out := []\<rparr>) ans = (c', Inr ())"
    "asking_rr L Z label ty c' \<or> j < length label \<and> asking_ns L Z label ty c' (Suc j)"
    by (rule passes_round [OF c ty ans(2)])
  obtain k where "iq_out c' = [Sent k]" using c'(2) by (auto simp: asking_rr_def asking_ns_def asking_def)
  then have e: "dig_events L V net n (Suc f) g = dig_events L V net (Suc n) f (g\<lparr>dg_ctr := c'\<rparr>)"
    using dig_events_again [where net = net and n = n, OF i(1), where ans = ans] ans(1) c'(1) Suc.prems(2,3) by simp
  have v: "dig_validator V (g\<lparr>dg_ctr := c'\<rparr>) = W" using Suc.prems(2) by (simp add: dig_validator_def)
  have "dig_done V d (g\<lparr>dg_ctr := c'\<rparr>) (dig_events L V net (Suc n) f (g\<lparr>dg_ctr := c'\<rparr>))"
  proof (cases "asking_rr L Z label ty c'")
    case True
    then show ?thesis using dig_done_rr [of L Z label ty "g\<lparr>dg_ctr := c'\<rparr>" net d V] net d v Suc.prems(4) j by simp
  next
    case False
    then show ?thesis using Suc.IH [of "g\<lparr>dg_ctr := c'\<rparr>" "Suc j"] c'(2) v Suc.prems(3,4) by simp
  qed
  then show ?case by (simp add: e)
qed

section \<open>The server on the network\<close>

text \<open>A network that leads to one server; the n-th Interest arrives at the time \<open>now n\<close>. A query changes only the list of packets
  the server has put, so each Interest meets the same server.\<close>

definition served :: "ndn \<Rightarrow> sqlite \<Rightarrow> (nat \<Rightarrow> nat) \<Rightarrow> server \<Rightarrow> nat \<Rightarrow> interest \<Rightarrow> data option" where
  "served L E now s n i =
     (case onInterest L E (now n) s i of
        (s', Inr _) \<Rightarrow> if srv_out s' = srv_out s then None else Some (hd (srv_out s'))
      | (s', Inl _) \<Rightarrow> None)"

lemma served_put: "onInterest L E (now n) s i = (put d s, Inr ()) \<Longrightarrow> served L E now s n i = Some d"
  by (simp add: served_def put_def)

lemma served_stored:
  assumes s: "server_ok L E s" and n: "i_name i = rr_name (zone_name (ns_zone (srv_ns s))) l ty" "length (i_name i) < 2 ^ 64"
    and ty: "\<not> isVersion L ty" "ty \<noteq> NDNS_UPDATE_LABEL"
    and d: "srv_get L E s (l, ty) = Some (v, ttl, b)" "blockData L b = Some d"
  shows "served L E now s n i = Some d"
proof (rule served_put)
  let ?re = "\<lparr>m_rrLabel = l, m_rrType = ty, m_version = no_component\<rparr>"
  have "comp_empty (m_version ?re)" by (simp add: comp_empty_def)
  with d show "onInterest L E (now n) s i = (put d s, Inr ())"
    using handleQuery_found [OF s, of ?re] by (simp add: onInterest_lookup [OF n ty] match_key_def)
qed

lemma served_passes:
  assumes s: "server_ok L E s" and L: "ndn_ok L" and key: "\<And>x. signData L SigningDefault x \<noteq> None"
    and ch: "chained L E (srv_ptr s) (srv_db s) ks"
    and order: "sorted_wrt (nameLess L) (map key_name ks)" and two: "2 \<le> length ks"
    and n: "i_name i = rr_name (zone_name (ns_zone (srv_ns s))) l NS_RR_TYPE" "length (i_name i) < 2 ^ 64"
    and ty: "\<not> isVersion L NS_RR_TYPE"
    and path: "\<And>v ttl b. srv_get L E s (l, NS_RR_TYPE) = Some (v, ttl, b) \<Longrightarrow>
                 \<exists>a. blockData L b = Some a \<and> to_content_type (d_contentType a) = NDNS_AUTH"
    and V: "\<And>k v ttl b x. srv_get L E s k = Some (v, ttl, b) \<Longrightarrow> blockData L b = Some x \<Longrightarrow> V x"
    and W: "W = Some V \<or> W = None"
  shows "\<exists>ans. served L E now s n i = Some ans \<and> passes L W l ans"
proof -
  have W': "case W of None \<Rightarrow> True | Some valid \<Rightarrow> valid x" if "V x" for x using W that by auto
  have ty': "NS_RR_TYPE \<noteq> NDNS_UPDATE_LABEL" by (simp add: label_defs)
  show ?thesis
  proof (cases "srv_get L E s (l, NS_RR_TYPE)")
    case (Some r)
    then obtain v ttl b where r: "srv_get L E s (l, NS_RR_TYPE) = Some (v, ttl, b)" by (cases r) simp
    then obtain a where a: "blockData L b = Some a" "to_content_type (d_contentType a) = NDNS_AUTH" using path by blast
    then show ?thesis using served_stored [OF s n ty ty' r a(1)] W' [OF V [OF r a(1)]] by (simp add: passes_def)
  next
    case None
    obtain ans doe row where a: "onInterest L E (now n) s i = (put ans s, Inr ())"
      "srv_get L E s (lbl_of L row, DOE_RR_TYPE) = Some (row_value L row)" "blockData L (blk_of L row) = Some doe"
      "\<And>st V (c :: unit iqc). (case V of None \<Rightarrow> True | Some valid \<Rightarrow> valid doe) \<Longrightarrow>
         onData_next L st V c ans = onDataValidated L st (c\<lparr>iq_doe := Some doe\<rparr>) doe NDNS_DOE"
      "\<And>c :: unit iqc. iq_lastLabelType c = l @ [NS_RR_TYPE] \<Longrightarrow> isAbsentByDoe L c doe = Inr True"
      by (rule absent_answer [OF s L key ch order two n ty ty' None, of "now n"]) blast
    have "V doe" using V a(2,3) by (simp add: row_value_def)
    then have "passes L W l ans" using a(4) [OF W'] a(5) by (auto simp: passes_def)
    then show ?thesis using served_put [of L E now n s i ans] a(1) by blast
  qed
qed

lemma start_asking:
  assumes "prepare_dig opt = Some g" "go_name opt = Some (Z @ label)" "go_start opt = Z"
  obtains c where "start L no_cache W 0 (dg_ctr g) = (c, Inr ())"
    "if label = [] then asking_rr L Z label (generic (go_rrtype opt)) c else asking_ns L Z label (generic (go_rrtype opt)) c 1"
proof -
  let ?ty = "generic (go_rrtype opt)"
  define c0 where "c0 = (if length (iq_dstLabel (dg_ctr g)) = iq_nFinishedComps (dg_ctr g)
      then (dg_ctr g)\<lparr>iq_step := QUERY_STEP_QUERY_RR\<rparr> else dg_ctr g)"
  have g: "dg_ctr g = (IterativeQueryController_new (Z @ label) ?ty DEFAULT_INTEREST_LIFETIME None)\<lparr>iq_nFinishedComps := length Z\<rparr>"
    using assms by (auto elim!: prepare_dig_Some)
  have c0: "ready L Z label ?ty c0" "iq_nTryComps c0 = 1"
    "iq_step c0 = (if label = [] then QUERY_STEP_QUERY_RR else QUERY_STEP_QUERY_NS)"
    by (simp_all add: c0_def g IterativeQueryController_new_def ready_def)
  obtain c1 i where m: "makeLatestInterest L c0 = (c1, Inr i)"
    and a: "if label = [] then asking_rr L Z label ?ty (act (Sent i) c1) else asking_ns L Z label ?ty (act (Sent i) c1) 1"
  proof (cases "label = []")
    case True
    then show ?thesis using ready_rr [OF c0(1)] c0(3) that by auto
  next
    case False
    then show ?thesis using ready_ns [OF c0(1), of 1] c0(2,3) that by (auto simp: Suc_le_eq)
  qed
  have "iq_nsCache (dg_ctr g) = None" by (simp add: g IterativeQueryController_new_def)
  then have "start L no_cache W 0 (dg_ctr g) = (act (Sent i) c1, Inr ())"
    by (simp add: start_uncached m flip: c0_def)
  then show thesis using that a by blast
qed

text \<open>From the first query at the zone \<open>Z\<close> on, the client finds the packet \<open>d\<close>.\<close>

definition finds ::
  "ndn \<Rightarrow> (data \<Rightarrow> bool) \<Rightarrow> (nat \<Rightarrow> interest \<Rightarrow> data option) \<Rightarrow> (data \<Rightarrow> bool) option \<Rightarrow> name \<Rightarrow> name \<Rightarrow> component \<Rightarrow> data \<Rightarrow> bool" where
  "finds L V net W Z label ty d \<longleftrightarrow>
     (\<forall>g n fuel. (if label = [] then asking_rr L Z label ty (dg_ctr g) else asking_ns L Z label ty (dg_ctr g) 1) \<longrightarrow>
        dig_validator V g = W \<longrightarrow> \<not> dg_stopped g \<longrightarrow> length label < fuel \<longrightarrow> dig_done V d g (dig_events L V net n fuel g))"

text \<open>The Interests for records of the zone \<open>Z\<close> reach \<open>to\<close>.\<close>

definition leads_to :: "(nat \<Rightarrow> interest \<Rightarrow> data option) \<Rightarrow> name \<Rightarrow> (nat \<Rightarrow> interest \<Rightarrow> data option) \<Rightarrow> bool" where
  "leads_to net Z to \<longleftrightarrow> (\<forall>n i. prefix (Z @ [NDNS_ITERATIVE_QUERY]) (i_name i) \<longrightarrow> net n i = to n i)"

lemma leads_toD: "leads_to net Z to \<Longrightarrow> i_name i = rr_name Z l ty \<Longrightarrow> net n i = to n i"
  by (simp add: leads_to_def rr_name_def)

lemma finds_in_zone:
  fixes now :: "nat \<Rightarrow> nat"
  assumes s: "server_ok L E s" and L: "ndn_ok L" and key: "\<And>x. signData L SigningDefault x \<noteq> None"
    and ch: "chained L E (srv_ptr s) (srv_db s) ks"
    and order: "sorted_wrt (nameLess L) (map key_name ks)" and two: "2 \<le> length ks"
    and Z: "Z = zone_name (ns_zone (srv_ns s))" and net: "leads_to net Z (served L E now s)"
    and ty: "ty \<noteq> NS_RR_TYPE" "ty \<noteq> NDNS_UPDATE_LABEL" "\<not> isVersion L ty" "\<not> isVersion L NS_RR_TYPE"
    and len: "length Z + length label + 2 < 2 ^ 64"
    and rec: "srv_get L E s (label, ty) = Some (v, ttl, b)" "blockData L b = Some d"
      "to_content_type (d_contentType d) \<noteq> NDNS_NACK" "fromData L Response_default Z d = (re, Inr ok)"
    and path: "\<And>j v ttl b. 1 \<le> j \<Longrightarrow> j \<le> length label \<Longrightarrow> srv_get L E s (take j label, NS_RR_TYPE) = Some (v, ttl, b) \<Longrightarrow>
                 \<exists>a. blockData L b = Some a \<and> to_content_type (d_contentType a) = NDNS_AUTH"
    and V: "\<And>k v ttl b x. srv_get L E s k = Some (v, ttl, b) \<Longrightarrow> blockData L b = Some x \<Longrightarrow> V x"
    and W: "W = Some V \<or> W = None"
  shows "finds L V net W Z label ty d"
proof -
  have "V d" using V rec(1,2) by blast
  then have d: "case W of None \<Rightarrow> True | Some valid \<Rightarrow> valid d" using W by auto
  have rr: "net n i = Some d" if i: "i_name i = rr_name Z label ty" for n i
    using served_stored [OF s _ _ ty(3,2) rec(1,2), of i now n] i len leads_toD [OF net i] by (simp add: Z)
  have ns: "\<exists>ans. net n i = Some ans \<and> passes L W (take j label) ans"
    if i: "i_name i = rr_name Z (take j label) NS_RR_TYPE" and "1 \<le> j" "j \<le> length label" for n i j
    unfolding leads_toD [OF net i] by (rule served_passes [OF s L key ch order two _ _ ty(4) path V W]) (use that len in \<open>auto simp: Z\<close>)
  have "dig_done V d g (dig_events L V net n fuel g)"
    if c: "if label = [] then asking_rr L Z label ty (dg_ctr g) else asking_ns L Z label ty (dg_ctr g) 1"
      and g: "dig_validator V g = W" "\<not> dg_stopped g" "length label < fuel" for g n fuel
  proof (cases "label = []")
    case True
    then show ?thesis using dig_done_rr [of L Z label ty g net d V, OF _ rr rec(3) _ rec(4)] c g d by simp
  next
    case False
    then show ?thesis using dig_done_ns [OF ty(1) rr ns rec(3) d rec(4), of _ g 1 V] c g by simp
  qed
  then show ?thesis by (simp add: finds_def)
qed

lemma findsD:
  assumes "finds L V net W Z label ty d"
    and "if label = [] then asking_rr L Z label ty (dg_ctr g) else asking_ns L Z label ty (dg_ctr g) 1"
    and "dig_validator V g = W" "\<not> dg_stopped g" "length label < fuel"
  shows "dig_done V d g (dig_events L V net n fuel g)"
  using assms unfolding finds_def by blast

lemma dig_main_finds:
  assumes opt: "go_name opt = Some (Z @ label)" "go_start opt = Z" "0 \<le> go_timeout opt" "ty = generic (go_rrtype opt)"
    and f: "\<And>W. W = Some V \<or> W = None \<Longrightarrow> finds L V net W Z label ty d" and "V d" "length label < fuel"
  shows "dig_main L V net fuel opt = Inr (if go_dstFile opt = [] then [] else [(go_dstFile opt, d)], 0)"
proof -
  obtain g where g: "prepare_dig opt = Some g" using opt by (auto simp: prepare_dig_def Let_def)
  have g': "\<not> dg_stopped g" "\<not> dg_hasError g" "dg_output g = []" "dg_dstFile g = go_dstFile opt"
    using g by (auto elim!: prepare_dig_Some)
  define W where "W = dig_validator V g"
  have W: "W = Some V \<or> W = None" by (simp add: W_def dig_validator_def)
  obtain c where c: "start L no_cache W 0 (dg_ctr g) = (c, Inr ())"
    "if label = [] then asking_rr L Z label ty c else asking_ns L Z label ty c 1"
    using start_asking [OF g opt(1,2), of L W] unfolding opt(4) by blast
  have v: "dig_validator V (g\<lparr>dg_ctr := c\<rparr>) = W" by (simp add: W_def dig_validator_def)
  have "dig_done V d (g\<lparr>dg_ctr := c\<rparr>) (dig_events L V net 0 fuel (g\<lparr>dg_ctr := c\<rparr>))"
    by (rule findsD [OF f [OF W]]) (use c(2) v g'(1) assms(7) in \<open>simp_all split: if_splits\<close>)
  moreover obtain i where "iq_out c = [Sent i]"
    using c(2) by (auto simp: asking_rr_def asking_ns_def asking_def split: if_splits)
  ultimately show ?thesis
    using g g' \<open>V d\<close> c(1)
    by (auto simp: dig_done_def dig_main_def run_dig_def dig_after_one dig_react_def saved_to_def W_def)
qed

text \<open>
  End to end: \<open>ndns-dig\<close> finds what the server has. The server has a zone with a DoE chain in name order and a record at some label, of a
  type other than NS, with no delegation above it (every NS record on the way is an AUTH record). The query for the name of zone and label, started at
  the zone, passes the AUTH records and the denials of NS records, and the client exits with 0 after writing exactly
  the stored packet, if the validator accepts the packets of the zone.
\<close>

lemma dig_finds:
  fixes now :: "nat \<Rightarrow> nat"
  assumes s: "server_ok L E s" and L: "ndn_ok L" and key: "\<And>x. signData L SigningDefault x \<noteq> None"
    and ch: "chained L E (srv_ptr s) (srv_db s) ks"
    and order: "sorted_wrt (nameLess L) (map key_name ks)" and two: "2 \<le> length ks"
    and Z: "Z = zone_name (ns_zone (srv_ns s))"
    and opt: "go_name opt = Some (Z @ label)" "go_start opt = Z" "0 \<le> go_timeout opt" "ty = generic (go_rrtype opt)"
    and ty: "ty \<noteq> NS_RR_TYPE" "ty \<noteq> NDNS_UPDATE_LABEL" "\<not> isVersion L ty" "\<not> isVersion L NS_RR_TYPE"
    and len: "length Z + length label + 2 < 2 ^ 64" "length label < fuel"
    and rec: "srv_get L E s (label, ty) = Some (v, ttl, b)" "blockData L b = Some d"
      "to_content_type (d_contentType d) \<noteq> NDNS_NACK" "fromData L Response_default Z d = (re, Inr ok)"
    and path: "\<And>j v ttl b. 1 \<le> j \<Longrightarrow> j \<le> length label \<Longrightarrow> srv_get L E s (take j label, NS_RR_TYPE) = Some (v, ttl, b) \<Longrightarrow>
                 \<exists>a. blockData L b = Some a \<and> to_content_type (d_contentType a) = NDNS_AUTH"
    and V: "\<And>k v ttl b x. srv_get L E s k = Some (v, ttl, b) \<Longrightarrow> blockData L b = Some x \<Longrightarrow> V x"
  shows "dig_main L V (served L E now s) fuel opt = Inr (if go_dstFile opt = [] then [] else [(go_dstFile opt, d)], 0)"
proof (rule dig_main_finds [OF opt _ _ len(2)])
  show "V d" using V rec(1,2) by blast
  have "leads_to (served L E now s) Z (served L E now s)" by (simp add: leads_to_def)
  then show "finds L V (served L E now s) W Z label ty d" if "W = Some V \<or> W = None" for W
    by (rule finds_in_zone [OF s L key ch order two Z _ ty len(1) rec path V that])
qed

definition answer_sample :: data where
  "answer_sample = new_data (rr_name [generic ''net''] [generic ''b''] TXT_RR_TYPE @ [Component 54 (unary 3)])"

end
