(* ===== verification/Delegation.thy ===== *)
theory Delegation
  imports Resolution
begin

text \<open>
  Resolution across zones: the client starts at one zone, follows the delegations (NS records that hold a Link) from server to server, and
  finds the record in the zone at the end of the path.
\<close>

section \<open>A delegation\<close>

text \<open>The answer that delegates: the resolver goes on in the zone below.\<close>

lemma link_round:
  assumes c: "asking_ns L Z (l @ rest) ty c (length l)" and ty: "ty \<noteq> NS_RR_TYPE"
    and a: "to_content_type (d_contentType a) = NDNS_LINK" "linkDelegations L (dataBlock L a) = Some ds"
      "case W of None \<Rightarrow> True | Some valid \<Rightarrow> valid a"
  obtains c' where "onData L no_cache W 0 (c\<lparr>iq_out := []\<rparr>) a = (c', Inr ())"
    "if rest = [] then asking_rr L (Z @ l) rest ty c' else asking_ns L (Z @ l) rest ty c' 1"
proof -
  let ?c = "c\<lparr>iq_out := []\<rparr>"
  have r: "ready L Z (l @ rest) ty ?c" using c by (auto simp: asking_ns_def intro: asking_ready)
  then have cache: "iq_nsCache ?c = None" by (simp add: ready_def)
  define c1 where "c1 = tried_all (?c\<lparr>iq_lastLink := (if ds = [] then None else Some (dataBlock L a)),
      iq_nFinishedComps := length (Z @ l), iq_nTryComps := 1\<rparr>)"
  have c1: "answer_ns L ?c a NDNS_LINK = (c1, Inr ())"
    using c ty a(2) by (simp add: answer_ns_def ns_transition_def c1_def asking_ns_def asking_def)
  have ready1: "ready L (Z @ l) rest ty c1" "\<not> hasEnded c1" "iq_nTryComps c1 = 1"
    "iq_step c1 = (if rest = [] then QUERY_STEP_QUERY_RR else QUERY_STEP_QUERY_NS)"
    using r c ty a(2) by (simp_all add: c1_def tried_all_def ready_def hasEnded_def asking_ns_def asking_def Suc_le_eq)
  obtain c2 i where m: "makeLatestInterest L c1 = (c2, Inr i)"
    and k: "if rest = [] then asking_rr L (Z @ l) rest ty (act (Sent i) c2) else asking_ns L (Z @ l) rest ty (act (Sent i) c2) 1"
  proof (cases "rest = []")
    case True
    then show ?thesis using ready_rr [OF ready1(1)] ready1(4) that by auto
  next
    case False
    then show ?thesis using ready_ns [OF ready1(1), of 1] ready1(3,4) that by (auto simp: Suc_le_eq)
  qed
  have "iq_step ?c = QUERY_STEP_QUERY_NS" using c by (simp add: asking_ns_def)
  then have "onDataValidated L no_cache ?c a NDNS_LINK = (c2, Inr (Some i))"
    using c1 m ready1(2) cache by (simp add: onDataValidated_def Let_def)
  then have "onData_next L no_cache W ?c a = (c2, Inr (Some i))"
    using a by (auto simp: onData_next_def split: option.splits)
  with k show thesis using that by (simp add: onData_uncached [OF cache])
qed

text \<open>The records that lead out of a zone: AUTH records at the labels on the way and the Link at the label of the zone below.\<close>

definition has_packet :: "ndn \<Rightarrow> sqlite \<Rightarrow> server \<Rightarrow> name \<times> component \<Rightarrow> (data \<Rightarrow> bool) \<Rightarrow> bool" where
  "has_packet L E s k P \<longleftrightarrow> (\<exists>v ttl b a. srv_get L E s k = Some (v, ttl, b) \<and> blockData L b = Some a \<and> P a)"

definition delegates :: "ndn \<Rightarrow> sqlite \<Rightarrow> server \<Rightarrow> name \<Rightarrow> bool" where
  "delegates L E s l \<longleftrightarrow> l \<noteq> [] \<and>
     has_packet L E s (l, NS_RR_TYPE)
       (\<lambda>a. to_content_type (d_contentType a) = NDNS_LINK \<and> linkDelegations L (dataBlock L a) \<noteq> None) \<and>
     (\<forall>j. 1 \<le> j \<longrightarrow> j < length l \<longrightarrow>
        has_packet L E s (take j l, NS_RR_TYPE) (\<lambda>a. to_content_type (d_contentType a) = NDNS_AUTH))"

lemma served_packet:
  assumes s: "server_ok L E s" and p: "has_packet L E s (l, NS_RR_TYPE) P" and net: "leads_to net Z (served L E now s)"
    and Z: "Z = zone_name (ns_zone (srv_ns s))" and ty: "\<not> isVersion L NS_RR_TYPE"
    and V: "\<And>k v ttl b x. srv_get L E s k = Some (v, ttl, b) \<Longrightarrow> blockData L b = Some x \<Longrightarrow> V x"
    and i: "i_name i = rr_name Z l NS_RR_TYPE" "length (i_name i) < 2 ^ 64"
  obtains a where "net n i = Some a" "P a" "V a"
proof -
  obtain v ttl b a where a: "srv_get L E s (l, NS_RR_TYPE) = Some (v, ttl, b)" "blockData L b = Some a" "P a"
    using p by (auto simp: has_packet_def)
  have "NS_RR_TYPE \<noteq> NDNS_UPDATE_LABEL" by (simp add: label_defs)
  then have "net n i = Some a"
    unfolding leads_toD [OF net i(1)] by (rule served_stored [OF s i(1) [unfolded Z] i(2) ty _ a(1,2)])
  then show thesis using that a(3) V [OF a(1,2)] by blast
qed

text \<open>What is found from the zone below is found from the zone that delegates to it.\<close>

lemma finds_delegated:
  assumes s: "server_ok L E s" and del: "delegates L E s l" and net: "leads_to net Z (served L E now s)"
    and Z: "Z = zone_name (ns_zone (srv_ns s))" and ty: "ty \<noteq> NS_RR_TYPE" "\<not> isVersion L NS_RR_TYPE"
    and V: "\<And>k v ttl b x. srv_get L E s k = Some (v, ttl, b) \<Longrightarrow> blockData L b = Some x \<Longrightarrow> V x"
    and len: "length Z + length l + 2 < 2 ^ 64" and W: "W = Some V \<or> W = None"
    and below: "finds L V net W (Z @ l) rest ty d"
  shows "finds L V net W Z (l @ rest) ty d"
proof -
  have W': "case W of None \<Rightarrow> True | Some valid \<Rightarrow> valid a" if "V a" for a using W that by auto
  have walk: "asking_ns L Z (l @ rest) ty (dg_ctr g) j \<Longrightarrow> j \<le> length l \<Longrightarrow> dig_validator V g = W \<Longrightarrow> \<not> dg_stopped g \<Longrightarrow>
      length l + length rest + 1 < fuel + j \<Longrightarrow> dig_done V d g (dig_events L V net n fuel g)" for g n fuel j
  proof (induction fuel arbitrary: g n j)
    case 0
    then show ?case by simp
  next
    case (Suc f)
    note c = Suc.prems(1)
    have tk: "take j (l @ rest) = take j l" using Suc.prems(2) by simp
    obtain i where i: "iq_out (dg_ctr g) = Sent i # []" "i_name i = rr_name Z (take j l) NS_RR_TYPE" and j: "1 \<le> j"
      using c unfolding asking_ns_def asking_def tk by blast
    have ilen: "length (i_name i) < 2 ^ 64" using len Suc.prems(2) by (simp add: i(2) rr_name_def)
    note again = dig_events_again [where net = net and n = n, OF i(1)]
    show ?case
    proof (cases "j = length l")
      case False
      then have jl: "j < length l" using Suc.prems(2) by simp
      then have "has_packet L E s (take j l, NS_RR_TYPE) (\<lambda>a. to_content_type (d_contentType a) = NDNS_AUTH)"
        using del j by (simp add: delegates_def)
      then obtain a where a: "net n i = Some a" "to_content_type (d_contentType a) = NDNS_AUTH" "V a"
        by (rule served_packet [OF s _ net Z ty(2) V i(2) ilen])
      obtain c' where c': "onData L no_cache W 0 ((dg_ctr g)\<lparr>iq_out := []\<rparr>) a = (c', Inr ())" "asking_ns L Z (l @ rest) ty c' (Suc j)"
        using auth_round [OF c ty(1) a(2) W' [OF a(3)]] jl by (metis length_append trans_less_add1)
      obtain k where k: "iq_out c' = [Sent k]" using c'(2) by (auto simp: asking_ns_def asking_def)
      have "dig_done V d (g\<lparr>dg_ctr := c'\<rparr>) (dig_events L V net (Suc n) f (g\<lparr>dg_ctr := c'\<rparr>))"
        by (rule Suc.IH [of _ "Suc j"]) (use c'(2) jl Suc.prems(3-5) in \<open>simp_all add: dig_validator_def\<close>)
      then show ?thesis using again [OF a(1) _ k Suc.prems(4), of L V f] c'(1) Suc.prems(3) by simp
    next
      case True
      have "has_packet L E s (take j l, NS_RR_TYPE)
          (\<lambda>a. to_content_type (d_contentType a) = NDNS_LINK \<and> linkDelegations L (dataBlock L a) \<noteq> None)"
        using del True by (simp add: delegates_def)
      then obtain a where a: "net n i = Some a"
        "to_content_type (d_contentType a) = NDNS_LINK \<and> linkDelegations L (dataBlock L a) \<noteq> None" "V a"
        by (rule served_packet [OF s _ net Z ty(2) V i(2) ilen])
      then obtain ds where ds: "linkDelegations L (dataBlock L a) = Some ds" by blast
      obtain c' where c': "onData L no_cache W 0 ((dg_ctr g)\<lparr>iq_out := []\<rparr>) a = (c', Inr ())"
        "if rest = [] then asking_rr L (Z @ l) rest ty c' else asking_ns L (Z @ l) rest ty c' 1"
        by (rule link_round [OF c [unfolded True] ty(1) _ ds W' [OF a(3)]]) (use a(2) in blast)
      obtain k where k: "iq_out c' = [Sent k]" using c'(2) by (auto simp: asking_rr_def asking_ns_def asking_def split: if_splits)
      have "dig_done V d (g\<lparr>dg_ctr := c'\<rparr>) (dig_events L V net (Suc n) f (g\<lparr>dg_ctr := c'\<rparr>))"
        by (rule findsD [OF below]) (use c'(2) True Suc.prems(3-5) in \<open>simp_all add: dig_validator_def split: if_splits\<close>)
      then show ?thesis using again [OF a(1) _ k Suc.prems(4), of L V f] c'(1) Suc.prems(3) by simp
    qed
  qed
  have "l \<noteq> []" using del by (simp add: delegates_def)
  then show ?thesis unfolding finds_def using walk [of _ 1] by (simp add: Suc_le_eq)
qed

section \<open>A path of zones\<close>

definition records_valid :: "ndn \<Rightarrow> sqlite \<Rightarrow> (data \<Rightarrow> bool) \<Rightarrow> server \<Rightarrow> bool" where
  "records_valid L E V s \<longleftrightarrow> (\<forall>k v ttl b x. srv_get L E s k = Some (v, ttl, b) \<longrightarrow> blockData L b = Some x \<longrightarrow> V x)"

abbreviation server_zone :: "server \<Rightarrow> name" where
  "server_zone s \<equiv> zone_name (ns_zone (srv_ns s))"

text \<open>Each zone of the path delegates to the next.\<close>

fun delegation_path :: "ndn \<Rightarrow> sqlite \<Rightarrow> server list \<Rightarrow> bool" where
  "delegation_path L E (s # s' # ss) \<longleftrightarrow>
     (\<exists>l. server_zone s' = server_zone s @ l \<and> delegates L E s l) \<and> delegation_path L E (s' # ss)"
| "delegation_path L E [s] \<longleftrightarrow> True"
| "delegation_path L E [] \<longleftrightarrow> False"

lemma finds_along:
  assumes "delegation_path L E (s # ss)"
    and "\<forall>x \<in> set (s # ss). server_ok L E x \<and> leads_to net (server_zone x) (served L E now x) \<and> records_valid L E V x"
    and ty: "ty \<noteq> NS_RR_TYPE" "\<not> isVersion L NS_RR_TYPE" and W: "W = Some V \<or> W = None"
    and len: "length (server_zone (last (s # ss))) + 2 < 2 ^ 64"
    and found: "finds L V net W (server_zone (last (s # ss))) rest ty d"
  shows "\<exists>l. server_zone (last (s # ss)) = server_zone s @ l \<and> finds L V net W (server_zone s) (l @ rest) ty d"
  using assms(1,2) len found
proof (induction ss arbitrary: s)
  case Nil
  then show ?case by simp
next
  case (Cons s' ss)
  have last: "last (s # s' # ss) = last (s' # ss)" by simp
  obtain l where l: "server_zone s' = server_zone s @ l" "delegates L E s l" using Cons.prems(1) by auto
  have path: "delegation_path L E (s' # ss)" using Cons.prems(1) by simp
  have rest: "\<forall>x \<in> set (s' # ss). server_ok L E x \<and> leads_to net (server_zone x) (served L E now x) \<and> records_valid L E V x"
    using Cons.prems(2) by simp
  from Cons.IH [OF path rest Cons.prems(3,4) [unfolded last]]
  obtain m where m: "server_zone (last (s' # ss)) = server_zone s' @ m" "finds L V net W (server_zone s') (m @ rest) ty d"
    by blast
  have s: "server_ok L E s" "leads_to net (server_zone s) (served L E now s)" "records_valid L E V s" using Cons.prems(2) by simp_all
  have z: "length (server_zone s) + length l + 2 < 2 ^ 64" using Cons.prems(3) l(1) m(1) unfolding last by simp
  have "finds L V net W (server_zone s) (l @ m @ rest) ty d"
    by (rule finds_delegated [OF s(1) l(2) s(2) refl ty _ z W m(2) [unfolded l(1)]]) (use s(3) in \<open>unfold records_valid_def, blast\<close>)
  then show ?case using m(1) l(1) unfolding last by (intro exI [of _ "l @ m"]) simp
qed

text \<open>
  C3: Resolution across zones, the purpose of the system: the client starts at the first of a path of zones, each of which delegates to the next by a Link
  at its label with AUTH records at the labels above, each with its own server. \<open>ndns-dig\<close> follows the delegations from server to server and exits with 0 after
  writing exactly the packet that the last zone stores at the rest of the name. Only the last zone needs its DoE chain in name order; the
  validator accepts the packets of the zones. One exchange per component of the name below the first zone, and one more, are enough.
\<close>

theorem delegated_resolution:
  fixes now :: "nat \<Rightarrow> nat"
  assumes path: "delegation_path L E (s0 # ss)" and s: "s = last (s0 # ss)" and L: "ndn_ok L" and key: "\<And>x. signData L SigningDefault x \<noteq> None"
    and servers: "\<forall>x \<in> set (s0 # ss). server_ok L E x \<and> leads_to net (server_zone x) (served L E now x) \<and> records_valid L E V x"
    and ch: "chained L E (srv_ptr s) (srv_db s) ks" "sorted_wrt (nameLess L) (map key_name ks)" "2 \<le> length ks"
    and opt: "go_name opt = Some (server_zone s @ label)" "go_start opt = server_zone s0" "0 \<le> go_timeout opt" "ty = generic (go_rrtype opt)"
    and ty: "ty \<noteq> NS_RR_TYPE" "ty \<noteq> NDNS_UPDATE_LABEL" "\<not> isVersion L ty" "\<not> isVersion L NS_RR_TYPE"
    and len: "length (server_zone s @ label) + 2 < 2 ^ 64" "length (server_zone s @ label) < fuel + length (server_zone s0)"
    and rec: "srv_get L E s (label, ty) = Some (v, ttl, b)" "blockData L b = Some d"
      "to_content_type (d_contentType d) \<noteq> NDNS_NACK" "fromData L Response_default (server_zone s) d = (re, Inr ok)"
    and above: "\<And>j v ttl b. 1 \<le> j \<Longrightarrow> j \<le> length label \<Longrightarrow> srv_get L E s (take j label, NS_RR_TYPE) = Some (v, ttl, b) \<Longrightarrow>
                 \<exists>a. blockData L b = Some a \<and> to_content_type (d_contentType a) = NDNS_AUTH"
  shows "dig_main L V net fuel opt = Inr (if go_dstFile opt = [] then [] else [(go_dstFile opt, d)], 0)"
proof -
  have mem: "s \<in> set (s0 # ss)" unfolding s by (rule last_in_set) simp
  have at: "server_ok L E s" "leads_to net (server_zone s) (served L E now s)" using servers mem by blast+
  have Vs: "V x" if "srv_get L E s k = Some (v, ttl, b)" "blockData L b = Some x" for k v ttl b x
    using servers mem that unfolding records_valid_def by blast
  have "\<exists>l. server_zone s = server_zone s0 @ l \<and> finds L V net W (server_zone s0) (l @ label) ty d"
    if W: "W = Some V \<or> W = None" for W
  proof -
    have "finds L V net W (server_zone s) label ty d"
      by (rule finds_in_zone [OF at(1) L key ch refl at(2) ty _ rec above Vs W]) (use len(1) in simp)
    moreover have "length (server_zone s) + 2 < 2 ^ 64" using len(1) by simp
    ultimately show ?thesis unfolding s by (intro finds_along [OF path servers ty(1,4) W]) simp_all
  qed
  then obtain l where l: "server_zone s = server_zone s0 @ l" "\<And>W. W = Some V \<or> W = None \<Longrightarrow> finds L V net W (server_zone s0) (l @ label) ty d"
    by (metis same_append_eq)
  show ?thesis
    by (rule dig_main_finds [OF _ opt(2-4) l(2) Vs [OF rec(1,2)]]) (use opt(1) l(1) len(2) in simp_all)
qed

text \<open>The root zone, which delegates net, and the server of net.\<close>

definition link_sample :: data where
  "link_sample = (new_data (rr_name [] [generic ''net''] NS_RR_TYPE @ [Component 54 (unary 3)]))
     \<lparr>d_content := linkContent ndn0 [[generic ''isp'']], d_contentType := content_type_code NDNS_LINK\<rparr>"

lemma root_delegates:
  obtains s where "server_ok ndn0 sqlite0 s" "server_zone s = []" "delegates ndn0 sqlite0 s [generic ''net'']"
proof -
  let ?key = "([generic ''net''], NS_RR_TYPE)" and ?v = "(Component 54 (unary 3), 3600 :: int, dataBlock ndn0 link_sample)"
  define p :: zone_ptr where "p = (7, \<lparr>zone_id = 1, zone_name = [], zone_ttl = 3600\<rparr>)"
  define d where "d = db_sample\<lparr>m_tables := \<lparr>zones = [\<lparr>z_id = 1, z_name = nameWire ndn0 [], z_ttl = 3600\<rparr>], zone_info = [], rrsets = []\<rparr>\<rparr>"
  have i: "store_inv ndn0 sqlite0 p d"
    by (simp add: store_inv_def db_good_def d_def db_sample_def p_def ndn0_name_codec ndn0_block_codec
        sqlite0_sound sqlite0_reliable db_inv_def one_version_def rows_ok_empty zone_rows_ok_single del: nameWire_simps)
  have none: "db_get ndn0 sqlite0 p d ?key = None" unfolding db_get_at [OF i] by (simp add: rr_at_None) (simp add: d_def)
  have r: "roomy sqlite0 d (Suc 0)" by (simp add: roomy_def sqlite0_roomy d_def)
  obtain d1 where d1: "store_inv ndn0 sqlite0 p d1" "db_get ndn0 sqlite0 p d1 = (db_get ndn0 sqlite0 p d)(?key \<mapsto> ?v)"
    by (rule db_ins_roomy [OF i none r, of ?v])
  define s where "s = server_sample\<lparr>srv_ns := (srv_ns server_sample)\<lparr>ns_addr := 7, ns_zone := snd p\<rparr>, srv_db := d1\<rparr>"
  have s: "srv_ptr s = p" "srv_db s = d1" by (simp_all add: s_def p_def)
  have "srv_get ndn0 sqlite0 s ?key = Some ?v" using d1(2) s by simp
  moreover have "to_content_type (d_contentType link_sample) = NDNS_LINK" "linkDelegations ndn0 (dataBlock ndn0 link_sample) = Some [[generic ''isp'']]"
    by (simp_all add: link_sample_def ndn0_def)
  ultimately have "delegates ndn0 sqlite0 s [generic ''net'']" by (simp add: delegates_def has_packet_def)
  moreover have "server_ok ndn0 sqlite0 s" using d1(1) s by (simp add: server_ok_def)
  moreover have "server_zone s = []" by (simp add: s_def p_def)
  ultimately show thesis using that by blast
qed

theorem delegated_resolution_witness:
  "\<exists>root s. server_zone root = [] \<and> server_zone s = [generic ''net''] \<and>
     dig_main ndn0 (\<lambda>_. True)
       (\<lambda>n i. if prefix [NDNS_ITERATIVE_QUERY] (i_name i) then served ndn0 sqlite0 (\<lambda>n. n) root n i
             else if prefix [generic ''net'', NDNS_ITERATIVE_QUERY] (i_name i) then served ndn0 sqlite0 (\<lambda>n. n) s n i else None)
       3 (dig_sample\<lparr>go_start := []\<rparr>) = Inr ([(''out'', answer_sample)], 0)"
proof -
  let ?k1 = "([generic ''a''], TXT_RR_TYPE)" and ?k2 = "([generic ''b''], TXT_RR_TYPE)"
  let ?w = "(Component 54 (unary 3), 3600 :: int, dataBlock ndn0 answer_sample)"
  have less: "key_less ndn0 ?k1 ?k2" by (simp add: key_less_def ndn0_nameLess_single)
  have ty: "snd ?k1 \<noteq> DOE_RR_TYPE" "snd ?k2 \<noteq> DOE_RR_TYPE" "NS_RR_TYPE \<noteq> DOE_RR_TYPE" "TXT_RR_TYPE \<noteq> NS_RR_TYPE"
    "TXT_RR_TYPE \<noteq> NDNS_UPDATE_LABEL" "TXT_RR_TYPE = generic ''TXT''"
    by (simp_all add: label_defs)
  obtain s where s: "server_ok ndn0 sqlite0 s" "srv_ns s = srv_ns server_sample"
    "chained ndn0 sqlite0 (srv_ptr s) (srv_db s) [?k1, ?k2]"
    "\<forall>k. snd k \<noteq> DOE_RR_TYPE \<longrightarrow> srv_get ndn0 sqlite0 s k = [?k1 \<mapsto> value_sample, ?k2 \<mapsto> ?w] k"
    by (rule two_chained [OF less ty(1,2)])
  obtain root where root: "server_ok ndn0 sqlite0 root" "server_zone root = []" "delegates ndn0 sqlite0 root [generic ''net'']"
    by (rule root_delegates)
  let ?net = "\<lambda>n i. if prefix [NDNS_ITERATIVE_QUERY] (i_name i) then served ndn0 sqlite0 (\<lambda>n. n) root n i
      else if prefix [generic ''net'', NDNS_ITERATIVE_QUERY] (i_name i) then served ndn0 sqlite0 (\<lambda>n. n) s n i else None"
  have order: "sorted_wrt (nameLess ndn0) (map key_name [?k1, ?k2])"
    by (simp add: key_name_def ndn0_def compWire0_def blockWire0_def comp_block_def)
  have z: "server_zone s = [generic ''net'']" by (simp add: s(2) server_sample_def zone_sample_def)
  have rec: "srv_get ndn0 sqlite0 s ([generic ''b''], TXT_RR_TYPE) = Some ?w" using s(4) ty(2) by simp
  have none: "srv_get ndn0 sqlite0 s (l, NS_RR_TYPE) = None" for l using s(4) ty(3,4) by simp
  obtain re where f: "fromData ndn0 Response_default [generic ''net''] answer_sample = (re, Inr True)"
    by (rule fromData_readable [of answer_sample "[generic ''net'']" "[generic ''b'']" TXT_RR_TYPE "Component 54 (unary 3)"])
       (simp_all add: answer_sample_def rr_name_def)
  have path: "delegation_path ndn0 sqlite0 [root, s]" using root(2,3) z by simp
  have marker: "NDNS_ITERATIVE_QUERY \<noteq> generic ''net''" by (simp add: label_defs)
  have net: "leads_to ?net (server_zone root) (served ndn0 sqlite0 (\<lambda>n. n) root)" "leads_to ?net (server_zone s) (served ndn0 sqlite0 (\<lambda>n. n) s)"
    using marker unfolding leads_to_def root(2) z by (auto simp: prefix_def)
  have servers: "\<forall>x \<in> set [root, s]. server_ok ndn0 sqlite0 x \<and> leads_to ?net (server_zone x) (served ndn0 sqlite0 (\<lambda>n. n) x) \<and>
      records_valid ndn0 sqlite0 (\<lambda>_. True) x"
    using net root(1) s(1) by (simp add: records_valid_def)
  have "dig_main ndn0 (\<lambda>_. True) ?net 3 (dig_sample\<lparr>go_start := []\<rparr>) =
      Inr (if go_dstFile (dig_sample\<lparr>go_start := []\<rparr>) = [] then [] else [(go_dstFile (dig_sample\<lparr>go_start := []\<rparr>), answer_sample)], 0)"
    by (rule delegated_resolution [OF path _ ndn0_ok _ servers s(3) order, of "dig_sample\<lparr>go_start := []\<rparr>" "[generic ''b'']" TXT_RR_TYPE _ _ _ _ _ re True])
       (use rec none f ty root(2) in \<open>auto simp: z dig_sample_def answer_sample_def\<close>)
  then show ?thesis using root(2) z by (intro exI [of _ root] exI [of _ s]) (simp add: dig_sample_def)
qed

end
