(* ===== verification/AddedDelegation.thy ===== *)
theory AddedDelegation
  imports Delegation ToolsProps
begin

text \<open>
  From the management tool to the resolver, for delegations: what \<open>ndns-add-rr\<close> stores for the type NS is what the resolver follows.
\<close>

lemma generateNsRrset_ok:
  assumes L: "ndn_ok L" and f: "factory_ready L p f" and pos: "0 \<le> ttl_used f ttl"
  obtains v link where
    "generateNsRrset L now f label version ttl ds = Inr (rr_fill v (rr_object (rf_addr f, rf_zone f) (label, NS_RR_TYPE)))"
    "snd (snd v) = dataBlock L link" "to_content_type (d_contentType link) = NDNS_LINK" "d_content link = linkContent L ds"
proof -
  note D = ndn_okD [OF L]
  obtain r d where r: "generateNsRrset L now f label version ttl ds = Inr r"
    "rrset_id r = 0" "rrset_zone r = Some (rf_addr f, rf_zone f)" "rrset_label r = label" "rrset_type r = NS_RR_TYPE"
    "rrset_data r = dataBlock L d" "d_contentType d = content_type_code NDNS_LINK" "d_content d = linkContent L ds"
    unfolding generateNsRrset_def
    by (rule generate_spec [OF D(5,4), of f "\<lambda>d. Inr (d\<lparr>d_content := linkContent L ds\<rparr>)" "linkContent L ds" ttl now label
          NS_RR_TYPE version NDNS_LINK]) (use f pos in \<open>auto simp: factory_ready_def not_None_eq\<close>)
  let ?v = "(rrset_version r, rrset_ttl r, rrset_data r)"
  have "rr_fill ?v (rr_object (rf_addr f, rf_zone f) (label, NS_RR_TYPE)) = r"
    using r(2-5) by (simp add: rr_fill_def rr_object_def Rrset_new_def)
  then show thesis using that [of ?v d] r(1,6-8) by simp
qed

text \<open>The two ways to add the record lead to the same.\<close>

lemma take_proper: "j < length xs \<Longrightarrow> take j xs \<noteq> xs"
  by (metis length_take less_irrefl min.absorb4)

definition delegation_stored :: "ndn \<Rightarrow> sqlite \<Rightarrow> zone_ptr \<Rightarrow> name \<Rightarrow> rr_value \<Rightarrow> dbmgr \<Rightarrow> bool" where
  "delegation_stored L E p label v d \<longleftrightarrow>
     store_inv L E p d \<and> db_get L E p d (label, NS_RR_TYPE) = Some v \<and>
     (\<forall>j. 1 \<le> j \<longrightarrow> j < length label \<longrightarrow> type_at L E p d (take j label, NS_RR_TYPE) = Some NDNS_AUTH)"

lemma changed_to_stored:
  assumes "changed_to L E p ((db_get L E p d)((label, NS_RR_TYPE) \<mapsto> v)) d'"
    and "\<And>j. 1 \<le> j \<Longrightarrow> j < length label \<Longrightarrow> type_at L E p d (take j label, NS_RR_TYPE) = Some NDNS_AUTH"
  shows "delegation_stored L E p label v d'"
proof -
  have ty: "NS_RR_TYPE \<noteq> DOE_RR_TYPE" by (simp add: label_defs)
  then have get: "db_get L E p d' (l, NS_RR_TYPE) = ((db_get L E p d)((label, NS_RR_TYPE) \<mapsto> v)) (l, NS_RR_TYPE)" for l
    using assms(1) by (simp add: changed_to_def)
  then show ?thesis using assms get type_at_cong [of L E p d' _ d]
    by (simp add: delegation_stored_def changed_to_def take_proper)
qed

lemma delegation_added:
  assumes c: "changeable L E K k dflt p d" and f: "factory_ready L p f" and r: "ns_readable L E p d"
    and l: "label \<noteq> []" "length (rrsets (m_tables d)) + length label < 2 ^ 59"
    and new: "db_get L E p d (label, NS_RR_TYPE) = None"
    and path: "\<And>j. 1 \<le> j \<Longrightarrow> j < length label \<Longrightarrow>
                 db_get L E p d (take j label, NS_RR_TYPE) = None \<or> type_at L E p d (take j label, NS_RR_TYPE) = Some NDNS_AUTH"
    and pos: "0 \<le> ttl_used f authTtl"
  shows "\<exists>d' q. (if length label > 1 then addMultiLevelLabelRrset L E K k dflt now fa d (rr_fill v (rr_object p (label, NS_RR_TYPE))) f authTtl
                 else addRrset L E K k dflt now fa d (rr_fill v (rr_object p (label, NS_RR_TYPE)))) = (d', Inr q) \<and>
           delegation_stored L E p label v d'"
proof -
  have ty: "NS_RR_TYPE \<noteq> DOE_RR_TYPE" by (simp add: label_defs)
  have none: "type_at L E p d (label, NS_RR_TYPE) = None" using new by (simp add: type_at_def)
  show ?thesis
  proof (cases "length label > 1")
    case False
    with l have "length label = 1" by (cases label) auto
    moreover have "versioned_write L E p d (label, NS_RR_TYPE) v (addRrset L E K k dflt now fa d (rr_fill v (rr_object p (label, NS_RR_TYPE))))"
      using addRrset_effect [OF c, of "(label, NS_RR_TYPE)" now fa v] new ty none by simp
    ultimately show ?thesis using False new changed_to_stored [of L E p d label v] by (auto simp: versioned_write_def)
  next
    case True
    have nolink: "\<not> (\<exists>i \<in> {1..<length label}. type_at L E p d (take i label, NS_RR_TYPE) = Some NDNS_LINK)"
    proof
      assume "\<exists>i \<in> {1..<length label}. type_at L E p d (take i label, NS_RR_TYPE) = Some NDNS_LINK"
      then obtain i where "1 \<le> i" "i < length label" "type_at L E p d (take i label, NS_RR_TYPE) = Some NDNS_LINK" by auto
      with path [of i] show False by (auto simp: type_at_def)
    qed
    from addMultiLevelLabelRrset_effect [OF c f r l ty, of now fa v authTtl] nolink none pos
    obtain d1 where d1: "auths_added L E p d (map (\<lambda>i. take i label) [1..<length label]) d1"
      "versioned_write L E p d1 (label, NS_RR_TYPE) v
         (addMultiLevelLabelRrset L E K k dflt now fa d (rr_fill v (rr_object p (label, NS_RR_TYPE))) f authTtl)" by (auto simp: not_less)
    have fresh: "(label, NS_RR_TYPE) \<notin> (\<lambda>l. (l, NS_RR_TYPE)) ` set (map (\<lambda>i. take i label) [1..<length label])"
      by clarsimp (metis take_proper)
    have none1: "db_get L E p d1 (label, NS_RR_TYPE) = None" using auths_added_keeps [OF d1(1) disjI2 [OF fresh]] new by simp
    have auth: "type_at L E p d1 (take j label, NS_RR_TYPE) = Some NDNS_AUTH" if j: "1 \<le> j" "j < length label" for j
    proof (cases "db_get L E p d (take j label, NS_RR_TYPE)")
      case None
      have "take j label \<in> set (map (\<lambda>i. take i label) [1..<length label])" using j by auto
      from auths_added_new [OF d1(1) this None] show ?thesis by (simp add: auth_at_def)
    next
      case (Some u)
      then have "db_get L E p d1 (take j label, NS_RR_TYPE) = db_get L E p d (take j label, NS_RR_TYPE)"
        using auths_added_keeps [OF d1(1)] by (metis option.distinct(1))
      then show ?thesis using path [OF j] Some type_at_cong by (metis option.distinct(1))
    qed
    from d1(2) none1 obtain d' q where "addMultiLevelLabelRrset L E K k dflt now fa d (rr_fill v (rr_object p (label, NS_RR_TYPE))) f authTtl = (d', Inr q)"
      "changed_to L E p ((db_get L E p d1)((label, NS_RR_TYPE) \<mapsto> v)) d'" unfolding versioned_write_def by auto
    then show ?thesis using True changed_to_stored [OF _ auth] by auto
  qed
qed

text \<open>A server on the file then delegates the label.\<close>

lemma stored_delegates:
  assumes L: "ndn_ok L" and S: "delegation_stored L E q label v d" and label: "label \<noteq> []"
    and v: "snd (snd v) = dataBlock L link" "to_content_type (d_contentType link) = NDNS_LINK" "d_content link = linkContent L ds"
    and s: "srv_db s = opened db (m_tables d)" and z: "zone_id (snd q) = zone_id (snd (srv_ptr s))"
  shows "server_ok L E s \<and> delegates L E s label \<and>
    has_packet L E s (label, NS_RR_TYPE) (\<lambda>a. linkDelegations L (dataBlock L a) = Some ds)"
proof -
  note S = S [unfolded delegation_stored_def]
  have inv: "store_inv L E q (opened db (m_tables d))" using S opened_store_inv by blast
  have g: "srv_get L E s k = db_get L E q d k" for k
    using db_get_ptr [OF z inv] opened_get [of L E q d db] S s by simp
  have "server_ok L E s" using inv z s by (simp add: server_ok_def store_inv_def)
  moreover have ds: "linkDelegations L (dataBlock L link) = Some ds" "blockData L (dataBlock L link) = Some link"
    using data_codecD [OF ndn_okD(4) [OF L]] v(3) by blast+
  moreover have at: "srv_get L E s (label, NS_RR_TYPE) = Some v" using S g by simp
  moreover have "has_packet L E s (take j label, NS_RR_TYPE) (\<lambda>a. to_content_type (d_contentType a) = NDNS_AUTH)"
    if "1 \<le> j" "j < length label" for j
  proof -
    have "type_at L E q d (take j label, NS_RR_TYPE) = Some NDNS_AUTH" using S that by blast
    then show ?thesis by (auto simp: has_packet_def g type_at_def bind_eq_Some_conv)
  qed
  moreover have "has_packet L E s (label, NS_RR_TYPE) (\<lambda>a. P a)" if "P link" for P
    using at v(1) ds(2) that unfolding has_packet_def by (metis prod.collapse)
  ultimately show ?thesis using label v(2) by (simp add: delegates_def)
qed

text \<open>
  C4: The administrator of a zone delegates a part of it with \<open>ndns-add-rr -t NS\<close>, at a label of one or several components with no NS record at the label
  and none but AUTH records above it, and without a TTL or with one other than 0 (which stands for that of the zone). With a negative TTL (other than -1, which stands for none) the freshness period of the Link is refused: the tool exits
  with 1 and the file stays as it is. Otherwise it exits with 0, and from then on every server of the zone on the file delegates the label in the
  sense of the resolution across zones: it has the Link with exactly the delegations given, and AUTH records at all labels on the way, so that the resolver
  gets through to the child zone.
\<close>

theorem added_delegation:
  assumes db: "ar_db opt \<noteq> []" and c: "changeable L E K k dflt p (opened (ar_db opt) (disk (ar_db opt)))"
    and r: "ns_readable L E p (opened (ar_db opt) (disk (ar_db opt)))"
    and args: "ar_zone opt = Some z" "parseName z = Some (zone_name (snd p))" "ar_label opt = Some l" "parseName l = Some label"
      "ar_type opt = Some ''NS''" "ar_dsk opt = DEFAULT_CERT" "ar_file opt = None" "those (map parseName (ar_content opt)) = Some ds"
    and ttl: "ttlInt opt \<noteq> 0"
    and label: "label \<noteq> []" "length (rrsets (disk (ar_db opt))) + length label < 2 ^ 59"
    and new: "db_get L E p (opened (ar_db opt) (disk (ar_db opt))) (label, NS_RR_TYPE) = None"
    and above: "\<And>j. 1 \<le> j \<Longrightarrow> j < length label \<Longrightarrow>
       db_get L E p (opened (ar_db opt) (disk (ar_db opt))) (take j label, NS_RR_TYPE) = None \<or>
       type_at L E p (opened (ar_db opt) (disk (ar_db opt))) (take j label, NS_RR_TYPE) = Some NDNS_AUTH"
  shows "if ttlInt opt < -1
   then add_rr_main L E K k dflt disk parseName F now sys fa ra opt = (disk (ar_db opt), Inr ((), 1))
   else \<exists>t. add_rr_main L E K k dflt disk parseName F now sys fa ra opt = (t, Inr ((), 0)) \<and>
     (\<forall>s. srv_db s = opened (ar_db opt) t \<longrightarrow> same_zone (srv_ptr s) p \<longrightarrow>
        server_ok L E s \<and> delegates L E s label \<and>
        has_packet L E s (label, NS_RR_TYPE) (\<lambda>a. linkDelegations L (dataBlock L a) = Some ds))"
proof (cases "ttlInt opt < -1")
  case True
  have "those (map parseName (ar_content opt)) \<noteq> None" using args(8) by simp
  then show ?thesis
    using True add_rr_main_negative [where disk = disk and F = F and now = now and sys = sys and fa = fa and ra = ra and parseName = parseName,
        OF db c args(1-4) _ args(6,7) True] args(5) by simp
next
  case nonneg: False
  let ?db = "ar_db opt" and ?d = "opened (ar_db opt) (disk (ar_db opt))"
  define ttl where "ttl = (if ttlInt opt = -1 then DEFAULT_CACHE_TTL else ttlInt opt)"
  have "0 < ttl" using ttl nonneg by (simp add: ttl_def DEFAULT_CACHE_TTL_def)
  then have pos: "0 \<le> ttl_used f ttl" for f by (simp add: ttl_used_def DEFAULT_RR_TTL_def)
  have i: "store_inv L E p ?d" and L: "ndn_ok L" using c by (simp_all add: changeable_def zone_ready_def)
  have ty: "generic ''NS'' = NS_RR_TYPE" by (simp add: label_defs)
  have ver: "nat (versionInt mod 18446744073709551616) = VERSION_USE_UNIX_TIMESTAMP"
    by (simp add: versionInt_def VERSION_USE_UNIX_TIMESTAMP_def)
  obtain f where f: "factory_ready L p f" "rf_addr f = ra"
    "\<forall>label type version ttl content rrset. make_rrset L parseName now f label type version ttl content = Inr rrset \<longrightarrow>
       add_record L E K k dflt disk parseName now fa ra ?db (zone_name (snd p)) label type DEFAULT_CERT version ttl content =
         (case if length label > 1 then addMultiLevelLabelRrset L E K k dflt now fa ?d rrset f ttl
               else addRrset L E K k dflt now fa ?d rrset of
            (d, r) \<Rightarrow> (m_tables d, map_sum id (\<lambda>_. ((), 0)) r))"
    using add_record_start [where disk = disk and db = ?db and ra = ra and parseName = parseName and now = now and fa = fa, OF db c] by blast
  let ?q = "(ra, rf_zone f)"
  have same: "same_zone p ?q" using f(1) by (simp add: same_zone_def factory_ready_def)
  have get: "db_get L E ?q ?d = db_get L E p ?d" using i same by (intro db_get_ptr [symmetric]) (simp_all add: same_zone_def)
  have "changeable L E K k dflt ?q ?d" using c unfolding changeable_def zone_ready_ptr [OF same] .
  moreover have "factory_ready L ?q f" using f(1) by (simp add: factory_ready_def)
  moreover have "ns_readable L E ?q ?d" using r by (simp add: ns_readable_def type_at_def get)
  moreover have "length (rrsets (m_tables ?d)) + length label < 2 ^ 59" using label(2) by (simp add: opened_def)
  moreover have "db_get L E ?q ?d (label, NS_RR_TYPE) = None" using new by (simp add: get)
  moreover have "db_get L E ?q ?d (take j label, NS_RR_TYPE) = None \<or> type_at L E ?q ?d (take j label, NS_RR_TYPE) = Some NDNS_AUTH"
    if "1 \<le> j" "j < length label" for j using above [OF that] by (simp add: get type_at_def)
  moreover obtain v link where v: "generateNsRrset L now f label VERSION_USE_UNIX_TIMESTAMP ttl ds = Inr (rr_fill v (rr_object ?q (label, NS_RR_TYPE)))"
    "snd (snd v) = dataBlock L link" "to_content_type (d_contentType link) = NDNS_LINK" "d_content link = linkContent L ds"
    using generateNsRrset_ok [OF L f(1) pos, of now label VERSION_USE_UNIX_TIMESTAMP ds] unfolding f(2) by blast
  ultimately obtain d' x where d': "(if length label > 1 then addMultiLevelLabelRrset L E K k dflt now fa ?d (rr_fill v (rr_object ?q (label, NS_RR_TYPE))) f ttl
       else addRrset L E K k dflt now fa ?d (rr_fill v (rr_object ?q (label, NS_RR_TYPE)))) = (d', Inr x)"
    "delegation_stored L E ?q label v d'"
    using delegation_added [of L E K k dflt ?q ?d f label ttl now fa v] label(1) pos by blast
  have "make_rrset L parseName now f label NS_RR_TYPE VERSION_USE_UNIX_TIMESTAMP ttl (ar_content opt) = Inr (rr_fill v (rr_object ?q (label, NS_RR_TYPE)))"
    using args(8) v(1) by (simp add: make_rrset_def)
  from f(3) [rule_format, OF this] have main: "add_rr_main L E K k dflt disk parseName F now sys fa ra opt = (m_tables d', Inr ((), 0))"
    using args d'(1) by (simp add: add_rr_main_def arg_name_def ver ty exit_with_def Let_def ttl_def del: One_nat_def)
  have "server_ok L E s \<and> delegates L E s label \<and>
      has_packet L E s (label, NS_RR_TYPE) (\<lambda>a. linkDelegations L (dataBlock L a) = Some ds)"
    if s: "srv_db s = opened ?db (m_tables d')" "same_zone (srv_ptr s) p" for s
  proof (rule stored_delegates [OF L d'(2) label(1) v(2-4) s(1)])
    show "zone_id (snd ?q) = zone_id (snd (srv_ptr s))" using s(2) same by (simp add: same_zone_def)
  qed
  with main show ?thesis unfolding if_not_P [OF nonneg] by blast
qed

text \<open>A delegation two labels below the zone.\<close>

definition delegate_sample :: add_options where
  "delegate_sample = \<lparr>ar_db = ''db'', ar_zone = Some ''/net'', ar_label = Some ''/edu/ucla'', ar_type = Some ''NS'', ar_dsk = DEFAULT_CERT,
     ar_content = [''/isp''], ar_ttl = None, ar_version = None, ar_file = None, ar_encoding = ''base64'', ar_resign = None\<rparr>"

definition uris_sample :: "string \<Rightarrow> name option" where
  "uris_sample s = (if s = ''/edu/ucla'' then Some [generic ''edu'', generic ''ucla''] else uri_sample s)"

theorem added_delegation_witness:
  "\<exists>t. add_rr_main ndn0 sqlite0 keychain_sample () ''db'' (\<lambda>_. m_tables db_sample) uris_sample files_sample 9 0 2 3 delegate_sample = (t, Inr ((), 0)) \<and>
     delegates ndn0 sqlite0 (server_sample\<lparr>srv_db := opened ''db'' t\<rparr>) [generic ''edu'', generic ''ucla'']"
proof -
  let ?label = "[generic ''edu'', generic ''ucla'']" and ?disk = "\<lambda>_ :: string. m_tables db_sample"
  have d: "opened ''db'' (m_tables db_sample) = db_sample" by (simp add: opened_def db_sample_def)
  have c: "changeable ndn0 sqlite0 keychain_sample () ''db'' zone_sample (opened ''db'' (?disk ''db''))"
    unfolding d by (rule changeable_sample [OF zone_ready_sample [OF db_sample_good refl]]) (simp add: db_sample_def)
  have get: "db_get ndn0 sqlite0 zone_sample (opened ''db'' (?disk ''db'')) k = None" for k unfolding d by (rule db_sample_get)
  have r: "ns_readable ndn0 sqlite0 zone_sample (opened ''db'' (?disk ''db''))" by (simp add: ns_readable_def get)
  have A: "ar_db delegate_sample = ''db''" "''db'' \<noteq> []" "ar_zone delegate_sample = Some ''/net''" "uris_sample ''/net'' = Some (zone_name (snd zone_sample))"
    "ar_label delegate_sample = Some ''/edu/ucla''" "uris_sample ''/edu/ucla'' = Some ?label" "ar_type delegate_sample = Some ''NS''"
    "ar_dsk delegate_sample = DEFAULT_CERT" "ar_file delegate_sample = None" "those (map uris_sample (ar_content delegate_sample)) = Some [[generic ''isp'']]"
    by (simp_all add: delegate_sample_def uris_sample_def uri_sample_def zone_sample_def)
  have T: "ttlInt delegate_sample \<noteq> 0" and nonneg: "\<not> ttlInt delegate_sample < -1" by (simp_all add: ttlInt_def delegate_sample_def)
  have room: "?label \<noteq> []" "length (rrsets (?disk ''db'')) + length ?label < 2 ^ 59" by (simp_all add: db_sample_def)
  obtain t where t: "add_rr_main ndn0 sqlite0 keychain_sample () ''db'' ?disk uris_sample files_sample 9 0 2 3 delegate_sample = (t, Inr ((), 0))"
    "\<forall>s. srv_db s = opened ''db'' t \<longrightarrow> same_zone (srv_ptr s) zone_sample \<longrightarrow> delegates ndn0 sqlite0 s ?label"
    using added_delegation [where opt = delegate_sample and disk = ?disk and F = files_sample and now = 9 and sys = 0 and fa = 2 and ra = 3 and p = zone_sample
        and label = ?label and L = ndn0 and E = sqlite0 and K = keychain_sample and k = "()" and dflt = "''db''" and parseName = uris_sample,
        unfolded A(1) if_not_P [OF nonneg], OF A(2) c r A(3-10) T room get disjI1 [OF get]] by blast
  have "same_zone (srv_ptr (server_sample\<lparr>srv_db := opened ''db'' t\<rparr>)) zone_sample"
    by (simp add: same_zone_def server_sample_def zone_sample_def)
  with t show ?thesis by simp
qed

end
