(* ===== verification/CommandLine.thy ===== *)
theory CommandLine
  imports NdnLib
begin

text \<open>
  The command lines of the tools. Each \<open>main\<close> declares its options to \<open>boost::program_options\<close>, lets Boost recognise the arguments and store the
  values in a map, and \<open>notify\<close> writes them to the variables bound to the options. The recogniser is a parameter of the programs: from the declared options, the
  positional options and the arguments to the map of the values, or \<open>None\<close> for an exception. What is assumed of it, \<open>boost_ok\<close>, is its documented
  behaviour on arguments that are words or have the form \<open>--name=value\<close> or \<open>--name\<close>.
\<close>

section \<open>Options\<close>

datatype option_type = Flag | Text | Number | Boolean | NameUri | Texts

datatype option_value =
    VFlag | VText string | VNumber int | VBoolean bool | VName name | VTexts "string list"

record option_decl =
  od_name :: string
  od_short :: string
  od_type :: option_type
  od_default :: "option_value option"

type_synonym variables_map = "string \<Rightarrow> option_value option"
type_synonym recogniser = "option_decl list \<Rightarrow> (string \<times> int) list \<Rightarrow> string list \<Rightarrow> variables_map option"

definition decl :: "string \<Rightarrow> string \<Rightarrow> option_type \<Rightarrow> option_decl" where
  "decl long short type = \<lparr>od_name = long, od_short = short, od_type = type, od_default = None\<rparr>"

definition decl_default :: "string \<Rightarrow> string \<Rightarrow> option_type \<Rightarrow> option_value \<Rightarrow> option_decl" where
  "decl_default long short type v = \<lparr>od_name = long, od_short = short, od_type = type, od_default = Some v\<rparr>"

text \<open>\<open>vm.count(n)\<close> is 0 or 1; an option with a default always counts.\<close>

definition counts :: "variables_map \<Rightarrow> string \<Rightarrow> bool" where
  "counts vm n \<longleftrightarrow> vm n \<noteq> None"

fun the_text :: "option_value \<Rightarrow> string" where
  "the_text (VText s) = s"
| "the_text _ = []"

fun the_number :: "option_value \<Rightarrow> int" where
  "the_number (VNumber i) = i"
| "the_number _ = 0"

fun the_boolean :: "option_value \<Rightarrow> bool" where
  "the_boolean (VBoolean b) = b"
| "the_boolean _ = False"

fun the_uri :: "option_value \<Rightarrow> name" where
  "the_uri (VName n) = n"
| "the_uri _ = []"

fun the_texts :: "option_value \<Rightarrow> string list" where
  "the_texts (VTexts ss) = ss"
| "the_texts _ = []"

text \<open>\<open>notify\<close> goes through the map, that is by the names of the options, and writes each value to the variable bound to it. The value of a variable
  after it, where \<open>names\<close> are the options bound to the variable and \<open>x\<close> is its initial value:\<close>

definition notified :: "(option_value \<Rightarrow> 'a) \<Rightarrow> variables_map \<Rightarrow> string list \<Rightarrow> 'a \<Rightarrow> 'a" where
  "notified read vm names x = fold (\<lambda>n x. case vm n of None \<Rightarrow> x | Some v \<Rightarrow> read v) (sort names) x"

definition notified_one :: "(option_value \<Rightarrow> 'a) \<Rightarrow> variables_map \<Rightarrow> string \<Rightarrow> 'a \<Rightarrow> 'a" where
  "notified_one read vm n x = notified read vm [n] x"

lemma notified_one_simps [simp]:
  "notified_one read vm n x = (case vm n of None \<Rightarrow> x | Some v \<Rightarrow> read v)"
  by (simp add: notified_one_def notified_def)

text \<open>The common beginning of every \<open>main\<close>: the exit code, or the values.\<close>

definition command_line ::
  "recogniser \<Rightarrow> int \<Rightarrow> option_decl list \<Rightarrow> (string \<times> int) list \<Rightarrow> string list \<Rightarrow> int + variables_map" where
  "command_line po code decls positional argv =
     (case po decls positional argv of
        None \<Rightarrow> Inl code
      | Some vm \<Rightarrow> if counts vm ''help'' then Inl 0 else Inr vm)"

section \<open>The recogniser\<close>

text \<open>The conversions of strings that Boost uses for the typed options.\<close>

record conversions =
  conv_name :: "string \<Rightarrow> name option"
  conv_int :: "string \<Rightarrow> int option"
  conv_bool :: "string \<Rightarrow> bool option"

fun converted :: "conversions \<Rightarrow> option_type \<Rightarrow> string list \<Rightarrow> option_value option" where
  "converted C Flag [] = Some VFlag"
| "converted C Text [w] = Some (VText w)"
| "converted C Number [w] = map_option VNumber (conv_int C w)"
| "converted C Boolean [w] = map_option VBoolean (conv_bool C w)"
| "converted C NameUri [w] = map_option VName (conv_name C w)"
| "converted C Texts ws = Some (VTexts ws)"
| "converted C _ _ = None"

text \<open>An argument is a word, or names an option.\<close>

definition plain :: "string \<Rightarrow> bool" where
  "plain a \<longleftrightarrow> a \<noteq> [] \<and> hd a \<noteq> CHR ''-''"

definition long_option :: "string \<Rightarrow> string \<times> string list" where
  "long_option a = (let n = takeWhile (\<lambda>c. c \<noteq> CHR ''='') (drop 2 a); v = dropWhile (\<lambda>c. c \<noteq> CHR ''='') (drop 2 a)
                    in (n, if v = [] then [] else [tl v]))"

text \<open>The words go to the positional options in their order; a negative number stands for all that are left.\<close>

fun positions :: "(string \<times> int) list \<Rightarrow> string list \<Rightarrow> (string \<times> string list) list option" where
  "positions ps [] = Some []"
| "positions [] (w # ws) = None"
| "positions ((n, c) # ps) (w # ws) =
     (if c < 0 then Some [(n, w # ws)]
      else map_option (Cons (n, take (nat c) (w # ws))) (positions ps (drop (nat c) (w # ws))))"

definition defaults :: "option_decl list \<Rightarrow> variables_map" where
  "defaults ds = (\<lambda>n. Option.bind (find (\<lambda>d. od_name d = n) ds) od_default)"

definition typed_value :: "conversions \<Rightarrow> option_decl list \<Rightarrow> string \<times> string list \<Rightarrow> (string \<times> option_value) option" where
  "typed_value C ds x =
     Option.bind (find (\<lambda>d. od_name d = fst x) ds) (\<lambda>d. map_option (Pair (fst x)) (converted C (od_type d) (snd x)))"

definition recognised :: "conversions \<Rightarrow> option_decl list \<Rightarrow> (string \<times> int) list \<Rightarrow> string list \<Rightarrow> variables_map option" where
  "recognised C ds ps argv =
     Option.bind (positions ps (filter plain argv)) (\<lambda>ws.
       map_option (\<lambda>vs. defaults ds ++ map_of vs) (those (map (typed_value C ds) (map long_option (filter (Not \<circ> plain) argv) @ ws))))"

text \<open>Arguments of the forms above: each option is spelled out and given once, a flag without and any other with a value that is not empty. No word follows an option that takes
  several words, as it may take this one too. Where no positions are declared, words are not considered.\<close>

definition given_option :: "option_decl \<Rightarrow> string \<Rightarrow> bool" where
  "given_option d a \<longleftrightarrow> od_name d = fst (long_option a) \<and> (if od_type d = Flag then snd (long_option a) = [] else snd (long_option a) \<noteq> [] \<and> snd (long_option a) \<noteq> [[]])"

definition takes_words :: "option_decl list \<Rightarrow> string \<Rightarrow> bool" where
  "takes_words ds a \<longleftrightarrow> \<not> plain a \<and> (\<exists>d \<in> set ds. od_name d = fst (long_option a) \<and> od_type d = Texts)"

fun words_clear :: "option_decl list \<Rightarrow> string list \<Rightarrow> bool" where
  "words_clear ds [] = True"
| "words_clear ds (a # as) \<longleftrightarrow> (takes_words ds a \<longrightarrow> filter plain as = []) \<and> words_clear ds as"

lemma words_clear_none: "(\<And>a. a \<in> set as \<Longrightarrow> \<not> takes_words ds a) \<Longrightarrow> words_clear ds as"
  by (induction as) auto

definition simple_args :: "option_decl list \<Rightarrow> (string \<times> int) list \<Rightarrow> string list \<Rightarrow> bool" where
  "simple_args ds ps argv \<longleftrightarrow>
     (\<forall>a \<in> set argv. plain a \<and> ps \<noteq> [] \<or> \<not> plain a \<and> prefix ''--'' a \<and> (\<exists>d \<in> set ds. given_option d a)) \<and>
     distinct (map (fst \<circ> long_option) (filter (Not \<circ> plain) argv) @ map fst ps) \<and> words_clear ds argv"

definition boost_ok :: "conversions \<Rightarrow> recogniser \<Rightarrow> bool" where
  "boost_ok C po \<longleftrightarrow> (\<forall>ds ps argv. simple_args ds ps argv \<longrightarrow> po ds ps argv = recognised C ds ps argv)"

lemma boost_okD: "boost_ok C po \<Longrightarrow> simple_args ds ps argv \<Longrightarrow> po ds ps argv = recognised C ds ps argv"
  by (simp add: boost_ok_def)

lemma recognised_ok: "boost_ok C (recognised C)"
  by (simp add: boost_ok_def)

end
