(* ===== verification/Programs.thy ===== *)
theory Programs
  imports CommandLine Tools Listing UpdateTool DigTool ConfigFile
begin

text \<open>
  The programs from their arguments on: the options each \<open>main\<close> in \<open>tools/\<close> declares and the variables they are bound to, with their initial values, in front of the
  work of the tool. The recogniser of Boost is \<open>po\<close>; \<open>parseName\<close> is the constructor of \<open>Name\<close>, \<open>dflt\<close> the default database file. \<open>disk\<close> is the content of the database
  files, before and after the program.
\<close>

section \<open>Common parts\<close>

definition help_decl :: option_decl where
  "help_decl = decl ''help'' ''h'' Flag"

definition db_decl :: "string \<Rightarrow> option_decl" where
  "db_decl dflt = decl_default ''db'' ''b'' Text (VText dflt)"

definition given_text :: "variables_map \<Rightarrow> string \<Rightarrow> string option" where
  "given_text vm n = map_option the_text (vm n)"

definition given_name :: "variables_map \<Rightarrow> string \<Rightarrow> name option" where
  "given_name vm n = map_option the_uri (vm n)"

definition db_of :: "string \<Rightarrow> variables_map \<Rightarrow> string" where
  "db_of dflt vm = notified_one the_text vm ''db'' dflt"

text \<open>The tool has worked on the database \<open>db\<close>; \<open>Inl\<close> of an exit code is a program that ends before it.\<close>

definition on_disk :: "string \<Rightarrow> (string \<Rightarrow> tables) \<Rightarrow> string \<Rightarrow> (tables, 'o) res \<Rightarrow> (string \<Rightarrow> tables, 'o) res" where
  "on_disk dflt disk db r = (disk((if db = [] then dflt else db) := fst r), snd r)"

definition ends_early :: "'s \<Rightarrow> 'o \<Rightarrow> int + variables_map \<Rightarrow> (variables_map \<Rightarrow> ('s, 'o \<times> int) res) \<Rightarrow> ('s, 'o \<times> int) res" where
  "ends_early s out r f = (case r of Inl code \<Rightarrow> (s, Inr (out, code)) | Inr vm \<Rightarrow> f vm)"

section \<open>ndns-add-rr\<close>

definition add_rr_decls :: "string \<Rightarrow> option_decl list" where
  "add_rr_decls dflt =
     [help_decl, db_decl dflt, decl ''dsk'' ''d'' NameUri, decl ''content'' ''c'' Texts, decl ''ttl'' ''a'' Number, decl ''version'' ''v'' Number,
      decl ''file'' ''f'' Text, decl ''encoding'' ''e'' Text, decl ''resign'' ''r'' Boolean,
      decl ''zone'' [] Text, decl ''label'' [] Text, decl ''type'' [] Text]"

definition add_rr_positional :: "(string \<times> int) list" where
  "add_rr_positional = [(''zone'', 1), (''label'', 1), (''type'', 1), (''content'', -1)]"

definition add_rr_options :: "string \<Rightarrow> variables_map \<Rightarrow> add_options" where
  "add_rr_options dflt vm =
     \<lparr>ar_db = db_of dflt vm, ar_zone = given_text vm ''zone'', ar_label = given_text vm ''label'', ar_type = given_text vm ''type'',
      ar_dsk = notified_one the_uri vm ''dsk'' [], ar_content = notified_one the_texts vm ''content'' [],
      ar_ttl = map_option the_number (vm ''ttl''), ar_version = map_option the_number (vm ''version''),
      ar_file = given_text vm ''file'', ar_encoding = notified_one the_text vm ''encoding'' ''base64'',
      ar_resign = map_option the_boolean (vm ''resign'')\<rparr>"

definition add_rr_program ::
  "ndn \<Rightarrow> sqlite \<Rightarrow> 'k keychain \<Rightarrow> 'k \<Rightarrow> string \<Rightarrow> (string \<Rightarrow> tables) \<Rightarrow> (string \<Rightarrow> name option) \<Rightarrow> (string \<Rightarrow> files) \<Rightarrow>
   nat \<Rightarrow> int \<Rightarrow> nat \<Rightarrow> nat \<Rightarrow> recogniser \<Rightarrow> string list \<Rightarrow> (string \<Rightarrow> tables, unit \<times> int) res" where
  "add_rr_program L E K k dflt disk parseName F now sys fa ra po argv =
     ends_early disk () (command_line po 1 (add_rr_decls dflt) add_rr_positional argv) (\<lambda>vm.
       let opt = add_rr_options dflt vm
       in on_disk dflt disk (ar_db opt) (add_rr_main L E K k dflt disk parseName F now sys fa ra opt))"

text \<open>Both options are bound to \<open>ttlInt\<close>, which is what \<open>notify\<close> leaves there.\<close>

lemma ttlInt_notified: "ttlInt (add_rr_options dflt vm) = notified the_number vm [''ttl'', ''version''] (-1)"
  by (simp add: ttlInt_def add_rr_options_def notified_def insort_key.simps split: option.splits)

section \<open>ndns-create-zone\<close>

definition create_zone_decls :: "string \<Rightarrow> option_decl list" where
  "create_zone_decls dflt =
     [help_decl, db_decl dflt, decl ''cacheTtl'' ''a'' Number, decl ''certTtl'' ''e'' Number, decl ''parent'' ''p'' Text, decl ''dsk'' ''d'' Text,
      decl ''ksk'' ''k'' Text, decl ''dkey'' ''g'' Text, decl ''zone'' [] Text]"

definition create_zone_options :: "string \<Rightarrow> variables_map \<Rightarrow> create_options" where
  "create_zone_options dflt vm =
     \<lparr>co_db = db_of dflt vm, co_zone = given_text vm ''zone'', co_parent = notified_one the_text vm ''parent'' [],
      co_cacheTtl = notified_one the_number vm ''cacheTtl'' (-1), co_certTtl = notified_one the_number vm ''certTtl'' (-1),
      co_ksk = notified_one the_text vm ''ksk'' [], co_dsk = notified_one the_text vm ''dsk'' [], co_dkey = notified_one the_text vm ''dkey'' []\<rparr>"

definition zone_positional :: "(string \<times> int) list" where
  "zone_positional = [(''zone'', 1)]"

text \<open>The state is the files and the key chain.\<close>

definition create_zone_program ::
  "ndn \<Rightarrow> sqlite \<Rightarrow> 'k keychain \<Rightarrow> 'k \<Rightarrow> string \<Rightarrow> (string \<Rightarrow> tables) \<Rightarrow> (string \<Rightarrow> name option) \<Rightarrow>
   (nat \<Rightarrow> nat) \<Rightarrow> (nat \<Rightarrow> int) \<Rightarrow> nat \<Rightarrow> nat \<Rightarrow> recogniser \<Rightarrow> string list \<Rightarrow> ((string \<Rightarrow> tables) \<times> 'k, certificate option \<times> int) res" where
  "create_zone_program L E K k dflt disk parseName now sys fa addr po argv =
     ends_early (disk, k) None (command_line po 1 (create_zone_decls dflt) zone_positional argv) (\<lambda>vm.
       let opt = create_zone_options dflt vm in
       case create_zone_main L E K k dflt disk parseName now sys fa addr opt of
         ((t, k), r) \<Rightarrow> ((fst (on_disk dflt disk (co_db opt) (t, r)), k), r))"

section \<open>Tools with the record as arguments\<close>

definition rr_decls :: "string \<Rightarrow> option_decl list" where
  "rr_decls dflt = [help_decl, db_decl dflt, decl ''zone'' [] Text, decl ''label'' [] Text, decl ''type'' [] Text]"

definition rr_positional :: "(string \<times> int) list" where
  "rr_positional = [(''zone'', 1), (''label'', 1), (''type'', 1)]"

definition rr_options_of :: "string \<Rightarrow> variables_map \<Rightarrow> rr_options" where
  "rr_options_of dflt vm =
     \<lparr>ro_db = db_of dflt vm, ro_zone = given_text vm ''zone'', ro_label = given_text vm ''label'', ro_type = given_text vm ''type''\<rparr>"

definition remove_rr_program ::
  "ndn \<Rightarrow> sqlite \<Rightarrow> 'k keychain \<Rightarrow> 'k \<Rightarrow> string \<Rightarrow> (string \<Rightarrow> tables) \<Rightarrow> (string \<Rightarrow> name option) \<Rightarrow> nat \<Rightarrow> nat \<Rightarrow> nat \<Rightarrow> recogniser \<Rightarrow> string list \<Rightarrow>
   (string \<Rightarrow> tables, unit \<times> int) res" where
  "remove_rr_program L E K k dflt disk parseName now fa addr po argv =
     ends_early disk () (command_line po 1 (rr_decls dflt) rr_positional argv) (\<lambda>vm.
       let opt = rr_options_of dflt vm in on_disk dflt disk (ro_db opt) (remove_rr_main L E K k dflt disk parseName now fa addr opt))"

definition get_rr_program ::
  "ndn \<Rightarrow> sqlite \<Rightarrow> string \<Rightarrow> (string \<Rightarrow> tables) \<Rightarrow> (string \<Rightarrow> name option) \<Rightarrow> nat \<Rightarrow> recogniser \<Rightarrow> string list \<Rightarrow> (string \<Rightarrow> tables, block option \<times> int) res" where
  "get_rr_program L E dflt disk parseName addr po argv =
     ends_early disk None (command_line po 1 (rr_decls dflt) rr_positional argv) (\<lambda>vm.
       let opt = rr_options_of dflt vm in on_disk dflt disk (ro_db opt) (get_rr_main L E dflt disk parseName addr opt))"

section \<open>The other tools of the database\<close>

definition delete_zone_decls :: "string \<Rightarrow> option_decl list" where
  "delete_zone_decls dflt = [help_decl, db_decl dflt, decl ''zone'' [] Text]"

definition delete_zone_program ::
  "ndn \<Rightarrow> sqlite \<Rightarrow> string \<Rightarrow> (string \<Rightarrow> tables) \<Rightarrow> (string \<Rightarrow> name option) \<Rightarrow> nat \<Rightarrow> recogniser \<Rightarrow> string list \<Rightarrow> (string \<Rightarrow> tables, unit \<times> int) res" where
  "delete_zone_program L E dflt disk parseName addr po argv =
     ends_early disk () (command_line po 1 (delete_zone_decls dflt) zone_positional argv) (\<lambda>vm.
       on_disk dflt disk (db_of dflt vm) (delete_zone_main L E dflt disk parseName addr (db_of dflt vm) (given_text vm ''zone'')))"

definition export_decls :: "string \<Rightarrow> option_decl list" where
  "export_decls dflt = [help_decl, db_decl dflt, decl ''output'' ''o'' Text, decl ''certName'' [] Text]"

definition export_certificate_program ::
  "ndn \<Rightarrow> sqlite \<Rightarrow> (name \<Rightarrow> (name \<times> name) option) \<Rightarrow> string \<Rightarrow> (string \<Rightarrow> tables) \<Rightarrow> (string \<Rightarrow> name option) \<Rightarrow> nat \<Rightarrow> recogniser \<Rightarrow> string list \<Rightarrow>
   (string \<Rightarrow> tables, (string \<times> certificate) option \<times> int) res" where
  "export_certificate_program L E R dflt disk parseName addr po argv =
     ends_early disk None (command_line po 1 (export_decls dflt) [(''certName'', 1)] argv) (\<lambda>vm.
       on_disk dflt disk (db_of dflt vm)
         (export_certificate_main L E R dflt disk parseName addr (db_of dflt vm) (given_text vm ''certName'') (notified_one the_text vm ''output'' ''-'')))"

definition list_zone_decls :: "string \<Rightarrow> option_decl list" where
  "list_zone_decls dflt = [help_decl, db_decl dflt, decl ''printRaw'' ''p'' Flag, decl ''zone'' [] Text]"

definition list_zone_program ::
  "ndn \<Rightarrow> sqlite \<Rightarrow> printer \<Rightarrow> string \<Rightarrow> (string \<Rightarrow> tables) \<Rightarrow> (string \<Rightarrow> name option) \<Rightarrow> nat \<Rightarrow> recogniser \<Rightarrow> string list \<Rightarrow> (string \<Rightarrow> tables, string \<times> int) res" where
  "list_zone_program L E P dflt disk parseName addr po argv =
     ends_early disk [] (command_line po 1 (list_zone_decls dflt) zone_positional argv) (\<lambda>vm.
       on_disk dflt disk (db_of dflt vm)
         (list_zone_main L E P dflt disk parseName addr (db_of dflt vm) (given_text vm ''zone'') (counts vm ''printRaw'')))"

text \<open>The position of a word \<open>zone\<close> is declared here, the option is not.\<close>

definition list_all_zones_decls :: "string \<Rightarrow> option_decl list" where
  "list_all_zones_decls dflt = [help_decl, db_decl dflt]"

definition list_all_zones_program ::
  "ndn \<Rightarrow> sqlite \<Rightarrow> 'k keychain \<Rightarrow> 'k \<Rightarrow> printer \<Rightarrow> string \<Rightarrow> (string \<Rightarrow> tables) \<Rightarrow> recogniser \<Rightarrow> string list \<Rightarrow> (string \<Rightarrow> tables, string \<times> int) res" where
  "list_all_zones_program L E K k P dflt disk po argv =
     ends_early disk [] (command_line po 1 (list_all_zones_decls dflt) zone_positional argv) (\<lambda>vm.
       on_disk dflt disk (db_of dflt vm) (list_all_zones_main L E K k P dflt disk (db_of dflt vm)))"

section \<open>ndns-update\<close>

definition update_decls :: "option_decl list" where
  "update_decls =
     [help_decl, decl ''ttl'' ''T'' Number, decl ''rrtype'' ''t'' Text, decl ''contentType'' ''n'' Text, decl ''cert'' ''c'' NameUri,
      decl ''content'' ''o'' Texts, decl ''contentFile'' ''f'' Text, decl ''zone'' ''z'' NameUri, decl ''rrlabel'' ''l'' NameUri]"

definition update_positional :: "(string \<times> int) list" where
  "update_positional = [(''zone'', 1), (''rrlabel'', 1)]"

definition update_options :: "variables_map \<Rightarrow> options" where
  "update_options vm =
     \<lparr>o_zone = given_name vm ''zone'', o_rrlabel = given_name vm ''rrlabel'', o_rrtype = given_text vm ''rrtype'',
      o_contentType = notified_one the_text vm ''contentType'' ''resp'', o_cert = notified_one the_uri vm ''cert'' [],
      o_contents = notified_one the_texts vm ''content'' [], o_hasContent = counts vm ''content'', o_contentFile = given_text vm ''contentFile'',
      o_ttl = notified_one the_number vm ''ttl'' 4\<rparr>"

text \<open>One Interest is sent, unless its lifetime is negative, which \<open>Interest::setInterestLifetime\<close> refuses with an exception that \<open>main\<close> catches; the network brings a packet back or nothing before the timeout, which the updater also hears for a NACK.\<close>

definition run_update :: "ndn \<Rightarrow> (data \<Rightarrow> bool) \<Rightarrow> (interest \<Rightarrow> data option) \<Rightarrow> int \<Rightarrow> name \<Rightarrow> data \<Rightarrow> error + int" where
  "run_update L V net ttl zone update =
     (let u = setInterestLifetime (NdnsUpdate_new zone update) (ttl * 1000);
          u = start_update L u
      in if up_interestLifetime u < 0 then Inr 1
         else case (case net (makeUpdateInterest L u) of
                 None \<Rightarrow> (onTimeout_update u, Inr ())
               | Some d \<Rightarrow> onData_update L V u d) of
           (u, Inr _) \<Rightarrow> Inr (exit_code u)
         | (u, Inl e) \<Rightarrow> if std_exception e then Inr 1 else Inl e)"

definition update_main ::
  "ndn \<Rightarrow> 'k keychain \<Rightarrow> 'k \<Rightarrow> (string \<Rightarrow> data option) \<Rightarrow> (name \<Rightarrow> name option) \<Rightarrow> (name \<Rightarrow> name option) \<Rightarrow> nat \<Rightarrow>
   (data \<Rightarrow> bool) \<Rightarrow> (interest \<Rightarrow> data option) \<Rightarrow> options \<Rightarrow> error + int" where
  "update_main L K k loadFile R1 R2 now V net opt =
     (case prepare_update L K k loadFile R1 R2 now opt of
        Inl e \<Rightarrow> if std_exception e then Inr 1 else Inl e
      | Inr (zone, update) \<Rightarrow> run_update L V net (o_ttl opt) zone update)"

definition update_program ::
  "ndn \<Rightarrow> 'k keychain \<Rightarrow> 'k \<Rightarrow> (string \<Rightarrow> data option) \<Rightarrow> (name \<Rightarrow> name option) \<Rightarrow> (name \<Rightarrow> name option) \<Rightarrow> nat \<Rightarrow>
   (data \<Rightarrow> bool) \<Rightarrow> (interest \<Rightarrow> data option) \<Rightarrow> recogniser \<Rightarrow> string list \<Rightarrow> error + int" where
  "update_program L K k loadFile R1 R2 now V net po argv =
     (case command_line po 1 update_decls update_positional argv of
        Inl code \<Rightarrow> Inr code
      | Inr vm \<Rightarrow> update_main L K k loadFile R1 R2 now V net (update_options vm))"

section \<open>ndns-dig\<close>

definition dig_decls :: "option_decl list" where
  "dig_decls =
     [help_decl, decl ''timeout'' ''T'' Number, decl ''rrtype'' ''t'' Text, decl ''dstFile'' ''d'' Text, decl_default ''start'' ''s'' NameUri (VName [generic ''ndn'']),
      decl ''not-validate'' ''n'' Flag, decl ''name'' [] NameUri]"

definition dig_positional :: "(string \<times> int) list" where
  "dig_positional = [(''name'', 1)]"

definition dig_options_of :: "variables_map \<Rightarrow> dig_options" where
  "dig_options_of vm =
     \<lparr>go_name = given_name vm ''name'', go_timeout = notified_one the_number vm ''timeout'' 4, go_rrtype = notified_one the_text vm ''rrtype'' ''TXT'',
      go_dstFile = notified_one the_text vm ''dstFile'' [], go_start = notified_one the_uri vm ''start'' [generic ''ndn''],
      go_notValidate = counts vm ''not-validate''\<rparr>"

definition dig_program ::
  "ndn \<Rightarrow> (data \<Rightarrow> bool) \<Rightarrow> (nat \<Rightarrow> interest \<Rightarrow> data option) \<Rightarrow> nat \<Rightarrow> recogniser \<Rightarrow> string list \<Rightarrow> error + (string \<times> data) list \<times> int" where
  "dig_program L V net fuel po argv =
     (case command_line po 1 dig_decls dig_positional argv of
        Inl code \<Rightarrow> Inr ([], code)
      | Inr vm \<Rightarrow> dig_main L V net fuel (dig_options_of vm))"

section \<open>ndns-daemon\<close>

text \<open>The exceptions of Boost end the daemon with 2.\<close>

definition daemon_decls :: "string \<Rightarrow> option_decl list" where
  "daemon_decls confDir = [help_decl, decl_default ''config-file'' ''c'' Text (VText (confDir @ ''/ndns.conf''))]"

definition daemon_program ::
  "ndn \<Rightarrow> sqlite \<Rightarrow> 'k environment \<Rightarrow> (string \<Rightarrow> ptree option) \<Rightarrow> (string \<Rightarrow> string option) \<Rightarrow> string \<Rightarrow> recogniser \<Rightarrow> string list \<Rightarrow>
   error + (int + daemon)" where
  "daemon_program L E W read_info readFile confDir po argv =
     (case command_line po 2 (daemon_decls confDir) [] argv of
        Inl code \<Rightarrow> Inr (Inl code)
      | Inr vm \<Rightarrow> daemon_main L E W read_info readFile (notified_one the_text vm ''config-file'' (confDir @ ''/ndns.conf'')))"

end
