(* ===== verification/Publication.thy ===== *)
theory Publication
  imports Resolution ToolsProps
begin

text \<open>
  From the management tool to the resolver: a record that \<open>ndns-add-rr\<close> has put into the database file is what \<open>ndns-dig\<close> finds through the server of
  the zone, without a restart and without any further step.
\<close>

section \<open>Label order and name order\<close>

text \<open>The DoE chain is sorted by label and type, the searches go by name. The two orders agree when no label is a proper prefix of another.\<close>

lemma nameWire_prefix:
  assumes L: "name_codec L"
  shows "prefix (nameWire L l) (nameWire L m) \<Longrightarrow> prefix l m"
proof (induction l arbitrary: m)
  case (Cons c l)
  have ne: "compWire L c \<noteq> []" by (rule name_codecD(1) [OF L])
  obtain z where z: "nameWire L m = compWire L c @ nameWire L l @ z" using Cons.prems by (auto simp: prefix_def)
  with ne obtain d m' where m: "m = d # m'" by (cases m) auto
  have "Some d = Some c" using z name_codecD(2) [OF L, of d "nameWire L m'"] name_codecD(2) [OF L, of c "nameWire L l @ z"] m by simp
  with z m Cons.IH [of m'] show ?case by (simp add: prefix_def)
qed simp

lemma less_append:
  fixes a b :: blob
  assumes "a < b" "\<not> prefix a b"
  shows "a @ x < b @ y"
proof -
  obtain u c d v w where "c < d" "a = u @ c # v" "b = u @ d # w" using assms by (auto simp: list_less_def lexord_def prefix_def)
  then show ?thesis using lexord_append_left_rightI [of c d "{(u, v). u < v}" u "v @ x" "w @ y"] by (simp add: list_less_def)
qed

lemma less_append_same: "a < b \<Longrightarrow> c @ a < c @ (b :: blob)"
  by (simp add: list_less_def lexord_append_leftI)

lemma key_less_name:
  assumes L: "name_codec L" and less: "key_less L k k'" and ne: "\<not> strict_prefix (fst k) (fst k')"
  shows "nameLess L (key_name k) (key_name k')"
proof (cases "fst k = fst k'")
  case True
  then have "compWire L (snd k) < compWire L (snd k')"
    using less nameLess_irrefl [OF L] by (auto simp: key_less_def name_codecD(4) [OF L])
  from less_append_same [OF this] show ?thesis by (simp add: name_codecD(5) [OF L] key_name_def True)
next
  case False
  then have "nameWire L (fst k) < nameWire L (fst k')" "\<not> prefix (nameWire L (fst k)) (nameWire L (fst k'))"
    using less ne nameWire_prefix [OF L] by (auto simp: key_less_def name_codecD(5) [OF L] strict_prefix_def)
  from less_append [OF this] show ?thesis by (simp add: name_codecD(5) [OF L] key_name_def)
qed

lemma chained_order:
  assumes L: "name_codec L" and ch: "chained L E p d ks"
    and ne: "\<And>k k'. k \<in> set ks \<Longrightarrow> k' \<in> set ks \<Longrightarrow> \<not> strict_prefix (fst k) (fst k')"
  shows "sorted_wrt (nameLess L) (map key_name ks)"
proof -
  have "sorted_wrt (key_less L) ks" using ch by (simp add: chained_def)
  then show ?thesis unfolding sorted_wrt_map
    by (rule sorted_wrt_mono_rel [rotated]) (use key_less_name [OF L] ne in blast)
qed

section \<open>The server on the database file\<close>

lemma chained_get:
  assumes "db_get L E q d' = db_get L E p d"
  shows "chained L E q d' ks = chained L E p d ks"
  by (simp add: chained_def zone_types_def doe_range_def [abs_def] assms)

text \<open>
  From publication to resolution. \<open>ndns-add-rr\<close> adds a TXT record at a new label of one component to a zone with other records, none of whose labels is a proper
  prefix of another. It exits with 0, and from then on every server of the zone that runs on the file answers so that \<open>ndns-dig\<close>, started at the zone, exits with 0 after
  writing exactly the packet of the new record, which holds the strings given; provided that the validator accepts the packets the server has stored.
\<close>

lemma added_record_found:
  fixes now' :: "nat \<Rightarrow> nat"
  assumes db: "ar_db opt \<noteq> []" and c: "changeable L E K k dflt p (opened (ar_db opt) (disk (ar_db opt)))"
    and args: "ar_zone opt = Some z" "parseName z = Some (zone_name (snd p))" "ar_label opt = Some l" "parseName l = Some [label]"
      "ar_type opt = Some ''TXT''" "ar_dsk opt = DEFAULT_CERT" "ar_file opt = None"
    and ttl: "ttl = (case ar_version opt of Some v \<Rightarrow> v | None \<Rightarrow> (case ar_ttl opt of Some t \<Rightarrow> t | None \<Rightarrow> 3600))" "0 < ttl"
    and new: "\<And>t. db_get L E p (opened (ar_db opt) (disk (ar_db opt))) ([label], t) = None"
    and other: "zone_types L E p (opened (ar_db opt) (disk (ar_db opt))) \<noteq> {}"
    and labels: "\<And>x y. x \<in> insert [label] (fst ` zone_types L E p (opened (ar_db opt) (disk (ar_db opt)))) \<Longrightarrow>
        y \<in> insert [label] (fst ` zone_types L E p (opened (ar_db opt) (disk (ar_db opt)))) \<Longrightarrow> \<not> strict_prefix x y"
    and key: "\<And>x. signData L SigningDefault x \<noteq> None"
    and dig: "go_name gopt = Some (zone_name (snd p) @ [label])" "go_start gopt = zone_name (snd p)" "0 \<le> go_timeout gopt" "go_rrtype gopt = ''TXT''"
    and len: "length (zone_name (snd p)) + 4 < 2 ^ 64" "1 < fuel"
  shows "\<exists>t packet. add_rr_main L E K k dflt disk parseName F now sys fa ra opt = (t, Inr ((), 0)) \<and>
     wireDecodeTxt L (d_content packet) = Inr (ar_content opt) \<and>
     (\<forall>s V. srv_db s = opened (ar_db opt) t \<longrightarrow> same_zone (srv_ptr s) p \<longrightarrow>
        (\<forall>k v ttl b x. srv_get L E s k = Some (v, ttl, b) \<longrightarrow> blockData L b = Some x \<longrightarrow> V x) \<longrightarrow>
        dig_main L V (served L E now' s) fuel gopt = Inr (if go_dstFile gopt = [] then [] else [(go_dstFile gopt, packet)], 0))"
proof -
  let ?d = "opened (ar_db opt) (disk (ar_db opt))" and ?key = "([label], TXT_RR_TYPE)" and ?Z = "zone_name (snd p)"
  have i: "store_inv L E p ?d" and L: "ndn_ok L" using c by (simp_all add: changeable_def zone_ready_def)
  note LL = ndn_okD [OF L]
  have ty: "TXT_RR_TYPE \<noteq> DOE_RR_TYPE" "TXT_RR_TYPE \<noteq> NS_RR_TYPE" "NS_RR_TYPE \<noteq> DOE_RR_TYPE" "TXT_RR_TYPE \<noteq> NDNS_UPDATE_LABEL"
    "TXT_RR_TYPE = generic ''TXT''" "comp_type TXT_RR_TYPE = 8" "comp_type NS_RR_TYPE = 8"
    by (simp_all add: label_defs)
  have nv: "\<not> isVersion L TXT_RR_TYPE" "\<not> isVersion L NS_RR_TYPE"
    using version_okD(2) [OF LL(2), of TXT_RR_TYPE] version_okD(2) [OF LL(2), of NS_RR_TYPE] ty(6,7) by auto
  obtain d' packet where a: "add_rr_main L E K k dflt disk parseName F now sys fa ra opt = (m_tables d', Inr ((), 0))"
    "changed_to L E p ((db_get L E p ?d)(?key \<mapsto> (fromVersion L now, ttl, dataBlock L packet))) d'"
    "d_name packet = ?Z @ [NDNS_ITERATIVE_QUERY] @ [label] @ [TXT_RR_TYPE, fromVersion L now]"
    "to_content_type (d_contentType packet) = NDNS_RESP" "wireDecodeTxt L (d_content packet) = Inr (ar_content opt)"
    using add_rr_main_txt [where disk = disk and F = F and now = now and sys = sys and fa = fa and ra = ra and parseName = parseName and label = "[label]",
        OF db c args(1-4) _ args(5-7) ttl] new by auto
  let ?d' = "opened (ar_db opt) (m_tables d')"
  have i': "store_inv L E p d'" and get: "\<And>k. snd k \<noteq> DOE_RR_TYPE \<Longrightarrow> db_get L E p d' k =
      ((db_get L E p ?d)(?key \<mapsto> (fromVersion L now, ttl, dataBlock L packet))) k"
    using a(2) unfolding changed_to_def by blast+
  obtain ks where ch: "chained L E p d' ks" using a(2) by (auto simp: changed_to_def)
  have ks: "set ks = insert ?key (zone_types L E p ?d)"
    using ch ty(1) unfolding chained_def zone_types_def by (auto simp: get)
  have "?key \<notin> zone_types L E p ?d" using new by (simp add: zone_types_def)
  moreover obtain k0 where "k0 \<in> zone_types L E p ?d" using other by blast
  ultimately have "k0 \<noteq> ?key" "{?key, k0} \<subseteq> set ks" using ks by auto
  then have two: "2 \<le> length ks" using card_mono [of "set ks" "{?key, k0}"] card_length [of ks] by simp
  have order: "sorted_wrt (nameLess L) (map key_name ks)"
  proof (rule chained_order [OF LL(1) ch])
    fix k k' assume k: "k \<in> set ks" "k' \<in> set ks"
    have "fst x \<in> insert [label] (fst ` zone_types L E p ?d)" if "x \<in> set ks" for x using that ks by auto
    with k show "\<not> strict_prefix (fst k) (fst k')" by (intro labels)
  qed
  obtain es where "blockElements L (d_content packet) = Some es"
    using a(5) by (auto simp: wireDecodeTxt_def bind_err_Inr or_throw_def split: option.splits)
  then obtain re where re: "fromData L Response_default ?Z packet = (re, Inr True)"
    using fromData_readable [of packet ?Z "[label]" TXT_RR_TYPE "fromVersion L now" L Response_default] a(3) len(1) by auto
  have resolves: "dig_main L V (served L E now' s) fuel gopt = Inr (if go_dstFile gopt = [] then [] else [(go_dstFile gopt, packet)], 0)"
    if s: "srv_db s = ?d'" "same_zone (srv_ptr s) p" and V: "\<forall>k v ttl b x. srv_get L E s k = Some (v, ttl, b) \<longrightarrow> blockData L b = Some x \<longrightarrow> V x" for s V
  proof -
    have ok: "server_ok L E s"
      using opened_store_inv [OF i', of "ar_db opt"] s by (simp add: server_ok_def store_inv_def same_zone_def)
    have sget: "db_get L E (srv_ptr s) (srv_db s) = db_get L E p d'"
      using db_get_ptr [of "srv_ptr s" p L E "srv_db s"] server_okD [OF ok] s(2) opened_get [OF i', of "ar_db opt"] by (simp add: same_zone_def s(1))
    have Z: "?Z = zone_name (ns_zone (srv_ns s))" using s(2) by (simp add: same_zone_def)
    have rec: "srv_get L E s ?key = Some (fromVersion L now, ttl, dataBlock L packet)" using get [of ?key] ty(1) by (simp add: sget)
    have none: "srv_get L E s (take j [label], NS_RR_TYPE) = None" if "1 \<le> j" for j
      using that get [of "([label], NS_RR_TYPE)"] new ty(2,3) by (simp add: sget)
    show ?thesis
      by (rule dig_finds [OF ok L key _ order two Z dig(1-3) _ ty(2,4) nv _ _ rec _ _ re])
         (use ch chained_get [OF sget] dig(4) ty(5) len a(4) none V data_codecD(1) [OF LL(4)] in auto)
  qed
  show ?thesis using a(1,5) resolves by (intro exI [of _ "m_tables d'"] exI [of _ packet]) auto
qed

end
