(* ===== verification/ProgramProps.thy ===== *)
theory ProgramProps
  imports Programs Publication
begin

text \<open>
  The programs from the command line on, for every recogniser that behaves on plain arguments as documented: from the arguments of \<open>ndns-add-rr\<close> to the packet that
  \<open>ndns-dig\<close> writes.
\<close>

section \<open>Arguments\<close>

definition long_arg :: "string \<Rightarrow> string \<Rightarrow> string" where
  "long_arg n s = ''--'' @ n @ ''='' @ s"

lemma split_at_eq:
  "CHR ''='' \<notin> set n \<Longrightarrow> takeWhile (\<lambda>c. c \<noteq> CHR ''='') (n @ CHR ''='' # s) = n"
  "CHR ''='' \<notin> set n \<Longrightarrow> dropWhile (\<lambda>c. c \<noteq> CHR ''='') (n @ CHR ''='' # s) = CHR ''='' # s"
  by (induction n) auto

lemma long_arg_facts [simp]:
  "CHR ''='' \<notin> set n \<Longrightarrow> long_option (long_arg n s) = (n, [s])" "\<not> plain (long_arg n s)" "prefix ''--'' (long_arg n s)"
  by (simp_all add: long_option_def long_arg_def plain_def Let_def split_at_eq)

lemma plain_words:
  assumes "\<And>w. w \<in> set ws \<Longrightarrow> plain w"
  shows "filter plain ws = ws" "filter (Not \<circ> plain) ws = []"
  using assms by (simp_all add: filter_id_conv filter_empty_conv)

lemma those_append: "those (xs @ ys) = Option.bind (those xs) (\<lambda>x. map_option ((@) x) (those ys))"
  by (induction xs) (auto split: option.split bind_splits simp: option.map_comp comp_def map_option_case)

text \<open>The values of the words \<open>zone label type content ...\<close> of \<open>ndns-add-rr\<close>, and of the options \<open>--ttl=...\<close> and \<open>--version=...\<close> in front of them.\<close>

definition add_rr_words :: "string \<Rightarrow> string \<Rightarrow> string \<Rightarrow> string list \<Rightarrow> (string \<times> option_value) list" where
  "add_rr_words z l t ws = [(''zone'', VText z), (''label'', VText l), (''type'', VText t)] @ (if ws = [] then [] else [(''content'', VTexts ws)])"

definition add_rr_groups :: "string \<Rightarrow> string \<Rightarrow> string \<Rightarrow> string list \<Rightarrow> (string \<times> string list) list" where
  "add_rr_groups z l t ws = [(''zone'', [z]), (''label'', [l]), (''type'', [t])] @ (if ws = [] then [] else [(''content'', ws)])"

definition number_values :: "conversions \<Rightarrow> (string \<times> string) list \<Rightarrow> (string \<times> option_value) list" where
  "number_values C os = map (\<lambda>(n, s). (n, VNumber (the (conv_int C s)))) os"

definition number_args :: "conversions \<Rightarrow> (string \<times> string) list \<Rightarrow> bool" where
  "number_args C os \<longleftrightarrow> distinct (map fst os) \<and> (\<forall>(n, s) \<in> set os. (n = ''ttl'' \<or> n = ''version'') \<and> s \<noteq> [] \<and> conv_int C s \<noteq> None)"

lemma add_rr_typed:
  "those (map (typed_value C (add_rr_decls dflt))
      (add_rr_groups z l t ws)) = Some (add_rr_words z l t ws)"
  by (simp add: typed_value_def add_rr_decls_def decl_def decl_default_def help_decl_def db_decl_def add_rr_words_def add_rr_groups_def)

lemma number_decl:
  assumes "n \<in> {''ttl'', ''version''}"
  obtains d where "find (\<lambda>d. od_name d = n) (add_rr_decls dflt) = Some d" "d \<in> set (add_rr_decls dflt)" "od_name d = n" "od_type d = Number"
    "CHR ''='' \<notin> set n"
proof -
  have "find (\<lambda>d. od_name d = ''ttl'') (add_rr_decls dflt) = Some (decl ''ttl'' ''a'' Number)"
    "find (\<lambda>d. od_name d = ''version'') (add_rr_decls dflt) = Some (decl ''version'' ''v'' Number)"
    "decl ''ttl'' ''a'' Number \<in> set (add_rr_decls dflt)" "decl ''version'' ''v'' Number \<in> set (add_rr_decls dflt)"
    by (simp_all add: add_rr_decls_def decl_def decl_default_def help_decl_def db_decl_def)
  with assms that show thesis by (auto simp: decl_def)
qed

lemma number_argsD:
  assumes "number_args C os" "(n, s) \<in> set os"
  shows "n \<in> {''ttl'', ''version''}" "s \<noteq> []" "\<exists>v. conv_int C s = Some v"
  using assms by (auto simp: number_args_def)

lemma number_typed_one:
  assumes "n \<in> {''ttl'', ''version''}" "conv_int C s = Some v"
  shows "typed_value C (add_rr_decls dflt) (long_option (long_arg n s)) = Some (n, VNumber v)"
proof -
  obtain d where "find (\<lambda>d. od_name d = n) (add_rr_decls dflt) = Some d" "od_type d = Number" "CHR ''='' \<notin> set n"
    by (rule number_decl [OF assms(1)]) blast
  with assms(2) show ?thesis by (simp add: typed_value_def)
qed

lemma number_typed:
  "(\<And>n s. (n, s) \<in> set os \<Longrightarrow> n \<in> {''ttl'', ''version''} \<and> (\<exists>v. conv_int C s = Some v)) \<Longrightarrow>
   those (map (typed_value C (add_rr_decls dflt)) (map long_option (map (case_prod long_arg) os))) = Some (number_values C os)"
proof (induction os)
  case (Cons x os)
  obtain n s where x: "x = (n, s)" by (cases x)
  then obtain v where v: "n \<in> {''ttl'', ''version''}" "conv_int C s = Some v" using Cons.prems [of n s] by auto
  have "those (map (typed_value C (add_rr_decls dflt)) (map long_option (map (case_prod long_arg) os))) = Some (number_values C os)"
    by (rule Cons.IH) (use Cons.prems in auto)
  then show ?case using number_typed_one [OF v, of dflt] v(2) by (simp add: number_values_def x)
qed (simp add: number_values_def)

lemma add_rr_positions:
  "positions add_rr_positional (z # l # t # ws) =
     Some (add_rr_groups z l t ws)"
  by (cases ws) (simp_all add: add_rr_positional_def add_rr_groups_def)

lemma number_given:
  assumes "number_args C os" "a \<in> set (map (case_prod long_arg) os)"
  shows "\<not> plain a \<and> prefix ''--'' a \<and> (\<exists>d \<in> set (add_rr_decls dflt). given_option d a)"
proof -
  obtain n s where a: "(n, s) \<in> set os" "a = long_arg n s" using assms(2) by auto
  note N = number_argsD [OF assms(1) a(1)]
  obtain d where "d \<in> set (add_rr_decls dflt)" "od_name d = n" "od_type d = Number" "CHR ''='' \<notin> set n"
    by (rule number_decl [OF N(1), of dflt]) blast
  with N(2) show ?thesis unfolding a(2) by (intro conjI bexI [of _ d]) (simp_all add: given_option_def)
qed

lemma number_no_words:
  assumes "number_args C os" "a \<in> set (map (case_prod long_arg) os)"
  shows "\<not> takes_words (add_rr_decls dflt) a"
proof -
  obtain n s where a: "(n, s) \<in> set os" "a = long_arg n s" using assms(2) by auto
  have "fst (long_option a) = n" "n \<in> {''ttl'', ''version''}" using number_argsD(1) [OF assms(1) a(1)] a(2) by auto
  moreover have "d \<in> set (add_rr_decls dflt) \<Longrightarrow> od_type d = Texts \<Longrightarrow> od_name d = ''content''" for d
    by (auto simp: add_rr_decls_def decl_def decl_default_def help_decl_def db_decl_def)
  ultimately show ?thesis by (auto simp: takes_words_def)
qed

lemma number_names:
  assumes "number_args C os"
  shows "map (fst \<circ> long_option) (map (case_prod long_arg) os) = map fst os" "set (map fst os) \<subseteq> {''ttl'', ''version''}"
proof -
  show n: "set (map fst os) \<subseteq> {''ttl'', ''version''}" using number_argsD(1) [OF assms] by (force simp: subset_iff)
  then show "map (fst \<circ> long_option) (map (case_prod long_arg) os) = map fst os" by (auto simp: subset_iff)
qed

lemma number_value:
  assumes "number_args C os"
  shows "map_of (number_values C os) n = map_option VNumber (Option.bind (map_of os n) (conv_int C))"
proof -
  have "map_of (number_values C os) n = map_option (\<lambda>s. VNumber (the (conv_int C s))) (map_of os n)"
    unfolding number_values_def by (induction os) auto
  also have "\<dots> = map_option VNumber (Option.bind (map_of os n) (conv_int C))"
  proof (cases "map_of os n")
    case (Some s)
    obtain v where "conv_int C s = Some v" using number_argsD(3) [OF assms map_of_SomeD [OF Some]] by blast
    with Some show ?thesis by simp
  qed simp
  finally show ?thesis .
qed

text \<open>Every variable of \<open>ndns-add-rr\<close> after these arguments.\<close>

definition add_rr_vm :: "conversions \<Rightarrow> string \<Rightarrow> (string \<times> string) list \<Rightarrow> string \<Rightarrow> string \<Rightarrow> string \<Rightarrow> string list \<Rightarrow> variables_map" where
  "add_rr_vm C dflt os z l t ws = defaults (add_rr_decls dflt) ++ map_of (number_values C os @ add_rr_words z l t ws)"

lemma add_rr_vm_value:
  assumes os: "number_args C os"
  shows "add_rr_vm C dflt os z l t ws n =
     (if n \<in> {''ttl'', ''version''} then map_option VNumber (Option.bind (map_of os n) (conv_int C))
      else if n = ''zone'' then Some (VText z) else if n = ''label'' then Some (VText l) else if n = ''type'' then Some (VText t)
      else if n = ''content'' \<and> ws \<noteq> [] then Some (VTexts ws) else if n = ''db'' then Some (VText dflt) else None)"
proof -
  have W: "map_of (add_rr_words z l t ws) n =
      (if n = ''zone'' then Some (VText z) else if n = ''label'' then Some (VText l) else if n = ''type'' then Some (VText t)
       else if n = ''content'' \<and> ws \<noteq> [] then Some (VTexts ws) else None)"
    by (simp add: add_rr_words_def)
  have D: "defaults (add_rr_decls dflt) n = (if n = ''db'' then Some (VText dflt) else None)"
    by (simp add: defaults_def add_rr_decls_def help_decl_def decl_def db_decl_def decl_default_def)
  show ?thesis
  proof (cases "n \<in> {''ttl'', ''version''}")
    case True
    then show ?thesis unfolding add_rr_vm_def map_of_append map_add_def W D number_value [OF os] by (auto split: option.splits)
  next
    case False
    then have "n \<notin> set (map fst os)" using number_names(2) [OF os] by blast
    then have "map_of os n = None" by (simp add: map_of_eq_None_iff)
    with False show ?thesis unfolding add_rr_vm_def map_of_append map_add_def W D number_value [OF os] by simp
  qed
qed

lemma add_rr_recognised:
  assumes po: "boost_ok C po" and w: "plain z" "plain l" "plain t" "\<And>w. w \<in> set ws \<Longrightarrow> plain w" and os: "number_args C os"
  shows "command_line po 1 (add_rr_decls dflt) add_rr_positional (map (case_prod long_arg) os @ z # l # t # ws) =
    Inr (add_rr_vm C dflt os z l t ws)"
proof -
  let ?as = "map (case_prod long_arg) os" and ?ws = "z # l # t # ws" and ?ds = "add_rr_decls dflt"
  note N = number_names [OF os] and G = number_given [OF os, of _ dflt]
  have pw: "filter plain ?ws = ?ws" "filter (Not \<circ> plain) ?ws = []" using w plain_words [OF w(4)] by simp_all
  have pa: "filter plain ?as = []" "filter (Not \<circ> plain) ?as = ?as" using G by (auto simp: filter_empty_conv filter_id_conv simp del: set_map)
  have "distinct (map (fst \<circ> long_option) ?as @ map fst add_rr_positional)"
    using N(2) os unfolding N(1) by (auto simp: number_args_def add_rr_positional_def)
  moreover have "plain a \<and> add_rr_positional \<noteq> [] \<or> \<not> plain a \<and> prefix ''--'' a \<and> (\<exists>d \<in> set ?ds. given_option d a)" if "a \<in> set (?as @ ?ws)" for a
  proof (cases "a \<in> set ?as")
    case True then show ?thesis using G [of a] by blast
  next
    case False
    then have "a \<in> set ?ws" using that by simp
    then have "plain a" using w by auto
    then show ?thesis by (simp add: add_rr_positional_def)
  qed
  moreover have "\<not> takes_words ?ds a" if "a \<in> set (?as @ ?ws)" for a
    using that w number_no_words [OF os, of a dflt] by (auto simp: takes_words_def)
  ultimately have "simple_args ?ds add_rr_positional (?as @ ?ws)"
    using words_clear_none [of "?as @ ?ws" ?ds] unfolding simple_args_def filter_append pa(2) pw(2) append_Nil2 by blast
  note R = boost_okD [OF po this]
  have T: "n \<in> {''ttl'', ''version''} \<and> (\<exists>v. conv_int C s = Some v)" if "(n, s) \<in> set os" for n s using number_argsD [OF os that] by blast
  have "po (add_rr_decls dflt) add_rr_positional (?as @ ?ws) =
      Some (add_rr_vm C dflt os z l t ws)"
    unfolding add_rr_vm_def R recognised_def filter_append pa pw append_Nil append_Nil2 add_rr_positions bind.bind_lunit
    by (simp only: map_append those_append number_typed [OF T] add_rr_typed bind.bind_lunit option.map append_assoc)
  moreover have "add_rr_vm C dflt os z l t ws ''help'' = None" by (simp add: add_rr_vm_value [OF os])
  ultimately show ?thesis by (simp add: command_line_def counts_def)
qed

definition add_rr_given :: "conversions \<Rightarrow> string \<Rightarrow> (string \<times> string) list \<Rightarrow> string \<Rightarrow> string \<Rightarrow> string \<Rightarrow> string list \<Rightarrow> add_options" where
  "add_rr_given C dflt os z l t ws =
    \<lparr>ar_db = dflt, ar_zone = Some z, ar_label = Some l, ar_type = Some t, ar_dsk = [], ar_content = ws,
     ar_ttl = Option.bind (map_of os ''ttl'') (conv_int C), ar_version = Option.bind (map_of os ''version'') (conv_int C),
     ar_file = None, ar_encoding = ''base64'', ar_resign = None\<rparr>"

lemma add_rr_given_fields:
  "ar_db (add_rr_given C dflt os z l t ws) = dflt" "ar_zone (add_rr_given C dflt os z l t ws) = Some z" "ar_label (add_rr_given C dflt os z l t ws) = Some l"
  "ar_type (add_rr_given C dflt os z l t ws) = Some t" "ar_dsk (add_rr_given C dflt os z l t ws) = DEFAULT_CERT" "ar_file (add_rr_given C dflt os z l t ws) = None"
  "ar_content (add_rr_given C dflt os z l t ws) = ws" "ar_version (add_rr_given C dflt os z l t ws) = Option.bind (map_of os ''version'') (conv_int C)"
  "ar_ttl (add_rr_given C dflt os z l t ws) = Option.bind (map_of os ''ttl'') (conv_int C)"
  by (simp_all add: add_rr_given_def DEFAULT_CERT_def)

lemma add_rr_program_given:
  assumes "boost_ok C po" "plain z" "plain l" "plain t" "\<And>w. w \<in> set ws \<Longrightarrow> plain w" and os: "number_args C os"
  shows "add_rr_program L E K k dflt disk parseName F now sys fa ra po (map (case_prod long_arg) os @ z # l # t # ws) =
    on_disk dflt disk dflt (add_rr_main L E K k dflt disk parseName F now sys fa ra (add_rr_given C dflt os z l t ws))"
proof -
  have o: "add_rr_options dflt (add_rr_vm C dflt os z l t ws) = add_rr_given C dflt os z l t ws"
    by (simp add: add_rr_given_def add_rr_options_def db_of_def given_text_def add_rr_vm_value [OF os] option.map_comp comp_def option.map_ident)
  have "ar_db (add_rr_given C dflt os z l t ws) = dflt" by (simp add: add_rr_given_def)
  then show ?thesis using add_rr_recognised [OF assms] by (simp add: add_rr_program_def ends_early_def o)
qed

text \<open>
  C23: What the user types. \<open>ndns-add-rr --version=n zone label TXT word ...\<close>, alone or with \<open>--ttl=m\<close> before or after it, changes the TTL of the record, not its version: in a zone
  that the tool can change, at a label of at most one component without an NS record and with no newer TXT record, it exits with 0, and the database file then holds the record with the
  time as its version and with \<open>n\<close> as its TTL, whatever TTL was given. Its packet holds the words; no other record and no other file is changed. This is for a positive \<open>n\<close>; for a
  negative one other than -1 the version makes the tool fail: the library refuses the TTL as a freshness period, the exit code is 1 and no file is changed.
\<close>

theorem version_option_sets_ttl:
  assumes po: "boost_ok C po" and plain: "plain z" "plain l" "\<And>w. w \<in> set ws \<Longrightarrow> plain w"
    and os: "os \<in> {[(''version'', n)], [(''ttl'', m), (''version'', n)], [(''version'', n), (''ttl'', m)]}" "n \<noteq> []" "m \<noteq> []"
      "conv_int C n = Some v" "conv_int C m \<noteq> None" "v \<notin> {-1, 0}"
    and c: "dflt \<noteq> []" "changeable L E K k dflt p (opened dflt (disk dflt))"
    and names: "parseName z = Some (zone_name (snd p))" "parseName l = Some label" "length label \<le> 1"
    and free: "db_get L E p (opened dflt (disk dflt)) (label, NS_RR_TYPE) = None"
    and old: "\<forall>u. db_get L E p (opened dflt (disk dflt)) (label, TXT_RR_TYPE) = Some u \<longrightarrow> compLess L (fst u) (fromVersion L now)"
  shows "if v < 0
         then add_rr_program L E K k dflt disk parseName F now sys fa ra po (map (case_prod long_arg) os @ z # l # ''TXT'' # ws) = (disk, Inr ((), 1))
         else \<exists>d' packet. add_rr_program L E K k dflt disk parseName F now sys fa ra po (map (case_prod long_arg) os @ z # l # ''TXT'' # ws) =
             (disk(dflt := m_tables d'), Inr ((), 0)) \<and>
           changed_to L E p ((db_get L E p (opened dflt (disk dflt)))((label, TXT_RR_TYPE) \<mapsto> (fromVersion L now, v, dataBlock L packet))) d' \<and>
           wireDecodeTxt L (d_content packet) = Inr ws"
proof -
  let ?opt = "add_rr_given C dflt os z l ''TXT'' ws"
  have na: "number_args C os" and v: "map_of os ''version'' = Some n" using os by (auto simp: number_args_def)
  have p4: "plain ''TXT''" by (simp add: plain_def)
  note G = add_rr_given_fields [where C = C and dflt = dflt and os = os and z = z and l = l and t = "''TXT''" and ws = ws]
  have t: "v = (case ar_version ?opt of Some v \<Rightarrow> v | None \<Rightarrow> (case ar_ttl ?opt of Some t \<Rightarrow> t | None \<Rightarrow> 3600))"
    by (simp add: G(8) v os(4))
  note P = add_rr_program_given [where ws = ws and K = K, OF po plain(1,2) p4 plain(3) na]
  show ?thesis
  proof (cases "v < 0")
    case True
    have "ttlInt ?opt < -1" using True os(6) by (simp add: ttlInt_def G(8) \<open>map_of os ''version'' = Some n\<close> os(4))
    then have "add_rr_main L E K k dflt disk parseName F now sys fa ra ?opt = (disk dflt, Inr ((), 1))"
      using add_rr_main_negative [where opt = ?opt and disk = disk and p = p and z = z and l = l and label = label and parseName = parseName and L = L
          and E = E and K = K and k = k and dflt = dflt and F = F and now = now and sys = sys and fa = fa and ra = ra,
          unfolded G(1), OF c G(2) names(1) G(3) names(2) disjI1 [OF G(4)] G(5,6)] by blast
    then show ?thesis using True P by (simp add: on_disk_def)
  next
    case False
    then have pos: "0 < v" using os(6) by auto
  obtain d' packet where "add_rr_main L E K k dflt disk parseName F now sys fa ra ?opt = (m_tables d', Inr ((), 0))"
    "changed_to L E p ((db_get L E p (opened dflt (disk dflt)))((label, TXT_RR_TYPE) \<mapsto> (fromVersion L now, v, dataBlock L packet))) d'"
    "wireDecodeTxt L (d_content packet) = Inr ws"
    using add_rr_main_txt [where opt = ?opt and disk = disk and p = p and z = z and l = l and label = label and parseName = parseName and ttl = v and L = L
        and E = E and K = K and k = k and dflt = dflt and F = F and now = now and sys = sys and fa = fa and ra = ra,
        unfolded G(1,7), OF c G(2) names(1) G(3) names(2,3) G(4-6) t pos free old] by blast
  then show ?thesis
    unfolding if_not_P [OF False] using P by (intro exI [of _ d'] exI [of _ packet]) (simp add: on_disk_def)
  qed
qed

definition conversions_sample :: conversions where
  "conversions_sample = \<lparr>conv_name = (\<lambda>s. if s = ''/net'' then Some [generic ''net''] else if s = ''/net/c'' then Some [generic ''net'', generic ''c''] else None),
     conv_int = (\<lambda>s. if s = ''7'' then Some 7 else if s = ''60'' then Some 60 else None), conv_bool = (\<lambda>_. None)\<rparr>"

lemma sample_uris: "uri_sample ''/net'' = Some (zone_name (snd zone_sample))" "uri_sample ''/c'' = Some [generic ''c'']"
  by (simp_all add: uri_sample_def zone_sample_def)

lemma sample_plain: "plain ''/net''" "plain ''/c''" "plain ''/net/c''" "w \<in> set [''hello''] \<Longrightarrow> plain w"
  by (auto simp: plain_def)

theorem version_option_sets_ttl_witness:
  "\<exists>t d' packet. add_rr_program ndn0 sqlite0 keychain_sample () ''db'' (\<lambda>_. t) uri_sample files_sample 9 0 2 3 (recognised conversions_sample)
       [''--ttl=60'', ''--version=7'', ''/net'', ''/c'', ''TXT'', ''hello''] = ((\<lambda>_. t)(''db'' := m_tables d'), Inr ((), 0)) \<and>
     db_get ndn0 sqlite0 zone_sample d' ([generic ''c''], TXT_RR_TYPE) = Some (fromVersion ndn0 9, 7, dataBlock ndn0 packet) \<and>
     wireDecodeTxt ndn0 (d_content packet) = Inr [''hello'']"
proof -
  let ?k = "([generic ''c''], TXT_RR_TYPE)" and ?os = "[(''ttl'', ''60''), (''version'', ''7'')]"
  have ty: "TXT_RR_TYPE \<noteq> DOE_RR_TYPE" "TXT_RR_TYPE \<noteq> NS_RR_TYPE" by (simp_all add: label_defs)
  obtain t where c: "changeable ndn0 sqlite0 keychain_sample () ''db'' zone_sample (opened ''db'' t)"
    and get: "db_get ndn0 sqlite0 zone_sample (opened ''db'' t) =
      [([generic ''a''], TXT_RR_TYPE) \<mapsto> value_sample, ([generic ''b''], TXT_RR_TYPE) \<mapsto> value_sample]"
    by (rule add_sample_file)
  let ?d = "opened ''db'' t"
  have none: "db_get ndn0 sqlite0 zone_sample ?d ([generic ''c''], NS_RR_TYPE) = None"
    "\<forall>u. db_get ndn0 sqlite0 zone_sample ?d ?k = Some u \<longrightarrow> compLess ndn0 (fst u) (fromVersion ndn0 9)"
    unfolding get using ty by simp_all
  have O: "?os \<in> {[(''version'', ''7'')], [(''ttl'', ''60''), (''version'', ''7'')], [(''version'', ''7''), (''ttl'', ''60'')]}"
    "conv_int conversions_sample ''7'' = Some 7" "conv_int conversions_sample ''60'' \<noteq> None" "(7 :: int) \<notin> {-1, 0}"
    by (simp_all add: conversions_sample_def)
  have argv: "map (case_prod long_arg) ?os @ ''/net'' # ''/c'' # ''TXT'' # [''hello''] = [''--ttl=60'', ''--version=7'', ''/net'', ''/c'', ''TXT'', ''hello'']"
    by (simp add: long_arg_def)
  obtain d' packet where r: "add_rr_program ndn0 sqlite0 keychain_sample () ''db'' (\<lambda>_. t) uri_sample files_sample 9 0 2 3 (recognised conversions_sample)
       [''--ttl=60'', ''--version=7'', ''/net'', ''/c'', ''TXT'', ''hello''] = ((\<lambda>_. t)(''db'' := m_tables d'), Inr ((), 0))"
    "changed_to ndn0 sqlite0 zone_sample ((db_get ndn0 sqlite0 zone_sample ?d)(?k \<mapsto> (fromVersion ndn0 9, 7, dataBlock ndn0 packet))) d'"
    "wireDecodeTxt ndn0 (d_content packet) = Inr [''hello'']"
    using version_option_sets_ttl [where disk = "\<lambda>_. t" and F = files_sample and now = 9 and sys = 0 and fa = 2 and ra = 3 and p = zone_sample
        and label = "[generic ''c'']" and ws = "[''hello'']" and dflt = "''db''" and parseName = uri_sample,
        OF recognised_ok sample_plain(1,2) _ O(1) _ _ O(2-4) _ c sample_uris _ none] sample_plain(4) unfolding argv by (simp, blast)
  have "db_get ndn0 sqlite0 zone_sample d' ?k = Some (fromVersion ndn0 9, 7, dataBlock ndn0 packet)"
    using r(2) ty(1) by (simp add: changed_to_def)
  with r(1,3) show ?thesis by blast
qed

section \<open>Arguments of ndns-dig\<close>

lemma dig_recognised:
  assumes po: "boost_ok C po" and "plain a" "z \<noteq> []" "o' \<noteq> []" and "conv_name C a = Some n" "conv_name C z = Some zn"
  shows "dig_program L V net fuel po [a, long_arg ''start'' z, long_arg ''dstFile'' o'] =
    dig_main L V net fuel \<lparr>go_name = Some n, go_timeout = 4, go_rrtype = ''TXT'', go_dstFile = o', go_start = zn, go_notValidate = False\<rparr>"
proof -
  have s: "simple_args dig_decls dig_positional [a, long_arg ''start'' z, long_arg ''dstFile'' o']"
    using assms(2-4) by (auto simp: simple_args_def takes_words_def dig_positional_def given_option_def dig_decls_def decl_def decl_default_def help_decl_def)
  define vm where "vm = defaults dig_decls ++ map_of [(''start'', VName zn), (''dstFile'', VText o'), (''name'', VName n)]"
  have "po dig_decls dig_positional [a, long_arg ''start'' z, long_arg ''dstFile'' o'] = Some vm"
    using assms(2,5,6) boost_okD [OF po s]
    by (simp add: recognised_def dig_positional_def typed_value_def dig_decls_def decl_def decl_default_def help_decl_def vm_def)
  moreover have "vm ''help'' = None" "dig_options_of vm =
      \<lparr>go_name = Some n, go_timeout = 4, go_rrtype = ''TXT'', go_dstFile = o', go_start = zn, go_notValidate = False\<rparr>"
    by (simp_all add: vm_def dig_options_of_def given_name_def counts_def defaults_def dig_decls_def decl_def decl_default_def help_decl_def)
  ultimately show ?thesis by (simp add: dig_program_def command_line_def counts_def)
qed

section \<open>From one command line to the other\<close>

text \<open>
  C1: From publication to resolution, on the command line. After \<open>ndns-add-rr zone label TXT word ...\<close> on the default database file, for a new label of one component and a zone with
  other records, none of whose labels is a proper prefix of another, has ended with 0, the command \<open>ndns-dig name --start=zone --dstFile=file\<close> ends with 0 and writes to the file exactly the packet
  of the new record, which holds the words typed; through every server of the zone that runs on the file, provided that the validator accepts the packets the
  server has stored. This holds for every recogniser that treats such arguments as documented.
\<close>

theorem typed_record_found:
  fixes now' :: "nat \<Rightarrow> nat"
  assumes po: "boost_ok C po" and plain: "plain z" "plain l" "\<And>w. w \<in> set ws \<Longrightarrow> plain w" "plain a" "out \<noteq> []"
    and c: "dflt \<noteq> []" "changeable L E K k dflt p (opened dflt (disk dflt))"
    and names: "parseName z = Some (zone_name (snd p))" "parseName l = Some [label]"
      "conv_name C z = Some (zone_name (snd p))" "conv_name C a = Some (zone_name (snd p) @ [label])"
    and new: "\<And>t. db_get L E p (opened dflt (disk dflt)) ([label], t) = None"
    and other: "zone_types L E p (opened dflt (disk dflt)) \<noteq> {}"
    and labels: "\<And>x y. x \<in> insert [label] (fst ` zone_types L E p (opened dflt (disk dflt))) \<Longrightarrow>
        y \<in> insert [label] (fst ` zone_types L E p (opened dflt (disk dflt))) \<Longrightarrow> \<not> strict_prefix x y"
    and key: "\<And>x. signData L SigningDefault x \<noteq> None"
    and len: "length (zone_name (snd p)) + 4 < 2 ^ 64" "1 < fuel"
  shows "\<exists>t packet. add_rr_program L E K k dflt disk parseName F now sys fa ra po (z # l # ''TXT'' # ws) = (disk(dflt := t), Inr ((), 0)) \<and>
     wireDecodeTxt L (d_content packet) = Inr ws \<and>
     (\<forall>s V. srv_db s = opened dflt t \<longrightarrow> same_zone (srv_ptr s) p \<longrightarrow>
        (\<forall>k v ttl b x. srv_get L E s k = Some (v, ttl, b) \<longrightarrow> blockData L b = Some x \<longrightarrow> V x) \<longrightarrow>
        dig_program L V (served L E now' s) fuel po [a, long_arg ''start'' z, long_arg ''dstFile'' out] = Inr ([(out, packet)], 0))"
proof -
  let ?opt = "add_rr_given C dflt [] z l ''TXT'' ws"
  let ?gopt = "\<lparr>go_name = Some (zone_name (snd p) @ [label]), go_timeout = 4, go_rrtype = ''TXT'', go_dstFile = out,
    go_start = zone_name (snd p), go_notValidate = False\<rparr>"
  note G = add_rr_given_fields [where C = C and dflt = dflt and os = "[]" and z = z and l = l and t = "''TXT''" and ws = ws]
  have t: "3600 = (case ar_version ?opt of Some v \<Rightarrow> v | None \<Rightarrow> (case ar_ttl ?opt of Some t \<Rightarrow> t | None \<Rightarrow> 3600))" "0 < (3600 :: int)"
    by (simp_all add: G(8,9))
  have g: "go_name ?gopt = Some (zone_name (snd p) @ [label])" "go_start ?gopt = zone_name (snd p)" "0 \<le> go_timeout ?gopt" "go_rrtype ?gopt = ''TXT''"
    "go_dstFile ?gopt = out" by simp_all
  have "plain ''TXT''" "number_args C []" by (simp_all add: plain_def number_args_def)
  note A = add_rr_program_given [where ws = ws, OF po plain(1,2) this(1) plain(3) this(2), simplified]
  have zl: "z \<noteq> []" using plain(1) by (auto simp: plain_def)
  note D = dig_recognised [OF po plain(4) zl plain(5) names(4,3)]
  obtain t packet where r: "add_rr_main L E K k dflt disk parseName F now sys fa ra ?opt = (t, Inr ((), 0))" "wireDecodeTxt L (d_content packet) = Inr ws"
    "\<forall>s V. srv_db s = opened dflt t \<longrightarrow> same_zone (srv_ptr s) p \<longrightarrow>
        (\<forall>k v ttl b x. srv_get L E s k = Some (v, ttl, b) \<longrightarrow> blockData L b = Some x \<longrightarrow> V x) \<longrightarrow>
        dig_main L V (served L E now' s) fuel ?gopt = Inr (if go_dstFile ?gopt = [] then [] else [(go_dstFile ?gopt, packet)], 0)"
    using added_record_found [where opt = ?opt and gopt = ?gopt and disk = disk and p = p and z = z and l = l and label = label and parseName = parseName and ttl = 3600
        and L = L and E = E and K = K and k = k and dflt = dflt and F = F and now = now and sys = sys and fa = fa and ra = ra and now' = now' and fuel = fuel,
        unfolded G(1,7), OF c G(2) names(1) G(3) names(2) G(4-6) t new other labels key g(1-4) len] by blast
  show ?thesis using r plain(5) by (intro exI [of _ t] exI [of _ packet]) (simp add: A on_disk_def D)
qed

theorem typed_record_found_witness:
  "\<exists>t t' packet. add_rr_program ndn0 sqlite0 keychain_sample () ''db'' (\<lambda>_. t) uri_sample files_sample 9 0 2 3 (recognised conversions_sample)
       [''/net'', ''/c'', ''TXT'', ''hello''] = ((\<lambda>_. t)(''db'' := t'), Inr ((), 0)) \<and>
     wireDecodeTxt ndn0 (d_content packet) = Inr [''hello''] \<and>
     dig_program ndn0 (\<lambda>_. True) (served ndn0 sqlite0 (\<lambda>n. n) (server_sample\<lparr>srv_db := opened ''db'' t'\<rparr>)) 2 (recognised conversions_sample)
       [''/net/c'', ''--start=/net'', ''--dstFile=out''] = Inr ([(''out'', packet)], 0)"
proof -
  obtain t where c: "changeable ndn0 sqlite0 keychain_sample () ''db'' zone_sample (opened ''db'' t)"
    and get: "db_get ndn0 sqlite0 zone_sample (opened ''db'' t) =
      [([generic ''a''], TXT_RR_TYPE) \<mapsto> value_sample, ([generic ''b''], TXT_RR_TYPE) \<mapsto> value_sample]"
    by (rule add_sample_file)
  have "zone_types ndn0 sqlite0 zone_sample (opened ''db'' t) = {([generic ''a''], TXT_RR_TYPE), ([generic ''b''], TXT_RR_TYPE)}"
    unfolding zone_types_def get by (auto simp: label_defs split: if_splits)
  then have zt: "fst ` zone_types ndn0 sqlite0 zone_sample (opened ''db'' t) = {[generic ''a''], [generic ''b'']}"
    "zone_types ndn0 sqlite0 zone_sample (opened ''db'' t) \<noteq> {}" by simp_all
  have zn: "zone_name (snd zone_sample) = [generic ''net'']" and same: "same_zone (srv_ptr (server_sample\<lparr>srv_db := x\<rparr>)) zone_sample" for x
    by (simp_all add: zone_sample_def server_sample_def same_zone_def)
  have labels: "\<And>x y. x \<in> {[generic ''c''], [generic ''a''], [generic ''b'']} \<Longrightarrow> y \<in> {[generic ''c''], [generic ''a''], [generic ''b'']} \<Longrightarrow> \<not> strict_prefix x y"
    by (auto simp: strict_prefix_def)
  have key: "signData ndn0 SigningDefault x \<noteq> None" for x by (simp add: ndn0_def)
  have U: "conv_name conversions_sample ''/net'' = Some (zone_name (snd zone_sample))"
    "conv_name conversions_sample ''/net/c'' = Some (zone_name (snd zone_sample) @ [generic ''c''])"
    by (simp_all add: conversions_sample_def zn)
  have argv: "[''/net/c'', long_arg ''start'' ''/net'', long_arg ''dstFile'' ''out''] = [''/net/c'', ''--start=/net'', ''--dstFile=out'']"
    by (simp add: long_arg_def)
  obtain t' packet where r: "add_rr_program ndn0 sqlite0 keychain_sample () ''db'' (\<lambda>_. t) uri_sample files_sample 9 0 2 3 (recognised conversions_sample)
       [''/net'', ''/c'', ''TXT'', ''hello''] = ((\<lambda>_. t)(''db'' := t'), Inr ((), 0))" "wireDecodeTxt ndn0 (d_content packet) = Inr [''hello'']"
      "\<forall>s V. srv_db s = opened ''db'' t' \<longrightarrow> same_zone (srv_ptr s) zone_sample \<longrightarrow>
        (\<forall>k v ttl b x. srv_get ndn0 sqlite0 s k = Some (v, ttl, b) \<longrightarrow> blockData ndn0 b = Some x \<longrightarrow> V x) \<longrightarrow>
        dig_program ndn0 V (served ndn0 sqlite0 (\<lambda>n. n) s) 2 (recognised conversions_sample) [''/net/c'', ''--start=/net'', ''--dstFile=out''] =
          Inr ([(''out'', packet)], 0)"
    unfolding argv [symmetric]
    by (rule exE [OF typed_record_found [where p = zone_sample and label = "generic ''c''" and z = "''/net''" and l = "''/c''" and a = "''/net/c''" and out = "''out''"
            and ws = "[''hello'']" and disk = "\<lambda>_. t" and fuel = 2 and now' = "\<lambda>n. n" and F = files_sample and now = 9 and sys = 0
            and fa = 2 and ra = 3 and parseName = uri_sample and dflt = "''db''", OF recognised_ok sample_plain(1,2,4,3) _ _ c sample_uris U _ zt(2) _ key]])
       (use labels in \<open>simp_all add: get zt(1) zn\<close>, blast)
  moreover have "dig_program ndn0 (\<lambda>_. True) (served ndn0 sqlite0 (\<lambda>n. n) (server_sample\<lparr>srv_db := opened ''db'' t'\<rparr>)) 2 (recognised conversions_sample)
      [''/net/c'', ''--start=/net'', ''--dstFile=out''] = Inr ([(''out'', packet)], 0)"
    by (rule r(3) [rule_format]) (simp_all only: same, simp_all)
  ultimately show ?thesis by blast
qed

section \<open>ndns-list-all-zones\<close>

text \<open>The tool declares a position for a word but no option to take it: any word is an error, and nothing is read or changed.\<close>

lemma list_all_zones_word:
  assumes po: "boost_ok C po" and w: "plain w"
  shows "list_all_zones_program L E K k P dflt disk po [w] = (disk, Inr ([], 1))"
proof -
  have "simple_args (list_all_zones_decls dflt) zone_positional [w]" using w by (simp add: simple_args_def takes_words_def zone_positional_def)
  from boost_okD [OF po this] have "po (list_all_zones_decls dflt) zone_positional [w] = None"
    using w by (simp add: recognised_def zone_positional_def typed_value_def list_all_zones_decls_def help_decl_def db_decl_def decl_def decl_default_def)
  then show ?thesis by (simp add: list_all_zones_program_def command_line_def ends_early_def)
qed

text \<open>What every tool does with an exception of the recogniser and with the option \<open>help\<close>: it ends before its work, with 1 (the daemon with 2) or with 0.\<close>

lemma command_line_ends:
  "command_line po code ds ps argv = Inl c \<longleftrightarrow>
     po ds ps argv = None \<and> c = code \<or> (\<exists>vm. po ds ps argv = Some vm \<and> counts vm ''help'' \<and> c = 0)"
  by (auto simp: command_line_def split: option.splits)

end
