(* ===== verification/UpdatePublished.thy ===== *)
theory UpdatePublished
  imports ProgramProps UpdateToolProps
begin

text \<open>
  A change of a record over the network: from the arguments of \<open>ndns-update\<close> through the two steps of the server to the packet that \<open>ndns-dig\<close> writes.
\<close>

section \<open>Arguments of ndns-update\<close>

definition update_given :: "name \<Rightarrow> name \<Rightarrow> name \<Rightarrow> string \<Rightarrow> options" where
  "update_given zone label cert w =
     \<lparr>o_zone = Some zone, o_rrlabel = Some label, o_rrtype = None, o_contentType = ''resp'', o_cert = cert, o_contents = [w],
      o_hasContent = True, o_contentFile = None, o_ttl = 4\<rparr>"

lemma update_recognised:
  assumes po: "boost_ok C po" and a: "plain z" "plain l" "c \<noteq> []" "w \<noteq> []"
    and conv: "conv_name C z = Some zone" "conv_name C l = Some label" "conv_name C c = Some cert"
  shows "update_program L K k loadFile R1 R2 now V net po [z, l, long_arg ''cert'' c, long_arg ''content'' w] =
    update_main L K k loadFile R1 R2 now V net (update_given zone label cert w)"
proof -
  have s: "simple_args update_decls update_positional [z, l, long_arg ''cert'' c, long_arg ''content'' w]"
    using a by (auto simp: simple_args_def takes_words_def update_positional_def given_option_def update_decls_def decl_def help_decl_def)
  define vm where "vm = defaults update_decls ++ map_of [(''cert'', VName cert), (''content'', VTexts [w]), (''zone'', VName zone), (''rrlabel'', VName label)]"
  have "po update_decls update_positional [z, l, long_arg ''cert'' c, long_arg ''content'' w] = Some vm"
    using a conv boost_okD [OF po s]
    by (simp add: recognised_def update_positional_def typed_value_def update_decls_def decl_def help_decl_def vm_def)
  moreover have "vm ''help'' = None" "update_options vm = update_given zone label cert w"
    by (simp_all add: vm_def update_options_def update_given_def given_name_def given_text_def counts_def defaults_def update_decls_def decl_def help_decl_def)
  ultimately show ?thesis by (simp add: update_program_def command_line_def counts_def)
qed

text \<open>With the name of a certificate that can sign, a packet is made.\<close>

lemma update_given_prepared:
  assumes L: "ndn_ok L" and cert: "cert \<noteq> []" "\<And>x. signData L (SigningByCertificate cert) x \<noteq> None"
  obtains packet where "prepare_update L K k loadFile R1 R2 now (update_given zone label cert w) = Inr (zone, packet)"
proof -
  have "\<exists>packet. make_update L now (update_given zone label cert w) cert = Inr packet"
  proof -
    have total: "\<exists>d. snd (toData L now re) = Inr d" if "s_freshnessPeriod re = DEFAULT_RR_FRESHNESS_PERIOD" for re
      using that by (simp add: toData_result [OF ndn_okD(3) [OF L]] DEFAULT_RR_FRESHNESS_PERIOD_def)
    have "toNdnsContentType ''resp'' \<noteq> NDNS_UNKNOWN" by (simp add: toNdnsContentType_def)
    moreover define re where "re = Response_default\<lparr>s_zone := zone, s_rrLabel := label, s_queryType := NDNS_ITERATIVE_QUERY,
      s_rrType := generic (the_rrtype (update_given zone label cert w)), s_contentType := toNdnsContentType ''resp'', s_rrs := [Block (tlv_number RrData) w]\<rparr>"
    ultimately have "make_update L now (update_given zone label cert w) cert =
        bind_err (snd (toData L now re)) (\<lambda>update. or_throw Pib_Error (signData L (SigningByCertificate cert) update))"
      by (simp add: make_update_def Let_def update_given_def the_name_def addRr_def Response_default_def Response_new_def)
    moreover have re: "s_freshnessPeriod re = DEFAULT_RR_FRESHNESS_PERIOD" by (simp add: re_def Response_default_def Response_new_def)
    moreover obtain d where "snd (toData L now re) = Inr d" using total [OF re] by blast
    moreover obtain packet where "signData L (SigningByCertificate cert) d = Some packet" using cert(2) by blast
    ultimately show ?thesis by simp
  qed
  then obtain packet where "make_update L now (update_given zone label cert w) cert = Inr packet" by blast
  then have "prepare_update L K k loadFile R1 R2 now (update_given zone label cert w) = Inr (zone, packet)"
    using cert(1) by (simp add: prepare_update_def Let_def) (simp add: update_given_def the_name_def)
  with that show thesis by blast
qed

text \<open>It is named for the zone, the label, TXT and the time, and holds the word.\<close>

lemma update_given_packet:
  assumes L: "ndn_ok L" and p: "prepare_update L K k loadFile R1 R2 now (update_given zone label cert w) = Inr (zone, packet)"
    and len: "length zone + length label + 3 < 2 ^ 64"
  shows "d_name packet = rr_name zone label TXT_RR_TYPE @ [fromVersion L now]"
    "matchName_data (d_name packet) zone = Inr (Some \<lparr>m_rrLabel = label, m_rrType = TXT_RR_TYPE, m_version = fromVersion L now\<rparr>)"
    "to_content_type (d_contentType packet) = NDNS_RESP" "blockElements L (d_content packet) = Some [Block (tlv_number RrData) w]"
    "\<exists>re. fromData L Response_default zone packet = (re, Inr True)"
proof -
  let ?opt = "update_given zone label cert w"
  have o: "o_contentFile ?opt = None" "the_name (o_rrlabel ?opt) = label" "o_contentType ?opt = ''resp''" "o_contents ?opt = [w]"
    "generic (the_rrtype ?opt) = TXT_RR_TYPE"
    by (simp_all add: update_given_def the_name_def the_rrtype_def label_defs)
  have "length zone + length (the_name (o_rrlabel ?opt)) + 3 < 2 ^ 64" using len o(2) by simp
  note Q = prepare_update_packet [OF L o(1) p this, unfolded o]
  show name: "d_name packet = rr_name zone label TXT_RR_TYPE @ [fromVersion L now]" using Q by blast
  show "matchName_data (d_name packet) zone = Inr (Some \<lparr>m_rrLabel = label, m_rrType = TXT_RR_TYPE, m_version = fromVersion L now\<rparr>)"
    using Q by blast
  show "to_content_type (d_contentType packet) = NDNS_RESP" and es: "blockElements L (d_content packet) = Some [Block (tlv_number RrData) w]"
    using Q [THEN conjunct2, THEN conjunct2, THEN conjunct2] by (simp_all add: toNdnsContentType_def)
  show "\<exists>re. fromData L Response_default zone packet = (re, Inr True)"
    using fromData_readable [of packet zone label TXT_RR_TYPE "fromVersion L now" L Response_default] name es len by (auto simp: rr_name_def)
qed

lemma update_main_given:
  assumes "prepare_update L K k loadFile R1 R2 now (update_given zone label cert w) = Inr (zone, packet)"
  shows "update_main L K k loadFile R1 R2 now V net (update_given zone label cert w) = run_update L V net 4 zone packet"
  using assms by (simp add: update_main_def update_given_def)

section \<open>The exchange\<close>

text \<open>The updater with the lifetime of its Interest set.\<close>

definition update_client :: "int \<Rightarrow> name \<Rightarrow> data \<Rightarrow> updater" where
  "update_client ttl zone packet = setInterestLifetime (NdnsUpdate_new zone packet) (ttl * 1000)"

lemma update_client_simps [simp]:
  "up_zone (update_client ttl zone packet) = zone" "up_update (update_client ttl zone packet) = packet" "\<not> up_hasError (update_client ttl zone packet)"
  "up_interestLifetime (update_client ttl zone packet) = ttl * 1000"
  by (simp_all add: update_client_def setInterestLifetime_def NdnsUpdate_new_def)

lemma start_update_simps [simp]:
  "makeUpdateInterest L (start_update L u) = makeUpdateInterest L u" "up_hasError (start_update L u) = up_hasError u"
  "up_interestLifetime (start_update L u) = up_interestLifetime u"
  by (simp_all add: start_update_def makeUpdateInterest_def)

lemma run_update_answer:
  assumes L: "block_codec L" and net: "net (makeUpdateInterest L (update_client ttl zone packet)) = Some ans"
    and c: "d_content ans = Block tlv_Content (blockWire L (update_block L UPDATE_OK))" and V: "V ans" and ttl: "0 \<le> ttl"
  shows "run_update L V net ttl zone packet = Inr 0"
  using net V update_client_simps(3,4) [of ttl zone packet] ttl
  by (simp add: run_update_def Let_def update_client_def [symmetric] onData_update_def parseResponse_update [OF L c] onDataValidated_update_def stop_def
      exit_code_def)

lemma run_update_timeout:
  assumes "net (makeUpdateInterest L (update_client ttl zone packet)) = None" "0 \<le> ttl"
  shows "run_update L V net ttl zone packet = Inr 1"
  using assms by (simp add: run_update_def Let_def update_client_def [symmetric] onTimeout_update_def stop_def exit_code_def)

section \<open>The chain after the change of a record\<close>

lemma chained_upd:
  assumes ch: "chained L E p d ks" and k: "k \<in> set ks" and g: "db_get L E q d' = (db_get L E p d)(k \<mapsto> v)"
  shows "chained L E q d' ks"
proof -
  have "snd k \<noteq> DOE_RR_TYPE" "db_get L E p d k \<noteq> None" using ch k by (auto simp: chained_def zone_types_def)
  then have same: "zone_types L E q d' = zone_types L E p d" "db_get L E q d' (l, DOE_RR_TYPE) = db_get L E p d (l, DOE_RR_TYPE)" for l
    unfolding zone_types_def g by (cases v; auto)+
  then show ?thesis using ch by (simp add: chained_def doe_range_def [abs_def])
qed

text \<open>The server takes the Interest, its validator accepts the packet, and the record is replaced.\<close>

lemma update_replaces:
  assumes s: "server_ok L E s" and L: "ndn_ok L" and cert: "\<And>x. signData L (SigningByCertificate (ns_certName (srv_ns s))) x \<noteq> None"
    and u: "up_zone u = zone_name (ns_zone (srv_ns s))" "length (up_zone u) + 3 < 2 ^ 64" "up_update u = packet"
    and m: "matchName_data (d_name packet) (up_zone u) = Inr (Some \<lparr>m_rrLabel = label, m_rrType = ty, m_version = ver\<rparr>)"
    and old: "srv_get L E s (label, ty) = Some (v, ttl, b)" "compLess L v ver"
  obtains s1 s' ans where "onInterest L E now s (makeUpdateInterest L u) = (s1, Inr ())"
    "srv_pending s1 = srv_pending s @ [(makeUpdateInterest L u, packet)]"
    "doUpdate L E now' (s1\<lparr>srv_pending := srv_pending s\<rparr>) (makeUpdateInterest L u) packet = (s', Inr ())" "srv_out s' = ans # srv_out s"
    "server_ok L E s'" "srv_ns s' = srv_ns s" "srv_get L E s' = (srv_get L E s)((label, ty) \<mapsto> (ver, ttl, dataBlock L packet))"
    "d_content ans = Block tlv_Content (blockWire L (update_block L UPDATE_OK))"
proof -
  let ?re = "\<lparr>m_rrLabel = label, m_rrType = ty, m_version = ver\<rparr>" and ?i = "makeUpdateInterest L u"
  let ?s1 = "s\<lparr>srv_pending := srv_pending s @ [(?i, packet)]\<rparr>"
  note D = ndn_okD [OF L]
  have on1: "onInterest L E now s ?i = (?s1, Inr ())" using update_received [OF D(2-4) u(1,2)] u(3) by simp
  have acc: "accepts L E s ?re" using old by (simp add: accepts_def match_key_def)
  have val: "update_value L E s ?re packet = (ver, ttl, dataBlock L packet)" "match_key ?re = (label, ty)"
    using old(1) by (simp_all add: update_value_def match_key_def)
  obtain s' ans where d: "doUpdate L E now' s ?i packet = (s', Inr ())" "server_ok L E s'"
    "srv_get L E s' = (srv_get L E s)((label, ty) \<mapsto> (ver, ttl, dataBlock L packet))"
    "srv_out s' = ans # srv_out s" "d_content ans = Block tlv_Content (blockWire L (update_block L UPDATE_OK))"
    using doUpdate_effect [OF s D(5) cert m [unfolded u(1)], of now' ?i] acc unfolding val by auto
  have s1: "?s1\<lparr>srv_pending := srv_pending s\<rparr> = s" by simp
  have "server_step L E (\<lambda>_. True) ?s1 s'" by (rule validated [where us = "srv_pending s" and vs = "[]"]) (use d(1) in simp_all)
  moreover have "server_ok L E ?s1" using s by (simp add: server_ok_def)
  ultimately have "srv_ns s' = srv_ns ?s1" using server_step_effect by blast
  then show thesis using that [OF on1] d s1 by simp
qed

text \<open>What \<open>ndns-dig\<close> then finds.\<close>

lemma stored_txt_found:
  fixes now' :: "nat \<Rightarrow> nat"
  assumes po: "boost_ok C po" and a: "plain a" "z \<noteq> []" "out \<noteq> []" "conv_name C z = Some Z" "conv_name C a = Some (Z @ label)"
    and s: "server_ok L E s" "Z = zone_name (ns_zone (srv_ns s))" and L: "ndn_ok L" and key: "\<And>x. signData L SigningDefault x \<noteq> None"
    and ch: "chained L E (srv_ptr s) (srv_db s) ks" "sorted_wrt (nameLess L) (map key_name ks)" "2 \<le> length ks"
    and len: "length Z + length label + 3 < 2 ^ 64" "length label < fuel"
    and rec: "srv_get L E s (label, TXT_RR_TYPE) = Some (v, ttl, dataBlock L packet)"
    and p: "to_content_type (d_contentType packet) = NDNS_RESP" "\<exists>re. fromData L Response_default Z packet = (re, Inr True)"
    and path: "\<And>j. 1 \<le> j \<Longrightarrow> j \<le> length label \<Longrightarrow> srv_get L E s (take j label, NS_RR_TYPE) = None"
    and V: "\<forall>k v ttl b x. srv_get L E s k = Some (v, ttl, b) \<longrightarrow> blockData L b = Some x \<longrightarrow> V x"
  shows "dig_program L V (served L E now' s) fuel po [a, long_arg ''start'' z, long_arg ''dstFile'' out] = Inr ([(out, packet)], 0)"
proof -
  note D = ndn_okD [OF L]
  let ?g = "\<lparr>go_name = Some (Z @ label), go_timeout = 4, go_rrtype = ''TXT'', go_dstFile = out, go_start = Z, go_notValidate = False\<rparr>"
  have ty: "TXT_RR_TYPE \<noteq> NS_RR_TYPE" "TXT_RR_TYPE \<noteq> NDNS_UPDATE_LABEL" "generic ''TXT'' = TXT_RR_TYPE" "comp_type TXT_RR_TYPE = 8" "comp_type NS_RR_TYPE = 8"
    by (simp_all add: label_defs)
  have nv: "\<not> isVersion L TXT_RR_TYPE" "\<not> isVersion L NS_RR_TYPE"
    using version_okD(2) [OF D(2), of TXT_RR_TYPE] version_okD(2) [OF D(2), of NS_RR_TYPE] ty(4,5) by auto
  have g: "go_name ?g = Some (Z @ label)" "go_start ?g = Z" "0 \<le> go_timeout ?g" "TXT_RR_TYPE = generic (go_rrtype ?g)"
    using ty(3) by simp_all
  have bd: "blockData L (dataBlock L packet) = Some packet" "to_content_type (d_contentType packet) \<noteq> NDNS_NACK"
    using data_codecD(1) [OF D(4)] p(1) by simp_all
  have path': "\<exists>a. blockData L b = Some a \<and> to_content_type (d_contentType a) = NDNS_AUTH"
    if "1 \<le> j" "j \<le> length label" "srv_get L E s (take j label, NS_RR_TYPE) = Some (v, ttl, b)" for j v ttl b
    using that(3) path [OF that(1,2)] by simp
  have l2: "length Z + length label + 2 < 2 ^ 64" using len(1) by simp
  obtain re where re: "fromData L Response_default Z packet = (re, Inr True)" using p(2) by blast
  have "dig_main L V (served L E now' s) fuel ?g = Inr (if go_dstFile ?g = [] then [] else [(go_dstFile ?g, packet)], 0)"
    by (rule dig_finds [OF s(1) L key ch s(2) g ty(1,2) nv l2 len(2) rec bd re path']) (use V in blast)+
  then show ?thesis unfolding dig_recognised [OF po a(1-3,5,4)] using a(3) by simp
qed

section \<open>From one command line to the other\<close>

definition update_conversions :: conversions where
  "update_conversions = \<lparr>conv_name = map_of [(''/net'', [generic ''net'']), (''/b'', [generic ''b'']), (''/net/b'', [generic ''net'', generic ''b'']),
     (''/net/KEY'', [generic ''net'', generic ''KEY''])], conv_int = (\<lambda>_. None), conv_bool = (\<lambda>_. None)\<rparr>"

text \<open>
  C2: A change over the network, on the command line. In a zone with a DoE chain in the order of names and no delegation above the label, whose TXT record at the label is older than the clock,
  \<open>ndns-update zone label --cert=c --content=w\<close> sends one Interest, which the server of the zone takes and, when its validator accepts the packet, answers after it has replaced the record. When no
  answer comes back the tool ends with 1; when this answer comes back and passes the client's validator it ends with 0, and then \<open>ndns-dig name --start=zone --dstFile=file\<close> ends with 0 and writes exactly
  the new packet, whose only record is the word given; provided that its validator accepts the packets of the zone.
\<close>

theorem typed_update_found:
  fixes now' :: "nat \<Rightarrow> nat"
  assumes po: "boost_ok C po" and a: "plain z" "plain l" "c \<noteq> []" "w \<noteq> []" "plain a" "out \<noteq> []"
    and conv: "conv_name C z = Some (zone_name (ns_zone (srv_ns s)))" "conv_name C l = Some label" "conv_name C c = Some cert"
      "conv_name C a = Some (zone_name (ns_zone (srv_ns s)) @ label)"
    and L: "ndn_ok L" and s: "server_ok L E s" and ch: "chained L E (srv_ptr s) (srv_db s) ks"
    and order: "sorted_wrt (nameLess L) (map key_name ks)" and two: "2 \<le> length ks"
    and key: "\<And>x. signData L SigningDefault x \<noteq> None" "\<And>x. signData L (SigningByCertificate (ns_certName (srv_ns s))) x \<noteq> None"
      "cert \<noteq> []" "\<And>x. signData L (SigningByCertificate cert) x \<noteq> None"
    and old: "srv_get L E s (label, TXT_RR_TYPE) = Some (v, ttl, b)" "compLess L v (fromVersion L now)"
    and path: "\<And>j. 1 \<le> j \<Longrightarrow> j \<le> length label \<Longrightarrow> srv_get L E s (take j label, NS_RR_TYPE) = None"
    and len: "length (zone_name (ns_zone (srv_ns s))) + length label + 3 < 2 ^ 64" "length label < fuel"
  shows "\<exists>packet i s1 s' ans. blockElements L (d_content packet) = Some [Block (tlv_number RrData) w] \<and>
     onInterest L E t s i = (s1, Inr ()) \<and> (Vs packet \<longrightarrow> server_step L E Vs s1 s') \<and> srv_out s' = ans # srv_out s \<and>
     (\<forall>V net. net i = None \<longrightarrow> update_program L K k loadFile R1 R2 now V net po [z, l, long_arg ''cert'' c, long_arg ''content'' w] = Inr 1) \<and>
     (\<forall>V net. net i = Some ans \<longrightarrow> V ans \<longrightarrow> update_program L K k loadFile R1 R2 now V net po [z, l, long_arg ''cert'' c, long_arg ''content'' w] = Inr 0) \<and>
     (\<forall>V. (\<forall>k v ttl b x. srv_get L E s' k = Some (v, ttl, b) \<longrightarrow> blockData L b = Some x \<longrightarrow> V x) \<longrightarrow>
        dig_program L V (served L E now' s') fuel po [a, long_arg ''start'' z, long_arg ''dstFile'' out] = Inr ([(out, packet)], 0))"
proof -
  let ?Z = "zone_name (ns_zone (srv_ns s))"
  obtain packet where p: "prepare_update L K k loadFile R1 R2 now (update_given ?Z label cert w) = Inr (?Z, packet)"
    by (rule update_given_prepared [OF L key(3,4)])
  note P = update_given_packet [OF L p len(1)]
  define u where "u = update_client 4 ?Z packet"
  have U: "up_zone u = ?Z" "length (up_zone u) + 3 < 2 ^ 64" "up_update u = packet" using len(1) by (simp_all add: u_def)
  obtain s1 s' ans where X: "onInterest L E t s (makeUpdateInterest L u) = (s1, Inr ())"
    "srv_pending s1 = srv_pending s @ [(makeUpdateInterest L u, packet)]"
    "doUpdate L E t (s1\<lparr>srv_pending := srv_pending s\<rparr>) (makeUpdateInterest L u) packet = (s', Inr ())" "srv_out s' = ans # srv_out s"
    "server_ok L E s'" "srv_ns s' = srv_ns s" "srv_get L E s' = (srv_get L E s)((label, TXT_RR_TYPE) \<mapsto> (fromVersion L now, ttl, dataBlock L packet))"
    "d_content ans = Block tlv_Content (blockWire L (update_block L UPDATE_OK))"
    by (rule update_replaces [OF s L key(2) U P(2) [folded U(1)] old])
  have step: "Vs packet \<longrightarrow> server_step L E Vs s1 s'"
    using validated [of s1 "srv_pending s" "makeUpdateInterest L u" packet "[]" Vs L E t s'] X(2,3) by simp
  have zl: "z \<noteq> []" using a(1) by (auto simp: plain_def)
  note A = update_recognised [OF po a(1-4) conv(1-3)] and M = update_main_given [OF p]
  have none: "update_program L K k loadFile R1 R2 now V net po [z, l, long_arg ''cert'' c, long_arg ''content'' w] = Inr 1"
    if "net (makeUpdateInterest L u) = None" for V net
    unfolding A M by (rule run_update_timeout) (use that in \<open>simp_all add: u_def\<close>)
  have ended: "update_program L K k loadFile R1 R2 now V net po [z, l, long_arg ''cert'' c, long_arg ''content'' w] = Inr 0"
    if "net (makeUpdateInterest L u) = Some ans" "V ans" for V net
    unfolding A M by (rule run_update_answer [OF ndn_okD(3) [OF L] _ X(8)]) (use that in \<open>simp_all add: u_def\<close>)
  have "set ks = zone_types L E (srv_ptr s) (srv_db s)" "TXT_RR_TYPE \<noteq> DOE_RR_TYPE" using ch by (simp_all add: chained_def label_defs)
  then have "(label, TXT_RR_TYPE) \<in> set ks" using old(1) by (simp add: zone_types_def)
  from chained_upd [OF ch this X(7)] have ch': "chained L E (srv_ptr s') (srv_db s') ks" .
  have finds: "dig_program L V (served L E now' s') fuel po [a, long_arg ''start'' z, long_arg ''dstFile'' out] = Inr ([(out, packet)], 0)"
    if V: "\<forall>k v ttl b x. srv_get L E s' k = Some (v, ttl, b) \<longrightarrow> blockData L b = Some x \<longrightarrow> V x" for V
  proof (rule stored_txt_found [OF po a(5) zl a(6) conv(1,4) X(5) _ L key(1) ch' order two len _ P(3,5) _ V])
    show "srv_get L E s' (label, TXT_RR_TYPE) = Some (fromVersion L now, ttl, dataBlock L packet)" unfolding X(7) by simp
    show "srv_get L E s' (take j label, NS_RR_TYPE) = None" if "1 \<le> j" "j \<le> length label" for j
      using path [OF that] by (simp add: X(7) label_defs)
  qed (simp add: X(6))
  show ?thesis
  proof (intro exI conjI)
    show "blockElements L (d_content packet) = Some [Block (tlv_number RrData) w]" by (rule P(4))
    show "onInterest L E t s (makeUpdateInterest L u) = (s1, Inr ())" by (rule X(1))
    show "Vs packet \<longrightarrow> server_step L E Vs s1 s'" by (rule step)
    show "srv_out s' = ans # srv_out s" by (rule X(4))
  qed (use none in blast, use ended in blast, use finds in blast)
qed

theorem typed_update_found_witness:
  "\<exists>s packet i s1 s' ans. onInterest ndn0 sqlite0 9 s i = (s1, Inr ()) \<and> server_step ndn0 sqlite0 (\<lambda>_. True) s1 s' \<and> srv_out s' = ans # srv_out s \<and>
     update_program ndn0 keychain0 () (\<lambda>_. None) (\<lambda>_. None) (\<lambda>_. None) 9 (\<lambda>_. True) (\<lambda>_. Some ans) (recognised update_conversions)
       [''/net'', ''/b'', ''--cert=/net/KEY'', ''--content=hi''] = Inr 0 \<and>
     dig_program ndn0 (\<lambda>_. True) (served ndn0 sqlite0 (\<lambda>n. n) s') 2 (recognised update_conversions) [''/net/b'', ''--start=/net'', ''--dstFile=out''] =
       Inr ([(''out'', packet)], 0) \<and> blockElements ndn0 (d_content packet) = Some [Block (tlv_number RrData) ''hi'']"
proof -
  let ?k1 = "([generic ''a''], TXT_RR_TYPE)" and ?k2 = "([generic ''b''], TXT_RR_TYPE)" and ?C = update_conversions
  have less: "key_less ndn0 ?k1 ?k2" by (simp add: key_less_def ndn0_nameLess_single)
  have ty: "snd ?k1 \<noteq> DOE_RR_TYPE" "snd ?k2 \<noteq> DOE_RR_TYPE" "NS_RR_TYPE \<noteq> DOE_RR_TYPE" "NS_RR_TYPE \<noteq> TXT_RR_TYPE"
    by (simp_all add: label_defs)
  obtain s where s: "server_ok ndn0 sqlite0 s" "srv_ns s = srv_ns server_sample"
    "chained ndn0 sqlite0 (srv_ptr s) (srv_db s) [?k1, ?k2]"
    "\<forall>k. snd k \<noteq> DOE_RR_TYPE \<longrightarrow> srv_get ndn0 sqlite0 s k = [?k1 \<mapsto> value_sample, ?k2 \<mapsto> value_sample] k"
    by (rule two_chained [OF less ty(1,2)])
  have order: "sorted_wrt (nameLess ndn0) (map key_name [?k1, ?k2])"
    by (simp add: key_name_def ndn0_def compWire0_def blockWire0_def comp_block_def)
  have Z: "zone_name (ns_zone (srv_ns s)) = [generic ''net'']" by (simp add: s(2) server_sample_def zone_sample_def)
  have plain: "plain ''/net''" "plain ''/b''" "plain ''/net/b''" "''/net/KEY'' \<noteq> []" "''hi'' \<noteq> []" "''out'' \<noteq> []" by (simp_all add: plain_def)
  have conv: "conv_name ?C ''/net'' = Some (zone_name (ns_zone (srv_ns s)))" "conv_name ?C ''/b'' = Some [generic ''b'']"
    "conv_name ?C ''/net/KEY'' = Some [generic ''net'', generic ''KEY'']" "conv_name ?C ''/net/b'' = Some (zone_name (ns_zone (srv_ns s)) @ [generic ''b''])"
    by (simp_all add: update_conversions_def Z)
  have old: "srv_get ndn0 sqlite0 s ([generic ''b''], TXT_RR_TYPE) = Some (fromVersion ndn0 1, 3600, dataBlock ndn0 (new_data []))"
    "compLess ndn0 (fromVersion ndn0 1) (fromVersion ndn0 9)"
  proof -
    show "srv_get ndn0 sqlite0 s ([generic ''b''], TXT_RR_TYPE) = Some (fromVersion ndn0 1, 3600, dataBlock ndn0 (new_data []))"
      using s(4) ty(2) by simp
    show "compLess ndn0 (fromVersion ndn0 1) (fromVersion ndn0 9)"
      by (simp add: ndn0_def compWire0_def blockWire0_def comp_block_def unary_def eval_nat_numeral)
  qed
  have path: "srv_get ndn0 sqlite0 s (take j [generic ''b''], NS_RR_TYPE) = None" for j using s(4) ty(3,4) by simp
  have key: "signData ndn0 g x \<noteq> None" for g x by simp
  have len: "length (zone_name (ns_zone (srv_ns s))) + length [generic ''b''] + 3 < 2 ^ 64" "length [generic ''b''] < 2" by (simp_all add: Z)
  note T = typed_update_found [where now' = "\<lambda>n. n" and t = 9 and k = "()" and K = keychain0 and loadFile = "\<lambda>_. None" and ?R1.0 = "\<lambda>_. None" and ?R2.0 = "\<lambda>_. None"
      and Vs = "\<lambda>_. True", OF recognised_ok plain(1,2,4,5,3,6) conv ndn0_ok s(1,3) order _ key key _ key old path len]
  obtain packet i s1 s' ans where "blockElements ndn0 (d_content packet) = Some [Block (tlv_number RrData) ''hi'']"
    "onInterest ndn0 sqlite0 9 s i = (s1, Inr ())" "server_step ndn0 sqlite0 (\<lambda>_. True) s1 s'" "srv_out s' = ans # srv_out s"
    "update_program ndn0 keychain0 () (\<lambda>_. None) (\<lambda>_. None) (\<lambda>_. None) 9 (\<lambda>_. True) (\<lambda>_. Some ans) (recognised ?C)
       [''/net'', ''/b'', long_arg ''cert'' ''/net/KEY'', long_arg ''content'' ''hi''] = Inr 0"
    "dig_program ndn0 (\<lambda>_. True) (served ndn0 sqlite0 (\<lambda>n. n) s') 2 (recognised ?C) [''/net/b'', long_arg ''start'' ''/net'', long_arg ''dstFile'' ''out''] =
       Inr ([(''out'', packet)], 0)"
    using T by auto
  then show ?thesis
    by (intro exI [of _ s] exI [of _ packet] exI [of _ i] exI [of _ s1] exI [of _ s'] exI [of _ ans]) (simp add: long_arg_def)
qed

end
