(* ===== verification/Interference.thy ===== *)
theory Interference
  imports DaemonProps DenialProps ManagementProps
begin

text \<open>
  A tool that rebuilds the DoE chain of a zone while the daemon serves it from the same file. The source opens no transaction, so SQLite commits every statement of
  \<open>generateDoe\<close> (\<open>src/mgmt/management-tool.cpp\<close>) on its own and the daemon may work between any two of them.
\<close>

section \<open>The states committed\<close>

text \<open>The database after each statement that changes it; a statement that fails ends the rebuilding.\<close>

definition then_commits :: "(dbmgr, 'a) res \<Rightarrow> (dbmgr \<Rightarrow> 'a \<Rightarrow> dbmgr list) \<Rightarrow> dbmgr list" where
  "then_commits r f = (case r of (d, Inr x) \<Rightarrow> d # f d x | (d, Inl e) \<Rightarrow> [])"

fun insert_commits :: "ndn \<Rightarrow> sqlite \<Rightarrow> nat \<Rightarrow> factory \<Rightarrow> dbmgr \<Rightarrow> (name \<times> name \<times> name) list \<Rightarrow> dbmgr list" where
  "insert_commits L E now f d [] = []"
| "insert_commits L E now f d ((label, lower, upper) # xs) =
     then_commits (insert_doe L E now f d label lower upper) (\<lambda>d _. insert_commits L E now f d xs)"

definition doe_commits ::
  "ndn \<Rightarrow> sqlite \<Rightarrow> 'k keychain \<Rightarrow> 'k \<Rightarrow> string \<Rightarrow> nat \<Rightarrow> nat \<Rightarrow> dbmgr \<Rightarrow> zone_ptr \<Rightarrow> dbmgr list" where
  "doe_commits L E K k dflt now fa d p =
     (case findZone L E d (snd p) of
        (d, Inr (z, True)) \<Rightarrow>
          then_commits (removeRrsetsOfZoneByType L E d z DOE_RR_TYPE) (\<lambda>d z.
            case findRrsets L E d (fst p, z) of
              (d, Inr (z, rrs)) \<Rightarrow>
                (case RrsetFactory_new K k fa (m_dbFile d) (zone_name z) DEFAULT_CERT of
                   Inr f \<Rightarrow>
                     (case checkZoneKey L E K k dflt (\<lambda>_. m_tables d) f of
                        (f, Inr _) \<Rightarrow> if rrs = [] then [] else insert_commits L E now f d (doe_chain (map doe_name (sort_recs L rrs)))
                      | (f, Inl _) \<Rightarrow> [])
                 | Inl _ \<Rightarrow> [])
            | (d, Inl _) \<Rightarrow> [])
      | _ \<Rightarrow> [])"

text \<open>Each insertion is one more DoE record.\<close>

lemma insert_commits_added:
  assumes L: "ndn_ok L" and f: "factory_ready L p f"
  shows "store_inv L E p d \<Longrightarrow> roomy E d (length xs + n) \<Longrightarrow> distinct (map fst xs) \<Longrightarrow> (\<forall>x \<in> set xs. db_get L E p d (fst x, DOE_RR_TYPE) = None) \<Longrightarrow>
    length (insert_commits L E now f d xs) = length xs \<and>
    (\<forall>j < length xs. doe_added L E p d (insert_commits L E now f d xs ! j) (take (Suc j) xs))"
proof (induction xs arbitrary: d)
  case (Cons x xs)
  obtain label lower upper where x: "x = (label, lower, upper)" by (cases x)
  have room: "roomy E d (Suc (length xs + n))" and new: "db_get L E p d (label, DOE_RR_TYPE) = None"
    using Cons.prems(2,4) x by simp_all
  obtain d1 where d1: "insert_doe L E now f d label lower upper = (d1, Inr ())" "roomy E d1 (length xs + n)"
    "doe_added L E p d d1 [(label, lower, upper)]" by (rule insert_doe_added [OF L Cons.prems(1) f room new])
  have i: "store_inv L E p d1" and dist: "distinct (map fst xs)" using d1(3) Cons.prems(3) by (simp_all add: doe_added_def)
  have "\<forall>y \<in> set xs. db_get L E p d1 (fst y, DOE_RR_TYPE) = None"
    using d1(3) Cons.prems(3,4) x by (auto simp: doe_added_def image_iff)
  note IH = Cons.IH [OF i d1(2) dist this]
  have c: "insert_commits L E now f d (x # xs) = d1 # insert_commits L E now f d1 xs" by (simp add: x then_commits_def d1(1))
  have "doe_added L E p d ((d1 # insert_commits L E now f d1 xs) ! j) (take (Suc j) (x # xs))" if j: "j < length (x # xs)" for j
  proof (cases j)
    case 0
    then show ?thesis using d1(3) x by simp
  next
    case (Suc m)
    have "distinct (map fst ([(label, lower, upper)] @ take j xs))"
      using Cons.prems(3) x by (auto simp: distinct_map distinct_take inj_on_def dest: in_set_takeD)
    from doe_added_trans [OF d1(3) _ this] show ?thesis using IH j Suc x by auto
  qed
  with IH c show ?case by simp
qed simp

lemma insert_chain_commits:
  "insert_chain L E now f d rs = (d', Inr ()) \<Longrightarrow>
   \<exists>cs. \<forall>ys. insert_commits L E now f d (chain_pairs (map doe_name rs) @ ys) = cs @ insert_commits L E now f d' ys"
proof (induction rs arbitrary: d rule: induct_list012)
  case (3 r1 r2 rs)
  obtain d1 where d1: "insert_doe L E now f d (doe_name r1) (doe_name r1) (doe_name r2) = (d1, Inr ())"
    "insert_chain L E now f d1 (r2 # rs) = (d', Inr ())" using "3.prems" by (auto simp: and_then_Inr)
  from "3.IH"(2) [OF d1(2)] obtain cs where
    "\<forall>ys. insert_commits L E now f d1 (chain_pairs (map doe_name (r2 # rs)) @ ys) = cs @ insert_commits L E now f d' ys" by blast
  then show ?case by (intro exI [of _ "d1 # cs"]) (simp add: then_commits_def d1(1))
qed (auto intro: exI [of _ "[]"])

text \<open>The states that \<open>generateDoe\<close> commits: first one without any DoE record, then one more DoE record each time, the guard last. The last state is its result.\<close>

lemma doe_commits_ok:
  assumes L: "ndn_ok L" and z: "zone_ready L E K k dflt p d"
    and room: "sqlite_roomy E" "length (rrsets (m_tables d)) < 2 ^ 60" and ne: "zone_types L E p d \<noteq> {}"
  obtains d1 cs d' ttl where "doe_commits L E K k dflt now fa d p = d1 # cs @ [d']"
    "generateDoe L E K k dflt now fa d p = (d', Inr ((snd p)\<lparr>zone_ttl := ttl\<rparr>))"
    "\<And>l. db_get L E p d1 (l, DOE_RR_TYPE) = None"
    "\<And>c l. c \<in> set cs \<Longrightarrow> db_get L E p c (l, DOE_RR_TYPE) \<noteq> None \<Longrightarrow> l \<in> key_name ` zone_types L E p d"
    "\<And>c. c \<in> {d1, d'} \<union> set cs \<Longrightarrow> store_inv L E p c"
    "\<And>c key. c \<in> {d1, d'} \<union> set cs \<Longrightarrow> snd key \<noteq> DOE_RR_TYPE \<Longrightarrow> db_get L E p c key = db_get L E p d key"
    "db_get L E p d' ([], DOE_RR_TYPE) \<noteq> None"
proof -
  obtain ttl d1 rs f f' where P: "findZone L E d (snd p) = (d, Inr ((snd p)\<lparr>zone_ttl := ttl\<rparr>, True))"
    "removeRrsetsOfZoneByType L E d ((snd p)\<lparr>zone_ttl := ttl\<rparr>) DOE_RR_TYPE = (d1, Inr ((snd p)\<lparr>zone_ttl := ttl\<rparr>))"
    "findRrsets L E d1 (fst p, (snd p)\<lparr>zone_ttl := ttl\<rparr>) = (d1, Inr ((snd p)\<lparr>zone_ttl := ttl\<rparr>, rs))"
    "RrsetFactory_new K k fa (m_dbFile d1) (zone_name (snd p)) DEFAULT_CERT = Inr f"
    "checkZoneKey L E K k dflt (\<lambda>_. m_tables d1) f = (f', Inr ())" "factory_ready L p f'"
    and Q: "store_inv L E p d1" "zones (m_tables d1) = zones (m_tables d)" "m_dbFile d1 = m_dbFile d"
    "length (rrsets (m_tables d1)) \<le> length (rrsets (m_tables d))" "length rs \<le> length (rrsets (m_tables d1))"
    "\<And>key. db_get L E p d1 key = (if snd key = DOE_RR_TYPE then None else db_get L E p d key)"
    "distinct (map (\<lambda>r. (rrset_label r, rrset_type r)) rs)"
    "zone_types L E p d = (\<lambda>r. (rrset_label r, rrset_type r)) ` set rs"
    by (rule generateDoe_parts [OF L z, of fa]) blast
  let ?rs = "sort_recs L rs" and ?k = "\<lambda>r. (rrset_label r, rrset_type r)"
  let ?ch = "doe_chain (map doe_name ?rs)" and ?cs = "insert_commits L E now f' d1 (doe_chain (map doe_name ?rs))"
  have rs: "rs \<noteq> []" "?rs \<noteq> []" using ne Q(8) by auto (metis length_0_conv length_sort_recs)
  have names: "map doe_name ?rs = map key_name (map ?k ?rs)" by (simp add: doe_name_key)
  have "distinct (map ?k ?rs)" using Q(7) mset_sort_recs [of L rs] by (metis mset_eq_imp_distinct_iff mset_map)
  then have "distinct (map doe_name ?rs)" unfolding names by (simp add: distinct_map inj_on_def)
  moreover have "[] \<notin> set (map doe_name ?rs)" by (auto simp: doe_name_def)
  ultimately have dist: "distinct (map fst ?ch)" using map_fst_doe_chain [of "map doe_name ?rs"] rs(2) by simp
  have clear: "db_get L E p d1 (l, DOE_RR_TYPE) = None" for l using Q(6) by simp
  have len: "length ?ch = length rs + 1" using arg_cong [OF map_fst_doe_chain [of "map doe_name ?rs"], of length] rs(2) by simp
  have "roomy E d1 (length ?ch + 0)" using room Q(4,5) len by (simp add: roomy_def)
  from insert_commits_added [OF L P(6) Q(1) this dist, of now] clear
  have C: "length ?cs = length ?ch" "\<And>j. j < length ?ch \<Longrightarrow> doe_added L E p d1 (?cs ! j) (take (Suc j) ?ch)" by blast+
  have "roomy E d1 (length ?rs + Suc (Suc 0))" using room Q(4,5) by (simp add: roomy_def)
  from doe_chain_inserted [OF L P(6) Q(1) this rs(2) \<open>distinct (map doe_name ?rs)\<close> clear, of now]
  obtain d2 d3 d' where G: "insert_chain L E now f' d1 ?rs = (d2, Inr ())"
    "insert_doe L E now f' d2 (doe_name (last ?rs)) (doe_name (last ?rs)) (doe_name (hd ?rs)) = (d3, Inr ())"
    "insert_doe L E now f' d3 [] (doe_name (last ?rs)) (doe_name (hd ?rs)) = (d', Inr ())"
    "doe_added L E p d1 d' ?ch" by blast
  obtain cs where "\<forall>ys. insert_commits L E now f' d1 (chain_pairs (map doe_name ?rs) @ ys) = cs @ insert_commits L E now f' d2 ys"
    using insert_chain_commits [OF G(1)] by blast
  then have cs: "?cs = (cs @ [d3]) @ [d']"
    using rs(2) by (simp add: doe_chain_def then_commits_def G(2,3) last_map hd_map)
  have added: "\<exists>m. doe_added L E p d1 c m \<and> fst ` set m \<subseteq> key_name ` zone_types L E p d" if c: "c \<in> set (cs @ [d3])" for c
  proof -
    obtain j where j: "j < length (cs @ [d3])" "(cs @ [d3]) ! j = c" using c by (meson in_set_conv_nth)
    have "?cs ! j = c" unfolding cs nth_append [of "cs @ [d3]"] using j by simp
    with j have ch: "j < length ?ch" "?cs ! j = c" "Suc j \<le> length (map doe_name ?rs)" using cs C(1) len by simp_all
    have "map fst (take (Suc j) ?ch) = take (Suc j) (map doe_name ?rs)"
      using ch(3) map_fst_doe_chain [of "map doe_name ?rs"] rs(2) by (simp add: take_map [symmetric])
    then have "fst ` set (take (Suc j) ?ch) \<subseteq> set (map doe_name ?rs)" by (metis set_map set_take_subset)
    also have "set (map doe_name ?rs) = key_name ` zone_types L E p d" unfolding names Q(8) by (simp add: image_image)
    finally show ?thesis using C(2) [OF ch(1)] unfolding ch(2) by blast
  qed
  have gen: "generateDoe L E K k dflt now fa d p = (d', Inr ((snd p)\<lparr>zone_ttl := ttl\<rparr>))"
    using P(1-5) G(1-3) rs by (simp add: generateDoe_def Let_def)
  have com: "doe_commits L E K k dflt now fa d p = d1 # (cs @ [d3]) @ [d']"
    using P(1-5) rs(1) cs by (simp add: doe_commits_def then_commits_def)
  have last: "\<exists>m. doe_added L E p d1 d' m" using G(4) by blast
  show thesis
  proof (rule that [OF com gen clear])
    show "l \<in> key_name ` zone_types L E p d" if c: "c \<in> set (cs @ [d3])" "db_get L E p c (l, DOE_RR_TYPE) \<noteq> None" for c l
    proof -
      obtain m where m: "doe_added L E p d1 c m" "fst ` set m \<subseteq> key_name ` zone_types L E p d" using added [OF c(1)] by blast
      have "db_get L E p c (l, DOE_RR_TYPE) = None \<longleftrightarrow> db_get L E p d1 (l, DOE_RR_TYPE) = None \<and> l \<notin> fst ` set m"
        using m(1) by (simp add: doe_added_def)
      then have "l \<in> fst ` set m" using c(2) clear [of l] by simp
      with m(2) show ?thesis by blast
    qed
    show "store_inv L E p c" if "c \<in> {d1, d'} \<union> set (cs @ [d3])" for c
    proof -
      have "c = d1 \<or> (\<exists>m. doe_added L E p d1 c m)" using that last added [of c] by blast
      then show ?thesis using Q(1) by (auto simp: doe_added_def)
    qed
    show "db_get L E p c key = db_get L E p d key" if "c \<in> {d1, d'} \<union> set (cs @ [d3])" "snd key \<noteq> DOE_RR_TYPE" for c key
    proof -
      have "c = d1 \<or> (\<exists>m. doe_added L E p d1 c m)" using that(1) last added [of c] by blast
      then have "db_get L E p c key = db_get L E p d1 key" using that(2) unfolding doe_added_def by blast
      then show ?thesis using Q(6) that(2) by simp
    qed
    have "[] \<in> fst ` set ?ch" using map_fst_doe_chain [of "map doe_name ?rs"] rs(2) by (simp add: doe_chain_def)
    then show "db_get L E p d' ([], DOE_RR_TYPE) \<noteq> None" using G(4) unfolding doe_added_def by blast
  qed
qed

section \<open>The daemon in between\<close>

text \<open>The daemon as it is when the file holds what \<open>c\<close> holds.\<close>

definition seeing :: "running \<Rightarrow> dbmgr \<Rightarrow> running" where
  "seeing R c = R\<lparr>run_db := (run_db R)\<lparr>m_tables := m_tables c\<rparr>\<rparr>"

definition query_answered :: "ndn \<Rightarrow> sqlite \<Rightarrow> nat \<Rightarrow> running \<Rightarrow> nat \<Rightarrow> interest \<Rightarrow> bool" where
  "query_answered L E now R j i \<longleftrightarrow> (\<exists>ans. onInterest L E now (server_view R j) i = (put ans (server_view R j), Inr ()))"

definition query_ends :: "ndn \<Rightarrow> sqlite \<Rightarrow> (data \<Rightarrow> bool) \<Rightarrow> nat \<Rightarrow> running \<Rightarrow> nat \<Rightarrow> interest \<Rightarrow> bool" where
  "query_ends L E V now R j i \<longleftrightarrow>
     (\<exists>s e. onInterest L E now (server_view R j) i = (s, Inl e) \<and> std_exception e) \<and> daemon_ends L E V R (Inr 1)"

lemma seeing_server:
  assumes ok: "server_ok L E (server_view R j)" and same: "same_zone (srv_ptr (server_view R j)) p"
    and c: "store_inv L E p c"
  shows "server_ok L E (server_view (seeing R c) j)" "srv_get L E (server_view (seeing R c) j) = db_get L E p c"
    "srv_ns (server_view (seeing R c) j) = run_servers R ! j"
proof -
  have i: "store_inv L E (srv_ptr (server_view R j)) (srv_db (server_view (seeing R c) j))"
    using server_okD [OF ok] c same by (simp add: store_inv_def db_good_def seeing_def db_inv_def one_version_def same_zone_def)
  show ns: "srv_ns (server_view (seeing R c) j) = run_servers R ! j" by (simp add: seeing_def)
  with i show "server_ok L E (server_view (seeing R c) j)" by (simp add: server_ok_def)
  have ip: "store_inv L E p (srv_db (server_view (seeing R c) j))" using i same by (simp add: store_inv_def same_zone_def)
  have "db_get L E p (srv_db (server_view (seeing R c) j)) = db_get L E p c"
    by (intro ext) (simp only: db_get_at [OF ip] db_get_at [OF c], simp add: rr_at_def seeing_def)
  moreover have "db_get L E (srv_ptr (server_view R j)) (srv_db (server_view (seeing R c) j)) = db_get L E p (srv_db (server_view (seeing R c) j))"
    using same i by (intro db_get_ptr) (simp_all add: same_zone_def)
  ultimately show "srv_get L E (server_view (seeing R c) j) = db_get L E p c" using ns by simp
qed

lemma unguarded_query:
  assumes s: "server_ok L E s" and L: "ndn_ok L" and key: "\<And>x. signData L SigningDefault x \<noteq> None"
    and n: "i_name i = rr_name (zone_name (ns_zone (srv_ns s))) l ty" "length (i_name i) < 2 ^ 64"
    and ty: "\<not> isVersion L ty" "ty \<noteq> NDNS_UPDATE_LABEL" and none: "srv_get L E s (l, ty) = None"
    and no: "\<And>m. srv_get L E s (m, DOE_RR_TYPE) \<noteq> None \<Longrightarrow> \<not> nameLess L m (l @ [ty])"
  shows "onInterest L E now s i = (s, Inl (Runtime_Error ''fail to find DoE record of zone''))"
proof -
  have "\<not> (\<exists>row. lower_row L (ns_zone (srv_ns s)) (srv_db s) (l @ [ty]) DOE_RR_TYPE row)"
  proof
    assume row: "\<exists>row. lower_row L (ns_zone (srv_ns s)) (srv_db s) (l @ [ty]) DOE_RR_TYPE row"
    with onInterest_absent [OF s ndn_okD(5) [OF L] key n ty none, of now]
    obtain row where c: "covering_doe L s (l @ [ty]) row" by auto
    then have "nameLess L (lbl_of L row) (l @ [ty])" by (simp add: covering_doe_def lower_row_def Let_def)
    moreover have "srv_get L E s (lbl_of L row, DOE_RR_TYPE) \<noteq> None" using covering_doe_range(1) [OF s c] by simp
    ultimately show False using no by blast
  qed
  with onInterest_absent [OF s ndn_okD(5) [OF L] key n ty none, of now] show ?thesis by simp
qed

lemma guarded_query:
  assumes s: "server_ok L E s" and L: "ndn_ok L" and key: "\<And>x. signData L SigningDefault x \<noteq> None"
    and n: "i_name i = rr_name (zone_name (ns_zone (srv_ns s))) l ty" "length (i_name i) < 2 ^ 64"
    and ty: "\<not> isVersion L ty" "ty \<noteq> NDNS_UPDATE_LABEL" and none: "srv_get L E s (l, ty) = None"
    and guard: "srv_get L E s ([], DOE_RR_TYPE) \<noteq> None"
  shows "\<exists>ans. onInterest L E now s i = (put ans s, Inr ())"
proof -
  have "\<exists>row. lower_row L (ns_zone (srv_ns s)) (srv_db s) (l @ [ty]) DOE_RR_TYPE row" by (rule guard_covering [OF s guard]) simp
  with onInterest_absent [OF s ndn_okD(5) [OF L] key n ty none, of now] show ?thesis by auto
qed

text \<open>
  C12: A tool that changes a zone can end the daemon. While \<open>generateDoe\<close> rebuilds the denials of a zone that a daemon serves, a query for a record that is not there, which is answered
  before and after, ends the daemon with the exit code 1 when it comes after the old DoE records are removed and before the first new one is inserted; a query for a name below all the records
  of the zone ends it in every state in between, up to the insertion of the guard, which comes last.
\<close>

theorem rebuild_race:
  assumes L: "ndn_ok L" and key: "\<And>x. signData L SigningDefault x \<noteq> None"
    and R: "server_ok L E (server_view R j)" "j < length (run_servers R)" "same_zone (srv_ptr (server_view R j)) p"
    and d: "zone_ready L E K k dflt p d" "m_tables d = m_tables (run_db R)" "db_get L E p d ([], DOE_RR_TYPE) \<noteq> None"
    and room: "sqlite_roomy E" "length (rrsets (m_tables d)) < 2 ^ 60" and ne: "zone_types L E p d \<noteq> {}"
    and n: "i_name i = rr_name (zone_name (snd p)) l ty" "length (i_name i) < 2 ^ 64"
    and ty: "\<not> isVersion L ty" "ty \<noteq> NDNS_UPDATE_LABEL" "ty \<noteq> DOE_RR_TYPE" and none: "db_get L E p d (l, ty) = None"
  shows "\<exists>d1 cs d' z. doe_commits L E K k dflt now fa d p = d1 # cs @ [d'] \<and> generateDoe L E K k dflt now fa d p = (d', Inr z) \<and>
     query_answered L E t (seeing R d) j i \<and> query_ends L E V t (seeing R d1) j i \<and> query_answered L E t (seeing R d') j i \<and>
     ((\<forall>x \<in> zone_types L E p d. \<not> nameLess L (key_name x) (l @ [ty])) \<longrightarrow> (\<forall>c \<in> set cs. query_ends L E V t (seeing R c) j i))"
proof -
  have i: "store_inv L E p d" using d(1) by (simp add: zone_ready_def)
  obtain d1 cs d' ttl where C: "doe_commits L E K k dflt now fa d p = d1 # cs @ [d']"
    "generateDoe L E K k dflt now fa d p = (d', Inr ((snd p)\<lparr>zone_ttl := ttl\<rparr>))"
    "\<And>l. db_get L E p d1 (l, DOE_RR_TYPE) = None"
    "\<And>c l. c \<in> set cs \<Longrightarrow> db_get L E p c (l, DOE_RR_TYPE) \<noteq> None \<Longrightarrow> l \<in> key_name ` zone_types L E p d"
    "\<And>c. c \<in> {d1, d'} \<union> set cs \<Longrightarrow> store_inv L E p c"
    "\<And>c key. c \<in> {d1, d'} \<union> set cs \<Longrightarrow> snd key \<noteq> DOE_RR_TYPE \<Longrightarrow> db_get L E p c key = db_get L E p d key"
    "db_get L E p d' ([], DOE_RR_TYPE) \<noteq> None"
    by (rule doe_commits_ok [OF L d(1) room ne, of now fa]) blast
  have zn: "zone_name (ns_zone (run_servers R ! j)) = zone_name (snd p)" using R(3) by (simp add: same_zone_def)
  have none': "db_get L E p c (l, ty) = None" if "c \<in> {d1, d'} \<union> set cs" for c using C(6) [OF that, of "(l, ty)"] ty(3) none by simp
  have ends: "query_ends L E V t (seeing R c) j i"
    if c: "c \<in> {d1, d'} \<union> set cs" and no: "\<And>m. db_get L E p c (m, DOE_RR_TYPE) \<noteq> None \<Longrightarrow> \<not> nameLess L m (l @ [ty])" for c
  proof -
    note S = seeing_server [OF R(1,3) C(5) [OF c]]
    have "onInterest L E t (server_view (seeing R c) j) i = (server_view (seeing R c) j, Inl (Runtime_Error ''fail to find DoE record of zone''))"
      by (rule unguarded_query [OF S(1) L key _ n(2) ty(1,2)]) (use S(2,3) zn n(1) none' [OF c] no in simp_all)
    moreover from interest_fails [OF _ this, of V] have "daemon_ends L E V (seeing R c) (Inr 1)" using R(2) by (simp add: seeing_def std_exception_def)
    moreover have "std_exception (Runtime_Error ''fail to find DoE record of zone'')" by (simp add: std_exception_def)
    ultimately show ?thesis unfolding query_ends_def by blast
  qed
  have answered: "query_answered L E t (seeing R c) j i"
    if "store_inv L E p c" "db_get L E p c (l, ty) = None" "db_get L E p c ([], DOE_RR_TYPE) \<noteq> None" for c
    unfolding query_answered_def using seeing_server [OF R(1,3) that(1)] zn n(1) that(2,3)
    by (intro guarded_query [OF _ L key _ n(2) ty(1,2)]) simp_all
  have "query_ends L E V t (seeing R c) j i" if "c \<in> set cs" "\<forall>x \<in> zone_types L E p d. \<not> nameLess L (key_name x) (l @ [ty])" for c
  proof (rule ends)
    show "\<not> nameLess L m (l @ [ty])" if "db_get L E p c (m, DOE_RR_TYPE) \<noteq> None" for m
      using C(4) [OF \<open>c \<in> set cs\<close> that] \<open>\<forall>x \<in> zone_types L E p d. \<not> nameLess L (key_name x) (l @ [ty])\<close> by blast
  qed (use that(1) in simp)
  moreover have "query_ends L E V t (seeing R d1) j i" by (rule ends) (use C(3) in simp_all)
  moreover have "query_answered L E t (seeing R d') j i" by (rule answered) (use C(5,7) none' in simp_all)
  ultimately show ?thesis using C(1,2) answered [OF i none d(3)] by blast
qed

theorem rebuild_race_witness:
  "\<exists>R d d1 cs d' i. i_name i = [generic ''net'', NDNS_ITERATIVE_QUERY, generic ''a'', TXT_RR_TYPE] \<and>
     doe_commits ndn0 sqlite0 keychain_sample () ''db'' 9 2 d zone_sample = d1 # cs @ [d'] \<and>
     query_answered ndn0 sqlite0 9 (seeing R d) 0 i \<and> query_ends ndn0 sqlite0 (\<lambda>_. True) 9 (seeing R d1) 0 i \<and> query_answered ndn0 sqlite0 9 (seeing R d') 0 i"
proof -
  let ?k1 = "([] :: name, DOE_RR_TYPE)" and ?k2 = "([generic ''b''], TXT_RR_TYPE)"
  have ty: "TXT_RR_TYPE \<noteq> DOE_RR_TYPE" "TXT_RR_TYPE \<noteq> NDNS_UPDATE_LABEL" "\<not> isVersion ndn0 TXT_RR_TYPE"
    using version_okD(2) [OF ndn_okD(2) [OF ndn0_ok], of TXT_RR_TYPE] by (auto simp: label_defs)
  have "?k1 \<noteq> ?k2" by simp
  from two_records [OF this, of value_sample value_sample] obtain d where d: "zone_ready ndn0 sqlite0 keychain_sample () ''db'' zone_sample d"
    "db_get ndn0 sqlite0 zone_sample d = [?k1 \<mapsto> value_sample, ?k2 \<mapsto> value_sample]" "length (rrsets (m_tables d)) = 2" by blast
  let ?R = "\<lparr>run_db = d, run_servers = [srv_ns server_sample], run_pending = [[]], run_out = []\<rparr>"
  let ?i = "toInterest ((Query_new [generic ''net''] NDNS_ITERATIVE_QUERY)\<lparr>q_rrLabel := [generic ''a''], q_rrType := TXT_RR_TYPE\<rparr>)"
  have v: "srv_ptr (server_view ?R 0) = zone_sample" "srv_db (server_view ?R 0) = d" "m_tables (run_db ?R) = m_tables d"
    by (simp_all add: server_sample_def zone_sample_def)
  have R: "server_ok ndn0 sqlite0 (server_view ?R 0)" "0 < length (run_servers ?R)" "same_zone (srv_ptr (server_view ?R 0)) zone_sample"
    using d(1) unfolding server_ok_def v by (simp_all add: zone_ready_def same_zone_def)
  have n: "i_name ?i = rr_name (zone_name (snd zone_sample)) [generic ''a''] TXT_RR_TYPE" "length (i_name ?i) < 2 ^ 64"
    by (simp_all add: toInterest_def Query_new_def rr_name_def zone_sample_def)
  have g: "db_get ndn0 sqlite0 zone_sample d ([], DOE_RR_TYPE) \<noteq> None" "db_get ndn0 sqlite0 zone_sample d ([generic ''a''], TXT_RR_TYPE) = None"
    unfolding d(2) using ty(1) by simp_all
  have zt: "zone_types ndn0 sqlite0 zone_sample d \<noteq> {}"
    unfolding zone_types_def d(2) using ty(1) by (auto intro!: exI [of _ "[generic ''b'']"] exI [of _ TXT_RR_TYPE])
  have key: "signData ndn0 SigningDefault x \<noteq> None" for x by (simp add: ndn0_def)
  have room: "length (rrsets (m_tables d)) < 2 ^ 60" using d(3) by simp
  from rebuild_race [OF ndn0_ok key R d(1) v(3) [symmetric] g(1) sqlite0_roomy room zt n ty(3,2,1) g(2), of 9 2 9 "\<lambda>_. True"]
  obtain d1 cs d' where "doe_commits ndn0 sqlite0 keychain_sample () ''db'' 9 2 d zone_sample = d1 # cs @ [d']"
    "query_answered ndn0 sqlite0 9 (seeing ?R d) 0 ?i" "query_ends ndn0 sqlite0 (\<lambda>_. True) 9 (seeing ?R d1) 0 ?i"
    "query_answered ndn0 sqlite0 9 (seeing ?R d') 0 ?i" by blast
  moreover have "i_name ?i = [generic ''net'', NDNS_ITERATIVE_QUERY, generic ''a'', TXT_RR_TYPE]"
    by (simp add: toInterest_def Query_new_def)
  ultimately show ?thesis by (intro exI [of _ ?R] exI [of _ d] exI [of _ d1] exI [of _ cs] exI [of _ d'] exI [of _ ?i]) simp
qed

end
