(* ===== verification/Spec2Isabelle.thy ===== *)
theory Spec2Isabelle
  imports ManagementProps DenialProps CertFetcherProps UpdateToolProps ZoneLife DaemonProps ListingProps AddedDelegation UpdatePublished Interference
begin

text \<open>
  NDNS, the Named Data Networking Domain Name Service: a verification library for the C++ sources under \<open>src/\<close>.

  \<^bold>\<open>The program.\<close> A zone is a set of records, each a signed Data packet under a label and a type. The daemon
  (\<open>src/daemon\<close>) keeps zones in an SQLite database and answers Interests: queries with the stored packet or, when there is no
  such record, with a NACK that carries a denial-of-existence (DoE) record; updates by replacing a record with a newer one after validation.
  The client (\<open>src/clients\<close>) resolves a name iteratively from the root zone: it asks each zone for the delegation (NS) of one more
  component until a zone denies it, and then asks that zone for the record. The management tool (\<open>src/mgmt\<close>) creates zones with their keys and
  certificates, adds and removes records and rebuilds the chain of DoE records after each change. The programs under \<open>tools/\<close> call these parts:
  the daemon reads its zones from a configuration file and starts one server for each.

  \<^bold>\<open>Theories and sources.\<close>
  \<^item> \<open>NdnsPrelude\<close>: errors, results with state (\<open>res\<close>, \<open>and_then\<close>), \<open>size_t\<close> and \<open>int32\<close> arithmetic, list lemmas.
  \<^item> \<open>NdnLib\<close>, \<open>NdnLibInst\<close>: what is used of ndn-cxx, as a record \<open>ndn\<close> of operations (argument \<open>L\<close>) with its documented laws
    (\<open>name_codec\<close>, \<open>version_ok\<close>, \<open>block_codec\<close>, \<open>data_codec\<close>, \<open>sign_ok\<close>, together \<open>ndn_ok\<close>), and an instance \<open>ndn0\<close> that satisfies them.
  \<^item> \<open>NdnsLabel\<close>: \<open>ndns-enum\<close>, \<open>ndns-tlv\<close>, \<open>ndns-label\<close> and \<open>util/util.cpp\<close>; \<open>ZoneRrset\<close>: \<open>daemon/zone\<close>, \<open>daemon/rrset\<close>.
  \<^item> \<open>DbMgr\<close>: \<open>daemon/db-mgr\<close>, one function per member over the three tables. SQLite is the record \<open>sqlite\<close> (argument \<open>E\<close>): which statements
    fail, in which order rows are scanned, which row id is chosen; \<open>sqlite_sound\<close>, \<open>sqlite_reliable\<close> (no I/O error) and \<open>sqlite_roomy\<close> (an id
    exists while the table is not full) are its laws, \<open>sqlite0\<close> an instance. \<open>DbMgrLaws\<close>: the table invariant and its preservation.
  \<^item> \<open>RecordStore\<close>: locales \<open>record_store\<close> and \<open>versioned_store\<close>, what the clients of the database rely on, with the
    lemmas on sequences of versioned writes. \<open>DbMgrStore\<close>: its interpretation \<open>db\<close> on \<open>DbMgr\<close>. \<open>DbMgrProps\<close>: the properties of \<open>DbMgr\<close>.
  \<^item> \<open>Query\<close>, \<open>Response\<close>: \<open>clients/query\<close>, \<open>clients/response\<close> and their round trips.
  \<^item> \<open>NameServer\<close>, \<open>NameServerProps\<close>: \<open>daemon/name-server\<close>, the handlers and a step relation \<open>server_step\<close> in which Interests and the verdicts
    of the validator arrive in any order.
  \<^item> \<open>IterativeQuery\<close>, \<open>IterativeQueryProps\<close>: \<open>clients/iterative-query-controller\<close>; sent Interests and callbacks are recorded as actions.
  \<^item> \<open>CertHelper\<close>: \<open>util/cert-helper\<close> over the key chain, a record \<open>keychain\<close> (argument \<open>K\<close>) over an arbitrary state.
  \<^item> \<open>RrsetFactory\<close>: \<open>daemon/rrset-factory\<close>. \<open>ManagementTool\<close>, \<open>ManagementProps\<close>, \<open>DoeChain\<close>: \<open>mgmt/management-tool\<close>.
  \<^item> \<open>CertFetcher\<close>, \<open>CertFetcherProps\<close>: \<open>validator/certificate-fetcher-ndns-cert\<close> and \<open>-appcert\<close>, one request as a transition system.
    \<open>ValidatorBuilder\<close>: \<open>validator/validator\<close> and the constructor of the second fetcher.
  \<^item> \<open>DenialProps\<close>: denial of existence across the management tool, the server and the resolver.
  \<^item> \<open>ZoneSetup\<close>, \<open>ZoneSetupProps\<close>, \<open>ToolFiles\<close>: the rest of \<open>mgmt/management-tool\<close>: \<open>createZone\<close>, \<open>exportCertificate\<close>, \<open>addRrsetFromFile\<close>. The laws of the
    key chain are \<open>keychain_ok\<close>, \<open>pib0\<close> is an instance.
  \<^item> \<open>RecordNames\<close>, \<open>ZoneLife\<close>: the life of a zone: its creation, additions (also from files named for the zone) and removals of all but the last record by
    the management tool, updates by the server and writes to other zones, successful or refused (\<open>zone_life\<close>, whose text lists what is left out), and what
    holds of every database it comes to by these steps.
  \<^item> \<open>ConfigFile\<close>, \<open>ConfigFileProps\<close>: \<open>daemon/config-file\<close> and \<open>tools/ndns-daemon\<close>. The environment (files, key chain, validator policy) is the record \<open>environment\<close>.
    \<open>Daemon\<close>, \<open>DaemonProps\<close>: the daemon after its start, a relation \<open>daemon_step\<close> in which the events of its servers interleave over the one database.
    \<open>Isolation\<close>: the specification of one zone, \<open>zone_write\<close> on a map of its records, and that a write to one zone does not touch another.
  \<^item> \<open>UpdateTool\<close>, \<open>UpdateToolProps\<close>: \<open>tools/ndns-update\<close>; \<open>DigTool\<close>, \<open>DigToolProps\<close>: \<open>tools/ndns-dig\<close>; \<open>Resolution\<close>: the latter against the server of one zone, \<open>Delegation\<close>: against a path of zones that delegate to each other.
    \<open>Publication\<close>: from \<open>ndns-add-rr\<close> through the database file and the server to \<open>ndns-dig\<close>;
    \<open>AddedDelegation\<close>: the same for the records that delegate.
  \<^item> \<open>Tools\<close>, \<open>ToolsProps\<close>: the tools that work on the database file, from their options to the exit code.
    \<open>CommandLine\<close>, \<open>Programs\<close>: the options every \<open>main\<close> under \<open>tools/\<close> declares and the variables they are bound to, and each program from its arguments on; the recogniser
    of Boost is the argument \<open>po\<close>, its law on plain arguments \<open>boost_ok\<close>, an instance \<open>recognised\<close>. \<open>ProgramProps\<close>, \<open>UpdatePublished\<close>: from the arguments of \<open>ndns-add-rr\<close> and of
    \<open>ndns-update\<close> to the result of \<open>ndns-dig\<close>.
  \<^item> \<open>Interference\<close>: the states of the database that \<open>generateDoe\<close> commits one after the other, and a daemon that works between two of them.
  \<^item> \<open>Listing\<close>, \<open>ListingProps\<close>: the listings of \<open>mgmt/management-tool\<close> with \<open>tools/ndns-list-zone\<close> and \<open>ndns-list-all-zones\<close>; the stream is the text written.

  \<^bold>\<open>Representation.\<close> A C++ object is a record; a member function takes and returns it. An exception is a value of
  \<open>error\<close> beside the state reached; a failed \<open>BOOST_ASSERT\<close> is \<open>AssertFailed\<close>, undefined behaviour \<open>Undefined\<close>. A Rrset points to its zone:
  the pointer is an address with the zone it holds, and functions that may change the zone through it return it. Names are lists of components,
  packets are records, encodings lists of bytes. Times are parameters (\<open>now\<close>).

  \<^bold>\<open>What is shown.\<close> For the database: every reachable database satisfies the table invariant, the record operations implement a map from
  label and type to version, TTL and data, the ordered search finds the greatest label below. For the server: what every query and
  update answers and stores; along every run only validated packets are stored and no record is replaced by an older one. For the daemon: however
  the events of its servers interleave, the records of each zone change only as the specification of that zone allows. For the resolver:
  which Interest it sends, what it infers from a DoE record, that it ends. For the management tool: the exact effect of each change on the
  records and that the DoE records afterwards are the chain of the records. Across them: when the order by label and type is the order of the
  names, every absent record is denied in a way the resolver accepts; otherwise a name may remain undeniable. A request for
  a certificate sends boundedly many Interests and gives one verdict, and the Interest it sends is answered by the server of the zone with the
  certificate the management tool has published. A created zone has its keys, certificates, chain of trust and chain of denials, and can be served at once; in every database it comes to later by the steps of \<open>zone_life\<close> each record carries
  its own name and every query is answered. The client \<open>ndns-dig\<close> ends, exits with 0 only
  for a validated packet, and finds the records of a served zone, in particular those that \<open>ndns-add-rr\<close> has added, also through the delegations of the zones above; \<open>ndns-update\<close> exits with 0 exactly when the server says that it has stored the packet; \<open>ndns-add-rr\<close> and
  \<open>ndns-create-zone\<close> leave the records their options describe, and what the user types for \<open>ndns-add-rr\<close> or, over the network, for \<open>ndns-update\<close> is what \<open>ndns-dig\<close> writes to the file; a query can end the daemon while a tool rebuilds the denials of its zone; \<open>ndns-list-zone\<close> prints one entry per record, in aligned columns; the daemon starts one server per zone of its configuration.

  \<^bold>\<open>Exceptions of the library.\<close> \<open>Data::setFreshnessPeriod\<close> refuses a negative period with \<open>std::invalid_argument\<close> (\<open>setFreshnessPeriod\<close>, \<open>Invalid_Argument\<close>). No TTL
  is checked before it gets there, so a negative one makes \<open>toData\<close>, the generators of the record factory, \<open>createZone\<close> and the tools above them fail; the properties
  say what is left behind, or are stated for a TTL that is not negative. So does a negative lifetime of the Interest of \<open>ndns-update\<close>.

  \<^bold>\<open>Fuel.\<close> \<open>express\<close> may call \<open>onData\<close> again through the cache; its fuel counts these calls. \<open>iterative_query_ends\<close> shows that more
  fuel than the name has components is never used up, nor are more exchanges needed. The event loop of \<open>ndns-dig\<close> takes one unit per exchange; by \<open>dig_terminates\<close> more than the
  components of the name are enough. All other loops are structural or have a termination proof.

  \<^bold>\<open>Not modelled.\<close> The signature scheme and the validation policy (ndn-cxx; the program only loads the policy from a file), the face with its timers and its limit on the size of a packet (\<open>put\<close> appends the packet to the list of those sent), logging, how Boost recognises
  short, abbreviated and repeated options, and the help texts. Locking between processes on one database file is not modelled beyond the commit of each statement in \<open>Interference\<close>. With two sections \<open>zones\<close> in its configuration the daemon destroys the database manager that the servers of the first refer to; what it
  does then is undefined, and \<open>DaemonProps\<close> assumes one section. The key chain is assumed to work (\<open>keychain_ok\<close>): a certificate that holds the public key of a key is stored with it. A key of
  the zone is assumed to sign (\<open>signs\<close>) where a property says that an operation succeeds.
\<close>

section \<open>Certificates from the management tool to the validator\<close>

text \<open>
  C16: Once the management tool has published the certificate of a zone key (\<open>addIdCert\<close>), the Interest that the certificate fetcher of a validator
  sends for that key is answered by the zone's server with exactly this certificate.
\<close>

theorem published_certificate_found:
  assumes s: "server_ok L E s" and L: "data_codec L" "version_ok L"
    and n: "d_name cert = zone_name (ns_zone (srv_ns s)) @ [NDNS_ITERATIVE_QUERY, keyComp, keyId, issuer, version]"
      "length (d_name cert) < 2 ^ 64"
    and a: "addIdCert L E (srv_db s) (srv_ptr s) cert ttl = (d', Inr q)"
    and x: "i_name (fx_interest x) = zone_name (ns_zone (srv_ns s)) @ [NDNS_ITERATIVE_QUERY, keyComp, keyId]"
  shows "onInterest L E now (s\<lparr>srv_db := d'\<rparr>) (cert_interest x hint) = (put cert (s\<lparr>srv_db := d'\<rparr>), Inr ())"
proof -
  let ?s = "s\<lparr>srv_db := d'\<rparr>" and ?i = "cert_interest x hint"
  let ?re = "\<lparr>m_rrLabel = [keyComp, keyId], m_rrType = CERT_RR_TYPE, m_version = no_component\<rparr>"
  have n': "d_name cert = zone_name (snd (srv_ptr s)) @ [NDNS_ITERATIVE_QUERY, keyComp, keyId, issuer, version]" using n(1) by simp
  note A = addIdCert_stores [OF server_okD [OF s] n' n(2) a]
  have s': "server_ok L E ?s" using A(1) s by (simp add: server_ok_def)
  have name: "i_name ?i = rr_name (zone_name (ns_zone (srv_ns ?s))) [keyComp, keyId] CERT_RR_TYPE"
    by (simp add: cert_interest_def x rr_name_def)
  have len: "length (i_name ?i) < 2 ^ 64" using n by (simp add: cert_interest_def x)
  have "comp_type CERT_RR_TYPE = 8" by (simp add: label_defs)
  then have ty: "\<not> isVersion L CERT_RR_TYPE" "CERT_RR_TYPE \<noteq> NDNS_UPDATE_LABEL"
    using version_okD(2) [OF L(2), of CERT_RR_TYPE] by (auto simp: label_defs)
  have "srv_get L E ?s (match_key ?re) = Some (version, ttl, dataBlock L cert)" using A(3) by (simp add: match_key_def)
  from handleQuery_found [OF s' this] show ?thesis
    by (simp add: onInterest_lookup [OF name len ty] comp_empty_def data_codecD [OF L(1)])
qed

theorem published_certificate_found_witness:
  "\<exists>d' q. addIdCert ndn0 sqlite0 db_sample (srv_ptr server_sample) cert_sample 3600 = (d', Inr q) \<and>
     onInterest ndn0 sqlite0 9 (server_sample\<lparr>srv_db := d'\<rparr>) (cert_interest fetching_sample []) =
       (put cert_sample (server_sample\<lparr>srv_db := d'\<rparr>), Inr ())"
proof -
  have p: "srv_ptr server_sample = zone_sample" "srv_db server_sample = db_sample"
    by (simp_all add: server_sample_def zone_sample_def)
  obtain d' where a: "addIdCert ndn0 sqlite0 db_sample zone_sample cert_sample 3600 = (d', Inr zone_sample)"
    by (rule cert_sample_added)
  have n: "d_name cert_sample = zone_name (ns_zone (srv_ns server_sample)) @
      [NDNS_ITERATIVE_QUERY, keyComp, generic ''1'', CERT_RR_TYPE, Component 54 (unary 3)]"
    using cert_sample_name(1) by (simp add: server_sample_def)
  have x: "i_name (fx_interest fetching_sample) = zone_name (ns_zone (srv_ns server_sample)) @ [NDNS_ITERATIVE_QUERY, keyComp, generic ''1'']"
    by (simp add: fetching_sample_def server_sample_def zone_sample_def keyComp_def)
  show ?thesis
    using published_certificate_found [OF server_sample_ok ndn0_data_codec ndn0_version_ok n cert_sample_name(2) a [folded p] x, of 9 "[]"] a p
    by auto
qed

section \<open>From the creation of a zone to its server\<close>

lemma served_certificate:
  assumes s: "server_ok L E s" and L: "data_codec L" "version_ok L" and len: "length (zone_name (ns_zone (srv_ns s))) + 5 < 2 ^ 64"
    and g: "srv_get L E s ([keyComp, keyId], CERT_RR_TYPE) = Some (v, ttl, dataBlock L cert)"
    and i: "i_name i = zone_name (ns_zone (srv_ns s)) @ [NDNS_ITERATIVE_QUERY, keyComp, keyId, CERT_RR_TYPE]"
  shows "onInterest L E now s i = (put cert s, Inr ())"
proof -
  let ?re = "\<lparr>m_rrLabel = [keyComp, keyId], m_rrType = CERT_RR_TYPE, m_version = no_component\<rparr>"
  have name: "i_name i = rr_name (zone_name (ns_zone (srv_ns s))) [keyComp, keyId] CERT_RR_TYPE" by (simp add: i rr_name_def)
  have n: "length (i_name i) < 2 ^ 64" using len by (simp add: i)
  have "comp_type CERT_RR_TYPE = 8" by (simp add: label_defs)
  then have ty: "\<not> isVersion L CERT_RR_TYPE" "CERT_RR_TYPE \<noteq> NDNS_UPDATE_LABEL"
    using version_okD(2) [OF L(2), of CERT_RR_TYPE] by (auto simp: label_defs)
  have "srv_get L E s (match_key ?re) = Some (v, ttl, dataBlock L cert)" using g by (simp add: match_key_def)
  from handleQuery_found [OF s this] show ?thesis
    by (simp add: onInterest_lookup [OF name n ty] comp_empty_def data_codecD [OF L(1)])
qed



end
